(* ===== verification/Aramo_Prelude.thy ===== *)
theory Aramo_Prelude
  imports Complex_Main "HOL-Library.List_Lexorder" "HOL-Library.Char_ord" "HOL-Library.Multiset"
begin

text \<open>
  Shared vocabulary of the development: the JavaScript values the repository keeps in
  untyped columns (\<open>json\<close>), the result type of fallible code, and the list idioms
  the sources repeat in several components:
  \<^item> the loop that keeps the first element with the strictly greatest key
    (\<open>first_max\<close>: "latest event", "most restrictive verdict");
  \<^item> insertion-ordered de-duplication through a JavaScript \<open>Set\<close> (\<open>js_dedupe\<close>);
  \<^item> \<open>Array.prototype.find\<close> and \<open>indexOf\<close>.
  The collection \<open>aramo_simps\<close> holds the rewrite rules that component proofs share.
\<close>

named_theorems aramo_simps \<open>shared rewrite rules of the Aramo components\<close>

section \<open>JavaScript values\<close>

text \<open>
  A JavaScript number is an IEEE double. Every finite one is a rational; the value
  \<open>-0\<close>, which \<open>Object.is\<close> tells apart from \<open>0\<close>, is kept apart.
\<close>

datatype js_number = JNaN | JPosInf | JNegInf | JNegZero | JFin rat

datatype json =
    JNull
  | JBool bool
  | JNum js_number
  | JStr string
  | JArr "json list"
  | JObj "(string \<times> json) list"

text \<open>
  \<open>Object.is\<close> on two values that come from separate places: primitives compare by
  value, arrays and objects by reference, and two separately built ones never share one.
\<close>

fun js_is :: "json \<Rightarrow> json \<Rightarrow> bool" where
  "js_is JNull JNull = True"
| "js_is (JBool a) (JBool b) = (a = b)"
| "js_is (JNum a) (JNum b) = (a = b)"
| "js_is (JStr a) (JStr b) = (a = b)"
| "js_is _ _ = False"

text \<open>\<open>typeof v === 'number' \<and> Number.isFinite v\<close>, read as the finite value.\<close>

fun js_finite :: "json \<Rightarrow> rat option" where
  "js_finite (JNum (JFin q)) = Some q"
| "js_finite (JNum JNegZero) = Some 0"
| "js_finite _ = None"

definition js_obj_get :: "json \<Rightarrow> string \<Rightarrow> json option" where
  "js_obj_get v k = (case v of JObj kvs \<Rightarrow> map_of kvs k | _ \<Rightarrow> None)"

section \<open>Fallible results\<close>

type_synonym ('e, 'a) result = "'e + 'a"

definition rbind :: "('e, 'a) result \<Rightarrow> ('a \<Rightarrow> ('e, 'b) result) \<Rightarrow> ('e, 'b) result" where
  "rbind r f = (case r of Inl e \<Rightarrow> Inl e | Inr a \<Rightarrow> f a)"

lemma rbind_simps [simp]:
  "rbind (Inl e) f = Inl e"
  "rbind (Inr a) f = f a"
  by (simp_all add: rbind_def)

lemma rbind_Inr_iff [aramo_simps]: "rbind r f = Inr b \<longleftrightarrow> (\<exists>a. r = Inr a \<and> f a = Inr b)"
  by (cases r) auto

lemma rbind_Inl_iff [aramo_simps]:
  "rbind r f = Inl e \<longleftrightarrow> r = Inl e \<or> (\<exists>a. r = Inr a \<and> f a = Inl e)"
  by (cases r) auto

text \<open>A loop whose body may raise: it stops at the first error.\<close>

fun rfold :: "('s \<Rightarrow> 'a \<Rightarrow> ('e, 's) result) \<Rightarrow> 's \<Rightarrow> 'a list \<Rightarrow> ('e, 's) result" where
  "rfold f s [] = Inr s"
| "rfold f s (x # xs) = rbind (f s x) (\<lambda>s'. rfold f s' xs)"

lemma rfold_append: "rfold f s (xs @ ys) = rbind (rfold f s xs) (\<lambda>s'. rfold f s' ys)"
  by (induction xs arbitrary: s) (auto simp: rbind_def split: sum.splits)

section \<open>The first element with the strictly greatest key\<close>

text \<open>
  The loop \<open>for (ev of evs) if (best === null || key ev > key best) best = ev\<close> and the
  reducer \<open>(a, b) => key b > key a ? b : a\<close>: a later element wins only when its key is
  strictly greater, so ties keep the earlier one.
\<close>

fun fm_step :: "('a \<Rightarrow> 'k::linorder) \<Rightarrow> 'a option \<Rightarrow> 'a \<Rightarrow> 'a option" where
  "fm_step key None x = Some x"
| "fm_step key (Some b) x = Some (if key b < key x then x else b)"

definition first_max :: "('a \<Rightarrow> 'k::linorder) \<Rightarrow> 'a list \<Rightarrow> 'a option" where
  "first_max key xs = foldl (fm_step key) None xs"

lemma first_max_Nil [simp]: "first_max key [] = None"
  by (simp add: first_max_def)

lemma first_max_single [simp]: "first_max key [x] = Some x"
  by (simp add: first_max_def)

lemma first_max_snoc: "first_max key (xs @ [x]) = fm_step key (first_max key xs) x"
  by (simp add: first_max_def)

lemma fm_step_not_None [simp]: "fm_step key b x \<noteq> None"
  by (cases b) auto

lemma first_max_None_iff [simp]: "first_max key xs = None \<longleftrightarrow> xs = []"
  by (cases xs rule: rev_cases) (simp_all add: first_max_snoc del: not_None_eq)

lemma first_max_in: "first_max key xs = Some m \<Longrightarrow> m \<in> set xs"
proof (induction xs arbitrary: m rule: rev_induct)
  case (snoc x xs)
  then show ?case by (cases "first_max key xs") (auto simp: first_max_snoc split: if_splits)
qed simp

lemma first_max_ge: "first_max key xs = Some m \<Longrightarrow> y \<in> set xs \<Longrightarrow> key y \<le> key m"
proof (induction xs arbitrary: m rule: rev_induct)
  case (snoc x xs)
  show ?case
  proof (cases "first_max key xs")
    case None
    then have "xs = []" by simp
    with snoc.prems show ?thesis by (simp add: first_max_def)
  next
    case (Some b)
    with snoc show ?thesis by (fastforce simp: first_max_snoc split: if_splits)
  qed
qed simp

lemma first_max_ex: "xs \<noteq> [] \<Longrightarrow> \<exists>m. first_max key xs = Some m"
  by (cases "first_max key xs") auto

lemma first_max_key: "first_max key xs = Some m \<Longrightarrow> key m = Max (key ` set xs)"
  by (rule sym, rule Max_eqI) (auto dest: first_max_in first_max_ge)

lemma fm_step_map: "fm_step key (map_option f b) (f x) = map_option f (fm_step (\<lambda>a. key (f a)) b x)"
  by (cases b) auto

lemma first_max_map: "first_max key (map f xs) = map_option f (first_max (\<lambda>a. key (f a)) xs)"
  by (induction xs rule: rev_induct) (simp_all add: first_max_snoc fm_step_map)

text \<open>Ties keep the earlier element: everything before the winner is strictly smaller.\<close>

lemma first_max_first:
  "first_max key xs = Some m \<Longrightarrow>
     \<exists>ys zs. xs = ys @ m # zs \<and> (\<forall>y\<in>set ys. key y < key m) \<and> (\<forall>z\<in>set zs. key z \<le> key m)"
proof (induction xs arbitrary: m rule: rev_induct)
  case (snoc x xs)
  show ?case
  proof (cases "first_max key xs")
    case None
    then have "xs = []" by simp
    with snoc.prems have "xs @ [x] = [] @ m # []" by (simp add: first_max_def)
    then show ?thesis by fastforce
  next
    case (Some b)
    show ?thesis
    proof (cases "key b < key x")
      case True
      with snoc.prems Some have m: "m = x" by (simp add: first_max_snoc)
      have "\<forall>y\<in>set xs. key y < key m"
        using first_max_ge [OF Some] True m by (auto intro: le_less_trans)
      then show ?thesis using m by (intro exI [of _ xs] exI [of _ "[]"]) auto
    next
      case False
      with snoc.prems Some have m: "m = b" by (simp add: first_max_snoc)
      from snoc.IH [OF Some] obtain ys zs where
        "xs = ys @ b # zs" "\<forall>y\<in>set ys. key y < key b" "\<forall>z\<in>set zs. key z \<le> key b" by blast
      with m False show ?thesis
        by (intro exI [of _ ys] exI [of _ "zs @ [x]"]) auto
    qed
  qed
qed simp

text \<open>The winner is the first element among those whose key is the maximum.\<close>

lemma filter_head:
  fixes key :: "'a \<Rightarrow> 'k::linorder"
  assumes "\<forall>y\<in>set ys. key y < key m"
  shows "filter (\<lambda>x. key x = key m) (ys @ m # zs) = m # filter (\<lambda>x. key x = key m) zs"
proof -
  have "filter (\<lambda>x. key x = key m) ys = []" using assms by (auto simp: filter_empty_conv)
  then show ?thesis by simp
qed

lemma first_max_unique:
  assumes "xs = ys @ m # zs" "\<forall>y\<in>set ys. key y < key m" "\<forall>z\<in>set zs. key z \<le> key m"
  shows "first_max key xs = Some m"
proof -
  have "xs \<noteq> []" using assms(1) by simp
  then obtain w where w: "first_max key xs = Some w" using first_max_ex by blast
  obtain as bs where s: "xs = as @ w # bs" "\<forall>y\<in>set as. key y < key w"
    using first_max_first [OF w] by blast
  have "\<forall>x\<in>set xs. key x \<le> key m" unfolding assms(1) using assms(2,3) by (auto simp: less_imp_le)
  then have "key w \<le> key m" using first_max_in [OF w] by blast
  moreover have "key m \<le> key w" using first_max_ge [OF w, of m] assms(1) by simp
  ultimately have k: "key w = key m" by (rule antisym)
  have "filter (\<lambda>x. key x = key w) xs = w # filter (\<lambda>x. key x = key w) bs"
    using filter_head [of as key w bs] s by simp
  moreover have "filter (\<lambda>x. key x = key m) xs = m # filter (\<lambda>x. key x = key m) zs"
    using filter_head [of ys key m zs] assms(1,2) by simp
  ultimately have "w = m" using k by (metis list.inject)
  with w show ?thesis by simp
qed

lemma first_max_head:
  assumes "first_max key xs = Some m"
  shows "\<exists>zs. filter (\<lambda>x. key x = key m) xs = m # zs"
proof -
  obtain ys zs where "xs = ys @ m # zs" "\<forall>y\<in>set ys. key y < key m"
    using first_max_first [OF assms] by blast
  then show ?thesis using filter_head [of ys key m zs] by auto
qed

lemma first_max_headI:
  assumes "filter (\<lambda>x. key x = key m) xs = m # zs" "\<forall>x\<in>set xs. key x \<le> key m"
  shows "first_max key xs = Some m"
proof -
  obtain us vs where "xs = us @ m # vs" "\<forall>u\<in>set us. key u \<noteq> key m"
    using filter_eq_ConsD [OF assms(1)] by blast
  with assms(2) show ?thesis by (intro first_max_unique [of _ us _ vs]) (auto simp: less_le)
qed

text \<open>Reading the rows in descending key order (a stable sort) does not change the winner.\<close>

lemma first_max_sort_desc:
  fixes key :: "'a \<Rightarrow> int"
  shows "first_max key (sort_key (\<lambda>x. - key x) xs) = first_max key xs"
proof (cases "first_max key xs")
  case None
  then show ?thesis by simp
next
  case (Some m)
  have "filter (\<lambda>x. - key x = - key m) (sort_key (\<lambda>x. - key x) xs) = filter (\<lambda>x. - key x = - key m) xs"
    by (rule sort_key_stable)
  with first_max_head [OF Some] obtain zs where
    "filter (\<lambda>x. key x = key m) (sort_key (\<lambda>x. - key x) xs) = m # zs" by auto
  then have "first_max key (sort_key (\<lambda>x. - key x) xs) = Some m"
    by (rule first_max_headI) (auto dest: first_max_ge [OF Some])
  with Some show ?thesis by simp
qed

text \<open>Appending one element with a strictly greater key makes it the winner.\<close>

lemma first_max_append_new:
  assumes "\<forall>x\<in>set xs. key x < key m"
  shows "first_max key (xs @ [m]) = Some m"
  by (rule first_max_unique [of _ xs _ "[]"]) (use assms in auto)

lemma first_max_over:
  assumes "\<forall>x\<in>set xs. key x < key m"
  shows "first_max key (xs @ m # ys) = Some w \<Longrightarrow> w = m \<or> w \<in> set ys \<and> key m < key w"
proof (induction ys arbitrary: w rule: rev_induct)
  case Nil
  then show ?case using first_max_append_new [OF assms] by simp
next
  case (snoc y ys)
  obtain b where b: "first_max key (xs @ m # ys) = Some b" using first_max_ex [of "xs @ m # ys" key] by auto
  have "first_max key ((xs @ m # ys) @ [y]) = Some w" using snoc.prems by simp
  then have "w = (if key b < key y then y else b)" unfolding first_max_snoc b by simp
  with snoc.IH [OF b] show ?case by (auto split: if_splits)
qed

section \<open>Insertion-ordered sets\<close>

text \<open>\<open>Array.from(new Set(xs))\<close>: the first occurrence of each value, in order.\<close>

fun js_dedupe_acc :: "'a list \<Rightarrow> 'a list \<Rightarrow> 'a list" where
  "js_dedupe_acc seen [] = []"
| "js_dedupe_acc seen (x # xs) =
     (if x \<in> set seen then js_dedupe_acc seen xs else x # js_dedupe_acc (x # seen) xs)"

definition js_dedupe :: "'a list \<Rightarrow> 'a list" where
  "js_dedupe xs = js_dedupe_acc [] xs"

lemma set_js_dedupe_acc: "set (js_dedupe_acc seen xs) = set xs - set seen"
  by (induction seen xs rule: js_dedupe_acc.induct) auto

lemma distinct_js_dedupe_acc: "distinct (js_dedupe_acc seen xs)"
  by (induction seen xs rule: js_dedupe_acc.induct) (auto simp: set_js_dedupe_acc)

lemma set_js_dedupe [simp]: "set (js_dedupe xs) = set xs"
  by (simp add: js_dedupe_def set_js_dedupe_acc)

lemma distinct_js_dedupe [simp]: "distinct (js_dedupe xs)"
  by (simp add: js_dedupe_def distinct_js_dedupe_acc)

lemma js_dedupe_eq_Nil [simp]: "js_dedupe xs = [] \<longleftrightarrow> xs = []"
  by (metis set_empty set_js_dedupe)

section \<open>Searching arrays\<close>

text \<open>\<open>xs.indexOf(x)\<close>, with \<open>-1\<close> for absent.\<close>

fun index_of :: "'a list \<Rightarrow> 'a \<Rightarrow> int" where
  "index_of [] x = -1"
| "index_of (y # ys) x =
     (if y = x then 0 else let i = index_of ys x in if i = -1 then -1 else i + 1)"

lemma index_of_ge: "-1 \<le> index_of xs x"
  by (induction xs) (auto simp: Let_def)

lemma index_of_absent [aramo_simps]: "index_of xs x = -1 \<longleftrightarrow> x \<notin> set xs"
proof (induction xs)
  case (Cons y ys)
  then show ?case using index_of_ge [of ys x] by (auto simp: Let_def)
qed simp

lemma find_append: "find P (xs @ ys) = (case find P xs of None \<Rightarrow> find P ys | Some x \<Rightarrow> Some x)"
  by (induction xs) auto

lemma all_map_option [aramo_simps]:
  "(\<forall>y. map_option f x = Some y \<longrightarrow> P y) \<longleftrightarrow> (\<forall>z. x = Some z \<longrightarrow> P (f z))"
  by (cases x) auto

lemma mem_map_filter [aramo_simps]: "y \<in> set (List.map_filter f xs) \<longleftrightarrow> (\<exists>x\<in>set xs. f x = Some y)"
  by (induction xs) (auto simp: map_filter_simps split: option.splits)

lemma map_filter_append [simp]: "List.map_filter f (xs @ ys) = List.map_filter f xs @ List.map_filter f ys"
  by (simp add: List.map_filter_def)

lemma find_split: "find P xs = Some m \<Longrightarrow> \<exists>ys zs. xs = ys @ m # zs \<and> P m \<and> (\<forall>y\<in>set ys. \<not> P y)"
proof (induction xs)
  case (Cons x xs)
  show ?case
  proof (cases "P x")
    case False
    with Cons obtain ys zs where "xs = ys @ m # zs" "P m" "\<forall>y\<in>set ys. \<not> P y" by auto
    with False show ?thesis by (intro exI [of _ "x # ys"] exI [of _ zs]) auto
  qed (use Cons.prems in \<open>auto intro: exI [of _ "[]"]\<close>)
qed simp

text \<open>Two rows of one table have different ids, so the head of a descending sort is the maximum.\<close>

lemma find_rev_sorted:
  fixes key :: "'a \<Rightarrow> 'k::linorder"
  assumes "inj_on key (set xs)"
  shows "find P (rev (sort_key key xs)) = first_max key (filter P xs)"
proof (cases "find P (rev (sort_key key xs))")
  case None
  then have "\<not> (\<exists>x\<in>set xs. P x)" by (auto simp: find_None_iff)
  then have "filter P xs = []" by (auto simp: filter_empty_conv)
  with None show ?thesis by simp
next
  case (Some m)
  then obtain ys zs where s: "rev (sort_key key xs) = ys @ m # zs" "P m" "\<forall>y\<in>set ys. \<not> P y"
    using find_split by metis
  then have "m \<in> set xs" "P m" by (metis in_set_conv_decomp set_rev set_sort)+
  then have ne: "filter P xs \<noteq> []" by (auto simp: filter_empty_conv)
  then obtain w where w: "first_max key (filter P xs) = Some w" using first_max_ex by blast
  have wx: "w \<in> set xs" "P w" using first_max_in [OF w] by auto
  have "key m \<le> key w" using first_max_ge [OF w] \<open>m \<in> set xs\<close> \<open>P m\<close> by simp
  moreover have "key w \<le> key m"
  proof -
    have "w \<in> set (ys @ m # zs)" using wx(1) s(1) by (metis set_rev set_sort)
    then have "w \<in> set (m # zs)" using s(3) wx(2) by auto
    moreover have "sorted_wrt (\<lambda>a b. key b \<le> key a) (ys @ m # zs)"
      using sorted_sort_key [of key xs] unfolding s(1) [symmetric] sorted_wrt_rev sorted_map .
    ultimately show ?thesis by (auto simp: sorted_wrt_append)
  qed
  ultimately have "m = w" using assms \<open>m \<in> set xs\<close> wx(1) by (meson antisym inj_onD)
  with Some w show ?thesis by simp
qed

lemma sum_list_filter_values:
  assumes "distinct vs" "\<forall>x\<in>set xs. f x \<in> set vs"
  shows "(\<Sum>v\<leftarrow>vs. length (filter (\<lambda>x. f x = v) xs)) = length xs"
  using assms(2)
proof (induction xs)
  case (Cons x xs)
  have "(\<Sum>v\<leftarrow>vs. (if f x = v then 1 else 0)) = (1::nat)"
    using assms(1) Cons.prems by (simp add: sum_list_distinct_conv_sum_set)
  moreover have "(\<Sum>v\<leftarrow>vs. length (filter (\<lambda>y. f y = v) (x # xs))) =
      (\<Sum>v\<leftarrow>vs. (if f x = v then 1 else 0) + length (filter (\<lambda>y. f y = v) xs))"
    by (intro arg_cong [of _ _ sum_list] map_cong) auto
  ultimately show ?case using Cons by (simp add: sum_list_addf)
qed simp

lemma length_pairs:
  assumes "distinct (map f xs)"
  shows "length (filter P xs) = card {f x | x. x \<in> set xs \<and> P x}"
proof -
  have "length (filter P xs) = card (set (map f (filter P xs)))"
    using assms by (metis distinct_card distinct_map_filter length_map)
  also have "set (map f (filter P xs)) = {f x | x. x \<in> set xs \<and> P x}" by auto
  finally show ?thesis .
qed

section \<open>Texts\<close>

text \<open>White space and line ends, \<open>trim\<close>, \<open>toLowerCase\<close> and \<open>replace(/\s+/g, ' ')\<close>.\<close>

definition js_space :: "char \<Rightarrow> bool" where
  "js_space c \<longleftrightarrow> of_char c \<in> {9, 10, 11, 12, 13, 32, 160 :: nat}"

definition js_trim :: "string \<Rightarrow> string" where
  "js_trim s = rev (dropWhile js_space (rev (dropWhile js_space s)))"

definition js_lower :: "string \<Rightarrow> string" where
  "js_lower s = map (\<lambda>c. if 65 \<le> (of_char c :: nat) \<and> (of_char c :: nat) \<le> 90 then char_of (of_char c + 32 :: nat) else c) s"

function collapse_space :: "string \<Rightarrow> string" where
  "collapse_space [] = []"
| "collapse_space (c # cs) =
     (if js_space c then CHR '' '' # collapse_space (dropWhile js_space cs) else c # collapse_space cs)"
  by pat_completeness auto
termination by (relation "measure length") (auto simp: le_imp_less_Suc length_dropWhile_le)

text \<open>\<open>arr[0] ?? null\<close>\<close>

definition head_opt :: "'a list \<Rightarrow> 'a option" where
  "head_opt xs = (case xs of [] \<Rightarrow> None | x # _ \<Rightarrow> Some x)"

lemma head_opt_simps [simp]:
  "head_opt [] = None" "head_opt (x # xs) = Some x" "head_opt xs = None \<longleftrightarrow> xs = []"
  by (auto simp: head_opt_def split: list.splits)

lemma head_opt_in: "head_opt xs = Some x \<Longrightarrow> x \<in> set xs"
  by (cases xs) auto

text \<open>The row a query ordered by a unique key returns first.\<close>

lemma head_opt_sort:
  fixes key :: "'a \<Rightarrow> 'k::linorder"
  assumes "inj_on key (set xs)"
  shows "head_opt (sort_key key xs) = Some m \<longleftrightarrow> m \<in> set xs \<and> (\<forall>x\<in>set xs. key m \<le> key x)"
proof
  assume h: "head_opt (sort_key key xs) = Some m"
  then obtain ys where ys: "sort_key key xs = m # ys" by (cases "sort_key key xs") auto
  have "sorted (map key (sort_key key xs))" by simp
  then have "\<forall>x\<in>set (sort_key key xs). key m \<le> key x" unfolding ys by simp
  moreover have "m \<in> set xs" using head_opt_in [OF h] by simp
  ultimately show "m \<in> set xs \<and> (\<forall>x\<in>set xs. key m \<le> key x)" by simp
next
  assume m: "m \<in> set xs \<and> (\<forall>x\<in>set xs. key m \<le> key x)"
  then obtain y ys where ys: "sort_key key xs = y # ys" by (cases "sort_key key xs") (auto dest: arg_cong [of _ _ set])
  have "sorted (map key (sort_key key xs))" by simp
  then have "\<forall>x\<in>set xs. key y \<le> key x" unfolding ys by (metis (no_types, lifting) list.simps(9) nle_le set_ConsD set_sort sorted_simps(2) imageI set_map ys)
  moreover have "y \<in> set xs" using ys by (metis list.set_intros(1) set_sort)
  ultimately have "y = m" using assms m by (meson antisym inj_onD)
  with ys show "head_opt (sort_key key xs) = Some m" by simp
qed

end
