(* ===== verification/Interfaces.thy ===== *)
theory Interfaces
  imports Aramo_Prelude "HOL-Library.Product_Lexorder"
begin

text \<open>
  The contracts the components offer each other, each a locale with what its clients may
  conclude. The components interpret them on their own operations:
  \<^item> \<open>idempotent_command\<close>: a command guarded by an idempotency key;
  \<^item> \<open>keyset_source\<close>: a table read page by page in descending key order;
  \<^item> \<open>transition_table\<close>: a status field moved along a fixed table;
  \<^item> \<open>growing_log\<close>: a log that commands only extend.
\<close>

section \<open>Idempotent commands\<close>

text \<open>
  \<open>exec\<close> runs a command in a database, \<open>keyof\<close> and \<open>hashof\<close> are the
  caller's key and request hash, \<open>lookup\<close> reads the stored (hash, response) of a key.
  \<open>valid\<close> are the commands that get past the checks made before the key is looked up.
\<close>

locale idempotent_command =
  fixes exec :: "'db \<Rightarrow> 'c \<Rightarrow> 'db \<times> ('e, 'r) result"
    and keyof :: "'c \<Rightarrow> 'k option"
    and hashof :: "'c \<Rightarrow> 'h"
    and valid :: "'c \<Rightarrow> bool"
    and lookup :: "'db \<Rightarrow> 'k \<Rightarrow> ('h \<times> 'r) option"
    and conflict :: "'e"
  assumes hit_same: "valid c \<Longrightarrow> keyof c = Some k \<Longrightarrow> lookup db k = Some (hashof c, r) \<Longrightarrow>
      exec db c = (db, Inr r)"
    and hit_other: "valid c \<Longrightarrow> keyof c = Some k \<Longrightarrow> lookup db k = Some (h, r) \<Longrightarrow> h \<noteq> hashof c \<Longrightarrow>
      exec db c = (db, Inl conflict)"
    and stores: "valid c \<Longrightarrow> keyof c = Some k \<Longrightarrow> exec db c = (db', Inr r) \<Longrightarrow>
      lookup db' k = Some (hashof c, r)"
    and keeps: "lookup db k = Some x \<Longrightarrow> lookup (fst (exec db c)) k = Some x"
begin

fun run :: "'db \<Rightarrow> 'c list \<Rightarrow> 'db" where
  "run db [] = db"
| "run db (c # cs) = run (fst (exec db c)) cs"

lemma run_keeps: "lookup db k = Some x \<Longrightarrow> lookup (run db cs) k = Some x"
  by (induction cs arbitrary: db) (auto intro: keeps)

text \<open>A retry after any number of other commands returns the first response, unchanged.\<close>

lemma retry_replays:
  assumes "valid c" "keyof c = Some k" "exec db c = (db', Inr r)"
    and "valid c'" "keyof c' = Some k" "hashof c' = hashof c"
  shows "exec (run db' cs) c' = (run db' cs, Inr r)"
  using hit_same [OF assms(4,5)] run_keeps [OF stores [OF assms(1-3)]] assms(6) by simp

text \<open>Reusing the key for another request is refused without any effect.\<close>

lemma reuse_refused:
  assumes "valid c" "keyof c = Some k" "exec db c = (db', Inr r)"
    and "valid c'" "keyof c' = Some k" "hashof c' \<noteq> hashof c"
  shows "exec (run db' cs) c' = (run db' cs, Inl conflict)"
  using hit_other [OF assms(4,5)] run_keeps [OF stores [OF assms(1-3)]] assms(6) by metis

end

section \<open>Keyset pagination\<close>

text \<open>
  \<open>fetch q c n\<close> reads at most \<open>n\<close> rows of the query \<open>q\<close> strictly below the
  cursor \<open>c\<close>, greatest key first. The contract: there is one list \<open>rows q\<close> of all
  rows, in strictly descending key order, and a fetch is a prefix of its part below the
  cursor.
\<close>

definition below :: "'k::linorder option \<Rightarrow> 'k \<Rightarrow> bool" where
  "below c k = (case c of None \<Rightarrow> True | Some x \<Rightarrow> k < x)"

lemma below_simps [simp]: "below None k" "below (Some x) k \<longleftrightarrow> k < x"
  by (simp_all add: below_def)

locale keyset_source =
  fixes fetch :: "'q \<Rightarrow> 'k::linorder option \<Rightarrow> nat \<Rightarrow> 'r list"
    and key :: "'r \<Rightarrow> 'k"
    and rows :: "'q \<Rightarrow> 'r list"
    and invar :: "'q \<Rightarrow> bool"
  assumes descending: "invar q \<Longrightarrow> sorted_wrt (\<lambda>a b. key b < key a) (rows q)"
    and fetch_prefix: "invar q \<Longrightarrow> fetch q c n = take n (filter (\<lambda>r. below c (key r)) (rows q))"
begin

text \<open>One page: fetch one row too many, keep \<open>limit\<close>, continue below the last one kept.\<close>

definition page :: "'q \<Rightarrow> nat \<Rightarrow> 'k option \<Rightarrow> 'r list \<times> 'k option" where
  "page q limit c =
     (let xs = fetch q c (limit + 1);
          hasMore = length xs > limit;
          pageRows = (if hasMore then take limit xs else xs)
      in (pageRows, if hasMore \<and> pageRows \<noteq> [] then Some (key (last pageRows)) else None))"

text \<open>Following the returned cursors, with \<open>n\<close> pages at most.\<close>

fun walk :: "'q \<Rightarrow> nat \<Rightarrow> nat \<Rightarrow> 'k option \<Rightarrow> 'r list option" where
  "walk q limit 0 c = None"
| "walk q limit (Suc n) c =
     (case page q limit c of
        (xs, None) \<Rightarrow> Some xs
      | (xs, Some c') \<Rightarrow> map_option ((@) xs) (walk q limit n (Some c')))"

lemma filter_below_drop:
  assumes "sorted_wrt (\<lambda>a b. key b < key a) xs" "0 < n" "n \<le> length xs"
  shows "filter (\<lambda>r. key r < key (xs ! (n - 1))) xs = drop n xs"
proof -
  have split: "xs = take n xs @ drop n xs" by simp
  have "key r < key (xs ! (n - 1))" if "r \<in> set (drop n xs)" for r
    using that assms by (auto simp: in_set_conv_nth sorted_wrt_iff_nth_less)
  moreover have "\<not> key r < key (xs ! (n - 1))" if "r \<in> set (take n xs)" for r
  proof -
    have "r \<in> (!) xs ` {..<n}" using that assms(3) nth_image [of n xs] by (simp add: atLeast0LessThan)
    then obtain i where i: "r = xs ! i" "i < n" by auto
    show ?thesis
    proof (cases "i = n - 1")
      case False
      then have "i < n - 1" using i by simp
      then have "key (xs ! (n - 1)) < key r"
        using assms i by (auto simp: sorted_wrt_iff_nth_less)
      then show ?thesis by simp
    qed (use i in simp)
  qed
  ultimately show ?thesis
    by (subst split, simp only: filter_append) (simp add: filter_id_conv filter_empty_conv)
qed

lemma page_rest:
  assumes inv: "invar q" and "0 < limit"
  defines "rest \<equiv> \<lambda>c. filter (\<lambda>r. below c (key r)) (rows q)"
  shows "page q limit c = (take limit (rest c),
     if length (rest c) > limit then Some (key (rest c ! (limit - 1))) else None)"
    and "length (rest c) > limit \<Longrightarrow> rest (Some (key (rest c ! (limit - 1)))) = drop limit (rest c)"
proof -
  have sorted: "sorted_wrt (\<lambda>a b. key b < key a) (rest c)"
    unfolding rest_def using descending [OF inv] by (rule sorted_wrt_filter)
  have f: "fetch q c (limit + 1) = take (limit + 1) (rest c)"
    by (simp add: fetch_prefix [OF inv] rest_def)
  show "page q limit c = (take limit (rest c),
     if length (rest c) > limit then Some (key (rest c ! (limit - 1))) else None)"
    using assms(2) unfolding page_def f Let_def
    by (auto simp: last_conv_nth min_def)
  assume len: "length (rest c) > limit"
  let ?k = "key (rest c ! (limit - 1))"
  have "below c ?k" using len assms(2) nth_mem [of "limit - 1" "rest c"] by (auto simp: rest_def)
  then have "rest (Some ?k) = filter (\<lambda>r. key r < ?k) (rest c)"
    by (auto simp: rest_def below_def intro!: filter_cong split: option.splits)
  then show "rest (Some ?k) = drop limit (rest c)"
    using filter_below_drop [OF sorted assms(2)] len by simp
qed

text \<open>
  Walking the pages gives every row once, in order, and stops: as many pages as rows are
  always enough.
\<close>

lemma walk_complete:
  assumes inv: "invar q" and lim: "0 < limit"
    and fuel: "length (filter (\<lambda>r. below c (key r)) (rows q)) < n"
  shows "walk q limit n c = Some (filter (\<lambda>r. below c (key r)) (rows q))"
  using fuel
proof (induction n arbitrary: c)
  case (Suc n)
  let ?rest = "filter (\<lambda>r. below c (key r)) (rows q)"
  show ?case
  proof (cases "length ?rest > limit")
    case True
    let ?c' = "Some (key (?rest ! (limit - 1)))"
    have tail: "filter (\<lambda>r. below ?c' (key r)) (rows q) = drop limit ?rest"
      by (rule page_rest(2) [OF inv lim True])
    have "walk q limit n ?c' = Some (drop limit ?rest)"
      using Suc.IH [of ?c'] Suc.prems True lim unfolding tail by simp
    with True show ?thesis by (simp add: page_rest(1) [OF inv lim])
  next
    case False
    then show ?thesis by (simp add: page_rest(1) [OF inv lim])
  qed
qed simp

lemma page_cursor_in:
  assumes "snd (page q limit c) = Some k"
  shows "\<exists>r\<in>set (fetch q c (limit + 1)). k = key r"
proof -
  let ?pr = "take limit (fetch q c (limit + 1))"
  have "?pr \<noteq> [] \<and> k = key (last ?pr)"
    using assms by (auto simp: page_def Let_def split: if_splits)
  then show ?thesis by (metis in_set_takeD last_in_set)
qed

lemma page_size: "invar q \<Longrightarrow> 0 < limit \<Longrightarrow> length (fst (page q limit c)) \<le> limit"
  by (simp add: page_rest(1))

end

section \<open>Status tables\<close>

text \<open>
  A status moved along a table of successors: \<open>terminal\<close> statuses have none, every
  other status can still reach a terminal one.
\<close>

locale transition_table =
  fixes succs :: "'s \<Rightarrow> 's list"
    and terminal :: "'s \<Rightarrow> bool"
  assumes terminal_stuck: "terminal s \<Longrightarrow> succs s = []"
    and exit_exists: "\<not> terminal s \<Longrightarrow> \<exists>t\<in>set (succs s). terminal t"
begin

inductive reach :: "'s \<Rightarrow> 's \<Rightarrow> bool" where
  refl: "reach s s"
| step: "reach s t \<Longrightarrow> u \<in> set (succs t) \<Longrightarrow> reach s u"

lemma terminal_absorbing: "reach s t \<Longrightarrow> terminal s \<Longrightarrow> t = s"
  by (induction rule: reach.induct) (auto dest: terminal_stuck)

lemma terminal_iff: "terminal s \<longleftrightarrow> succs s = []"
  using terminal_stuck exit_exists by fastforce

lemma can_finish: "\<exists>t. reach s t \<and> terminal t"
  using exit_exists reach.refl reach.step by metis

lemma no_return: "terminal s \<Longrightarrow> u \<notin> set (succs s)"
  by (simp add: terminal_stuck)

end

section \<open>Logs that only grow\<close>

locale growing_log =
  fixes exec_step :: "'db \<Rightarrow> 'c \<Rightarrow> 'db"
    and log :: "'db \<Rightarrow> 'x list"
  assumes extends: "\<exists>new. log (exec_step db c) = log db @ new"
begin

fun run_all :: "'db \<Rightarrow> 'c list \<Rightarrow> 'db" where
  "run_all db [] = db"
| "run_all db (c # cs) = run_all (exec_step db c) cs"

lemma run_extends: "\<exists>new. log (run_all db cs) = log db @ new"
proof (induction cs arbitrary: db)
  case (Cons c cs)
  obtain a where "log (exec_step db c) = log db @ a" using extends by blast
  moreover obtain b where "log (run_all (exec_step db c) cs) = log (exec_step db c) @ b"
    using Cons.IH by blast
  ultimately show ?case by simp
qed simp

lemma entries_kept: "x \<in> set (log db) \<Longrightarrow> x \<in> set (log (run_all db cs))"
  using run_extends [of db cs] by auto

lemma positions_kept: "i < length (log db) \<Longrightarrow> log (run_all db cs) ! i = log db ! i"
  using run_extends [of db cs] by (auto simp: nth_append)

end

end
