(* ===== verification/Pipeline_State.thy ===== *)
theory Pipeline_State
  imports Interfaces
begin

text \<open>
  The pure rules of \<^verbatim>\<open>libs/pipeline\<close>: the status table
  (\<^verbatim>\<open>pipeline-state.ts\<close>), dispositions (\<^verbatim>\<open>pipeline-disposition.ts\<close>), admissible
  evidence (\<^verbatim>\<open>evidence-admissibility.ts\<close>), entry provenance
  (\<^verbatim>\<open>pipeline-entry-provenance.ts\<close>), external source events
  (\<^verbatim>\<open>external-source-event.ts\<close>), the requisition gate
  (\<^verbatim>\<open>requisition-activity-rule.ts\<close>) and the resume-selection rule
  (\<^verbatim>\<open>resume-selection-eligibility.ts\<close>). The status table is interpreted as a
  \<open>transition_table\<close>.
\<close>

section \<open>pipeline-state.ts\<close>

datatype pipeline_status =
    No_Contact | Contacted | Talent_Responded | Qualifying | Qualified
  | Not_In_Consideration | Completed | Voided

fun status_name :: "pipeline_status \<Rightarrow> string" where
  "status_name No_Contact = ''no_contact''"
| "status_name Contacted = ''contacted''"
| "status_name Talent_Responded = ''talent_responded''"
| "status_name Qualifying = ''qualifying''"
| "status_name Qualified = ''qualified''"
| "status_name Not_In_Consideration = ''not_in_consideration''"
| "status_name Completed = ''completed''"
| "status_name Voided = ''voided''"

definition PIPELINE_STATUS_VALUES :: "pipeline_status list" where
  "PIPELINE_STATUS_VALUES =
     [No_Contact, Contacted, Talent_Responded, Qualifying, Qualified, Not_In_Consideration,
      Completed, Voided]"

definition isPipelineStatus :: "json \<Rightarrow> bool" where
  "isPipelineStatus v = (case v of JStr s \<Rightarrow> s \<in> set (map status_name PIPELINE_STATUS_VALUES) | _ \<Rightarrow> False)"

definition ACTIVE_FLOW_STAGES :: "pipeline_status list" where
  "ACTIVE_FLOW_STAGES = [No_Contact, Contacted, Talent_Responded, Qualifying, Qualified]"

definition activeStageOrdinal :: "pipeline_status \<Rightarrow> int" where
  "activeStageOrdinal s = index_of ACTIVE_FLOW_STAGES s"

definition EVIDENCE_BACKED_STAGES :: "pipeline_status list" where
  "EVIDENCE_BACKED_STAGES = [Contacted, Talent_Responded]"

definition isEvidenceBackedStage :: "pipeline_status \<Rightarrow> bool" where
  "isEvidenceBackedStage s \<longleftrightarrow> s \<in> set EVIDENCE_BACKED_STAGES"

fun LEGAL_TRANSITIONS :: "pipeline_status \<Rightarrow> pipeline_status list" where
  "LEGAL_TRANSITIONS No_Contact = [Contacted, Talent_Responded, Not_In_Consideration]"
| "LEGAL_TRANSITIONS Contacted = [Talent_Responded, No_Contact, Not_In_Consideration]"
| "LEGAL_TRANSITIONS Talent_Responded = [Qualifying, Contacted, Not_In_Consideration]"
| "LEGAL_TRANSITIONS Qualifying = [Qualified, Talent_Responded, Not_In_Consideration]"
| "LEGAL_TRANSITIONS Qualified = [Qualifying, Not_In_Consideration, Completed]"
| "LEGAL_TRANSITIONS Not_In_Consideration = []"
| "LEGAL_TRANSITIONS Completed = []"
| "LEGAL_TRANSITIONS Voided = []"

definition CANONICAL_TERMINAL_STATUSES :: "pipeline_status list" where
  "CANONICAL_TERMINAL_STATUSES = [Not_In_Consideration, Completed, Voided]"

definition LIVE_EPISODE_EXCLUSION_STATUSES :: "pipeline_status list" where
  "LIVE_EPISODE_EXCLUSION_STATUSES = CANONICAL_TERMINAL_STATUSES"

definition TERMINAL_STATUSES :: "pipeline_status list" where
  "TERMINAL_STATUSES = filter (\<lambda>s. length (LEGAL_TRANSITIONS s) = 0) PIPELINE_STATUS_VALUES"

definition isLiveStatus :: "pipeline_status \<Rightarrow> bool" where
  "isLiveStatus s \<longleftrightarrow> s \<notin> set LIVE_EPISODE_EXCLUSION_STATUSES"

definition canTransition :: "pipeline_status \<Rightarrow> pipeline_status \<Rightarrow> bool" where
  "canTransition from to \<longleftrightarrow> (if from = to then True else to \<in> set (LEGAL_TRANSITIONS from))"

definition legalNextStates :: "pipeline_status \<Rightarrow> pipeline_status list" where
  "legalNextStates from = LEGAL_TRANSITIONS from"

datatype recruiter_action = START_QUALIFICATION | QUALIFY | DISPOSITION

fun RECRUITER_ACTION_TO_STATUS :: "recruiter_action \<Rightarrow> pipeline_status" where
  "RECRUITER_ACTION_TO_STATUS START_QUALIFICATION = Qualifying"
| "RECRUITER_ACTION_TO_STATUS QUALIFY = Qualified"
| "RECRUITER_ACTION_TO_STATUS DISPOSITION = Not_In_Consideration"

text \<open>The action name of a request body; \<open>None\<close> is an unrecognised one.\<close>

definition recruiter_action_of :: "string \<Rightarrow> recruiter_action option" where
  "recruiter_action_of s =
     (if s = ''START_QUALIFICATION'' then Some START_QUALIFICATION
      else if s = ''QUALIFY'' then Some QUALIFY
      else if s = ''DISPOSITION'' then Some DISPOSITION else None)"

definition SYSTEM_COMPLETE_ACTION :: string where
  "SYSTEM_COMPLETE_ACTION = ''COMPLETE''"

datatype void_reason = ADDED_BY_MISTAKE

fun void_reason_name :: "void_reason \<Rightarrow> string" where
  "void_reason_name ADDED_BY_MISTAKE = ''ADDED_BY_MISTAKE''"

section \<open>pipeline-disposition.ts\<close>

datatype disposition_authority = RECRUITER | TALENT | ENGAGEMENT | DOWNSTREAM_OUTCOME

definition RECRUITER_DISPOSITION_AUTHORITIES :: "disposition_authority list" where
  "RECRUITER_DISPOSITION_AUTHORITIES = [RECRUITER, TALENT, ENGAGEMENT]"

fun PIPELINE_DISPOSITION_REASONS :: "disposition_authority \<Rightarrow> string list" where
  "PIPELINE_DISPOSITION_REASONS RECRUITER =
     [''not_a_fit'', ''skills_mismatch'', ''better_matched_elsewhere'', ''withdrawn_by_recruiter'']"
| "PIPELINE_DISPOSITION_REASONS TALENT =
     [''talent_declined'', ''talent_unresponsive'', ''talent_accepted_other_role'',
      ''compensation_misalignment'']"
| "PIPELINE_DISPOSITION_REASONS ENGAGEMENT =
     [''requisition_closed'', ''requisition_on_hold'', ''client_paused_engagement'',
      ''position_filled_externally'']"
| "PIPELINE_DISPOSITION_REASONS DOWNSTREAM_OUTCOME =
     [''placement_started'', ''placement_completed'', ''placement_fell_through'',
      ''converted_to_permanent'', ''client_selection_declined'', ''client_selection_withdrawn'']"

definition isValidDispositionReason :: "disposition_authority \<Rightarrow> string \<Rightarrow> bool" where
  "isValidDispositionReason a r \<longleftrightarrow> r \<in> set (PIPELINE_DISPOSITION_REASONS a)"

definition isRecruiterDispositionAuthority :: "disposition_authority \<Rightarrow> bool" where
  "isRecruiterDispositionAuthority a \<longleftrightarrow> a \<in> set RECRUITER_DISPOSITION_AUTHORITIES"

section \<open>evidence-admissibility.ts\<close>

definition ADMISSIBLE_EVIDENCE_BY_STAGE :: "pipeline_status \<Rightarrow> string list" where
  "ADMISSIBLE_EVIDENCE_BY_STAGE s =
     (if s = Contacted
      then [''communication_interaction'', ''recruiter_response_confirmation'', ''provider_observation'']
      else if s = Talent_Responded then [''recruiter_response_confirmation''] else [])"

definition isEvidenceAdmissible :: "pipeline_status \<Rightarrow> string \<Rightarrow> bool" where
  "isEvidenceAdmissible target kind \<longleftrightarrow>
     (if target \<noteq> Contacted \<and> target \<noteq> Talent_Responded then False
      else kind \<in> set (ADMISSIBLE_EVIDENCE_BY_STAGE target))"

section \<open>pipeline-entry-provenance.ts and external-source-event.ts\<close>

datatype entry_origin =
    MANUAL_RECRUITER | ARAMO_SOURCING | INBOUND_APPLICATION | INTERNAL_REDISCOVERY | REFERRAL
  | EXTERNAL_ATS | VMS | JOB_BOARD | CAREER_SITE | TALENT_PORTAL | IMPORT | SYSTEM_RECONCILIATION

definition ACTOR_KINDS :: "string list" where
  "ACTOR_KINDS = [''system'', ''service_account'', ''user'']"

definition isValidInitiatedByKind :: "string \<Rightarrow> bool" where
  "isValidInitiatedByKind v \<longleftrightarrow> v \<in> set ACTOR_KINDS"

text \<open>Optional fields are \<open>None\<close> when absent or null: the code reads both as null.\<close>

record entry_provenance_input =
  ep_origin_type :: entry_origin
  ep_initiated_by_kind :: string
  ep_initiated_by_id :: "string option"
  ep_source_system :: "string option"
  ep_source_connection_id :: "string option"
  ep_external_object_type :: "string option"
  ep_external_object_id :: "string option"
  ep_external_event_id :: "string option"
  ep_observed_at :: "int option"
  ep_metadata :: "json option"

record entry_event_projection =
  pj_origin_type :: entry_origin
  pj_source_system :: "string option"
  pj_source_connection_id :: "string option"
  pj_initiated_by_kind :: string

definition projectEntryProvenanceForEvent :: "entry_provenance_input \<Rightarrow> entry_event_projection" where
  "projectEntryProvenanceForEvent i =
     \<lparr> pj_origin_type = ep_origin_type i, pj_source_system = ep_source_system i,
       pj_source_connection_id = ep_source_connection_id i,
       pj_initiated_by_kind = ep_initiated_by_kind i \<rparr>"

definition PROVIDER_SOURCED_ORIGINS :: "entry_origin list" where
  "PROVIDER_SOURCED_ORIGINS = [EXTERNAL_ATS, VMS, JOB_BOARD, CAREER_SITE, TALENT_PORTAL]"

definition isProviderSourcedOrigin :: "entry_origin \<Rightarrow> bool" where
  "isProviderSourcedOrigin o' \<longleftrightarrow> o' \<in> set PROVIDER_SOURCED_ORIGINS"

record external_source_event =
  xe_origin_type :: entry_origin
  xe_source_system :: string
  xe_source_connection_id :: string
  xe_external_object_type :: string
  xe_external_object_id :: string
  xe_external_event_id :: string
  xe_observed_at :: int
  xe_talent_record_id :: string
  xe_requisition_id :: string
  xe_metadata :: "json option"

text \<open>A thrown \<open>Error\<close> is \<open>None\<close>.\<close>

definition projectExternalSourceEventToEntryProvenance ::
  "external_source_event \<Rightarrow> entry_provenance_input option" where
  "projectExternalSourceEventToEntryProvenance e =
     (if \<not> isProviderSourcedOrigin (xe_origin_type e) then None
      else Some \<lparr> ep_origin_type = xe_origin_type e, ep_initiated_by_kind = ''system'',
        ep_initiated_by_id = None, ep_source_system = Some (xe_source_system e),
        ep_source_connection_id = Some (xe_source_connection_id e),
        ep_external_object_type = Some (xe_external_object_type e),
        ep_external_object_id = Some (xe_external_object_id e),
        ep_external_event_id = Some (xe_external_event_id e),
        ep_observed_at = Some (xe_observed_at e), ep_metadata = xe_metadata e \<rparr>)"

section \<open>requisition-activity-rule.ts\<close>

datatype requisition_activity = Act_ADD | Act_CONTACT_SEND | Act_CONTACT_EVIDENCE | Act_RESPONSE | Act_QUALIFY_DECISION

definition TERMINAL_REQUISITION_STATUSES :: "string list" where
  "TERMINAL_REQUISITION_STATUSES = [''closed'', ''canceled'']"

definition isTerminalRequisitionStatus :: "string \<Rightarrow> bool" where
  "isTerminalRequisitionStatus s \<longleftrightarrow> s \<in> set TERMINAL_REQUISITION_STATUSES"

definition requisitionPermits :: "string \<Rightarrow> requisition_activity \<Rightarrow> bool" where
  "requisitionPermits s a \<longleftrightarrow>
     (if s \<in> set TERMINAL_REQUISITION_STATUSES then False
      else if s = ''lead'' then a = Act_ADD \<or> a = Act_CONTACT_SEND \<or> a = Act_CONTACT_EVIDENCE
      else True)"

datatype gate_refusal =
    Refused_Activity requisition_activity
  | BACKWARD_CORRECTION
  | FINAL_DISPOSITION_WITHOUT_REASON
  | REQUISITION_UNRESOLVED

definition FORWARD_ACTIVITY :: "pipeline_status \<Rightarrow> requisition_activity option" where
  "FORWARD_ACTIVITY s =
     (if s = Contacted then Some Act_CONTACT_EVIDENCE
      else if s = Talent_Responded then Some Act_RESPONSE
      else if s = Qualifying \<or> s = Qualified then Some Act_QUALIFY_DECISION else None)"

definition requisitionGateForTransition ::
  "pipeline_status \<Rightarrow> pipeline_status \<Rightarrow> string option \<Rightarrow> bool \<Rightarrow> bool \<Rightarrow> gate_refusal option" where
  "requisitionGateForTransition from_status to_status requisition_status has_disposition system_downstream =
     (if system_downstream \<or> to_status = Completed then None
      else case requisition_status of
        None \<Rightarrow> Some REQUISITION_UNRESOLVED
      | Some status \<Rightarrow>
          if to_status = Not_In_Consideration
          then if isTerminalRequisitionStatus status \<and> \<not> has_disposition
               then Some FINAL_DISPOSITION_WITHOUT_REASON else None
          else
            let from_ord = index_of ACTIVE_FLOW_STAGES from_status;
                to_ord = index_of ACTIVE_FLOW_STAGES to_status
            in if from_ord = -1 \<or> to_ord = -1 then None
               else if to_ord < from_ord
               then if isTerminalRequisitionStatus status then Some BACKWARD_CORRECTION else None
               else case FORWARD_ACTIVITY to_status of
                 None \<Rightarrow> None
               | Some activity \<Rightarrow>
                   if requisitionPermits status activity then None else Some (Refused_Activity activity))"

section \<open>resume-selection-eligibility.ts\<close>

datatype resume_eligibility = Eligible | No_Selection | Ineligible string

definition resumeSelectionEligibility :: "string option \<Rightarrow> string option \<Rightarrow> resume_eligibility" where
  "resumeSelectionEligibility selected lifecycle =
     (case selected of
        None \<Rightarrow> No_Selection
      | Some _ \<Rightarrow>
          if lifecycle = Some ''active'' then Eligible
          else Ineligible (case lifecycle of None \<Rightarrow> ''unknown'' | Some s \<Rightarrow> s))"

section \<open>The status table\<close>

lemmas status_table_defs =
  PIPELINE_STATUS_VALUES_def ACTIVE_FLOW_STAGES_def EVIDENCE_BACKED_STAGES_def
  CANONICAL_TERMINAL_STATUSES_def LIVE_EPISODE_EXCLUSION_STATUSES_def

lemma status_values_complete: "s \<in> set PIPELINE_STATUS_VALUES"
  by (cases s) (simp_all add: PIPELINE_STATUS_VALUES_def)

lemma TERMINAL_STATUSES_eq [simp]: "TERMINAL_STATUSES = [Not_In_Consideration, Completed, Voided]"
  by (simp add: TERMINAL_STATUSES_def PIPELINE_STATUS_VALUES_def)

lemma not_live_iff: "\<not> isLiveStatus s \<longleftrightarrow> s \<in> set TERMINAL_STATUSES"
  by (simp add: isLiveStatus_def status_table_defs)

lemma live_iff: "isLiveStatus s \<longleftrightarrow> s \<notin> set TERMINAL_STATUSES"
  using not_live_iff by blast

lemma live_simps [simp]:
  "isLiveStatus No_Contact" "isLiveStatus Contacted" "isLiveStatus Talent_Responded"
  "isLiveStatus Qualifying" "isLiveStatus Qualified"
  "\<not> isLiveStatus Not_In_Consideration" "\<not> isLiveStatus Completed" "\<not> isLiveStatus Voided"
  by (simp_all add: live_iff)

lemma evidence_backed_iff: "isEvidenceBackedStage s \<longleftrightarrow> s = Contacted \<or> s = Talent_Responded"
  by (simp add: isEvidenceBackedStage_def EVIDENCE_BACKED_STAGES_def)

lemma ordinal_simps [simp]:
  "activeStageOrdinal No_Contact = 0" "activeStageOrdinal Contacted = 1"
  "activeStageOrdinal Talent_Responded = 2" "activeStageOrdinal Qualifying = 3"
  "activeStageOrdinal Qualified = 4" "activeStageOrdinal Not_In_Consideration = -1"
  "activeStageOrdinal Completed = -1" "activeStageOrdinal Voided = -1"
  by (simp_all add: activeStageOrdinal_def ACTIVE_FLOW_STAGES_def)

lemma ordinal_live: "0 \<le> activeStageOrdinal s \<longleftrightarrow> isLiveStatus s"
  by (cases s) simp_all

text \<open>The table as an interface: terminal statuses are stuck, every live one has an exit.\<close>

interpretation pipeline_table: transition_table LEGAL_TRANSITIONS "\<lambda>s. \<not> isLiveStatus s"
proof unfold_locales
  fix s show "\<not> isLiveStatus s \<Longrightarrow> LEGAL_TRANSITIONS s = []" by (cases s) simp_all
  show "\<not> \<not> isLiveStatus s \<Longrightarrow> \<exists>t\<in>set (LEGAL_TRANSITIONS s). \<not> isLiveStatus t" by (cases s) simp_all
qed

lemma legal_source_live: "t \<in> set (LEGAL_TRANSITIONS s) \<Longrightarrow> isLiveStatus s"
  using pipeline_table.no_return by blast

lemma voided_unreachable: "pipeline_table.reach s t \<Longrightarrow> s \<noteq> Voided \<Longrightarrow> t \<noteq> Voided"
proof (induction rule: pipeline_table.reach.induct)
  case (step s t u)
  then show ?case by (cases t) auto
qed

end
