(* ===== verification/Policy_Signature.thy ===== *)
theory Policy_Signature
  imports Aramo_Prelude
begin

text \<open>
  The effect signature of \<^verbatim>\<open>libs/policy-engine/src/lib/compose.ts\<close>:
  \<open>stable\<close>, a key-sorted serialisation. The serialised text is a list of tokens: a
  punctuation character, or one literal \<open>JSON.stringify\<close> prints for a primitive
  (a quoted string, a decimal number, \<open>true\<close>, \<open>false\<close>, \<open>null\<close>), which is
  self-delimiting. \<open>NaN\<close> and the infinities print as \<open>null\<close> and \<open>-0\<close> as
  \<open>0\<close>, as the standard says. \<open>deep_eq\<close> is the reference notion: equal up to
  the order of object keys. The main result is that two values have the same signature
  exactly when they are deep-equal.
\<close>

datatype tok = Punct char | Lit_null | Lit_bool bool | Lit_num rat | Lit_str string

fun num_tok :: "js_number \<Rightarrow> tok" where
  "num_tok JNaN = Lit_null"
| "num_tok JPosInf = Lit_null"
| "num_tok JNegInf = Lit_null"
| "num_tok JNegZero = Lit_num 0"
| "num_tok (JFin q) = Lit_num q"

fun join_toks :: "tok list list \<Rightarrow> tok list" where
  "join_toks [] = []"
| "join_toks [x] = x"
| "join_toks (x # y # ys) = x @ Punct (CHR '','') # join_toks (y # ys)"

definition entry_toks :: "string \<times> tok list \<Rightarrow> tok list" where
  "entry_toks e = Lit_str (fst e) # Punct (CHR '':'') # snd e"

lemma size_json_entry [termination_simp]:
  "kv \<in> set kvs \<Longrightarrow> size (snd kv) < Suc (size_list (size_prod (\<lambda>x. 0) size) kvs)"
  using size_list_estimation' [of kv kvs "size (snd kv)" "size_prod (\<lambda>x. 0) size"]
  by (cases kv) simp

fun stable :: "json \<Rightarrow> tok list" where
  "stable JNull = [Lit_null]"
| "stable (JBool b) = [Lit_bool b]"
| "stable (JNum n) = [num_tok n]"
| "stable (JStr s) = [Lit_str s]"
| "stable (JArr xs) = Punct (CHR ''['') # join_toks (map stable xs) @ [Punct (CHR '']'')]"
| "stable (JObj kvs) =
     Punct (CHR ''{'')
     # join_toks (map entry_toks (sort_key fst (map (\<lambda>kv. (fst kv, stable (snd kv))) kvs)))
     @ [Punct (CHR ''}'')]"

text \<open>A JavaScript object has each key once.\<close>

fun wf_json :: "json \<Rightarrow> bool" where
  "wf_json (JArr xs) = list_all wf_json xs"
| "wf_json (JObj kvs) = (distinct (map fst kvs) \<and> list_all (\<lambda>kv. wf_json (snd kv)) kvs)"
| "wf_json _ = True"

text \<open>
  Deep equality of two values as JSON: objects agree on their keys whatever their order,
  arrays elementwise, primitives by the literal they print.
\<close>

fun deep_eq :: "json \<Rightarrow> json \<Rightarrow> bool" where
  "deep_eq (JArr xs) w = (case w of JArr ys \<Rightarrow> list_all2 deep_eq xs ys | _ \<Rightarrow> False)"
| "deep_eq (JObj xs) w = (case w of
     JObj ys \<Rightarrow> length xs = length ys \<and>
       list_all (\<lambda>kv. case map_of ys (fst kv) of None \<Rightarrow> False | Some y \<Rightarrow> deep_eq (snd kv) y) xs
   | _ \<Rightarrow> False)"
| "deep_eq v w = (case w of JArr _ \<Rightarrow> False | JObj _ \<Rightarrow> False | _ \<Rightarrow> stable v = stable w)"

section \<open>Sorting entries by key\<close>

lemma insort_key_map:
  "(\<And>x. g (f x) = k x) \<Longrightarrow> insort_key g (f x) (map f xs) = map f (insort_key k x xs)"
  by (induction xs) auto

lemma sort_key_map: "(\<And>x. g (f x) = k x) \<Longrightarrow> sort_key g (map f xs) = map f (sort_key k xs)"
  by (induction xs) (auto simp: insort_key_map)

abbreviation sorted_entries :: "(string \<times> json) list \<Rightarrow> (string \<times> json) list" where
  "sorted_entries kvs \<equiv> sort_key fst kvs"

lemma stable_obj:
  "stable (JObj kvs) =
     Punct (CHR ''{'')
     # join_toks (map (\<lambda>kv. entry_toks (fst kv, stable (snd kv))) (sorted_entries kvs))
     @ [Punct (CHR ''}'')]"
  by (simp add: sort_key_map [where k = fst] o_def)

lemma map_of_sorted_entries:
  "distinct (map fst kvs) \<Longrightarrow> map_of (sorted_entries kvs) = map_of kvs"
proof -
  assume d: "distinct (map fst kvs)"
  have "mset (map fst (sorted_entries kvs)) = mset (map fst kvs)" by simp
  then have "distinct (map fst (sorted_entries kvs))" using d by (metis mset_eq_imp_distinct_iff)
  with d show ?thesis by (intro map_of_eqI ext) (auto simp: map_of_eq_Some_iff intro: map_of_eqI)
qed

section \<open>Unique reading\<close>

lemma stable_Nil [simp]: "stable v \<noteq> []"
  by (cases v) auto

definition closers :: "tok set" where
  "closers = {Punct (CHR '',''), Punct (CHR '']''), Punct (CHR ''}''), Punct (CHR '':'')}"

lemma closers_simps [simp]:
  "Punct (CHR '','') \<in> closers" "Punct (CHR '']'') \<in> closers" "Punct (CHR ''}'') \<in> closers"
  "Lit_str k \<notin> closers"
  by (simp_all add: closers_def)

lemma list_all2_in_set: "list_all2 P xs ys \<Longrightarrow> x \<in> set xs \<Longrightarrow> \<exists>y\<in>set ys. P x y"
  by (induction rule: list_all2_induct) auto

lemma stable_head: "stable v = t # ts \<Longrightarrow> t \<notin> closers"
  by (cases v; auto simp: closers_def) (rename_tac n; case_tac n; auto)+

lemma join_toks_head:
  assumes "xs \<noteq> []" and "\<And>x. x \<in> set xs \<Longrightarrow> f x \<noteq> [] \<and> hd (f x) \<notin> closers" and "c \<in> closers"
  shows "join_toks (map f xs) @ r \<noteq> c # s"
proof -
  obtain x ys where xs: "xs = x # ys" using assms(1) by (cases xs) auto
  obtain t ts where t: "f x = t # ts" using assms(2) [of x] xs by (cases "f x") auto
  with assms(2) [of x] xs have "t \<notin> closers" by simp
  with t xs assms(3) show ?thesis by (cases ys) auto
qed

text \<open>
  Reading a separated list back: if the items read uniquely and none starts with a
  closing token, so does the whole list up to its closing token.
\<close>

lemma join_toks_read:
  assumes "\<And>x y r s. x \<in> set xs \<Longrightarrow> y \<in> set ys \<Longrightarrow> f x @ r = f y @ s \<Longrightarrow> R x y \<and> r = s"
    and "\<And>x. f x \<noteq> [] \<and> hd (f x) \<notin> closers"
    and c: "c \<in> closers" "c \<noteq> Punct (CHR '','')"
    and eq: "join_toks (map f xs) @ c # r = join_toks (map f ys) @ c # s"
  shows "list_all2 R xs ys \<and> r = s"
  using assms(1) eq
proof (induction xs arbitrary: ys)
  case Nil
  then show ?case using join_toks_head [of ys f c "c # s" r] assms(2) c(1) by (cases ys) auto
next
  case (Cons x xs)
  show ?case
  proof (cases ys)
    case Nil
    with Cons.prems(2) show ?thesis
      using join_toks_head [of "x # xs" f c "c # r" s] assms(2) c(1) by auto
  next
    case ys: (Cons y zs)
    have read: "f x @ p = f y @ q \<Longrightarrow> R x y \<and> p = q" for p q
      using Cons.prems(1) [of x y] ys by simp
    show ?thesis
    proof (cases "xs = [] \<or> zs = []")
      case True
      then show ?thesis using Cons.prems(2) ys c(2)
        by (cases xs; cases zs) (auto dest!: read)
    next
      case False
      then obtain x2 xs2 y2 ys2 where "xs = x2 # xs2" "zs = y2 # ys2"
        by (meson neq_Nil_conv)
      with Cons.prems(2) ys have "R x y" and
        "join_toks (map f xs) @ c # r = join_toks (map f zs) @ c # s"
        by (auto dest!: read)
      moreover have "list_all2 R xs zs \<and> r = s"
        by (rule Cons.IH) (use Cons.prems(1) ys calculation in auto)
      ultimately show ?thesis using ys by simp
    qed
  qed
qed

lemma stable_starts: "stable v \<noteq> [] \<and> hd (stable v) \<notin> closers"
  using stable_head [of v "hd (stable v)" "tl (stable v)"] by simp

lemma entry_toks_read:
  assumes "\<And>r s. stable (snd x) @ r = stable (snd y) @ s \<Longrightarrow> deep_eq (snd x) (snd y) \<and> r = s"
    and "entry_toks (fst x, stable (snd x)) @ r = entry_toks (fst y, stable (snd y)) @ s"
  shows "(fst x = fst y \<and> deep_eq (snd x) (snd y)) \<and> r = s"
  using assms by (auto simp: entry_toks_def)

lemma sorted_entries_list_all2:
  assumes d: "distinct (map fst xs)" "distinct (map fst ys)"
    and l: "list_all2 (\<lambda>x y. fst x = fst y \<and> R (snd x) (snd y)) (sorted_entries xs) (sorted_entries ys)"
  shows "length xs = length ys \<and>
    list_all (\<lambda>kv. case map_of ys (fst kv) of None \<Rightarrow> False | Some y \<Rightarrow> R (snd kv) y) xs"
proof
  show "length xs = length ys" using list_all2_lengthD [OF l] by simp
  have "case map_of ys (fst kv) of None \<Rightarrow> False | Some y \<Rightarrow> R (snd kv) y" if "kv \<in> set xs" for kv
  proof -
    have "kv \<in> set (sorted_entries xs)" using that by simp
    then obtain kv' where kv': "kv' \<in> set (sorted_entries ys)" "fst kv = fst kv'" "R (snd kv) (snd kv')"
      using list_all2_in_set [OF l] by blast
    have "kv' \<in> set ys" using kv'(1) by (simp only: set_sort)
    then have "map_of ys (fst kv) = Some (snd kv')" using d(2) kv'(2) by (metis map_of_is_SomeI prod.collapse)
    with kv' show ?thesis by simp
  qed
  then show "list_all (\<lambda>kv. case map_of ys (fst kv) of None \<Rightarrow> False | Some y \<Rightarrow> R (snd kv) y) xs"
    by (simp add: list_all_iff)
qed

lemma stable_prim:
  assumes "\<And>c. t \<noteq> Punct c" and "t # r = stable w @ s"
  shows "stable w = [t] \<and> r = s \<and> (\<forall>xs. w \<noteq> JArr xs) \<and> (\<forall>kvs. w \<noteq> JObj kvs)"
  using assms by (cases w) auto

lemma stable_read:
  "wf_json v \<Longrightarrow> wf_json w \<Longrightarrow> stable v @ r = stable w @ s \<Longrightarrow> deep_eq v w \<and> r = s"
proof (induction v arbitrary: w r s rule: stable.induct)
  case (5 xs)
  obtain t ts where w: "stable w = t # ts" by (cases "stable w") auto
  with 5 have "t = Punct (CHR ''['')" by simp
  with w obtain ys where ys: "w = JArr ys" by (cases w; simp) (rename_tac n; case_tac n; simp)
  have "list_all2 deep_eq xs ys \<and> r = s"
    by (rule join_toks_read [where f = stable and c = "Punct (CHR '']'')"])
      (use 5 ys in \<open>auto simp: stable_starts list_all_iff\<close>)
  with ys show ?case by simp
next
  case (6 kvs)
  obtain t ts where w: "stable w = t # ts" by (cases "stable w") auto
  with 6 have "t = Punct (CHR ''{'')" by simp
  with w obtain ys where ys: "w = JObj ys" by (cases w; simp) (rename_tac n; case_tac n; simp)
  let ?f = "\<lambda>kv. entry_toks (fst kv, stable (snd kv))"
  let ?R = "\<lambda>x y. fst x = fst y \<and> deep_eq (snd x) (snd y)"
  have "list_all2 ?R (sorted_entries kvs) (sorted_entries ys) \<and> r = s"
  proof (rule join_toks_read [where f = ?f and c = "Punct (CHR ''}'')"])
    show "?R x y \<and> r' = s'" if "x \<in> set (sorted_entries kvs)" "y \<in> set (sorted_entries ys)"
        "?f x @ r' = ?f y @ s'" for x y r' s'
      by (rule entry_toks_read [OF _ that(3)], rule 6) (use that 6 ys in \<open>auto simp: list_all_iff\<close>)
    show "join_toks (map ?f (sorted_entries kvs)) @ Punct (CHR ''}'') # r =
        join_toks (map ?f (sorted_entries ys)) @ Punct (CHR ''}'') # s"
      using "6.prems"(3) unfolding ys stable_obj by simp
  qed (auto simp: entry_toks_def)
  then show ?case using sorted_entries_list_all2 [of kvs ys deep_eq] 6 ys by simp
next
  case (3 n)
  then show ?case using stable_prim [of "num_tok n" r w s] by (cases n) (auto split: json.splits)
qed (auto dest!: stable_prim [rotated] split: json.splits)

text \<open>The converse: deep-equal values print the same text.\<close>

lemma sorted_entries_keys_eq:
  assumes "distinct (map fst xs)" "distinct (map fst ys)" and "length xs = length ys"
    and "\<And>kv. kv \<in> set xs \<Longrightarrow> map_of ys (fst kv) \<noteq> None"
  shows "map fst (sorted_entries xs) = map fst (sorted_entries ys)"
proof (rule sorted_distinct_set_unique)
  have sub: "set (map fst xs) \<subseteq> set (map fst ys)"
    using assms(4) by (auto simp: map_of_eq_None_iff)
  have "card (set (map fst xs)) = card (set (map fst ys))"
    using assms(1-3) by (metis distinct_card length_map)
  with sub have "set (map fst xs) = set (map fst ys)" by (simp add: card_subset_eq)
  then show "set (map fst (sorted_entries xs)) = set (map fst (sorted_entries ys))" by simp
qed (use assms(1,2) in \<open>auto simp: distinct_map inj_on_def\<close>)

lemma deep_eq_stable:
  "wf_json v \<Longrightarrow> wf_json w \<Longrightarrow> deep_eq v w \<Longrightarrow> stable v = stable w"
proof (induction v arbitrary: w rule: stable.induct)
  case (5 xs)
  then obtain ys where ys: "w = JArr ys" "list_all2 deep_eq xs ys" by (cases w) auto
  have "map stable xs = map stable ys"
    using ys(2) 5 ys(1) by (intro nth_equalityI)
      (auto simp: list_all2_conv_all_nth list_all_length)
  with ys show ?case by (simp only: stable.simps)
next
  case (6 xs)
  then obtain ys where ys: "w = JObj ys" by (cases w) auto
  have dist: "distinct (map fst xs)" "distinct (map fst ys)" using 6 ys by auto
  have val: "\<exists>y. map_of ys (fst kv) = Some y \<and> stable (snd kv) = stable y" if "kv \<in> set xs" for kv
  proof -
    have "case map_of ys (fst kv) of None \<Rightarrow> False | Some y \<Rightarrow> deep_eq (snd kv) y"
      using "6.prems"(3) ys that by (simp add: list_all_iff)
    then obtain y where y: "map_of ys (fst kv) = Some y" "deep_eq (snd kv) y"
      by (cases "map_of ys (fst kv)") auto
    moreover have "wf_json y" using "6.prems"(2) ys map_of_SomeD [OF y(1)] by (auto simp: list_all_iff)
    moreover have "wf_json (snd kv)" using "6.prems"(1) that by (auto simp: list_all_iff)
    ultimately show ?thesis using "6.IH" [OF that] by blast
  qed
  have keys: "map fst (sorted_entries xs) = map fst (sorted_entries ys)"
    using sorted_entries_keys_eq [OF dist] "6.prems"(3) ys val by fastforce
  let ?f = "\<lambda>kv. entry_toks (fst kv, stable (snd kv))"
  have "map ?f (sorted_entries xs) = map ?f (sorted_entries ys)"
  proof (rule nth_equalityI)
    show "length (map ?f (sorted_entries xs)) = length (map ?f (sorted_entries ys))"
      using keys by (metis length_map)
    fix i assume "i < length (map ?f (sorted_entries xs))"
    then have i: "i < length (sorted_entries xs)" "i < length (sorted_entries ys)"
      using map_eq_imp_length_eq [OF keys] by auto
    let ?x = "sorted_entries xs ! i" and ?y = "sorted_entries ys ! i"
    have fst: "fst ?x = fst ?y" using keys i by (metis nth_map)
    have "?x \<in> set xs" "?y \<in> set ys" using nth_mem [OF i(1)] nth_mem [OF i(2)] by simp_all
    with val [of ?x] fst dist(2) have "stable (snd ?x) = stable (snd ?y)"
      by (auto simp: map_of_eq_Some_iff) (metis map_of_is_SomeI option.inject prod.collapse)
    with fst i show "map ?f (sorted_entries xs) ! i = map ?f (sorted_entries ys) ! i" by simp
  qed
  then show ?case unfolding ys stable_obj by simp
qed (auto split: json.splits)

lemma stable_eq_iff: "wf_json v \<Longrightarrow> wf_json w \<Longrightarrow> stable v = stable w \<longleftrightarrow> deep_eq v w"
  using stable_read [of v w "[]" "[]"] deep_eq_stable [of v w] by (simp only: append_Nil2) blast

end
