(* ===== verification/Policy_Engine.thy ===== *)
theory Policy_Engine
  imports Policy_Signature
begin

text \<open>
  The stateless business-policy evaluator of \<^verbatim>\<open>libs/policy-engine\<close>: the rule
  model (\<^verbatim>\<open>types.ts\<close>), the predicate machine (\<^verbatim>\<open>predicate.ts\<close>), the
  authoring checks (\<^verbatim>\<open>registry.ts\<close>), effect union and most-restrictive-wins
  composition (\<^verbatim>\<open>compose.ts\<close>) and the single-package evaluator
  (\<^verbatim>\<open>evaluate.ts\<close>). Thrown \<open>PolicyEngineError\<close>s are the left side of a
  result; \<open>JS_TYPE_ERROR\<close> is the \<open>TypeError\<close> a package without a default
  disposition would raise when \<open>evaluate\<close> reads it.
\<close>

section \<open>The rule model\<close>

datatype decision = ALLOW | DENY | REQUIRES_OVERRIDE | ALLOW_WITH_AUDIT

fun DECISION_PRECEDENCE :: "decision \<Rightarrow> nat" where
  "DECISION_PRECEDENCE ALLOW = 0"
| "DECISION_PRECEDENCE ALLOW_WITH_AUDIT = 1"
| "DECISION_PRECEDENCE REQUIRES_OVERRIDE = 2"
| "DECISION_PRECEDENCE DENY = 3"

definition EFFECT_KINDS :: "string list" where
  "EFFECT_KINDS =
     [''WRITE_AUDIT'', ''REQUIRE_REASON'', ''NOTIFY_ROLE'', ''EMIT_EVENT'', ''SHOW_BANNER'']"

record effect =
  effect_kind :: string
  effect_params :: "json option"

datatype origin = Origin_ui | Origin_agent | Origin_integration

record request_metadata =
  correlation_id :: string
  rm_origin :: origin

record resource_state =
  rs_declared :: "string \<rightharpoonup> json"
  rs_derived :: "string \<rightharpoonup> json"

record policy_context =
  ctx_tenant_id :: string
  ctx_resource :: string
  ctx_action :: string
  ctx_resource_state :: resource_state
  ctx_principal_capabilities :: "string \<rightharpoonup> bool"
  ctx_request_metadata :: request_metadata
  ctx_environment :: string
  ctx_time :: int
  ctx_attributes :: "string \<rightharpoonup> json"

datatype predicate_source = Src_declared | Src_derived | Src_attributes | Src_capabilities

datatype predicate_op = Op_eq | Op_ne | Op_lt | Op_lte | Op_gt | Op_gte | Op_in | Op_exists

record policy_predicate =
  pred_source :: predicate_source
  pred_key :: string
  pred_op :: predicate_op
  pred_value :: "json option"

record outcome =
  out_decision :: decision
  out_reason_code :: string
  out_required_capability :: "string option"
  out_effects :: "effect list option"

record policy_rule =
  rule_id :: string
  rule_resource :: string
  rule_action :: string
  rule_when :: "policy_predicate list option"
  rule_outcome :: outcome

record policy_package =
  pkg_name :: string
  pkg_version :: string
  pkg_resources :: "string list"
  pkg_actions :: "string list"
  pkg_default_disposition :: "outcome option"
  pkg_rules :: "policy_rule list"

record decision_provenance =
  prov_policy_version :: string
  prov_rule_id :: string

record policy_decision =
  pd_decision :: decision
  pd_reason_code :: string
  pd_required_capabilities :: "string list"
  pd_audit_required :: bool
  pd_override_required :: bool
  pd_reason_required :: bool
  pd_warnings :: "string list"
  pd_effects :: "effect list"
  pd_provenance :: "decision_provenance list"

datatype policy_error =
    UNREGISTERED_RESOURCE string
  | UNREGISTERED_ACTION string
  | UNREGISTERED_EFFECT string
  | MALFORMED_RULE string
  | MISSING_DEFAULT_DISPOSITION
  | EMPTY_COMPOSITION
  | JS_TYPE_ERROR

section \<open>predicate.ts\<close>

definition bucket :: "policy_context \<Rightarrow> predicate_source \<Rightarrow> (string \<rightharpoonup> json)" where
  "bucket ctx source = (case source of
     Src_declared \<Rightarrow> rs_declared (ctx_resource_state ctx)
   | Src_derived \<Rightarrow> rs_derived (ctx_resource_state ctx)
   | Src_attributes \<Rightarrow> ctx_attributes ctx
   | Src_capabilities \<Rightarrow> (\<lambda>k. map_option JBool (ctx_principal_capabilities ctx k)))"

definition asNumber :: "json option \<Rightarrow> rat option" where
  "asNumber v = Option.bind v js_finite"

definition is_value :: "json option \<Rightarrow> json option \<Rightarrow> bool" where
  "is_value actual expected = (case (actual, expected) of
     (Some a, Some b) \<Rightarrow> js_is a b
   | (None, None) \<Rightarrow> True
   | _ \<Rightarrow> False)"

definition num_compare ::
  "(rat \<Rightarrow> rat \<Rightarrow> bool) \<Rightarrow> json option \<Rightarrow> json option \<Rightarrow> bool" where
  "num_compare rel a b = (case (asNumber a, asNumber b) of
     (Some x, Some y) \<Rightarrow> rel x y
   | _ \<Rightarrow> False)"

definition evalPredicate :: "policy_context \<Rightarrow> policy_predicate \<Rightarrow> bool" where
  "evalPredicate ctx p =
     (let actual = bucket ctx (pred_source p) (pred_key p);
          has = (actual \<noteq> None)
      in case pred_op p of
           Op_exists \<Rightarrow> has
         | Op_eq \<Rightarrow> has \<and> is_value actual (pred_value p)
         | Op_ne \<Rightarrow> \<not> has \<or> \<not> is_value actual (pred_value p)
         | Op_in \<Rightarrow> has \<and> (case pred_value p of
               Some (JArr xs) \<Rightarrow> list_ex (\<lambda>x. is_value (Some x) actual) xs
             | _ \<Rightarrow> False)
         | Op_lt \<Rightarrow> num_compare (<) actual (pred_value p)
         | Op_lte \<Rightarrow> num_compare (\<le>) actual (pred_value p)
         | Op_gt \<Rightarrow> num_compare (>) actual (pred_value p)
         | Op_gte \<Rightarrow> num_compare (\<ge>) actual (pred_value p))"

definition conditionHolds :: "policy_context \<Rightarrow> policy_predicate list option \<Rightarrow> bool" where
  "conditionHolds ctx w = (case w of None \<Rightarrow> True | Some ps \<Rightarrow> list_all (evalPredicate ctx) ps)"

section \<open>registry.ts\<close>

definition isRegisteredEffectKind :: "string \<Rightarrow> bool" where
  "isRegisteredEffectKind kind = (kind \<in> set EFFECT_KINDS)"

definition isRegisteredResource :: "policy_package \<Rightarrow> string \<Rightarrow> bool" where
  "isRegisteredResource pkg r = (r \<in> set (pkg_resources pkg))"

definition isRegisteredAction :: "policy_package \<Rightarrow> string \<Rightarrow> bool" where
  "isRegisteredAction pkg a = (a \<in> set (pkg_actions pkg))"

definition effects_of :: "outcome \<Rightarrow> effect list" where
  "effects_of oc = (case out_effects oc of None \<Rightarrow> [] | Some es \<Rightarrow> es)"

definition has_capability :: "outcome \<Rightarrow> bool" where
  "has_capability oc =
     (case out_required_capability oc of None \<Rightarrow> False | Some c \<Rightarrow> c \<noteq> [])"

definition assertOutcomeValid :: "string \<Rightarrow> outcome \<Rightarrow> (policy_error, unit) result" where
  "assertOutcomeValid label oc =
     (case filter (\<lambda>e. \<not> isRegisteredEffectKind (effect_kind e)) (effects_of oc) of
        e # _ \<Rightarrow> Inl (UNREGISTERED_EFFECT (effect_kind e))
      | [] \<Rightarrow>
          (let isOverride = (out_decision oc = REQUIRES_OVERRIDE);
               hasCapability = has_capability oc
           in if isOverride \<and> \<not> hasCapability then Inl (MALFORMED_RULE label)
              else if \<not> isOverride \<and> hasCapability then Inl (MALFORMED_RULE label)
              else Inr ()))"

definition validate_rule :: "policy_package \<Rightarrow> unit \<Rightarrow> policy_rule \<Rightarrow> (policy_error, unit) result" where
  "validate_rule pkg _ rule =
     (if rule_resource rule \<notin> set (pkg_resources pkg) then Inl (UNREGISTERED_RESOURCE (rule_resource rule))
      else if rule_action rule \<notin> set (pkg_actions pkg) then Inl (UNREGISTERED_ACTION (rule_action rule))
      else assertOutcomeValid (rule_id rule) (rule_outcome rule))"

definition validatePackage :: "policy_package \<Rightarrow> (policy_error, unit) result" where
  "validatePackage pkg = (case pkg_default_disposition pkg of
     None \<Rightarrow> Inl MISSING_DEFAULT_DISPOSITION
   | Some d \<Rightarrow> rbind (assertOutcomeValid ''default_disposition'' d)
                 (\<lambda>_. rfold (validate_rule pkg) () (pkg_rules pkg)))"

section \<open>compose.ts\<close>

definition paramsSignature :: "effect \<Rightarrow> tok list" where
  "paramsSignature e = stable (case effect_params e of None \<Rightarrow> JNull | Some p \<Rightarrow> p)"

record effect_union =
  eu_effects :: "effect list"
  eu_conflict :: bool

definition EXCLUSIVE_EFFECT_KINDS :: "string set" where
  "EXCLUSIVE_EFFECT_KINDS = {}"

text \<open>
  The loop of \<open>unionEffects\<close>: \<open>emitted\<close> holds the (kind, signature) pairs
  already pushed (the source keys its set by their JSON text), \<open>sigs\<close> the distinct
  signatures seen per kind, \<open>out\<close> the result so far.
\<close>

fun unionEffects_loop ::
  "string set \<Rightarrow> (string \<times> tok list) list \<Rightarrow> (string \<Rightarrow> tok list list) \<Rightarrow> effect list \<Rightarrow>
   effect list \<Rightarrow> effect_union" where
  "unionEffects_loop excl emitted sigs out [] = \<lparr>eu_effects = out, eu_conflict = False\<rparr>"
| "unionEffects_loop excl emitted sigs out (e # es) =
     (let sig = paramsSignature e;
          id = (effect_kind e, sig);
          fresh = id \<notin> set emitted;
          emitted' = (if fresh then id # emitted else emitted);
          out' = (if fresh then out @ [e] else out);
          ks = (if sig \<in> set (sigs (effect_kind e)) then sigs (effect_kind e)
                else sig # sigs (effect_kind e));
          sigs' = sigs(effect_kind e := ks)
      in if effect_kind e \<in> excl \<and> length ks > 1
         then \<lparr>eu_effects = [], eu_conflict = True\<rparr>
         else unionEffects_loop excl emitted' sigs' out' es)"

definition unionEffects :: "string set \<Rightarrow> effect list \<Rightarrow> effect_union" where
  "unionEffects excl es = unionEffects_loop excl [] (\<lambda>_. []) [] es"

definition hasEffect :: "effect list \<Rightarrow> string \<Rightarrow> bool" where
  "hasEffect es kind = list_ex (\<lambda>e. effect_kind e = kind) es"

definition finalize ::
  "decision \<Rightarrow> string \<Rightarrow> string list \<Rightarrow> effect list \<Rightarrow> string list \<Rightarrow>
   decision_provenance list \<Rightarrow> policy_decision" where
  "finalize d reason caps es warns prov =
     (let override_required = (d = REQUIRES_OVERRIDE);
          audit_required = (d = ALLOW_WITH_AUDIT \<or> hasEffect es ''WRITE_AUDIT'');
          reason_required = (override_required \<or> hasEffect es ''REQUIRE_REASON'')
      in \<lparr>pd_decision = d, pd_reason_code = reason, pd_required_capabilities = caps,
          pd_audit_required = audit_required, pd_override_required = override_required,
          pd_reason_required = reason_required, pd_warnings = warns, pd_effects = es,
          pd_provenance = prov\<rparr>)"

definition composePolicyDecisions ::
  "policy_decision list \<Rightarrow> (policy_error, policy_decision) result" where
  "composePolicyDecisions decisions =
     (case first_max (\<lambda>d. DECISION_PRECEDENCE (pd_decision d)) decisions of
        None \<Rightarrow> Inl EMPTY_COMPOSITION
      | Some winner \<Rightarrow>
          (let provenance = concat (map pd_provenance decisions);
               warnings = js_dedupe (concat (map pd_warnings decisions));
               d = pd_decision winner;
               union = unionEffects EXCLUSIVE_EFFECT_KINDS (concat (map pd_effects decisions))
           in if eu_conflict union
              then Inr (finalize DENY ''POLICY_EFFECT_CONFLICT'' [] [] warnings provenance)
              else
                (let caps = (if d = REQUIRES_OVERRIDE
                       then js_dedupe (concat (map pd_required_capabilities
                              (filter (\<lambda>x. pd_decision x = REQUIRES_OVERRIDE) decisions)))
                       else [])
                 in Inr (finalize d (pd_reason_code winner) caps (eu_effects union)
                      warnings provenance))))"

datatype authorization_verdict = Auth_ALLOW | Auth_DENY

definition composeWithAuthorization ::
  "authorization_verdict \<Rightarrow> policy_decision \<Rightarrow> policy_decision" where
  "composeWithAuthorization authz policy =
     (if authz = Auth_DENY
      then finalize DENY ''AUTHORIZATION_DENIED'' [] (pd_effects policy) (pd_warnings policy)
             (pd_provenance policy)
      else policy)"

section \<open>evaluate.ts\<close>

definition capability_list :: "outcome \<Rightarrow> string list" where
  "capability_list oc =
     (case out_required_capability oc of
        Some c \<Rightarrow> if out_decision oc = REQUIRES_OVERRIDE \<and> c \<noteq> [] then [c] else []
      | None \<Rightarrow> [])"

definition outcome_decision :: "policy_package \<Rightarrow> string \<Rightarrow> outcome \<Rightarrow> policy_decision" where
  "outcome_decision pkg rid oc =
     finalize (out_decision oc) (out_reason_code oc) (capability_list oc) (effects_of oc) []
       [\<lparr>prov_policy_version = pkg_version pkg, prov_rule_id = rid\<rparr>]"

definition ruleToDecision :: "policy_package \<Rightarrow> policy_rule \<Rightarrow> policy_decision" where
  "ruleToDecision pkg rule = outcome_decision pkg (rule_id rule) (rule_outcome rule)"

definition dispositionToDecision :: "policy_package \<Rightarrow> (policy_error, policy_decision) result" where
  "dispositionToDecision pkg = (case pkg_default_disposition pkg of
     None \<Rightarrow> Inl JS_TYPE_ERROR
   | Some d \<Rightarrow> Inr (outcome_decision pkg ''__default__'' d))"

definition rule_matches :: "policy_context \<Rightarrow> policy_rule \<Rightarrow> bool" where
  "rule_matches ctx rule \<longleftrightarrow> rule_resource rule = ctx_resource ctx \<and>
     rule_action rule = ctx_action ctx \<and> conditionHolds ctx (rule_when rule)"

definition matched_rules :: "policy_package \<Rightarrow> policy_context \<Rightarrow> policy_rule list" where
  "matched_rules pkg ctx = filter (rule_matches ctx) (pkg_rules pkg)"

definition evaluate ::
  "policy_package \<Rightarrow> policy_context \<Rightarrow> (policy_error, policy_decision) result" where
  "evaluate pkg ctx =
     (if \<not> isRegisteredResource pkg (ctx_resource ctx)
      then Inl (UNREGISTERED_RESOURCE (ctx_resource ctx))
      else if \<not> isRegisteredAction pkg (ctx_action ctx)
      then Inl (UNREGISTERED_ACTION (ctx_action ctx))
      else
        (let matched = map (ruleToDecision pkg) (matched_rules pkg ctx)
         in if matched \<noteq> [] then composePolicyDecisions matched
            else rbind (dispositionToDecision pkg) (\<lambda>d. composePolicyDecisions [d])))"

section \<open>Verdicts are ordered by restrictiveness\<close>

instantiation decision :: linorder
begin

definition less_eq_decision :: "decision \<Rightarrow> decision \<Rightarrow> bool" where
  "less_eq_decision a b \<longleftrightarrow> DECISION_PRECEDENCE a \<le> DECISION_PRECEDENCE b"

definition less_decision :: "decision \<Rightarrow> decision \<Rightarrow> bool" where
  "less_decision a b \<longleftrightarrow> DECISION_PRECEDENCE a < DECISION_PRECEDENCE b"

instance
proof
  fix x y :: decision
  show "x \<le> y \<Longrightarrow> y \<le> x \<Longrightarrow> x = y"
    by (cases x; cases y) (auto simp: less_eq_decision_def)
qed (auto simp: less_eq_decision_def less_decision_def)

end

lemma decision_top: "(d :: decision) \<le> DENY" and decision_bot: "ALLOW \<le> (d :: decision)"
  by (cases d; simp add: less_eq_decision_def)+

text \<open>
  The contract of a most-restrictive-wins composition, and what any client may conclude
  from it: no input verdict is ever loosened, more inputs never loosen, the order of the
  inputs does not matter, and composing partial compositions gives the same verdict.
\<close>

locale most_restrictive =
  fixes compose :: "'d list \<Rightarrow> ('e, 'd) result"
    and verdict :: "'d \<Rightarrow> 'v::linorder"
  assumes compose_verdict: "ds \<noteq> [] \<Longrightarrow> \<exists>d. compose ds = Inr d \<and> verdict d = Max (verdict ` set ds)"
    and compose_empty: "\<exists>e. compose [] = Inl e"
begin

lemma compose_Inr_verdict: "compose ds = Inr d \<Longrightarrow> verdict d = Max (verdict ` set ds)"
  using compose_verdict [of ds] compose_empty by (cases "ds = []") auto

lemma compose_Inr_nonempty: "compose ds = Inr d \<Longrightarrow> ds \<noteq> []"
  using compose_empty by auto

lemma never_loosens: "compose ds = Inr d \<Longrightarrow> x \<in> set ds \<Longrightarrow> verdict x \<le> verdict d"
  by (simp add: compose_Inr_verdict)

lemma verdict_attained: "compose ds = Inr d \<Longrightarrow> \<exists>x\<in>set ds. verdict d = verdict x"
  using Max_in [of "verdict ` set ds"] compose_Inr_nonempty
  by (fastforce simp: compose_Inr_verdict)

lemma more_never_loosens:
  "compose ds = Inr d \<Longrightarrow> compose es = Inr e \<Longrightarrow> set ds \<subseteq> set es \<Longrightarrow> verdict d \<le> verdict e"
  using Max_mono [of "verdict ` set ds" "verdict ` set es"] compose_Inr_nonempty
  by (fastforce simp: compose_Inr_verdict image_mono)

lemma order_irrelevant:
  "compose ds = Inr d \<Longrightarrow> compose es = Inr e \<Longrightarrow> set ds = set es \<Longrightarrow> verdict d = verdict e"
  by (simp add: compose_Inr_verdict)

lemma compose_staged:
  assumes "compose ds = Inr d" "compose es = Inr e" "compose [d, e] = Inr x" "compose (ds @ es) = Inr y"
  shows "verdict x = verdict y"
  using assms compose_Inr_nonempty [of ds] compose_Inr_nonempty [of es]
  by (simp add: compose_Inr_verdict image_Un Max_Un)

end

section \<open>Effect union\<close>

abbreviation effect_key :: "effect \<Rightarrow> string \<times> tok list" where
  "effect_key e \<equiv> (effect_kind e, paramsSignature e)"

text \<open>The reference: the first effect of each key, in order.\<close>

fun first_per_key :: "(string \<times> tok list) list \<Rightarrow> effect list \<Rightarrow> effect list" where
  "first_per_key seen [] = []"
| "first_per_key seen (e # es) =
     (if effect_key e \<in> set seen then first_per_key seen es
      else e # first_per_key (effect_key e # seen) es)"

lemma first_per_key_keys: "effect_key ` set (first_per_key seen es) = effect_key ` set es - set seen"
  by (induction seen es rule: first_per_key.induct) auto



lemma unionEffects_loop_free:
  "unionEffects_loop {} emitted sigs out es =
     \<lparr>eu_effects = out @ first_per_key emitted es, eu_conflict = False\<rparr>"
  by (induction es arbitrary: emitted sigs out) (simp_all add: Let_def)

lemma unionEffects_free:
  "unionEffects {} es = \<lparr>eu_effects = first_per_key [] es, eu_conflict = False\<rparr>"
  by (simp add: unionEffects_def unionEffects_loop_free)

lemma unionEffects_current [simp]:
  "\<not> eu_conflict (unionEffects EXCLUSIVE_EFFECT_KINDS es)"
  by (simp add: EXCLUSIVE_EFFECT_KINDS_def unionEffects_free)

lemma hasEffect_iff: "hasEffect es k \<longleftrightarrow> k \<in> effect_kind ` set es"
  by (auto simp: hasEffect_def list_ex_iff)

lemma hasEffect_union [simp]:
  "hasEffect (eu_effects (unionEffects EXCLUSIVE_EFFECT_KINDS es)) k \<longleftrightarrow> hasEffect es k"
proof -
  have "fst ` effect_key ` set (first_per_key [] es) = fst ` effect_key ` set es"
    by (simp only: first_per_key_keys) simp
  then show ?thesis
    by (simp add: hasEffect_iff EXCLUSIVE_EFFECT_KINDS_def unionEffects_free image_image)
qed

text \<open>With exclusive kinds, the only way to fail is two signatures of one such kind.\<close>

definition sig_conflict :: "string set \<Rightarrow> effect set \<Rightarrow> bool" where
  "sig_conflict excl E \<longleftrightarrow> (\<exists>e1\<in>E. \<exists>e2\<in>E. effect_kind e1 = effect_kind e2 \<and>
     effect_kind e1 \<in> excl \<and> paramsSignature e1 \<noteq> paramsSignature e2)"

lemma sig_conflict_insert:
  "\<not> sig_conflict excl (set es) \<Longrightarrow>
   \<not> (effect_kind e \<in> excl \<and> (\<exists>x\<in>set (e # es). effect_kind x = effect_kind e \<and>
        paramsSignature x \<noteq> paramsSignature e)) \<Longrightarrow>
   \<not> sig_conflict excl (set (e # es))"
  unfolding sig_conflict_def by (metis set_ConsD)

lemma unionEffects_loop_conflict:
  assumes "\<And>k. distinct (sigs k) \<and> set (sigs k) = paramsSignature ` {e \<in> set done. effect_kind e = k}"
    and "\<not> sig_conflict excl (set done)"
  shows "eu_conflict (unionEffects_loop excl emitted sigs out es) \<longleftrightarrow>
    sig_conflict excl (set done \<union> set es)"
  using assms
proof (induction es arbitrary: emitted sigs out "done")
  case Nil
  then show ?case by simp
next
  case (Cons e es)
  let ?k = "effect_kind e" and ?s = "paramsSignature e"
  define ks where "ks = (if ?s \<in> set (sigs ?k) then sigs ?k else ?s # sigs ?k)"
  have ks: "distinct ks" "set ks = paramsSignature ` {x \<in> set (e # done). effect_kind x = ?k}"
    using Cons.prems(1) [of ?k] by (auto simp: ks_def)
  have sigs': "distinct ((sigs(?k := ks)) k) \<and>
      set ((sigs(?k := ks)) k) = paramsSignature ` {x \<in> set (e # done). effect_kind x = k}" for k
    using Cons.prems(1) [of k] ks by auto
  have len: "length ks > 1 \<longleftrightarrow> (\<exists>x\<in>set (e # done). effect_kind x = ?k \<and> paramsSignature x \<noteq> ?s)"
  proof -
    have "?s \<in> set ks" using ks(2) by auto
    then have "length ks \<le> Suc 0 \<longleftrightarrow> (\<forall>t\<in>set ks. t = ?s)"
      using card_le_Suc0_iff_eq [of "set ks"] distinct_card [OF ks(1)] by (metis List.finite_set)
    then show ?thesis using ks(2) by (auto simp: not_le [symmetric])
  qed
  obtain em' out' where step: "unionEffects_loop excl emitted sigs out (e # es) =
      (if ?k \<in> excl \<and> length ks > 1 then \<lparr>eu_effects = [], eu_conflict = True\<rparr>
       else unionEffects_loop excl em' (sigs(?k := ks)) out' es)"
    unfolding unionEffects_loop.simps Let_def ks_def by blast
  show ?case
  proof (cases "?k \<in> excl \<and> length ks > 1")
    case True
    then have "sig_conflict excl (set done \<union> set (e # es))"
      using len by (fastforce simp: sig_conflict_def)
    with True step show ?thesis by simp
  next
    case False
    have "\<not> sig_conflict excl (set (e # done))"
      using Cons.prems(2) by (rule sig_conflict_insert) (use False len in auto)
    then have "eu_conflict (unionEffects_loop excl em' (sigs(?k := ks)) out' es) \<longleftrightarrow>
        sig_conflict excl (set (e # done) \<union> set es)"
      by (intro Cons.IH sigs')
    then show ?thesis unfolding step if_not_P [OF False] by simp
  qed
qed

lemma unionEffects_conflict_iff:
  "eu_conflict (unionEffects excl es) \<longleftrightarrow> sig_conflict excl (set es)"
  using unionEffects_loop_conflict [of "\<lambda>_. []" "[]" excl "[]" "[]" es]
  by (simp add: unionEffects_def sig_conflict_def)

section \<open>Composition and evaluation\<close>

lemma finalize_sel [simp]:
  "pd_decision (finalize d r c es w p) = d"
  "pd_reason_code (finalize d r c es w p) = r"
  "pd_required_capabilities (finalize d r c es w p) = c"
  "pd_effects (finalize d r c es w p) = es"
  "pd_warnings (finalize d r c es w p) = w"
  "pd_provenance (finalize d r c es w p) = p"
  "pd_audit_required (finalize d r c es w p) \<longleftrightarrow> d = ALLOW_WITH_AUDIT \<or> hasEffect es ''WRITE_AUDIT''"
  "pd_override_required (finalize d r c es w p) \<longleftrightarrow> d = REQUIRES_OVERRIDE"
  "pd_reason_required (finalize d r c es w p) \<longleftrightarrow> d = REQUIRES_OVERRIDE \<or> hasEffect es ''REQUIRE_REASON''"
  by (simp_all add: finalize_def Let_def)

abbreviation verdict_rank :: "policy_decision \<Rightarrow> nat" where
  "verdict_rank d \<equiv> DECISION_PRECEDENCE (pd_decision d)"

text \<open>
  Every composition of a non-empty list has this shape: the first decision of greatest
  rank gives verdict and reason, the effects are the first of each key.
\<close>

lemma composePolicyDecisions_shape:
  assumes "ds \<noteq> []"
  obtains w where "first_max verdict_rank ds = Some w"
    and "composePolicyDecisions ds = Inr (finalize (pd_decision w) (pd_reason_code w)
      (if pd_decision w = REQUIRES_OVERRIDE
       then js_dedupe (concat (map pd_required_capabilities
              (filter (\<lambda>x. pd_decision x = REQUIRES_OVERRIDE) ds))) else [])
      (first_per_key [] (concat (map pd_effects ds)))
      (js_dedupe (concat (map pd_warnings ds))) (concat (map pd_provenance ds)))"
proof -
  obtain w where "first_max verdict_rank ds = Some w" using first_max_ex [OF assms] by blast
  then show ?thesis
    by (intro that [of w])
      (simp_all add: composePolicyDecisions_def Let_def EXCLUSIVE_EFFECT_KINDS_def unionEffects_free)
qed

lemma decision_Max_rank:
  assumes "finite D" "D \<noteq> {}" "d \<in> D" "\<And>x. x \<in> D \<Longrightarrow> DECISION_PRECEDENCE x \<le> DECISION_PRECEDENCE d"
  shows "d = Max D"
  using assms by (intro Max_eqI [symmetric]) (auto simp: less_eq_decision_def)

interpretation policy_compose: most_restrictive composePolicyDecisions pd_decision
proof
  fix ds :: "policy_decision list" assume "ds \<noteq> []"
  then obtain w where w: "first_max verdict_rank ds = Some w"
    and "\<exists>d. composePolicyDecisions ds = Inr d \<and> pd_decision d = pd_decision w"
    by (rule composePolicyDecisions_shape) auto
  moreover have "pd_decision w = Max (pd_decision ` set ds)"
    using first_max_in [OF w] first_max_ge [OF w] by (intro decision_Max_rank) auto
  ultimately show "\<exists>d. composePolicyDecisions ds = Inr d \<and> pd_decision d = Max (pd_decision ` set ds)"
    by auto
next
  show "\<exists>e. composePolicyDecisions [] = Inl e"
    by (simp add: composePolicyDecisions_def)
qed

abbreviation rule_verdict :: "policy_rule \<Rightarrow> decision" where
  "rule_verdict r \<equiv> out_decision (rule_outcome r)"

lemma ruleToDecision_sel [simp]:
  "pd_decision (ruleToDecision pkg r) = rule_verdict r"
  "pd_reason_code (ruleToDecision pkg r) = out_reason_code (rule_outcome r)"
  "pd_required_capabilities (ruleToDecision pkg r) = capability_list (rule_outcome r)"
  "pd_effects (ruleToDecision pkg r) = effects_of (rule_outcome r)"
  "pd_warnings (ruleToDecision pkg r) = []"
  by (simp_all add: ruleToDecision_def outcome_decision_def)

definition registered_ctx :: "policy_package \<Rightarrow> policy_context \<Rightarrow> bool" where
  "registered_ctx pkg ctx \<longleftrightarrow> ctx_resource ctx \<in> set (pkg_resources pkg) \<and>
     ctx_action ctx \<in> set (pkg_actions pkg)"

lemma evaluate_matched:
  assumes "registered_ctx pkg ctx" and "matched_rules pkg ctx \<noteq> []"
  shows "evaluate pkg ctx = composePolicyDecisions (map (ruleToDecision pkg) (matched_rules pkg ctx))"
  using assms by (auto simp: evaluate_def registered_ctx_def isRegisteredResource_def
      isRegisteredAction_def Let_def)

lemma evaluate_unmatched:
  assumes "registered_ctx pkg ctx" and "matched_rules pkg ctx = []"
  shows "evaluate pkg ctx = rbind (dispositionToDecision pkg) (\<lambda>d. composePolicyDecisions [d])"
  using assms by (auto simp: evaluate_def registered_ctx_def isRegisteredResource_def
      isRegisteredAction_def Let_def)

lemma evaluate_unregistered:
  "\<not> registered_ctx pkg ctx \<Longrightarrow> \<exists>e. evaluate pkg ctx = Inl e"
  by (auto simp: evaluate_def registered_ctx_def isRegisteredResource_def isRegisteredAction_def)

lemmas evaluate_cases = evaluate_matched evaluate_unmatched evaluate_unregistered

section \<open>Authored packages\<close>

definition outcome_ok :: "outcome \<Rightarrow> bool" where
  "outcome_ok oc \<longleftrightarrow> (\<forall>e\<in>set (effects_of oc). effect_kind e \<in> set EFFECT_KINDS) \<and>
     (out_decision oc = REQUIRES_OVERRIDE \<longleftrightarrow> has_capability oc)"

definition package_ok :: "policy_package \<Rightarrow> bool" where
  "package_ok pkg \<longleftrightarrow> (\<exists>d. pkg_default_disposition pkg = Some d \<and> outcome_ok d) \<and>
     (\<forall>r\<in>set (pkg_rules pkg). rule_resource r \<in> set (pkg_resources pkg) \<and>
        rule_action r \<in> set (pkg_actions pkg) \<and> outcome_ok (rule_outcome r))"

lemma assertOutcomeValid_iff: "assertOutcomeValid l oc = Inr () \<longleftrightarrow> outcome_ok oc"
proof (cases "filter (\<lambda>e. \<not> isRegisteredEffectKind (effect_kind e)) (effects_of oc)")
  case Nil
  then show ?thesis
    by (auto simp: assertOutcomeValid_def outcome_ok_def isRegisteredEffectKind_def Let_def
        filter_empty_conv)
next
  case (Cons e es)
  then have "e \<in> set (effects_of oc) \<and> \<not> isRegisteredEffectKind (effect_kind e)"
    by (auto dest: filter_eq_ConsD)
  with Cons show ?thesis
    by (auto simp: assertOutcomeValid_def outcome_ok_def isRegisteredEffectKind_def)
qed

lemma rfold_unit_iff: "rfold f () xs = Inr () \<longleftrightarrow> (\<forall>x\<in>set xs. f () x = Inr ())"
  by (induction xs) (auto simp: aramo_simps)

lemma validate_rule_iff:
  "validate_rule pkg u r = Inr () \<longleftrightarrow> rule_resource r \<in> set (pkg_resources pkg) \<and>
     rule_action r \<in> set (pkg_actions pkg) \<and> outcome_ok (rule_outcome r)"
  by (auto simp: validate_rule_def assertOutcomeValid_iff)

lemma validatePackage_iff: "validatePackage pkg = Inr () \<longleftrightarrow> package_ok pkg"
  by (auto simp: validatePackage_def package_ok_def rfold_unit_iff validate_rule_iff
      aramo_simps assertOutcomeValid_iff split: option.splits)

lemma capability_list_nonempty:
  "outcome_ok oc \<Longrightarrow> capability_list oc \<noteq> [] \<longleftrightarrow> out_decision oc = REQUIRES_OVERRIDE"
  by (auto simp: outcome_ok_def capability_list_def has_capability_def split: option.splits)

lemma composed_override_caps:
  assumes c: "composePolicyDecisions ds = Inr d"
    and ok: "\<And>x. x \<in> set ds \<Longrightarrow> pd_required_capabilities x \<noteq> [] \<longleftrightarrow> pd_decision x = REQUIRES_OVERRIDE"
  shows "pd_required_capabilities d \<noteq> [] \<longleftrightarrow> pd_override_required d"
proof -
  have "ds \<noteq> []" using policy_compose.compose_Inr_nonempty [OF c] .
  then obtain w where w: "first_max verdict_rank ds = Some w"
    and d: "pd_required_capabilities d = (if pd_decision w = REQUIRES_OVERRIDE
       then js_dedupe (concat (map pd_required_capabilities
              (filter (\<lambda>x. pd_decision x = REQUIRES_OVERRIDE) ds))) else [])"
       "pd_override_required d \<longleftrightarrow> pd_decision w = REQUIRES_OVERRIDE"
    by (rule composePolicyDecisions_shape) (use c in auto)
  show ?thesis using d ok [OF first_max_in [OF w]] first_max_in [OF w] by auto
qed

section \<open>Properties\<close>

abbreviation params_json :: "effect \<Rightarrow> json" where
  "params_json e \<equiv> (case effect_params e of None \<Rightarrow> JNull | Some p \<Rightarrow> p)"




lemma composed_rules:
  assumes "registered_ctx pkg ctx" and "matched_rules pkg ctx \<noteq> []"
  obtains d r where "evaluate pkg ctx = Inr d"
    and "first_max (\<lambda>r. DECISION_PRECEDENCE (rule_verdict r)) (matched_rules pkg ctx) = Some r"
    and "pd_decision d = rule_verdict r" and "pd_reason_code d = out_reason_code (rule_outcome r)"
    and "pd_effects d = first_per_key [] (concat (map (effects_of \<circ> rule_outcome) (matched_rules pkg ctx)))"
    and "pd_required_capabilities d = (if rule_verdict r = REQUIRES_OVERRIDE
      then js_dedupe (concat (map (capability_list \<circ> rule_outcome)
        (filter (\<lambda>x. rule_verdict x = REQUIRES_OVERRIDE) (matched_rules pkg ctx)))) else [])"
proof -
  let ?ds = "map (ruleToDecision pkg) (matched_rules pkg ctx)"
  have "?ds \<noteq> []" using assms(2) by simp
  then obtain w where w: "first_max verdict_rank ?ds = Some w" and
    c: "composePolicyDecisions ?ds = Inr (finalize (pd_decision w) (pd_reason_code w)
      (if pd_decision w = REQUIRES_OVERRIDE
       then js_dedupe (concat (map pd_required_capabilities
              (filter (\<lambda>x. pd_decision x = REQUIRES_OVERRIDE) ?ds))) else [])
      (first_per_key [] (concat (map pd_effects ?ds)))
      (js_dedupe (concat (map pd_warnings ?ds))) (concat (map pd_provenance ?ds)))"
    by (rule composePolicyDecisions_shape)
  from w obtain r where
    "first_max (\<lambda>r. DECISION_PRECEDENCE (rule_verdict r)) (matched_rules pkg ctx) = Some r"
    and "w = ruleToDecision pkg r"
    by (auto simp: first_max_map o_def)
  then show ?thesis using c
    by (intro that) (auto simp: evaluate_matched [OF assms] filter_map o_def)
qed

text \<open>
  C6. Most restrictive wins: when some rule of a registered context matches, evaluation
  returns a decision whose verdict and reason code are those of one matched rule, every
  matched rule before it is strictly less restrictive and none after it is more restrictive.
\<close>

theorem evaluate_most_restrictive:
  assumes "registered_ctx pkg ctx" and "matched_rules pkg ctx \<noteq> []"
  shows "\<exists>d ys r zs. evaluate pkg ctx = Inr d \<and> matched_rules pkg ctx = ys @ r # zs \<and>
    (\<forall>y\<in>set ys. rule_verdict y < rule_verdict r) \<and> (\<forall>z\<in>set zs. rule_verdict z \<le> rule_verdict r) \<and>
    pd_decision d = rule_verdict r \<and> pd_reason_code d = out_reason_code (rule_outcome r)"
proof -
  obtain d r where d: "evaluate pkg ctx = Inr d" "pd_decision d = rule_verdict r"
      "pd_reason_code d = out_reason_code (rule_outcome r)"
    and r: "first_max (\<lambda>r. DECISION_PRECEDENCE (rule_verdict r)) (matched_rules pkg ctx) = Some r"
    by (rule composed_rules [OF assms])
  from first_max_first [OF r] d show ?thesis
    unfolding less_decision_def less_eq_decision_def by metis
qed


text \<open>
  C38. A package that passes validation never makes evaluation fail on a registered context,
  and the decision asks for an override exactly when it names a capability to hold.
\<close>

theorem validated_package_total:
  assumes "validatePackage pkg = Inr ()" and "registered_ctx pkg ctx"
  shows "\<exists>d. evaluate pkg ctx = Inr d \<and>
    (pd_override_required d \<longleftrightarrow> pd_required_capabilities d \<noteq> [])"
proof -
  have ok: "package_ok pkg" using assms(1) by (simp add: validatePackage_iff)
  obtain ds where ev: "evaluate pkg ctx = composePolicyDecisions ds" "ds \<noteq> []" and
    caps: "\<And>x. x \<in> set ds \<Longrightarrow> pd_required_capabilities x \<noteq> [] \<longleftrightarrow> pd_decision x = REQUIRES_OVERRIDE"
  proof (cases "matched_rules pkg ctx = []")
    case True
    obtain oc where "pkg_default_disposition pkg = Some oc" "outcome_ok oc"
      using ok by (auto simp: package_ok_def)
    then show ?thesis
      by (intro that [of "[outcome_decision pkg ''__default__'' oc]"])
        (auto simp: evaluate_unmatched [OF assms(2) True] dispositionToDecision_def
          outcome_decision_def capability_list_nonempty)
  next
    case False
    have "outcome_ok (rule_outcome r)" if "r \<in> set (matched_rules pkg ctx)" for r
      using ok that by (auto simp: package_ok_def matched_rules_def)
    with False show ?thesis
      by (intro that [of "map (ruleToDecision pkg) (matched_rules pkg ctx)"])
        (auto simp: evaluate_matched [OF assms(2)] capability_list_nonempty [symmetric])
  qed
  then obtain d where "composePolicyDecisions ds = Inr d"
    using policy_compose.compose_verdict by blast
  with ev caps composed_override_caps show ?thesis by metis
qed

text \<open>C30. Package validation accepts exactly the well-formed packages.\<close>

theorem validatePackage_accepts_exactly: "validatePackage pkg = Inr () \<longleftrightarrow> package_ok pkg"
  by (rule validatePackage_iff)

text \<open>
  Once a rule matches, publishing further rules can only keep or raise the
  restrictiveness of the verdict.
\<close>

theorem evaluate_more_rules_never_loosen:
  assumes "registered_ctx pkg ctx" and "matched_rules pkg ctx \<noteq> []"
    and "evaluate pkg ctx = Inr d"
    and "set (pkg_rules pkg) \<subseteq> set rules'"
    and "evaluate (pkg\<lparr>pkg_rules := rules'\<rparr>) ctx = Inr d'"
  shows "pd_decision d \<le> pd_decision d'"
proof -
  let ?pkg' = "pkg\<lparr>pkg_rules := rules'\<rparr>"
  have reg: "registered_ctx ?pkg' ctx" using assms(1) by (simp add: registered_ctx_def)
  have sub: "set (matched_rules pkg ctx) \<subseteq> set (matched_rules ?pkg' ctx)"
    using assms(4) by (auto simp: matched_rules_def)
  then have ne: "matched_rules ?pkg' ctx \<noteq> []" using assms(2) by auto
  have same: "ruleToDecision ?pkg' r = ruleToDecision pkg r" for r
    by (simp add: ruleToDecision_def outcome_decision_def)
  show ?thesis
    using assms(3,5) unfolding evaluate_matched [OF assms(1,2)] evaluate_matched [OF reg ne]
    by (rule policy_compose.more_never_loosens) (use sub same in auto)
qed

text \<open>
  The fail-closed branch of the effect union is taken exactly when an exclusive kind
  occurs with two different parameter signatures.
\<close>

theorem unionEffects_conflict_exact:
  "eu_conflict (unionEffects excl es) \<longleftrightarrow>
     (\<exists>e1\<in>set es. \<exists>e2\<in>set es. effect_kind e1 = effect_kind e2 \<and> effect_kind e1 \<in> excl \<and>
        paramsSignature e1 \<noteq> paramsSignature e2)"
  by (simp add: unionEffects_conflict_iff sig_conflict_def)

text \<open>
  Two parameter objects get the same signature exactly when they are deep-equal up to
  the order of their keys.
\<close>

theorem signature_is_deep_equality:
  assumes "wf_json (params_json e1)" and "wf_json (params_json e2)"
  shows "paramsSignature e1 = paramsSignature e2 \<longleftrightarrow> deep_eq (params_json e1) (params_json e2)"
  using assms by (simp add: paramsSignature_def stable_eq_iff)

section \<open>Witnesses\<close>

text \<open>
  A small requisition package: adding talent is allowed, and refused with an audit
  obligation when the requisition is declared closed; a filled one needs an override.
\<close>

definition ex_audit :: effect where
  "ex_audit = \<lparr>effect_kind = ''WRITE_AUDIT'', effect_params = None\<rparr>"

definition ex_notify :: effect where
  "ex_notify = \<lparr>effect_kind = ''NOTIFY_ROLE'',
     effect_params = Some (JObj [(''role'', JStr ''manager''), (''level'', JNum (JFin 2))])\<rparr>"

definition ex_rule :: "string \<Rightarrow> policy_predicate list option \<Rightarrow> decision \<Rightarrow> string \<Rightarrow>
    string option \<Rightarrow> effect list option \<Rightarrow> policy_rule" where
  "ex_rule rid w d reason cap es =
     \<lparr>rule_id = rid, rule_resource = ''REQUISITION_TALENT'', rule_action = ''ADD'', rule_when = w,
      rule_outcome = \<lparr>out_decision = d, out_reason_code = reason, out_required_capability = cap,
        out_effects = es\<rparr>\<rparr>"

definition ex_status_is :: "string \<Rightarrow> policy_predicate list option" where
  "ex_status_is st = Some [\<lparr>pred_source = Src_declared, pred_key = ''status'', pred_op = Op_eq,
     pred_value = Some (JStr st)\<rparr>]"

definition ex_rules :: "policy_rule list" where
  "ex_rules =
     [ex_rule ''r1'' None ALLOW ''OK'' None (Some [ex_audit]),
      ex_rule ''r2'' (ex_status_is ''closed'') DENY ''CLOSED'' None (Some [ex_audit, ex_notify]),
      ex_rule ''r3'' (ex_status_is ''filled'') REQUIRES_OVERRIDE ''FILLED'' (Some ''override:add'') None]"

definition ex_pkg :: policy_package where
  "ex_pkg = \<lparr>pkg_name = ''requisition-lifecycle'', pkg_version = ''1'',
     pkg_resources = [''REQUISITION_TALENT''], pkg_actions = [''ADD''],
     pkg_default_disposition = Some \<lparr>out_decision = DENY, out_reason_code = ''NO_RULE'',
       out_required_capability = None, out_effects = None\<rparr>,
     pkg_rules = ex_rules\<rparr>"

definition ex_ctx :: policy_context where
  "ex_ctx = \<lparr>ctx_tenant_id = ''t1'', ctx_resource = ''REQUISITION_TALENT'', ctx_action = ''ADD'',
     ctx_resource_state = \<lparr>rs_declared = map_of [(''status'', JStr ''closed'')], rs_derived = Map.empty\<rparr>,
     ctx_principal_capabilities = Map.empty,
     ctx_request_metadata = \<lparr>correlation_id = ''c1'', rm_origin = Origin_ui\<rparr>,
     ctx_environment = ''production'', ctx_time = 0, ctx_attributes = Map.empty\<rparr>"

lemma ex_registered: "registered_ctx ex_pkg ex_ctx"
  by (simp add: registered_ctx_def ex_pkg_def ex_ctx_def)

lemma ex_matched: "matched_rules ex_pkg ex_ctx = take 2 ex_rules"
  by (simp add: matched_rules_def rule_matches_def conditionHolds_def evalPredicate_def bucket_def
      is_value_def Let_def ex_pkg_def ex_ctx_def ex_rules_def ex_rule_def ex_status_is_def)

lemma ex_matched_nonempty: "matched_rules ex_pkg ex_ctx \<noteq> []"
  by (simp add: ex_matched ex_rules_def)

lemma ex_valid: "validatePackage ex_pkg = Inr ()"
  by (simp add: validatePackage_iff package_ok_def outcome_ok_def effects_of_def has_capability_def
      EFFECT_KINDS_def ex_pkg_def ex_rules_def ex_rule_def ex_audit_def ex_notify_def)


theorem evaluate_most_restrictive_witness:
  "\<exists>d ys r zs. evaluate ex_pkg ex_ctx = Inr d \<and> matched_rules ex_pkg ex_ctx = ys @ r # zs \<and>
    (\<forall>y\<in>set ys. rule_verdict y < rule_verdict r) \<and> (\<forall>z\<in>set zs. rule_verdict z \<le> rule_verdict r) \<and>
    pd_decision d = rule_verdict r \<and> pd_reason_code d = out_reason_code (rule_outcome r)"
  by (rule evaluate_most_restrictive [OF ex_registered ex_matched_nonempty])

theorem validated_package_total_witness:
  "\<exists>d. evaluate ex_pkg ex_ctx = Inr d \<and>
    (pd_override_required d \<longleftrightarrow> pd_required_capabilities d \<noteq> [])"
  by (rule validated_package_total [OF ex_valid ex_registered])

lemma ex_evaluates: "\<exists>d. evaluate ex_pkg ex_ctx = Inr d"
  unfolding evaluate_matched [OF ex_registered ex_matched_nonempty]
  using policy_compose.compose_verdict [of "map (ruleToDecision ex_pkg) (matched_rules ex_pkg ex_ctx)"]
    ex_matched_nonempty by auto


theorem evaluate_more_rules_never_loosen_witness:
  "\<exists>d d'. evaluate (ex_pkg\<lparr>pkg_rules := take 1 ex_rules\<rparr>) ex_ctx = Inr d \<and>
     evaluate ex_pkg ex_ctx = Inr d' \<and> pd_decision d \<le> pd_decision d'"
proof -
  let ?small = "ex_pkg\<lparr>pkg_rules := take 1 ex_rules\<rparr>"
  have reg: "registered_ctx ?small ex_ctx"
    using ex_registered by (simp add: registered_ctx_def)
  have m: "matched_rules ?small ex_ctx \<noteq> []"
    by (simp add: matched_rules_def rule_matches_def conditionHolds_def ex_rules_def ex_rule_def ex_ctx_def)
  obtain d where d: "evaluate ?small ex_ctx = Inr d"
    using evaluate_matched [OF reg m] policy_compose.compose_verdict m by (metis Nil_is_map_conv)
  obtain d' where d': "evaluate ex_pkg ex_ctx = Inr d'" using ex_evaluates by blast
  have "?small\<lparr>pkg_rules := ex_rules\<rparr> = ex_pkg" by (simp add: ex_pkg_def)
  moreover have "set (pkg_rules ?small) \<subseteq> set ex_rules" by (auto dest: in_set_takeD)
  ultimately have "pd_decision d \<le> pd_decision d'"
    using evaluate_more_rules_never_loosen [OF reg m d, of ex_rules d'] d' by simp
  with d d' show ?thesis by blast
qed

theorem signature_is_deep_equality_witness:
  "paramsSignature ex_notify = paramsSignature (ex_notify\<lparr>effect_params :=
     Some (JObj [(''level'', JNum (JFin 2)), (''role'', JStr ''manager'')])\<rparr>)"
  using signature_is_deep_equality [of ex_notify "ex_notify\<lparr>effect_params :=
     Some (JObj [(''level'', JNum (JFin 2)), (''role'', JStr ''manager'')])\<rparr>"]
  by (simp add: ex_notify_def)

end
