(* ===== verification/Policy_Store.thy ===== *)
theory Policy_Store
  imports Policy_Engine
begin

text \<open>
  \<^verbatim>\<open>libs/policy-store\<close>: the stored, versioned policy packages of a tenant.
  \<^item> \<^verbatim>\<open>window.ts\<close>: activity windows and the point-in-time selection;
  \<^item> \<^verbatim>\<open>checksum.ts\<close>: the canonical form of a package and its checksum. The canonical
    serialisation is the token text of \<open>Policy_Signature.stable\<close> (keys sorted, arrays in
    order); SHA-256 is the parameter \<open>sha\<close>;
  \<^item> \<^verbatim>\<open>policy-store.ts\<close>: publication, the cached and the historical look-up.
  The state is the table \<open>rows\<close>, which every instance of the service shares, and the
  cache of one instance. Instants are milliseconds; one call reads the clock once.
\<close>

section \<open>window.ts\<close>

record stored_version =
  sv_tenant_id :: string
  sv_package_name :: string
  sv_version :: string
  sv_definition :: policy_package
  sv_checksum :: string
  sv_effective_from :: int
  sv_effective_to :: "int option"
  sv_published_by :: string
  sv_published_at :: int

record stored_row = stored_version +
  sr_id :: string

definition isEffectiveAt :: "'a stored_version_scheme \<Rightarrow> int \<Rightarrow> bool" where
  "isEffectiveAt w t =
     (if t < sv_effective_from w then False
      else case sv_effective_to w of None \<Rightarrow> True | Some e \<Rightarrow> \<not> t \<ge> e)"

definition selectEffectiveAt :: "'a stored_version_scheme list \<Rightarrow> int \<Rightarrow> 'a stored_version_scheme option" where
  "selectEffectiveAt versions t =
     first_max sv_effective_from (filter (\<lambda>v. isEffectiveAt v t) versions)"

section \<open>checksum.ts\<close>

definition opt_field :: "string \<Rightarrow> json option \<Rightarrow> (string \<times> json) list" where
  "opt_field k v = (case v of None \<Rightarrow> [] | Some x \<Rightarrow> [(k, x)])"

fun decision_json :: "decision \<Rightarrow> json" where
  "decision_json ALLOW = JStr ''ALLOW''"
| "decision_json DENY = JStr ''DENY''"
| "decision_json REQUIRES_OVERRIDE = JStr ''REQUIRES_OVERRIDE''"
| "decision_json ALLOW_WITH_AUDIT = JStr ''ALLOW_WITH_AUDIT''"

fun source_json :: "predicate_source \<Rightarrow> json" where
  "source_json Src_declared = JStr ''declared''"
| "source_json Src_derived = JStr ''derived''"
| "source_json Src_attributes = JStr ''attributes''"
| "source_json Src_capabilities = JStr ''capabilities''"

fun op_json :: "predicate_op \<Rightarrow> json" where
  "op_json Op_eq = JStr ''eq''"
| "op_json Op_ne = JStr ''ne''"
| "op_json Op_lt = JStr ''lt''"
| "op_json Op_lte = JStr ''lte''"
| "op_json Op_gt = JStr ''gt''"
| "op_json Op_gte = JStr ''gte''"
| "op_json Op_in = JStr ''in''"
| "op_json Op_exists = JStr ''exists''"

definition effect_json :: "effect \<Rightarrow> json" where
  "effect_json e = JObj ((''kind'', JStr (effect_kind e)) # opt_field ''params'' (effect_params e))"

definition predicate_json :: "policy_predicate \<Rightarrow> json" where
  "predicate_json p =
     JObj ([(''source'', source_json (pred_source p)), (''key'', JStr (pred_key p)),
            (''op'', op_json (pred_op p))] @ opt_field ''value'' (pred_value p))"

definition outcome_fields :: "outcome \<Rightarrow> (string \<times> json) list" where
  "outcome_fields oc =
     [(''decision'', decision_json (out_decision oc)), (''reason_code'', JStr (out_reason_code oc))] @
     opt_field ''required_capability'' (map_option JStr (out_required_capability oc)) @
     opt_field ''effects'' (map_option (\<lambda>es. JArr (map effect_json es)) (out_effects oc))"

definition rule_json :: "policy_rule \<Rightarrow> json" where
  "rule_json r =
     JObj ([(''id'', JStr (rule_id r)), (''resource'', JStr (rule_resource r)),
            (''action'', JStr (rule_action r))] @
           opt_field ''when'' (map_option (\<lambda>ps. JArr (map predicate_json ps)) (rule_when r)) @
           outcome_fields (rule_outcome r))"

text \<open>The package as the JSON value the definition column holds.\<close>

definition package_json :: "policy_package \<Rightarrow> json" where
  "package_json pkg =
     JObj ([(''name'', JStr (pkg_name pkg)), (''version'', JStr (pkg_version pkg)),
            (''registry'', JObj [(''resources'', JArr (map JStr (pkg_resources pkg))),
                                 (''actions'', JArr (map JStr (pkg_actions pkg)))])] @
           opt_field ''default_disposition''
             (map_option (\<lambda>d. JObj (outcome_fields d)) (pkg_default_disposition pkg)) @
           [(''rules'', JArr (map rule_json (pkg_rules pkg)))])"

definition canonicalSerialize :: "policy_package \<Rightarrow> tok list" where
  "canonicalSerialize pkg = stable (package_json pkg)"

definition computeChecksum :: "(tok list \<Rightarrow> string) \<Rightarrow> policy_package \<Rightarrow> string" where
  "computeChecksum sha pkg = sha (canonicalSerialize pkg)"

definition checksumMatches :: "(tok list \<Rightarrow> string) \<Rightarrow> policy_package \<Rightarrow> string \<Rightarrow> bool" where
  "checksumMatches sha pkg stored \<longleftrightarrow> computeChecksum sha pkg = stored"

section \<open>policy-store.ts\<close>

datatype policy_store_error =
  INVALID_PACKAGE | CHECKSUM_MISMATCH | VERSION_ALREADY_EXISTS | INVALID_EFFECTIVE_FROM

definition CLIENT_SUBMITTAL_POLICY_PACKAGE_PREFIX :: string where
  "CLIENT_SUBMITTAL_POLICY_PACKAGE_PREFIX = ''client-submittal-policy''"

text \<open>The TTL of the environment: \<open>to_number\<close> is JavaScript's \<open>Number(raw)\<close>.\<close>

definition resolveCacheTtlMs :: "(string \<Rightarrow> js_number) \<Rightarrow> string option \<Rightarrow> (string, rat) result" where
  "resolveCacheTtlMs to_number raw =
     (case raw of
        None \<Rightarrow> Inr 30000
      | Some s \<Rightarrow>
          if s = [] then Inr 30000
          else case js_finite (JNum (to_number s)) of
            None \<Rightarrow> Inl s
          | Some ms \<Rightarrow> if ms < 1 then Inl s else Inr ms)"

definition cacheKey :: "string \<Rightarrow> string \<Rightarrow> string" where
  "cacheKey tenant package_name = tenant @ ''::'' @ package_name"

definition toResolved ::
  "(tok list \<Rightarrow> string) \<Rightarrow> stored_row \<Rightarrow> (policy_store_error, stored_version) result" where
  "toResolved sha row =
     (if \<not> checksumMatches sha (sv_definition row) (sv_checksum row) then Inl CHECKSUM_MISMATCH
      else Inr \<lparr> sv_tenant_id = sv_tenant_id row, sv_package_name = sv_package_name row,
        sv_version = sv_version row, sv_definition = sv_definition row,
        sv_checksum = sv_checksum row, sv_effective_from = sv_effective_from row,
        sv_effective_to = sv_effective_to row, sv_published_by = sv_published_by row,
        sv_published_at = sv_published_at row \<rparr>)"

record cached_version =
  cv_value :: stored_version
  cv_cachedAt :: int

record policy_store =
  ps_rows :: "stored_row list"
  ps_cache :: "string \<rightharpoonup> cached_version"

text \<open>\<open>where: { tenant_id, package_name }\<close>\<close>

definition versions_of :: "stored_row list \<Rightarrow> string \<Rightarrow> string \<Rightarrow> stored_row list" where
  "versions_of rows tenant name =
     filter (\<lambda>r. sv_tenant_id r = tenant \<and> sv_package_name r = name) rows"

record publish_input =
  pi_tenant_id :: string
  pi_definition :: policy_package
  pi_published_by :: string
  pi_effective_from :: "int option"

definition is_client_submittal_package :: "string \<Rightarrow> bool" where
  "is_client_submittal_package n \<longleftrightarrow>
     n = CLIENT_SUBMITTAL_POLICY_PACKAGE_PREFIX \<or>
     take (length (CLIENT_SUBMITTAL_POLICY_PACKAGE_PREFIX @ '':'')) n =
       CLIENT_SUBMITTAL_POLICY_PACKAGE_PREFIX @ '':''"

definition new_row ::
  "(tok list \<Rightarrow> string) \<Rightarrow> string \<Rightarrow> int \<Rightarrow> publish_input \<Rightarrow> int \<Rightarrow> stored_row" where
  "new_row sha uuid now inp effectiveFrom =
     \<lparr> sv_tenant_id = pi_tenant_id inp, sv_package_name = pkg_name (pi_definition inp),
       sv_version = pkg_version (pi_definition inp), sv_definition = pi_definition inp,
       sv_checksum = computeChecksum sha (pi_definition inp), sv_effective_from = effectiveFrom,
       sv_effective_to = None, sv_published_by = pi_published_by inp, sv_published_at = now,
       sr_id = uuid \<rparr>"

definition close_window :: "string \<Rightarrow> int \<Rightarrow> stored_row \<Rightarrow> stored_row" where
  "close_window rid e r = (if sr_id r = rid then r \<lparr> sv_effective_to := Some e \<rparr> else r)"

text \<open>The transaction of \<open>publish\<close> on the shared table.\<close>

definition publish_rows ::
  "(tok list \<Rightarrow> string) \<Rightarrow> string \<Rightarrow> int \<Rightarrow> stored_row list \<Rightarrow> publish_input \<Rightarrow>
     (policy_store_error, stored_row list) result" where
  "publish_rows sha uuid now rows inp =
     (let name = pkg_name (pi_definition inp);
          effectiveFrom = (case pi_effective_from inp of None \<Rightarrow> now | Some t \<Rightarrow> t);
          vs = versions_of rows (pi_tenant_id inp) name;
          row = new_row sha uuid now inp effectiveFrom
      in if validatePackage (pi_definition inp) \<noteq> Inr () then Inl INVALID_PACKAGE
         else if is_client_submittal_package name then Inl INVALID_PACKAGE
         else if \<exists>r\<in>set vs. sv_version r = pkg_version (pi_definition inp)
         then Inl VERSION_ALREADY_EXISTS
         else case find (\<lambda>r. sv_effective_to r = None) vs of
           None \<Rightarrow> Inr (rows @ [row])
         | Some open_row \<Rightarrow>
             if effectiveFrom \<le> sv_effective_from open_row then Inl INVALID_EFFECTIVE_FROM
             else Inr (map (close_window (sr_id open_row) effectiveFrom) rows @ [row]))"

text \<open>\<open>publish\<close>: after the commit this instance drops its cache entry.\<close>

definition publish ::
  "(tok list \<Rightarrow> string) \<Rightarrow> string \<Rightarrow> int \<Rightarrow> policy_store \<Rightarrow> publish_input \<Rightarrow>
     policy_store \<times> (policy_store_error, stored_version) result" where
  "publish sha uuid now st inp =
     (case publish_rows sha uuid now (ps_rows st) inp of
        Inl e \<Rightarrow> (st, Inl e)
      | Inr rows \<Rightarrow>
          (\<lparr> ps_rows = rows,
             ps_cache = (ps_cache st)(cacheKey (pi_tenant_id inp) (pkg_name (pi_definition inp)) := None) \<rparr>,
           toResolved sha (last rows)))"

text \<open>The database read behind both look-ups.\<close>

definition read_active ::
  "(tok list \<Rightarrow> string) \<Rightarrow> stored_row list \<Rightarrow> string \<Rightarrow> string \<Rightarrow> int \<Rightarrow>
     (policy_store_error, stored_version option) result" where
  "read_active sha rows tenant name instant =
     (case selectEffectiveAt (versions_of rows tenant name) instant of
        None \<Rightarrow> Inr None
      | Some active \<Rightarrow> rbind (toResolved sha active) (\<lambda>v. Inr (Some v)))"

definition cache_hit :: "rat \<Rightarrow> int \<Rightarrow> cached_version \<Rightarrow> bool" where
  "cache_hit ttl now c \<longleftrightarrow>
     isEffectiveAt (cv_value c) now \<and> of_int (now - cv_cachedAt c) \<le> ttl"

definition getActiveVersion ::
  "(tok list \<Rightarrow> string) \<Rightarrow> rat \<Rightarrow> int \<Rightarrow> policy_store \<Rightarrow> string \<Rightarrow> string \<Rightarrow> int option \<Rightarrow>
     policy_store \<times> (policy_store_error, stored_version option) result" where
  "getActiveVersion sha ttl now st tenant name at_time =
     (case at_time of
        Some instant \<Rightarrow> (st, read_active sha (ps_rows st) tenant name instant)
      | None \<Rightarrow>
          let key = cacheKey tenant name;
              fresh =
                (case read_active sha (ps_rows st) tenant name now of
                   Inr (Some v) \<Rightarrow>
                     (st \<lparr> ps_cache := (ps_cache st)(key \<mapsto> \<lparr> cv_value = v, cv_cachedAt = now \<rparr>) \<rparr>,
                      Inr (Some v))
                 | r \<Rightarrow> (st, r))
          in case ps_cache st key of
               Some c \<Rightarrow> if cache_hit ttl now c then (st, Inr (Some (cv_value c))) else fresh
             | None \<Rightarrow> fresh)"

definition getVersion ::
  "(tok list \<Rightarrow> string) \<Rightarrow> policy_store \<Rightarrow> string \<Rightarrow> string \<Rightarrow> string \<Rightarrow>
     (policy_store_error, stored_version option) result" where
  "getVersion sha st tenant name version =
     (case find (\<lambda>r. sv_version r = version) (versions_of (ps_rows st) tenant name) of
        None \<Rightarrow> Inr None
      | Some row \<Rightarrow> rbind (toResolved sha row) (\<lambda>v. Inr (Some v)))"

definition listVersions ::
  "(tok list \<Rightarrow> string) \<Rightarrow> policy_store \<Rightarrow> string \<Rightarrow> string \<Rightarrow>
     (policy_store_error, stored_version list) result" where
  "listVersions sha st tenant name =
     rfold (\<lambda>acc row. rbind (toResolved sha row) (\<lambda>v. Inr (acc @ [v]))) []
       (sort_key (\<lambda>r. - sv_effective_from r) (versions_of (ps_rows st) tenant name))"

section \<open>Windows\<close>







section \<open>The invariant of the table\<close>



lemma close_window_sel [simp]:
  "sr_id (close_window i e r) = sr_id r"
  "sv_tenant_id (close_window i e r) = sv_tenant_id r"
  "sv_package_name (close_window i e r) = sv_package_name r"
  "sv_version (close_window i e r) = sv_version r"
  "sv_definition (close_window i e r) = sv_definition r"
  "sv_checksum (close_window i e r) = sv_checksum r"
  "sv_effective_from (close_window i e r) = sv_effective_from r"
  by (simp_all add: close_window_def)

lemma close_window_other [simp]: "sr_id r \<noteq> i \<Longrightarrow> close_window i e r = r"
  by (simp add: close_window_def)



lemma new_row_sel [simp]:
  "sv_tenant_id (new_row sha u now inp e) = pi_tenant_id inp"
  "sv_package_name (new_row sha u now inp e) = pkg_name (pi_definition inp)"
  "sv_version (new_row sha u now inp e) = pkg_version (pi_definition inp)"
  "sv_definition (new_row sha u now inp e) = pi_definition inp"
  "sv_checksum (new_row sha u now inp e) = computeChecksum sha (pi_definition inp)"
  "sv_effective_from (new_row sha u now inp e) = e"
  "sv_effective_to (new_row sha u now inp e) = None"
  "sr_id (new_row sha u now inp e) = u"
  by (simp_all add: new_row_def)












section \<open>Runs of one instance beside others\<close>

text \<open>
  \<open>store_run sha ttl st now f\<close>: the store \<open>st\<close>, as one instance sees it at time
  \<open>now\<close>, after any sequence of its own publications and look-ups, publications by other
  instances (which change the table and leave this cache alone) and the passing of time;
  \<open>f\<close> is the time of the last foreign publication.
\<close>

definition empty_store :: policy_store where
  "empty_store = \<lparr> ps_rows = [], ps_cache = (\<lambda>_. None) \<rparr>"

inductive store_run ::
  "(tok list \<Rightarrow> string) \<Rightarrow> rat \<Rightarrow> policy_store \<Rightarrow> int \<Rightarrow> int option \<Rightarrow> bool"
  for sha :: "tok list \<Rightarrow> string" and ttl :: rat where
  start: "store_run sha ttl empty_store now None"
| tick: "store_run sha ttl st now f \<Longrightarrow> now \<le> now' \<Longrightarrow> store_run sha ttl st now' f"
| own: "store_run sha ttl st now f \<Longrightarrow> u \<notin> sr_id ` set (ps_rows st) \<Longrightarrow>
    length (pi_tenant_id inp) = 36 \<Longrightarrow> store_run sha ttl (fst (publish sha u now st inp)) now f"
| foreign: "store_run sha ttl st now f \<Longrightarrow> u \<notin> sr_id ` set (ps_rows st) \<Longrightarrow>
    length (pi_tenant_id inp) = 36 \<Longrightarrow> publish_rows sha u now (ps_rows st) inp = Inr rows \<Longrightarrow>
    store_run sha ttl (st \<lparr> ps_rows := rows \<rparr>) now (Some now)"
| look: "store_run sha ttl st now f \<Longrightarrow> length tenant = 36 \<Longrightarrow>
    store_run sha ttl (fst (getActiveVersion sha ttl now st tenant name at_time)) now f"

lemma get_rows [simp]: "ps_rows (fst (getActiveVersion sha ttl now st tenant name at_time)) = ps_rows st"
  by (auto simp: getActiveVersion_def Let_def split: option.splits sum.splits)


lemma run_foreign_past: "store_run sha ttl st now f \<Longrightarrow> f = Some t \<Longrightarrow> t \<le> now"
  by (induction rule: store_run.induct) auto







section \<open>Theorems\<close>




lemma find_map_keep:
  assumes g: "\<And>x. P (g x) = P x"
  shows "find P xs = Some x \<Longrightarrow> find P (map g xs @ ys) = Some (g x)"
  by (induction xs) (simp_all add: g split: if_splits)

lemma toResolved_close:
  assumes "toResolved sha r = Inr v"
  shows "\<exists>v'. toResolved sha (close_window i e r) = Inr v' \<and> v' \<lparr> sv_effective_to := sv_effective_to v \<rparr> = v"
  using assms by (auto simp: toResolved_def checksumMatches_def close_window_def split: if_splits)

text \<open>
  A published version is immutable: whatever is published later, reading it by its version
  string gives the same definition, checksum, start and author; only the end of its window
  may be set.
\<close>

theorem published_version_immutable:
  assumes "getVersion sha st tenant name ver = Inr (Some v)"
  shows "\<exists>v'. getVersion sha (fst (publish sha u now st inp)) tenant name ver = Inr (Some v') \<and>
    v' \<lparr> sv_effective_to := sv_effective_to v \<rparr> = v"
proof -
  obtain r where r: "find (\<lambda>r. sv_version r = ver) (versions_of (ps_rows st) tenant name) = Some r"
    "toResolved sha r = Inr v"
    using assms by (auto simp: getVersion_def rbind_Inr_iff split: option.splits)
  show ?thesis
  proof (cases "publish_rows sha u now (ps_rows st) inp")
    case (Inl e)
    then show ?thesis using assms by (simp add: publish_def)
  next
    case (Inr rows)
    then obtain g ys where rows: "rows = map g (ps_rows st) @ ys" and g: "g = id \<or> (\<exists>i e. g = close_window i e)"
      by (fastforce simp: publish_rows_def Let_def split: if_splits option.splits
          intro: that [of id] that [of "close_window i e" for i e])
    have sel: "sv_version (g x) = sv_version x" "sv_tenant_id (g x) = sv_tenant_id x"
      "sv_package_name (g x) = sv_package_name x" for x using g by auto
    have "versions_of rows tenant name = map g (versions_of (ps_rows st) tenant name) @ versions_of ys tenant name"
      by (simp add: rows versions_of_def filter_map o_def sel)
    then have "find (\<lambda>r. sv_version r = ver) (versions_of rows tenant name) = Some (g r)"
      using find_map_keep [OF _ r(1), of g] by (simp add: sel)
    moreover obtain v' where "toResolved sha (g r) = Inr v'" "v' \<lparr> sv_effective_to := sv_effective_to v \<rparr> = v"
      using g r(2) toResolved_close [OF r(2)] by force
    ultimately show ?thesis using Inr by (auto simp: getVersion_def publish_def)
  qed
qed

text \<open>
  The checksum detects tampering: as long as SHA-256 has no collision between the two
  canonical forms, a stored row whose definition was replaced is refused exactly when the new
  definition differs as JSON (up to key order) from the one that was published.
\<close>

theorem checksum_detects_tampering:
  assumes "sv_checksum row = computeChecksum sha pkg"
    and "wf_json (package_json pkg)" "wf_json (package_json (sv_definition row))"
    and "sha (canonicalSerialize (sv_definition row)) = sha (canonicalSerialize pkg) \<Longrightarrow>
         canonicalSerialize (sv_definition row) = canonicalSerialize pkg"
  shows "toResolved sha row = Inl CHECKSUM_MISMATCH \<longleftrightarrow>
         \<not> deep_eq (package_json (sv_definition row)) (package_json pkg)"
  using assms stable_eq_iff [OF assms(3,2)]
  by (auto simp: toResolved_def checksumMatches_def computeChecksum_def canonicalSerialize_def)

text \<open>The TTL a service starts with is at least one millisecond, whatever the environment says.\<close>

lemma ttl_at_least_one: "resolveCacheTtlMs num raw = Inr ttl \<Longrightarrow> 1 \<le> ttl"
  by (auto simp: resolveCacheTtlMs_def split: option.splits if_splits)

section \<open>A concrete store\<close>

definition ex_sha :: "tok list \<Rightarrow> string" where
  "ex_sha ts = replicate (length ts) (CHR ''0'')"

definition ex_tenant :: string where
  "ex_tenant = replicate 36 (CHR ''a'')"

definition ex_publish :: "string \<Rightarrow> publish_input" where
  "ex_publish ver = \<lparr> pi_tenant_id = ex_tenant, pi_definition = ex_pkg \<lparr> pkg_version := ver \<rparr>,
     pi_published_by = ''admin'', pi_effective_from = None \<rparr>"

definition ex_store1 :: policy_store where
  "ex_store1 = fst (publish ex_sha ''u1'' 100 empty_store (ex_publish ''1''))"








lemma ex_get1: "\<exists>v. getVersion ex_sha ex_store1 ex_tenant (pkg_name ex_pkg) ''1'' = Inr (Some v)"
proof -
  have "case getVersion ex_sha ex_store1 ex_tenant (pkg_name ex_pkg) ''1'' of
          Inr (Some v) \<Rightarrow> True | _ \<Rightarrow> False" by code_simp
  then show ?thesis by (auto split: sum.splits option.splits)
qed

theorem published_version_immutable_witness:
  "\<exists>v v'. getVersion ex_sha ex_store1 ex_tenant (pkg_name ex_pkg) ''1'' = Inr (Some v) \<and>
     getVersion ex_sha (fst (publish ex_sha ''u2'' 200 ex_store1 (ex_publish ''2''))) ex_tenant
       (pkg_name ex_pkg) ''1'' = Inr (Some v') \<and>
     v' \<lparr> sv_effective_to := sv_effective_to v \<rparr> = v"
  using ex_get1 published_version_immutable by blast

definition ex_tampered :: stored_row where
  "ex_tampered = (hd (ps_rows ex_store1))
     \<lparr> sv_definition := ex_pkg \<lparr> pkg_version := ''1'', pkg_rules := [] \<rparr> \<rparr>"

theorem checksum_detects_tampering_witness: "toResolved ex_sha ex_tampered = Inl CHECKSUM_MISMATCH"
proof -
  let ?pkg = "ex_pkg \<lparr> pkg_version := ''1'' \<rparr>"
  have "sv_checksum ex_tampered = computeChecksum ex_sha ?pkg" by code_simp
  moreover have "wf_json (package_json ?pkg)" "wf_json (package_json (sv_definition ex_tampered))"
    by code_simp+
  moreover have "ex_sha (canonicalSerialize (sv_definition ex_tampered)) \<noteq> ex_sha (canonicalSerialize ?pkg)"
    by code_simp
  moreover have "\<not> deep_eq (package_json (sv_definition ex_tampered)) (package_json ?pkg)" by code_simp
  ultimately show ?thesis using checksum_detects_tampering [of ex_tampered ex_sha ?pkg] by blast
qed

end
