(* ===== verification/Pipeline_Repository.thy ===== *)
theory Pipeline_Repository
  imports Pipeline_State Policy_Store
begin

text \<open>
  \<^verbatim>\<open>libs/pipeline/src/lib/pipeline.repository.ts\<close>: the tables a pipeline command
  writes and every write of the repository. A transaction is one state change
  \<open>(db', result)\<close> with \<open>db' = db\<close> when it throws. A command reads the row in one
  statement and writes it in a later one, and other transactions may commit in between: the
  commands below take the state \<open>db0\<close> their first read saw and the state \<open>db\<close> their
  writes meet. The evidence verifier and the RTR guard are ports bound outside the library;
  they are fields of the environment, \<open>None\<close> when unbound.
\<close>

section \<open>Tables\<close>

record pipeline_row =
  pl_id :: string
  pl_tenant_id :: string
  pl_site_id :: "string option"
  pl_talent_record_id :: string
  pl_requisition_id :: string
  pl_status :: pipeline_status
  pl_created_at :: int
  pl_updated_at :: int
  pl_version :: int
  pl_ended_at :: "int option"
  pl_ended_by_id :: "string option"

record history_row =
  hr_id :: string
  hr_tenant_id :: string
  hr_pipeline_id :: string
  hr_status_from :: "pipeline_status option"
  hr_status_to :: pipeline_status
  hr_changed_by_id :: "string option"
  hr_changed_at :: int
  hr_note :: "string option"

record activity_row =
  ac_tenant_id :: string
  ac_site_id :: "string option"
  ac_type :: string
  ac_subject_type :: string
  ac_subject_id :: string
  ac_notes :: string
  ac_created_by_id :: string

record usage_row =
  us_tenant_id :: string
  us_event_type :: string

record evidence_ref =
  er_kind :: string
  er_id :: string

record rtr_decision =
  rtr_disposition :: string
  rtr_source :: "string option"
  rtr_scope_ref :: "string option"
  rtr_version :: "string option"
  rtr_checksum :: "string option"
  rtr_composite_version :: "string option"
  rtr_resolved_at :: string

datatype pipeline_payload =
    Created_Payload string string string entry_event_projection
  | Transition_Payload string string string pipeline_status pipeline_status int
      "evidence_ref option" "rtr_decision option"

record pipeline_outbox_row =
  po_id :: string
  po_tenant_id :: string
  po_event_type :: string
  po_payload :: pipeline_payload
  po_created_at :: int
  po_published_at :: "int option"

record disposition_row =
  dp_tenant_id :: string
  dp_pipeline_id :: string
  dp_authority_class :: disposition_authority
  dp_reason :: string
  dp_source_provenance :: "string option"
  dp_note :: "string option"
  dp_created_by_id :: "string option"

record entry_provenance_row =
  pv_tenant_id :: string
  pv_pipeline_id :: string
  pv_input :: entry_provenance_input

record override_satisfaction =
  os_reason_code :: "string option"
  os_capabilities :: "string list"

record decision_inputs =
  di_resource :: string
  di_action :: string
  di_declared :: "string \<rightharpoonup> json"
  di_derived :: "string \<rightharpoonup> json"
  di_capabilities :: "string \<rightharpoonup> bool"
  di_override :: "override_satisfaction option"

record decision_record =
  dr_tenant_id :: string
  dr_decision :: decision
  dr_policy_version :: string
  dr_rule_id :: string
  dr_reason_code :: string
  dr_resource :: string
  dr_action :: string
  dr_inputs :: decision_inputs
  dr_actor_id :: string
  dr_origin :: origin
  dr_correlation_id :: string

record resume_selection_row =
  rs_id :: string
  rs_tenant_id :: string
  rs_talent_record_id :: string
  rs_requisition_id :: string
  rs_resume_edition_id :: string
  rs_selected_at :: int
  rs_selected_by :: string
  rs_note :: "string option"

record requisition_row =
  rq_id :: string
  rq_tenant_id :: string
  rq_status :: string

record pipeline_db =
  pdb_pipelines :: "pipeline_row list"
  pdb_history :: "history_row list"
  pdb_activities :: "activity_row list"
  pdb_usage :: "usage_row list"
  pdb_outbox :: "pipeline_outbox_row list"
  pdb_dispositions :: "disposition_row list"
  pdb_provenance :: "entry_provenance_row list"
  pdb_decisions :: "decision_record list"
  pdb_resumes :: "resume_selection_row list"
  pdb_requisitions :: "requisition_row list"

text \<open>
  What a command reads from outside: the \<open>n\<close>-th generated id, the process clock, the
  database clock, and the two ports. A verifier answers \<open>None\<close> for a verified reference
  and \<open>Some reason\<close> otherwise; a guard answers with the error code it throws or with its
  decision.
\<close>

record pipeline_env =
  pe_uuid :: "nat \<Rightarrow> string"
  pe_now :: int
  pe_row_now :: int
  pe_verifier :: "(string \<Rightarrow> string \<Rightarrow> string \<Rightarrow> evidence_ref \<Rightarrow> string option) option"
  pe_guard :: "(string \<Rightarrow> string \<Rightarrow> string \<Rightarrow> (string, rtr_decision) result) option"

datatype pipeline_error =
    NOT_FOUND
  | VALIDATION_ERROR string
  | PIPELINE_TRANSITION_CONFLICT "(pipeline_status \<times> int) option"
  | INVALID_PIPELINE_TRANSITION pipeline_status pipeline_status
  | PIPELINE_DISPOSITION_REASON_INVALID
  | PIPELINE_STAGE_REQUIRES_EVIDENCE
  | PIPELINE_EVIDENCE_INADMISSIBLE string
  | PIPELINE_QUALIFY_RTR_POLICY_UNRESOLVED
  | Guard_Error string
  | REQUISITION_NOT_ADVANCEABLE gate_refusal
  | PIPELINE_ALREADY_DISPOSITIONED
  | PIPELINE_VOID_NOT_ALLOWED_FROM_STATE pipeline_status
  | PIPELINE_COMPLETE_SYSTEM_ONLY
  | PIPELINE_EPISODE_ALREADY_LIVE
  | TRANSACTION_CONFLICT_RETRYABLE
  | Unique_Violation

text \<open>The view drops the columns \<open>ended_at\<close> and \<open>ended_by_id\<close>; dates stay instants.\<close>

record pipeline_view =
  vw_id :: string
  vw_tenant_id :: string
  vw_site_id :: "string option"
  vw_talent_record_id :: string
  vw_requisition_id :: string
  vw_status :: pipeline_status
  vw_created_at :: int
  vw_updated_at :: int
  vw_version :: int

definition projectView :: "pipeline_row \<Rightarrow> pipeline_view" where
  "projectView r =
     \<lparr> vw_id = pl_id r, vw_tenant_id = pl_tenant_id r, vw_site_id = pl_site_id r,
       vw_talent_record_id = pl_talent_record_id r, vw_requisition_id = pl_requisition_id r,
       vw_status = pl_status r, vw_created_at = pl_created_at r, vw_updated_at = pl_updated_at r,
       vw_version = pl_version r \<rparr>"

section \<open>Reads the commands share\<close>

definition find_pipeline :: "pipeline_db \<Rightarrow> string \<Rightarrow> string \<Rightarrow> pipeline_row option" where
  "find_pipeline db tenant i = find (\<lambda>r. pl_tenant_id r = tenant \<and> pl_id r = i) (pdb_pipelines db)"

definition visible :: "string set option \<Rightarrow> pipeline_row \<Rightarrow> bool" where
  "visible vis r = (case vis of None \<Rightarrow> True | Some s \<Rightarrow> pl_requisition_id r \<in> s)"

text \<open>A missing row and a row outside the actor's requisitions are the same 404.\<close>

definition read_visible ::
  "pipeline_db \<Rightarrow> string \<Rightarrow> string \<Rightarrow> string set option \<Rightarrow> (pipeline_error, pipeline_row) result" where
  "read_visible db tenant i vis =
     (case find_pipeline db tenant i of
        None \<Rightarrow> Inl NOT_FOUND
      | Some r \<Rightarrow> if visible vis r then Inr r else Inl NOT_FOUND)"

definition lockRequisitionStatusInTx :: "pipeline_db \<Rightarrow> string \<Rightarrow> string \<Rightarrow> string option" where
  "lockRequisitionStatusInTx db tenant req =
     map_option rq_status
       (find (\<lambda>q. rq_id q = req \<and> rq_tenant_id q = tenant) (pdb_requisitions db))"

text \<open>The key of the partial unique index \<open>Pipeline_live_episode_key\<close>.\<close>

definition episode_key :: "pipeline_row \<Rightarrow> string \<times> string \<times> string" where
  "episode_key r = (pl_tenant_id r, pl_talent_record_id r, pl_requisition_id r)"

definition live_rows :: "pipeline_db \<Rightarrow> pipeline_row list" where
  "live_rows db = filter (\<lambda>r. isLiveStatus (pl_status r)) (pdb_pipelines db)"

definition live_index_ok :: "pipeline_db \<Rightarrow> bool" where
  "live_index_ok db \<longleftrightarrow> distinct (map episode_key (live_rows db))"

definition find_live_row :: "pipeline_db \<Rightarrow> string \<Rightarrow> string \<Rightarrow> string \<Rightarrow> pipeline_row option" where
  "find_live_row db tenant talent req =
     find (\<lambda>r. pl_tenant_id r = tenant \<and> pl_talent_record_id r = talent \<and>
               pl_requisition_id r = req \<and> pl_status r \<notin> set TERMINAL_STATUSES)
       (pdb_pipelines db)"

section \<open>create\<close>

record create_args =
  ca_tenant_id :: string
  ca_site_id :: "string option"
  ca_talent_record_id :: string
  ca_requisition_id :: string
  ca_provenance :: "decision_record option"
  ca_created_by_id :: "string option"
  ca_entry_provenance :: entry_provenance_input
  ca_expected_requisition_status :: "string option"

definition new_pipeline :: "pipeline_env \<Rightarrow> create_args \<Rightarrow> pipeline_row" where
  "new_pipeline env a =
     \<lparr> pl_id = pe_uuid env 0, pl_tenant_id = ca_tenant_id a, pl_site_id = ca_site_id a,
       pl_talent_record_id = ca_talent_record_id a, pl_requisition_id = ca_requisition_id a,
       pl_status = No_Contact, pl_created_at = pe_row_now env, pl_updated_at = pe_row_now env,
       pl_version = 0, pl_ended_at = None, pl_ended_by_id = None \<rparr>"

definition buildEntryProvenanceCreateData ::
  "string \<Rightarrow> string \<Rightarrow> entry_provenance_input \<Rightarrow> (pipeline_error, entry_provenance_row) result" where
  "buildEntryProvenanceCreateData tenant pid inp =
     (if \<not> isValidInitiatedByKind (ep_initiated_by_kind inp)
      then Inl (VALIDATION_ERROR ''initiated_by_kind'')
      else Inr \<lparr> pv_tenant_id = tenant, pv_pipeline_id = pid, pv_input = inp \<rparr>)"

definition created_event :: "pipeline_env \<Rightarrow> pipeline_row \<Rightarrow> entry_provenance_input \<Rightarrow> pipeline_outbox_row" where
  "created_event env r inp =
     \<lparr> po_id = pe_uuid env 2, po_tenant_id = pl_tenant_id r, po_event_type = ''pipeline.created'',
       po_payload = Created_Payload (pl_id r) (pl_talent_record_id r) (pl_requisition_id r)
         (projectEntryProvenanceForEvent inp),
       po_created_at = pe_row_now env, po_published_at = None \<rparr>"

definition birth_row :: "pipeline_env \<Rightarrow> create_args \<Rightarrow> history_row" where
  "birth_row env a =
     \<lparr> hr_id = pe_uuid env 1, hr_tenant_id = ca_tenant_id a, hr_pipeline_id = pe_uuid env 0,
       hr_status_from = None, hr_status_to = No_Contact, hr_changed_by_id = ca_created_by_id a,
       hr_changed_at = pe_row_now env, hr_note = None \<rparr>"

definition opt_list :: "'a option \<Rightarrow> 'a list" where
  "opt_list x = (case x of None \<Rightarrow> [] | Some a \<Rightarrow> [a])"

text \<open>
  The insert meets the partial index in \<open>db\<close>; the violation is translated to the same
  refusal as the check in \<open>db0\<close>.
\<close>

definition create_tx ::
  "pipeline_env \<Rightarrow> pipeline_db \<Rightarrow> pipeline_db \<Rightarrow> create_args \<Rightarrow>
     pipeline_db \<times> (pipeline_error, pipeline_view) result" where
  "create_tx env db0 db a =
     (let row = new_pipeline env a;
          status = lockRequisitionStatusInTx db (ca_tenant_id a) (ca_requisition_id a)
      in if find_live_row db0 (ca_tenant_id a) (ca_talent_record_id a) (ca_requisition_id a) \<noteq> None
         then (db, Inl PIPELINE_EPISODE_ALREADY_LIVE)
         else if episode_key row \<in> set (map episode_key (live_rows db))
         then (db, Inl PIPELINE_EPISODE_ALREADY_LIVE)
         else if ca_expected_requisition_status a \<noteq> None \<and> status \<noteq> None \<and>
                 status \<noteq> ca_expected_requisition_status a
         then (db, Inl TRANSACTION_CONFLICT_RETRYABLE)
         else case status of
           None \<Rightarrow> (db, Inl (REQUISITION_NOT_ADVANCEABLE REQUISITION_UNRESOLVED))
         | Some s \<Rightarrow>
             if \<not> requisitionPermits s Act_ADD
             then (db, Inl (REQUISITION_NOT_ADVANCEABLE (Refused_Activity Act_ADD)))
             else case buildEntryProvenanceCreateData (ca_tenant_id a) (pl_id row) (ca_entry_provenance a) of
               Inl e \<Rightarrow> (db, Inl e)
             | Inr prov \<Rightarrow>
                 (db \<lparr> pdb_pipelines := pdb_pipelines db @ [row],
                       pdb_history := pdb_history db @ [birth_row env a],
                       pdb_provenance := pdb_provenance db @ [prov],
                       pdb_outbox := pdb_outbox db @ [created_event env row (ca_entry_provenance a)],
                       pdb_decisions := pdb_decisions db @ opt_list (ca_provenance a) \<rparr>,
                  Inr (projectView row)))"

definition create ::
  "pipeline_env \<Rightarrow> pipeline_db \<Rightarrow> create_args \<Rightarrow> pipeline_db \<times> (pipeline_error, pipeline_view) result" where
  "create env db a = create_tx env db db a"

definition recordDecision :: "pipeline_db \<Rightarrow> decision_record \<Rightarrow> pipeline_db" where
  "recordDecision db p = db \<lparr> pdb_decisions := pdb_decisions db @ [p] \<rparr>"

section \<open>transition\<close>

record disposition_input =
  dn_authority_class :: disposition_authority
  dn_reason :: string
  dn_source_provenance :: "string option"
  dn_note :: "string option"

record transition_args =
  ta_tenant_id :: string
  ta_id :: string
  ta_to_status :: pipeline_status
  ta_changed_by_id :: string
  ta_note :: "string option"
  ta_requestId :: string
  ta_expected_version :: int
  ta_visible_requisition_ids :: "string set option"
  ta_disposition :: "disposition_input option"
  ta_evidence :: "evidence_ref option"

text \<open>\<open>String.prototype.trim\<close> leaves nothing.\<close>

definition blank :: "string \<Rightarrow> bool" where
  "blank s \<longleftrightarrow> list_all js_space s"

definition backwardIntoEvidenceStage :: "transition_args \<Rightarrow> pipeline_status \<Rightarrow> bool" where
  "backwardIntoEvidenceStage a from \<longleftrightarrow>
     isEvidenceBackedStage (ta_to_status a) \<and> ta_evidence a = None \<and>
     activeStageOrdinal (ta_to_status a) \<ge> 0 \<and>
     activeStageOrdinal from > activeStageOrdinal (ta_to_status a)"

definition reachedBefore :: "pipeline_db \<Rightarrow> transition_args \<Rightarrow> bool" where
  "reachedBefore db a \<longleftrightarrow>
     (\<exists>h\<in>set (pdb_history db). hr_tenant_id h = ta_tenant_id a \<and> hr_pipeline_id h = ta_id a \<and>
        hr_status_to h = ta_to_status a)"

text \<open>
  The refusals before the first write, in the order of the code: \<open>Inr (row, noop)\<close> is the
  row that was read.
\<close>

definition transition_check ::
  "pipeline_env \<Rightarrow> pipeline_db \<Rightarrow> transition_args \<Rightarrow> (pipeline_error, pipeline_row \<times> bool) result" where
  "transition_check env db a =
     rbind (read_visible db (ta_tenant_id a) (ta_id a) (ta_visible_requisition_ids a)) (\<lambda>current.
       let from = pl_status current; to = ta_to_status a in
       if ta_expected_version a \<noteq> pl_version current
       then Inl (PIPELINE_TRANSITION_CONFLICT (Some (from, pl_version current)))
       else if from = to then Inr (current, True)
       else if \<not> canTransition from to then Inl (INVALID_PIPELINE_TRANSITION from to)
       else if to = Not_In_Consideration \<and> ta_disposition a = None
       then Inl PIPELINE_DISPOSITION_REASON_INVALID
       else if backwardIntoEvidenceStage a from \<and> (case ta_note a of None \<Rightarrow> True | Some n \<Rightarrow> blank n)
       then Inl (VALIDATION_ERROR ''correction_note_required'')
       else if backwardIntoEvidenceStage a from \<and> \<not> reachedBefore db a
       then Inl PIPELINE_STAGE_REQUIRES_EVIDENCE
       else if isEvidenceBackedStage to \<and> ta_evidence a = None \<and> \<not> backwardIntoEvidenceStage a from
       then Inl PIPELINE_STAGE_REQUIRES_EVIDENCE
       else if isEvidenceBackedStage to \<and>
               (case ta_evidence a of None \<Rightarrow> False | Some e \<Rightarrow> \<not> isEvidenceAdmissible to (er_kind e))
       then Inl (PIPELINE_EVIDENCE_INADMISSIBLE ''kind_not_admissible'')
       else if isEvidenceBackedStage to \<and> ta_evidence a \<noteq> None \<and> pe_verifier env = None
       then Inl (PIPELINE_EVIDENCE_INADMISSIBLE ''verifier_unbound'')
       else if to = Qualified \<and> pe_guard env = None then Inl PIPELINE_QUALIFY_RTR_POLICY_UNRESOLVED
       else Inr (current, False))"

definition enteringTerminal :: "pipeline_status \<Rightarrow> pipeline_status \<Rightarrow> bool" where
  "enteringTerminal from to \<longleftrightarrow> isLiveStatus from \<and> \<not> isLiveStatus to"

definition advance_row :: "pipeline_env \<Rightarrow> transition_args \<Rightarrow> pipeline_status \<Rightarrow> pipeline_row \<Rightarrow> pipeline_row" where
  "advance_row env a from r =
     r \<lparr> pl_status := ta_to_status a, pl_version := pl_version r + 1, pl_updated_at := pe_now env,
         pl_ended_at := (if enteringTerminal from (ta_to_status a) then Some (pe_now env) else pl_ended_at r),
         pl_ended_by_id :=
           (if enteringTerminal from (ta_to_status a) then Some (ta_changed_by_id a) else pl_ended_by_id r) \<rparr>"

text \<open>\<open>updateMany\<close> on (id, tenant, version): the rows it matches and the table after it.\<close>

definition cas_match :: "string \<Rightarrow> string \<Rightarrow> int \<Rightarrow> pipeline_row \<Rightarrow> bool" where
  "cas_match i tenant version r \<longleftrightarrow> pl_id r = i \<and> pl_tenant_id r = tenant \<and> pl_version r = version"

definition cas_update ::
  "string \<Rightarrow> string \<Rightarrow> int \<Rightarrow> (pipeline_row \<Rightarrow> pipeline_row) \<Rightarrow> pipeline_row list \<Rightarrow> pipeline_row list" where
  "cas_update i tenant version f rows = map (\<lambda>r. if cas_match i tenant version r then f r else r) rows"

definition fresh_detail :: "pipeline_db \<Rightarrow> string \<Rightarrow> (pipeline_status \<times> int) option" where
  "fresh_detail db i =
     map_option (\<lambda>r. (pl_status r, pl_version r)) (find (\<lambda>r. pl_id r = i) (pdb_pipelines db))"

definition transitionNote :: "pipeline_status \<Rightarrow> transition_args \<Rightarrow> string" where
  "transitionNote from a =
     ''pipeline '' @ status_name from @ '' -> '' @ status_name (ta_to_status a) @
     (case ta_note a of None \<Rightarrow> [] | Some n \<Rightarrow> '': '' @ n) @
     (case ta_evidence a of None \<Rightarrow> []
      | Some e \<Rightarrow> '' [evidence '' @ er_kind e @ '':'' @ er_id e @ '']'')"

definition opt_json :: "string option \<Rightarrow> json" where
  "opt_json x = (case x of None \<Rightarrow> JNull | Some s \<Rightarrow> JStr s)"

definition rtr_json :: "rtr_decision \<Rightarrow> json" where
  "rtr_json d =
     JObj [(''disposition'', JStr (rtr_disposition d)), (''source'', opt_json (rtr_source d)),
           (''scope_ref'', opt_json (rtr_scope_ref d)), (''version'', opt_json (rtr_version d)),
           (''checksum'', opt_json (rtr_checksum d)),
           (''composite_version'', opt_json (rtr_composite_version d)),
           (''resolved_at'', JStr (rtr_resolved_at d))]"

definition qualify_record :: "transition_args \<Rightarrow> pipeline_row \<Rightarrow> rtr_decision \<Rightarrow> decision_record" where
  "qualify_record a cur d =
     \<lparr> dr_tenant_id = ta_tenant_id a, dr_decision = ALLOW,
       dr_policy_version = (case rtr_composite_version d of None \<Rightarrow> ''__none__'' | Some v \<Rightarrow> v),
       dr_rule_id = ''rtr_present'', dr_reason_code = ''RTR_'' @ rtr_disposition d,
       dr_resource = ''REQUISITION_TALENT'', dr_action = ''QUALIFY'',
       dr_inputs =
         \<lparr> di_resource = ''REQUISITION_TALENT'', di_action = ''QUALIFY'',
           di_declared = [''pipeline_id'' \<mapsto> JStr (ta_id a),
                          ''requisition_id'' \<mapsto> JStr (pl_requisition_id cur),
                          ''talent_record_id'' \<mapsto> JStr (pl_talent_record_id cur)],
           di_derived = [''rtr_policy'' \<mapsto> rtr_json d], di_capabilities = Map.empty, di_override = None \<rparr>,
       dr_actor_id = ta_changed_by_id a, dr_origin = Origin_ui, dr_correlation_id = ta_requestId a \<rparr>"

definition transition_history :: "pipeline_env \<Rightarrow> transition_args \<Rightarrow> pipeline_status \<Rightarrow> history_row" where
  "transition_history env a from =
     \<lparr> hr_id = pe_uuid env 0, hr_tenant_id = ta_tenant_id a, hr_pipeline_id = ta_id a,
       hr_status_from = Some from, hr_status_to = ta_to_status a,
       hr_changed_by_id = Some (ta_changed_by_id a), hr_changed_at = pe_row_now env,
       hr_note = ta_note a \<rparr>"

definition status_activity :: "string \<Rightarrow> pipeline_row \<Rightarrow> string \<Rightarrow> string \<Rightarrow> activity_row" where
  "status_activity tenant cur notes actor =
     \<lparr> ac_tenant_id = tenant, ac_site_id = pl_site_id cur, ac_type = ''pipeline_status_change'',
       ac_subject_type = ''pipeline'', ac_subject_id = pl_id cur, ac_notes = notes,
       ac_created_by_id = actor \<rparr>"

definition transition_usage :: "string \<Rightarrow> usage_row" where
  "transition_usage tenant = \<lparr> us_tenant_id = tenant, us_event_type = ''pipeline.state_transition'' \<rparr>"

definition transition_event ::
  "pipeline_env \<Rightarrow> string \<Rightarrow> pipeline_row \<Rightarrow> pipeline_status \<Rightarrow> int \<Rightarrow> evidence_ref option \<Rightarrow>
     rtr_decision option \<Rightarrow> pipeline_outbox_row" where
  "transition_event env tenant cur to version evidence rtr =
     \<lparr> po_id = pe_uuid env 1, po_tenant_id = tenant, po_event_type = ''pipeline.state_transition'',
       po_payload = Transition_Payload (pl_id cur) (pl_talent_record_id cur) (pl_requisition_id cur)
         (pl_status cur) to version evidence rtr,
       po_created_at = pe_row_now env, po_published_at = None \<rparr>"

definition disposition_row_of :: "transition_args \<Rightarrow> disposition_input \<Rightarrow> disposition_row" where
  "disposition_row_of a d =
     \<lparr> dp_tenant_id = ta_tenant_id a, dp_pipeline_id = ta_id a,
       dp_authority_class = dn_authority_class d, dp_reason = dn_reason d,
       dp_source_provenance = dn_source_provenance d, dp_note = dn_note d,
       dp_created_by_id = Some (ta_changed_by_id a) \<rparr>"

text \<open>The refusals after the compare-and-swap, each of which rolls it back.\<close>

definition transition_gate ::
  "pipeline_env \<Rightarrow> pipeline_db \<Rightarrow> pipeline_row \<Rightarrow> transition_args \<Rightarrow> (pipeline_error, rtr_decision option) result" where
  "transition_gate env db cur a =
     (let tenant = ta_tenant_id a; talent = pl_talent_record_id cur; req = pl_requisition_id cur;
          to = ta_to_status a
      in case requisitionGateForTransition (pl_status cur) to (lockRequisitionStatusInTx db tenant req)
                (ta_disposition a \<noteq> None)
                (case ta_disposition a of None \<Rightarrow> False
                 | Some d \<Rightarrow> dn_authority_class d = DOWNSTREAM_OUTCOME) of
           Some refusal \<Rightarrow> Inl (REQUISITION_NOT_ADVANCEABLE refusal)
         | None \<Rightarrow>
             (case (if isEvidenceBackedStage to then ta_evidence a else None, pe_verifier env) of
                (Some e, Some verify) \<Rightarrow>
                  (case verify tenant talent req e of
                     Some reason \<Rightarrow> Inl (PIPELINE_EVIDENCE_INADMISSIBLE reason)
                   | None \<Rightarrow> Inr None)
              | _ \<Rightarrow>
                  (case (to = Qualified, pe_guard env) of
                     (True, Some guard) \<Rightarrow>
                       (case guard tenant talent req of
                          Inl code \<Rightarrow> Inl (Guard_Error code)
                        | Inr d \<Rightarrow> Inr (Some d))
                   | _ \<Rightarrow> Inr None)))"

text \<open>Steps 4a to 4f, for the row \<open>cur\<close> that was read.\<close>

definition transition_write ::
  "pipeline_env \<Rightarrow> pipeline_db \<Rightarrow> pipeline_row \<Rightarrow> transition_args \<Rightarrow>
     pipeline_db \<times> (pipeline_error, pipeline_view) result" where
  "transition_write env db cur a =
     (let i = ta_id a; tenant = ta_tenant_id a; from = pl_status cur; to = ta_to_status a
      in case find (cas_match i tenant (pl_version cur)) (pdb_pipelines db) of
           None \<Rightarrow> (db, Inl (PIPELINE_TRANSITION_CONFLICT (fresh_detail db i)))
         | Some r \<Rightarrow>
             let updated = advance_row env a from r
             in case transition_gate env db cur a of
                  Inl e \<Rightarrow> (db, Inl e)
                | Inr rtr \<Rightarrow>
                    if ta_disposition a \<noteq> None \<and> i \<in> dp_pipeline_id ` set (pdb_dispositions db)
                    then (db, Inl PIPELINE_ALREADY_DISPOSITIONED)
                    else
                      (db \<lparr> pdb_pipelines := cas_update i tenant (pl_version cur) (advance_row env a from) (pdb_pipelines db),
                            pdb_decisions := pdb_decisions db @ opt_list (map_option (qualify_record a cur) rtr),
                            pdb_history := pdb_history db @ [transition_history env a from],
                            pdb_activities := pdb_activities db @
                              [status_activity tenant cur (transitionNote from a) (ta_changed_by_id a)],
                            pdb_usage := pdb_usage db @ [transition_usage tenant],
                            pdb_outbox := pdb_outbox db @
                              [transition_event env tenant cur to (pl_version updated) (ta_evidence a) rtr],
                            pdb_dispositions := pdb_dispositions db @
                              opt_list (map_option (disposition_row_of a) (ta_disposition a)) \<rparr>,
                       Inr (projectView updated)))"

definition transition_tx ::
  "pipeline_env \<Rightarrow> pipeline_db \<Rightarrow> pipeline_db \<Rightarrow> transition_args \<Rightarrow>
     pipeline_db \<times> (pipeline_error, pipeline_view) result" where
  "transition_tx env db0 db a =
     (case transition_check env db0 a of
        Inl e \<Rightarrow> (db, Inl e)
      | Inr (cur, noop) \<Rightarrow>
          if noop then (db, Inr (projectView cur)) else transition_write env db cur a)"

definition transition ::
  "pipeline_env \<Rightarrow> pipeline_db \<Rightarrow> transition_args \<Rightarrow> pipeline_db \<times> (pipeline_error, pipeline_view) result" where
  "transition env db a = transition_tx env db db a"

end
