(* ===== verification/Pipeline_Commands.thy ===== *)
theory Pipeline_Commands
  imports Pipeline_Repository
begin

text \<open>
  The commands of \<^verbatim>\<open>libs/pipeline/src/lib/pipeline.repository.ts\<close> that stand on
  \<open>transition\<close> (named actions, evidence, completion, forward reconciliation), the two
  that do not (\<open>void\<close>, the record-merge repoint), the outbox drain
  (\<^verbatim>\<open>pipeline-outbox.repository.ts\<close>) and the read models.
\<close>

section \<open>Named actions and evidence\<close>

record action_args =
  aa_tenant_id :: string
  aa_id :: string
  aa_action :: recruiter_action
  aa_expected_version :: int
  aa_changed_by_id :: string
  aa_requestId :: string
  aa_visible_requisition_ids :: "string set option"
  aa_reason :: "string option"
  aa_note :: "string option"
  aa_authority_class :: "disposition_authority option"

definition action_disposition :: "action_args \<Rightarrow> (pipeline_error, disposition_input option) result" where
  "action_disposition a =
     (if aa_action a = DISPOSITION
      then case (aa_authority_class a, aa_reason a) of
        (Some authority, Some reason) \<Rightarrow>
          if \<not> isRecruiterDispositionAuthority authority \<or> \<not> isValidDispositionReason authority reason
          then Inl PIPELINE_DISPOSITION_REASON_INVALID
          else Inr (Some \<lparr> dn_authority_class = authority, dn_reason = reason,
                           dn_source_provenance = None, dn_note = aa_note a \<rparr>)
      | _ \<Rightarrow> Inl PIPELINE_DISPOSITION_REASON_INVALID
      else Inr None)"

definition applyAction ::
  "pipeline_env \<Rightarrow> pipeline_db \<Rightarrow> pipeline_db \<Rightarrow> action_args \<Rightarrow>
     pipeline_db \<times> (pipeline_error, pipeline_view) result" where
  "applyAction env db0 db a =
     (case action_disposition a of
        Inl e \<Rightarrow> (db, Inl e)
      | Inr disposition \<Rightarrow>
          transition_tx env db0 db
            \<lparr> ta_tenant_id = aa_tenant_id a, ta_id = aa_id a,
              ta_to_status = RECRUITER_ACTION_TO_STATUS (aa_action a),
              ta_changed_by_id = aa_changed_by_id a, ta_note = aa_note a,
              ta_requestId = aa_requestId a, ta_expected_version = aa_expected_version a,
              ta_visible_requisition_ids = aa_visible_requisition_ids a,
              ta_disposition = disposition, ta_evidence = None \<rparr>)"

record evidence_args =
  ea_tenant_id :: string
  ea_id :: string
  ea_expected_version :: int
  ea_changed_by_id :: string
  ea_requestId :: string
  ea_visible_requisition_ids :: "string set option"
  ea_evidence :: evidence_ref
  ea_note :: "string option"

definition evidence_transition :: "evidence_args \<Rightarrow> pipeline_status \<Rightarrow> transition_args" where
  "evidence_transition a to =
     \<lparr> ta_tenant_id = ea_tenant_id a, ta_id = ea_id a, ta_to_status = to,
       ta_changed_by_id = ea_changed_by_id a, ta_note = ea_note a, ta_requestId = ea_requestId a,
       ta_expected_version = ea_expected_version a,
       ta_visible_requisition_ids = ea_visible_requisition_ids a, ta_disposition = None,
       ta_evidence = Some (ea_evidence a) \<rparr>"

definition recordContactEvidence ::
  "pipeline_env \<Rightarrow> pipeline_db \<Rightarrow> pipeline_db \<Rightarrow> evidence_args \<Rightarrow>
     pipeline_db \<times> (pipeline_error, pipeline_view) result" where
  "recordContactEvidence env db0 db a = transition_tx env db0 db (evidence_transition a Contacted)"

definition recordResponseEvidence ::
  "pipeline_env \<Rightarrow> pipeline_db \<Rightarrow> pipeline_db \<Rightarrow> evidence_args \<Rightarrow>
     pipeline_db \<times> (pipeline_error, pipeline_view) result" where
  "recordResponseEvidence env db0 db a = transition_tx env db0 db (evidence_transition a Talent_Responded)"

section \<open>reconcileForward\<close>

record reconcile_forward_args =
  rf_tenant_id :: string
  rf_id :: string
  rf_target :: pipeline_status
  rf_changed_by_id :: string
  rf_requestId :: string
  rf_visible_requisition_ids :: "string set option"
  rf_evidence :: evidence_ref

definition hop_args :: "reconcile_forward_args \<Rightarrow> int \<Rightarrow> pipeline_status \<Rightarrow> transition_args" where
  "hop_args a version stage =
     \<lparr> ta_tenant_id = rf_tenant_id a, ta_id = rf_id a, ta_to_status = stage,
       ta_changed_by_id = rf_changed_by_id a, ta_note = None, ta_requestId = rf_requestId a,
       ta_expected_version = version, ta_visible_requisition_ids = rf_visible_requisition_ids a,
       ta_disposition = None, ta_evidence = Some (rf_evidence a) \<rparr>"

text \<open>
  The loop over the evidence-backed stages: \<open>version\<close> and \<open>ord\<close> are those of the row
  the last hop wrote, \<open>n\<close> counts the hops so that each draws its own ids. A refused hop
  aborts the whole transaction.
\<close>

definition hop_env :: "pipeline_env \<Rightarrow> nat \<Rightarrow> pipeline_env" where
  "hop_env env n = env \<lparr> pe_uuid := (\<lambda>k. pe_uuid env (k + 2 * n)) \<rparr>"

fun forward_hops ::
  "pipeline_env \<Rightarrow> reconcile_forward_args \<Rightarrow> nat \<Rightarrow> pipeline_db \<Rightarrow> pipeline_view \<Rightarrow> pipeline_status list \<Rightarrow>
     (pipeline_error, pipeline_db \<times> pipeline_view) result" where
  "forward_hops env a n db view [] = Inr (db, view)"
| "forward_hops env a n db view (stage # stages) =
     (if activeStageOrdinal stage \<le> activeStageOrdinal (vw_status view) \<or>
         activeStageOrdinal stage > activeStageOrdinal (rf_target a)
      then forward_hops env a n db view stages
      else case transition (hop_env env n) db (hop_args a (vw_version view) stage) of
        (_, Inl e) \<Rightarrow> Inl e
      | (db', Inr view') \<Rightarrow> forward_hops env a (Suc n) db' view' stages)"

definition reconcileForward ::
  "pipeline_env \<Rightarrow> pipeline_db \<Rightarrow> reconcile_forward_args \<Rightarrow> pipeline_db \<times> (pipeline_error, pipeline_view) result" where
  "reconcileForward env db a =
     (if \<not> isEvidenceBackedStage (rf_target a) then (db, Inl (VALIDATION_ERROR ''target''))
      else case read_visible db (rf_tenant_id a) (rf_id a) (rf_visible_requisition_ids a) of
        Inl e \<Rightarrow> (db, Inl e)
      | Inr row \<Rightarrow>
          if activeStageOrdinal (pl_status row) < 0 \<or>
             activeStageOrdinal (pl_status row) \<ge> activeStageOrdinal (rf_target a)
          then (db, Inr (projectView row))
          else case forward_hops env a 0 db (projectView row) EVIDENCE_BACKED_STAGES of
            Inl e \<Rightarrow> (db, Inl e)
          | Inr (db', view) \<Rightarrow> (db', Inr view))"

section \<open>void\<close>

record void_args =
  va_tenant_id :: string
  va_id :: string
  va_reason :: void_reason
  va_expected_version :: int
  va_changed_by_id :: string
  va_requestId :: string
  va_visible_requisition_ids :: "string set option"

definition void_row :: "pipeline_env \<Rightarrow> void_args \<Rightarrow> pipeline_row \<Rightarrow> pipeline_row" where
  "void_row env a r =
     r \<lparr> pl_status := Voided, pl_version := pl_version r + 1, pl_updated_at := pe_now env,
         pl_ended_at := Some (pe_now env), pl_ended_by_id := Some (va_changed_by_id a) \<rparr>"

definition void_history :: "pipeline_env \<Rightarrow> void_args \<Rightarrow> history_row" where
  "void_history env a =
     \<lparr> hr_id = pe_uuid env 0, hr_tenant_id = va_tenant_id a, hr_pipeline_id = va_id a,
       hr_status_from = Some No_Contact, hr_status_to = Voided,
       hr_changed_by_id = Some (va_changed_by_id a), hr_changed_at = pe_row_now env,
       hr_note = Some (void_reason_name (va_reason a)) \<rparr>"

definition correctionNote :: "void_reason \<Rightarrow> string" where
  "correctionNote reason =
     ''pipeline no_contact -> voided (accidental-add correction: '' @ void_reason_name reason @ '')''"

definition void ::
  "pipeline_env \<Rightarrow> pipeline_db \<Rightarrow> pipeline_db \<Rightarrow> void_args \<Rightarrow>
     pipeline_db \<times> (pipeline_error, pipeline_view) result" where
  "void env db0 db a =
     (case read_visible db0 (va_tenant_id a) (va_id a) (va_visible_requisition_ids a) of
        Inl e \<Rightarrow> (db, Inl e)
      | Inr row \<Rightarrow>
          if va_expected_version a \<noteq> pl_version row
          then (db, Inl (PIPELINE_TRANSITION_CONFLICT (Some (pl_status row, pl_version row))))
          else if pl_status row \<noteq> No_Contact
          then (db, Inl (PIPELINE_VOID_NOT_ALLOWED_FROM_STATE (pl_status row)))
          else
            case find (cas_match (va_id a) (va_tenant_id a) (pl_version row)) (pdb_pipelines db) of
              None \<Rightarrow> (db, Inl (PIPELINE_TRANSITION_CONFLICT (fresh_detail db (va_id a))))
            | Some r \<Rightarrow>
                let updated = void_row env a r
                in (db \<lparr> pdb_pipelines :=
                           cas_update (va_id a) (va_tenant_id a) (pl_version row) (void_row env a) (pdb_pipelines db),
                         pdb_history := pdb_history db @ [void_history env a],
                         pdb_activities := pdb_activities db @
                           [status_activity (va_tenant_id a) row (correctionNote (va_reason a)) (va_changed_by_id a)],
                         pdb_usage := pdb_usage db @ [transition_usage (va_tenant_id a)],
                         pdb_outbox := pdb_outbox db @
                           [transition_event env (va_tenant_id a) row Voided (pl_version updated) None None] \<rparr>,
                    Inr (projectView updated)))"

section \<open>System commands\<close>

record system_args =
  sa_tenant_id :: string
  sa_id :: string
  sa_expected_version :: int
  sa_changed_by_id :: string
  sa_requestId :: string
  sa_visible_requisition_ids :: "string set option"
  sa_scopes :: "string list"
  sa_source_provenance :: string
  sa_reason :: string
  sa_note :: "string option"

definition system_transition :: "system_args \<Rightarrow> pipeline_status \<Rightarrow> transition_args" where
  "system_transition a to =
     \<lparr> ta_tenant_id = sa_tenant_id a, ta_id = sa_id a, ta_to_status = to,
       ta_changed_by_id = sa_changed_by_id a, ta_note = sa_note a, ta_requestId = sa_requestId a,
       ta_expected_version = sa_expected_version a,
       ta_visible_requisition_ids = sa_visible_requisition_ids a,
       ta_disposition = Some \<lparr> dn_authority_class = DOWNSTREAM_OUTCOME, dn_reason = sa_reason a,
         dn_source_provenance = Some (sa_source_provenance a), dn_note = sa_note a \<rparr>,
       ta_evidence = None \<rparr>"

definition system_refusal :: "system_args \<Rightarrow> pipeline_error option" where
  "system_refusal a =
     (if ''pipeline:complete'' \<notin> set (sa_scopes a) then Some PIPELINE_COMPLETE_SYSTEM_ONLY
      else if sa_source_provenance a = [] \<or> \<not> isValidDispositionReason DOWNSTREAM_OUTCOME (sa_reason a)
      then Some PIPELINE_DISPOSITION_REASON_INVALID else None)"

definition complete ::
  "pipeline_env \<Rightarrow> pipeline_db \<Rightarrow> pipeline_db \<Rightarrow> system_args \<Rightarrow>
     pipeline_db \<times> (pipeline_error, pipeline_view) result" where
  "complete env db0 db a =
     (case system_refusal a of
        Some e \<Rightarrow> (db, Inl e)
      | None \<Rightarrow> transition_tx env db0 db (system_transition a Completed))"

definition dispositionDownstream ::
  "pipeline_env \<Rightarrow> pipeline_db \<Rightarrow> pipeline_db \<Rightarrow> system_args \<Rightarrow>
     pipeline_db \<times> (pipeline_error, pipeline_view) result" where
  "dispositionDownstream env db0 db a =
     (case system_refusal a of
        Some e \<Rightarrow> (db, Inl e)
      | None \<Rightarrow> transition_tx env db0 db (system_transition a Not_In_Consideration))"

section \<open>Record merges\<close>

definition repoint_row :: "string \<Rightarrow> string \<Rightarrow> string \<Rightarrow> string list option \<Rightarrow> pipeline_row \<Rightarrow> pipeline_row" where
  "repoint_row tenant from_id to_id only r =
     (if pl_talent_record_id r = from_id \<and> pl_tenant_id r = tenant \<and>
         (case only of None \<Rightarrow> True | Some ids \<Rightarrow> pl_id r \<in> set ids)
      then r \<lparr> pl_talent_record_id := to_id \<rparr> else r)"

text \<open>
  \<open>UPDATE ... RETURNING id\<close>; an empty list of ids means every row. The statement fails as
  a whole when the live index would be violated.
\<close>

definition effective_only :: "string list option \<Rightarrow> string list option" where
  "effective_only only = (case only of Some (x # xs) \<Rightarrow> Some (x # xs) | _ \<Rightarrow> None)"

definition pipeline_repoint ::
  "pipeline_db \<Rightarrow> string \<Rightarrow> string \<Rightarrow> string \<Rightarrow> string list option \<Rightarrow>
     pipeline_db \<times> (pipeline_error, string list) result" where
  "pipeline_repoint db tenant from_id to_id only_ids =
     (let only = effective_only only_ids;
          moved = filter (\<lambda>r. pl_talent_record_id r = from_id \<and> pl_tenant_id r = tenant \<and>
            (case only of None \<Rightarrow> True | Some ids \<Rightarrow> pl_id r \<in> set ids)) (pdb_pipelines db);
          db' = db \<lparr> pdb_pipelines := map (repoint_row tenant from_id to_id only) (pdb_pipelines db) \<rparr>
      in if live_index_ok db' then (db', Inr (map pl_id moved)) else (db, Inl Unique_Violation))"

definition findLiveEpisodeConflicts :: "pipeline_db \<Rightarrow> string \<Rightarrow> string \<Rightarrow> string \<Rightarrow> string list" where
  "findLiveEpisodeConflicts db tenant from_id to_id =
     js_dedupe (map pl_requisition_id
       (filter (\<lambda>a. pl_tenant_id a = tenant \<and> pl_talent_record_id a = from_id \<and>
          pl_status a \<notin> set TERMINAL_STATUSES \<and>
          (\<exists>b\<in>set (pdb_pipelines db). pl_tenant_id b = tenant \<and> pl_requisition_id b = pl_requisition_id a \<and>
             pl_talent_record_id b = to_id \<and> pl_status b \<notin> set TERMINAL_STATUSES))
        (pdb_pipelines db)))"

section \<open>The outbox drain\<close>

definition findUnpublishedEvents :: "pipeline_db \<Rightarrow> nat \<Rightarrow> pipeline_outbox_row list" where
  "findUnpublishedEvents db limit =
     take limit (sort_key po_created_at (filter (\<lambda>e. po_published_at e = None) (pdb_outbox db)))"

definition markPublished :: "pipeline_db \<Rightarrow> string list \<Rightarrow> int \<Rightarrow> pipeline_db \<times> nat" where
  "markPublished db ids t =
     (if length ids = 0 then (db, 0)
      else (db \<lparr> pdb_outbox := map (\<lambda>e. if po_id e \<in> set ids then e \<lparr> po_published_at := Some t \<rparr> else e) (pdb_outbox db) \<rparr>,
            length (filter (\<lambda>e. po_id e \<in> set ids) (pdb_outbox db))))"

section \<open>Read models\<close>

definition findById :: "pipeline_db \<Rightarrow> string \<Rightarrow> string \<Rightarrow> pipeline_view option" where
  "findById db tenant i = map_option projectView (find_pipeline db tenant i)"

definition hasEndedEpisode :: "pipeline_db \<Rightarrow> string \<Rightarrow> string \<Rightarrow> string \<Rightarrow> bool" where
  "hasEndedEpisode db tenant talent req \<longleftrightarrow>
     find (\<lambda>r. pl_tenant_id r = tenant \<and> pl_talent_record_id r = talent \<and> pl_requisition_id r = req \<and>
               pl_status r \<in> set TERMINAL_STATUSES) (pdb_pipelines db) \<noteq> None"

definition findLiveEpisode :: "pipeline_db \<Rightarrow> string \<Rightarrow> string \<Rightarrow> string \<Rightarrow> pipeline_view option" where
  "findLiveEpisode db tenant talent req = map_option projectView (find_live_row db tenant talent req)"

definition findByIdForActor :: "pipeline_db \<Rightarrow> string \<Rightarrow> string \<Rightarrow> string set option \<Rightarrow> pipeline_view option" where
  "findByIdForActor db tenant i vis =
     (case vis of
        Some s \<Rightarrow> map_option projectView
          (find (\<lambda>r. pl_tenant_id r = tenant \<and> pl_id r = i \<and> pl_requisition_id r \<in> s) (pdb_pipelines db))
      | None \<Rightarrow> findById db tenant i)"

record list_args =
  la_tenant_id :: string
  la_visible_requisition_ids :: "string set option"
  la_requisition_id :: "string option"
  la_talent_record_id :: "string option"
  la_limit :: "nat option"
  la_exclude_voided :: bool

definition listForActor :: "pipeline_db \<Rightarrow> list_args \<Rightarrow> pipeline_view list" where
  "listForActor db a =
     (let limit = min (case la_limit a of None \<Rightarrow> 50 | Some n \<Rightarrow> n) 200;
          hit = (\<lambda>r. pl_tenant_id r = la_tenant_id a \<and>
                   (la_exclude_voided a \<longrightarrow> pl_status r \<noteq> Voided) \<and>
                   (case la_requisition_id a of
                      Some q \<Rightarrow> pl_requisition_id r = q
                    | None \<Rightarrow> visible (la_visible_requisition_ids a) r) \<and>
                   (case la_talent_record_id a of None \<Rightarrow> True | Some t \<Rightarrow> pl_talent_record_id r = t))
      in case (la_requisition_id a, la_visible_requisition_ids a) of
           (Some q, Some s) \<Rightarrow>
             if q \<notin> s then []
             else map projectView (take limit (sort_key (\<lambda>r. - pl_created_at r) (filter hit (pdb_pipelines db))))
         | _ \<Rightarrow> map projectView (take limit (sort_key (\<lambda>r. - pl_created_at r) (filter hit (pdb_pipelines db)))))"

definition findDispositionReasons :: "pipeline_db \<Rightarrow> string \<Rightarrow> string list \<Rightarrow> (string \<rightharpoonup> string)" where
  "findDispositionReasons db tenant ids =
     map_of (rev (map (\<lambda>d. (dp_pipeline_id d, dp_reason d))
       (filter (\<lambda>d. dp_tenant_id d = tenant \<and> dp_pipeline_id d \<in> set ids) (pdb_dispositions db))))"

text \<open>
  \<open>findCurrentStageForTalentIds\<close>, one talent at a time: the loop keeps the greatest
  ordinal, and among equal ones the least requisition id.
\<close>

definition stage_better :: "pipeline_row \<Rightarrow> pipeline_row \<Rightarrow> bool" where
  "stage_better r cur \<longleftrightarrow>
     activeStageOrdinal (pl_status r) > activeStageOrdinal (pl_status cur) \<or>
     activeStageOrdinal (pl_status r) = activeStageOrdinal (pl_status cur) \<and>
       pl_requisition_id r < pl_requisition_id cur"

fun stage_step :: "pipeline_row option \<Rightarrow> pipeline_row \<Rightarrow> pipeline_row option" where
  "stage_step None r = Some r"
| "stage_step (Some cur) r = (if stage_better r cur then Some r else Some cur)"

definition findCurrentStage ::
  "pipeline_db \<Rightarrow> string \<Rightarrow> string set option \<Rightarrow> string \<Rightarrow> (pipeline_status \<times> string) option" where
  "findCurrentStage db tenant vis talent =
     map_option (\<lambda>r. (pl_status r, pl_requisition_id r))
       (foldl stage_step None
         (filter (\<lambda>r. pl_tenant_id r = tenant \<and> pl_talent_record_id r = talent \<and>
            pl_status r \<in> set ACTIVE_FLOW_STAGES \<and> visible vis r) (pdb_pipelines db)))"

definition listHistory ::
  "pipeline_db \<Rightarrow> string \<Rightarrow> string \<Rightarrow> string set option \<Rightarrow> (pipeline_error, history_row list) result" where
  "listHistory db tenant pid vis =
     rbind (read_visible db tenant pid vis) (\<lambda>_.
       Inr (sort_key hr_changed_at
         (filter (\<lambda>h. hr_tenant_id h = tenant \<and> hr_pipeline_id h = pid) (pdb_history db))))"

definition pipeline_count :: "pipeline_db \<Rightarrow> string \<Rightarrow> string list option \<Rightarrow> pipeline_status option \<Rightarrow> nat" where
  "pipeline_count db tenant reqs status =
     length (filter (\<lambda>r. pl_tenant_id r = tenant \<and>
       (case reqs of None \<Rightarrow> True | Some qs \<Rightarrow> pl_requisition_id r \<in> set qs) \<and>
       (case status of None \<Rightarrow> True | Some s \<Rightarrow> pl_status r = s)) (pdb_pipelines db))"

text \<open>
  \<open>countByStatus\<close>: each (talent, requisition) counts once, in its current episode, the
  live one if there is one and else the latest created (greatest id among equals).
\<close>

definition current_episode :: "pipeline_row list \<Rightarrow> pipeline_row option" where
  "current_episode rows =
     first_max (\<lambda>r. (isLiveStatus (pl_status r), pl_created_at r, pl_id r)) rows"

definition current_episodes :: "pipeline_db \<Rightarrow> string \<Rightarrow> string list option \<Rightarrow> pipeline_row list" where
  "current_episodes db tenant reqs =
     (let rows = filter (\<lambda>r. pl_tenant_id r = tenant \<and>
            (case reqs of None \<Rightarrow> True | Some qs \<Rightarrow> pl_requisition_id r \<in> set qs)) (pdb_pipelines db)
      in List.map_filter (\<lambda>k. current_episode
           (filter (\<lambda>r. (pl_talent_record_id r, pl_requisition_id r) = k) rows))
           (js_dedupe (map (\<lambda>r. (pl_talent_record_id r, pl_requisition_id r)) rows)))"

definition countByStatus ::
  "pipeline_db \<Rightarrow> string \<Rightarrow> string list option \<Rightarrow> pipeline_status \<Rightarrow> nat" where
  "countByStatus db tenant reqs s =
     length (filter (\<lambda>r. pl_status r = s) (current_episodes db tenant reqs))"

section \<open>Resume selection\<close>

definition createRequisitionResumeSelection ::
  "pipeline_env \<Rightarrow> pipeline_db \<Rightarrow> string \<Rightarrow> string \<Rightarrow> string \<Rightarrow> string \<Rightarrow> string \<Rightarrow> string option \<Rightarrow> pipeline_db" where
  "createRequisitionResumeSelection env db tenant talent req edition actor note =
     db \<lparr> pdb_resumes := pdb_resumes db @
       [\<lparr> rs_id = pe_uuid env 0, rs_tenant_id = tenant, rs_talent_record_id = talent,
          rs_requisition_id = req, rs_resume_edition_id = edition, rs_selected_at = pe_row_now env,
          rs_selected_by = actor, rs_note = note \<rparr>] \<rparr>"

definition resumes_of :: "pipeline_db \<Rightarrow> string \<Rightarrow> string \<Rightarrow> string \<Rightarrow> resume_selection_row list" where
  "resumes_of db tenant talent req =
     filter (\<lambda>r. rs_tenant_id r = tenant \<and> rs_talent_record_id r = talent \<and> rs_requisition_id r = req)
       (pdb_resumes db)"

definition getCurrentRequisitionResume ::
  "pipeline_db \<Rightarrow> string \<Rightarrow> string \<Rightarrow> string \<Rightarrow> resume_selection_row option" where
  "getCurrentRequisitionResume db tenant talent req =
     first_max (\<lambda>r. (rs_selected_at r, rs_id r)) (resumes_of db tenant talent req)"

end
