(* ===== verification/Pipeline_Invariant.thy ===== *)
theory Pipeline_Invariant
  imports Pipeline_Commands
begin

text \<open>
  The invariant of the pipeline tables and its preservation by every command, under
  interleaving: a command may have read any earlier state of the trace before it writes.
  \<^item> \<open>row_ok\<close>: the history of a row is a path through the status table that ends in its
    status, its length is the version, the outbox replays it, \<open>ended_at\<close> marks the
    terminal rows, and a disposition exists exactly for a rejected episode and at most once
    for a completed one;
  \<^item> \<open>advances db0 db\<close>: what another transaction can have done in between. A row keeps its
    identity, its version never falls, and an unchanged version means an unchanged status.
\<close>

section \<open>Commands and traces\<close>

datatype pipeline_command =
    Create_Cmd pipeline_env create_args
  | Transition_Cmd pipeline_env transition_args
  | Action_Cmd pipeline_env action_args
  | Contact_Cmd pipeline_env evidence_args
  | Response_Cmd pipeline_env evidence_args
  | Complete_Cmd pipeline_env system_args
  | Downstream_Cmd pipeline_env system_args
  | Void_Cmd pipeline_env void_args
  | Forward_Cmd pipeline_env reconcile_forward_args
  | Repoint_Cmd string string string "string list option"
  | Publish_Cmd "string list" int
  | Decision_Cmd decision_record
  | Resume_Cmd pipeline_env string string string string string "string option"
  | Requisitions_Cmd "requisition_row list"

fun pipeline_exec :: "pipeline_db \<Rightarrow> pipeline_db \<Rightarrow> pipeline_command \<Rightarrow> pipeline_db" where
  "pipeline_exec db0 db (Create_Cmd env a) = fst (create_tx env db0 db a)"
| "pipeline_exec db0 db (Transition_Cmd env a) = fst (transition_tx env db0 db a)"
| "pipeline_exec db0 db (Action_Cmd env a) = fst (applyAction env db0 db a)"
| "pipeline_exec db0 db (Contact_Cmd env a) = fst (recordContactEvidence env db0 db a)"
| "pipeline_exec db0 db (Response_Cmd env a) = fst (recordResponseEvidence env db0 db a)"
| "pipeline_exec db0 db (Complete_Cmd env a) = fst (complete env db0 db a)"
| "pipeline_exec db0 db (Downstream_Cmd env a) = fst (dispositionDownstream env db0 db a)"
| "pipeline_exec db0 db (Void_Cmd env a) = fst (void env db0 db a)"
| "pipeline_exec db0 db (Forward_Cmd env a) = fst (reconcileForward env db a)"
| "pipeline_exec db0 db (Repoint_Cmd tenant from_id to_id only) =
     fst (pipeline_repoint db tenant from_id to_id only)"
| "pipeline_exec db0 db (Publish_Cmd ids t) = fst (markPublished db ids t)"
| "pipeline_exec db0 db (Decision_Cmd p) = recordDecision db p"
| "pipeline_exec db0 db (Resume_Cmd env tenant talent req edition actor note) =
     createRequisitionResumeSelection env db tenant talent req edition actor note"
| "pipeline_exec db0 db (Requisitions_Cmd rows) = db \<lparr> pdb_requisitions := rows \<rparr>"

text \<open>
  The id a creation draws is new, and a bare transition carries a disposition only into a
  terminal status (the HTTP route carries none).
\<close>

definition command_ok :: "pipeline_db \<Rightarrow> pipeline_command \<Rightarrow> bool" where
  "command_ok db c = (case c of
     Create_Cmd env a \<Rightarrow> pe_uuid env 0 \<notin> pl_id ` set (pdb_pipelines db)
   | Transition_Cmd env a \<Rightarrow> ta_disposition a \<noteq> None \<longrightarrow> ta_to_status a \<in> {Not_In_Consideration, Completed}
   | _ \<Rightarrow> True)"

definition empty_pdb :: pipeline_db where
  "empty_pdb = \<lparr> pdb_pipelines = [], pdb_history = [], pdb_activities = [], pdb_usage = [],
     pdb_outbox = [], pdb_dispositions = [], pdb_provenance = [], pdb_decisions = [],
     pdb_resumes = [], pdb_requisitions = [] \<rparr>"

text \<open>A trace lists the committed states, newest first.\<close>

inductive pipeline_trace :: "pipeline_db list \<Rightarrow> bool" where
  start: "pipeline_trace [empty_pdb]"
| step: "pipeline_trace (db # dbs) \<Longrightarrow> db0 \<in> set (db # dbs) \<Longrightarrow> command_ok db c \<Longrightarrow>
    pipeline_trace (pipeline_exec db0 db c # db # dbs)"

section \<open>The invariant\<close>

definition history_of :: "pipeline_db \<Rightarrow> string \<Rightarrow> history_row list" where
  "history_of db i = filter (\<lambda>h. hr_pipeline_id h = i) (pdb_history db)"

fun edge_ok :: "pipeline_status option \<Rightarrow> pipeline_status \<Rightarrow> bool" where
  "edge_ok None to \<longleftrightarrow> to = No_Contact"
| "edge_ok (Some from) to \<longleftrightarrow> to \<in> set (LEGAL_TRANSITIONS from) \<or> from = No_Contact \<and> to = Voided"

fun status_path :: "pipeline_status option \<Rightarrow> history_row list \<Rightarrow> pipeline_status option \<Rightarrow> bool" where
  "status_path s [] t \<longleftrightarrow> s = t"
| "status_path s (h # hs) t \<longleftrightarrow>
     hr_status_from h = s \<and> edge_ok s (hr_status_to h) \<and> status_path (Some (hr_status_to h)) hs t"

type_synonym status_event = "pipeline_status \<times> pipeline_status \<times> int \<times> evidence_ref option"

fun event_of :: "string \<Rightarrow> pipeline_payload \<Rightarrow> status_event option" where
  "event_of i (Created_Payload p t r x) = None"
| "event_of i (Transition_Payload p t r from to v ev rtr) = (if p = i then Some (from, to, v, ev) else None)"

definition events_of :: "pipeline_db \<Rightarrow> string \<Rightarrow> status_event list" where
  "events_of db i = List.map_filter (\<lambda>e. event_of i (po_payload e)) (pdb_outbox db)"

fun payload_pipeline :: "pipeline_payload \<Rightarrow> string" where
  "payload_pipeline (Created_Payload p t r x) = p"
| "payload_pipeline (Transition_Payload p t r from to v ev rtr) = p"

text \<open>The steps of a history after its birth row, numbered by the version they produced.\<close>

definition moves :: "history_row list \<Rightarrow> (pipeline_status \<times> pipeline_status \<times> int) list" where
  "moves hs = map (\<lambda>k. (the (hr_status_from (hs ! k)), hr_status_to (hs ! k), int k)) [1..<length hs]"

definition dispositions_of :: "pipeline_db \<Rightarrow> string \<Rightarrow> disposition_row list" where
  "dispositions_of db i = filter (\<lambda>d. dp_pipeline_id d = i) (pdb_dispositions db)"

definition disposition_count_ok :: "pipeline_status \<Rightarrow> nat \<Rightarrow> bool" where
  "disposition_count_ok s n \<longleftrightarrow>
     (if s = Not_In_Consideration then n = 1 else if s = Completed then n \<le> 1 else n = 0)"

text \<open>Every stay in the response stage rests on admissible evidence.\<close>

definition response_evidence :: "pipeline_db \<Rightarrow> string \<Rightarrow> bool" where
  "response_evidence db i \<longleftrightarrow>
     (\<exists>from v e. (from, Talent_Responded, v, Some e) \<in> set (events_of db i) \<and>
        er_kind e = ''recruiter_response_confirmation'')"

definition pipeline_row_ok :: "pipeline_db \<Rightarrow> pipeline_row \<Rightarrow> bool" where
  "pipeline_row_ok db r \<longleftrightarrow>
     status_path None (history_of db (pl_id r)) (Some (pl_status r)) \<and>
     pl_version r + 1 = int (length (history_of db (pl_id r))) \<and>
     map (\<lambda>(f, t, v, ev). (f, t, v)) (events_of db (pl_id r)) = moves (history_of db (pl_id r)) \<and>
     (pl_ended_at r \<noteq> None \<longleftrightarrow> \<not> isLiveStatus (pl_status r)) \<and>
     disposition_count_ok (pl_status r) (length (dispositions_of db (pl_id r))) \<and>
     (Talent_Responded \<in> hr_status_to ` set (history_of db (pl_id r)) \<longrightarrow> response_evidence db (pl_id r))"

definition pdb_ok :: "pipeline_db \<Rightarrow> bool" where
  "pdb_ok db \<longleftrightarrow> distinct (map pl_id (pdb_pipelines db)) \<and> live_index_ok db \<and>
     (\<forall>r\<in>set (pdb_pipelines db). pipeline_row_ok db r) \<and>
     hr_pipeline_id ` set (pdb_history db) \<subseteq> pl_id ` set (pdb_pipelines db) \<and>
     (payload_pipeline \<circ> po_payload) ` set (pdb_outbox db) \<subseteq> pl_id ` set (pdb_pipelines db) \<and>
     dp_pipeline_id ` set (pdb_dispositions db) \<subseteq> pl_id ` set (pdb_pipelines db)"

definition advances :: "pipeline_db \<Rightarrow> pipeline_db \<Rightarrow> bool" where
  "advances db0 db \<longleftrightarrow>
     (\<forall>r0\<in>set (pdb_pipelines db0). \<exists>r\<in>set (pdb_pipelines db). pl_id r = pl_id r0 \<and>
        pl_tenant_id r = pl_tenant_id r0 \<and> pl_requisition_id r = pl_requisition_id r0 \<and>
        pl_version r0 \<le> pl_version r \<and> (pl_version r = pl_version r0 \<longrightarrow> pl_status r = pl_status r0)) \<and>
     (\<exists>new. pdb_history db = pdb_history db0 @ new)"

lemma advances_refl [simp, intro]: "advances db db"
  by (auto simp: advances_def)

lemma advances_trans:
  assumes ab: "advances a b" and bc: "advances b c"
  shows "advances a c"
  unfolding advances_def
proof
  show "\<forall>r0\<in>set (pdb_pipelines a). \<exists>r\<in>set (pdb_pipelines c). pl_id r = pl_id r0 \<and>
        pl_tenant_id r = pl_tenant_id r0 \<and> pl_requisition_id r = pl_requisition_id r0 \<and>
        pl_version r0 \<le> pl_version r \<and> (pl_version r = pl_version r0 \<longrightarrow> pl_status r = pl_status r0)"
  proof
    fix x assume "x \<in> set (pdb_pipelines a)"
    with ab obtain y where y: "y \<in> set (pdb_pipelines b)" "pl_id y = pl_id x" "pl_tenant_id y = pl_tenant_id x"
      "pl_requisition_id y = pl_requisition_id x" "pl_version x \<le> pl_version y"
      "pl_version y = pl_version x \<longrightarrow> pl_status y = pl_status x" unfolding advances_def by blast
    with bc obtain z where "z \<in> set (pdb_pipelines c)" "pl_id z = pl_id y" "pl_tenant_id z = pl_tenant_id y"
      "pl_requisition_id z = pl_requisition_id y" "pl_version y \<le> pl_version z"
      "pl_version z = pl_version y \<longrightarrow> pl_status z = pl_status y" unfolding advances_def by blast
    with y show "\<exists>r\<in>set (pdb_pipelines c). pl_id r = pl_id x \<and> pl_tenant_id r = pl_tenant_id x \<and>
        pl_requisition_id r = pl_requisition_id x \<and> pl_version x \<le> pl_version r \<and>
        (pl_version r = pl_version x \<longrightarrow> pl_status r = pl_status x)" by (intro bexI [of _ z]) auto
  qed
  show "\<exists>new. pdb_history c = pdb_history a @ new" using ab bc unfolding advances_def by fastforce
qed

section \<open>Paths and moves\<close>

lemma status_path_snoc:
  "status_path s hs (Some f) \<Longrightarrow> hr_status_from h = Some f \<Longrightarrow> edge_ok (Some f) (hr_status_to h) \<Longrightarrow>
     status_path s (hs @ [h]) (Some (hr_status_to h))"
  by (induction s hs "Some f" rule: status_path.induct) auto

lemma moves_snoc:
  assumes "hs \<noteq> []"
  shows "moves (hs @ [h]) = moves hs @ [(the (hr_status_from h), hr_status_to h, int (length hs))]"
proof -
  have "[1..<length (hs @ [h])] = [1..<length hs] @ [length hs]"
    using assms by (cases hs) (simp_all add: upt_Suc_append)
  moreover have "map (\<lambda>k. (the (hr_status_from ((hs @ [h]) ! k)), hr_status_to ((hs @ [h]) ! k), int k)) [1..<length hs] = moves hs"
    unfolding moves_def by (rule map_cong) (auto simp: nth_append)
  ultimately show ?thesis unfolding moves_def [of "hs @ [h]"] by simp
qed

lemma path_nonempty: "status_path None hs (Some s) \<Longrightarrow> hs \<noteq> []"
  by (cases hs) auto

text \<open>Every path to the stages past the response goes through it.\<close>

lemma path_through_response:
  "status_path s hs (Some t) \<Longrightarrow> t \<in> {Talent_Responded, Qualifying, Qualified, Completed} \<Longrightarrow>
     s \<in> Some ` {Talent_Responded, Qualifying, Qualified, Completed} \<or> Talent_Responded \<in> hr_status_to ` set hs"
proof (induction s hs "Some t" rule: status_path.induct)
  case (2 s h hs)
  then have IH: "hr_status_to h \<in> {Talent_Responded, Qualifying, Qualified, Completed} \<or>
      Talent_Responded \<in> hr_status_to ` set hs" by auto
  show ?case
  proof (cases "Talent_Responded \<in> hr_status_to ` set (h # hs)")
    case False
    then have q: "hr_status_to h \<in> {Qualifying, Qualified, Completed}" using IH by auto
    moreover have "edge_ok s (hr_status_to h)" using 2 by simp
    ultimately have "\<exists>f. s = Some f \<and> hr_status_to h \<in> set (LEGAL_TRANSITIONS f)"
      by (cases s) auto
    then obtain f where "s = Some f" "hr_status_to h \<in> set (LEGAL_TRANSITIONS f)" by blast
    then show ?thesis using q by (cases f) auto
  qed blast
qed auto

section \<open>One status move\<close>

definition move_row :: "int \<Rightarrow> string \<Rightarrow> pipeline_status \<Rightarrow> pipeline_status \<Rightarrow> pipeline_row \<Rightarrow> pipeline_row" where
  "move_row now actor from to r =
     r \<lparr> pl_status := to, pl_version := pl_version r + 1, pl_updated_at := now,
         pl_ended_at := (if enteringTerminal from to then Some now else pl_ended_at r),
         pl_ended_by_id := (if enteringTerminal from to then Some actor else pl_ended_by_id r) \<rparr>"

lemma advance_row_move: "advance_row env a from = move_row (pe_now env) (ta_changed_by_id a) from (ta_to_status a)"
  by (simp add: fun_eq_iff advance_row_def move_row_def)

lemma void_row_move: "void_row env a = move_row (pe_now env) (va_changed_by_id a) No_Contact Voided"
  by (simp add: fun_eq_iff void_row_def move_row_def enteringTerminal_def)

lemma move_row_sel [simp]:
  "pl_id (move_row n a f t r) = pl_id r" "pl_tenant_id (move_row n a f t r) = pl_tenant_id r"
  "pl_site_id (move_row n a f t r) = pl_site_id r"
  "pl_requisition_id (move_row n a f t r) = pl_requisition_id r"
  "pl_talent_record_id (move_row n a f t r) = pl_talent_record_id r"
  "pl_status (move_row n a f t r) = t" "pl_version (move_row n a f t r) = pl_version r + 1"
  "episode_key (move_row n a f t r) = episode_key r"
  by (simp_all add: move_row_def episode_key_def)

lemma same_pipeline:
  "pdb_ok db \<Longrightarrow> r \<in> set (pdb_pipelines db) \<Longrightarrow> s \<in> set (pdb_pipelines db) \<Longrightarrow> pl_id r = pl_id s \<Longrightarrow> r = s"
  unfolding pdb_ok_def by (meson distinct_map inj_onD)

lemma edge_source_live: "edge_ok (Some s) t \<Longrightarrow> isLiveStatus s"
  by (auto dest: legal_source_live)

lemma live_index_shrink:
  assumes "distinct (map episode_key (filter (\<lambda>r. isLiveStatus (pl_status r)) rows))"
    and "\<And>r. r \<in> set rows \<Longrightarrow> episode_key (g r) = episode_key r"
    and "\<And>r. r \<in> set rows \<Longrightarrow> isLiveStatus (pl_status (g r)) \<Longrightarrow> isLiveStatus (pl_status r)"
  shows "distinct (map episode_key (filter (\<lambda>r. isLiveStatus (pl_status r)) (map g rows)))"
  using assms
proof (induction rows)
  case (Cons x rows)
  have IH: "distinct (map episode_key (filter (\<lambda>r. isLiveStatus (pl_status r)) (map g rows)))"
    using Cons by (auto split: if_splits)
  have "episode_key x \<notin> episode_key ` {r \<in> set (map g rows). isLiveStatus (pl_status r)}"
    if "isLiveStatus (pl_status (g x))"
  proof -
    have "episode_key x \<notin> episode_key ` {r \<in> set rows. isLiveStatus (pl_status r)}"
      using Cons.prems(1) Cons.prems(3) [of x] that by (simp split: if_splits)
    moreover have "episode_key (g r) = episode_key r \<and> (isLiveStatus (pl_status (g r)) \<longrightarrow> isLiveStatus (pl_status r))"
      if "r \<in> set rows" for r using Cons.prems(2,3) that by auto
    ultimately show ?thesis by force
  qed
  then show ?case using IH Cons.prems(2) by simp
qed simp

lemma cas_update_row:
  assumes ok: "pdb_ok db" and r: "r \<in> set (pdb_pipelines db)"
  shows "set (cas_update (pl_id r) (pl_tenant_id r) (pl_version r) f (pdb_pipelines db)) =
    insert (f r) (set (pdb_pipelines db) - {r})"
proof -
  have "cas_match (pl_id r) (pl_tenant_id r) (pl_version r) s \<longleftrightarrow> s = r" if "s \<in> set (pdb_pipelines db)" for s
    using same_pipeline [OF ok that r] by (auto simp: cas_match_def)
  with r show ?thesis unfolding cas_update_def by (auto simp: image_iff)
qed

lemma cas_update_ids: "(\<And>s. pl_id (f s) = pl_id s) \<Longrightarrow> map pl_id (cas_update i t v f rows) = map pl_id rows"
  by (auto simp: cas_update_def)

lemma find_cas:
  assumes "find (cas_match i tenant v) rows = Some r"
  shows "r \<in> set rows" "pl_id r = i" "pl_tenant_id r = tenant" "pl_version r = v"
  using assms by (auto simp: find_Some_iff cas_match_def)

lemma history_of_append [simp]:
  "pdb_history db' = pdb_history db @ hs \<Longrightarrow>
     history_of db' i = history_of db i @ filter (\<lambda>h. hr_pipeline_id h = i) hs"
  by (simp add: history_of_def)

lemma event_of_other: "payload_pipeline p \<noteq> i \<Longrightarrow> event_of i p = None"
  by (cases p) auto

lemma row_ok_untouched:
  assumes "pipeline_row_ok db s"
    and "history_of db' (pl_id s) = history_of db (pl_id s)" "events_of db' (pl_id s) = events_of db (pl_id s)"
    and "dispositions_of db' (pl_id s) = dispositions_of db (pl_id s)"
  shows "pipeline_row_ok db' s"
  using assms by (simp add: pipeline_row_ok_def response_evidence_def)

text \<open>A legal move of one row, with its history row, its event and its dispositions.\<close>

lemma move_step:
  assumes ok: "pdb_ok db" and r: "r \<in> set (pdb_pipelines db)" and edge: "edge_ok (Some (pl_status r)) to"
    and pl: "pdb_pipelines db' =
      cas_update (pl_id r) (pl_tenant_id r) (pl_version r) (move_row now actor (pl_status r) to) (pdb_pipelines db)"
    and hist: "pdb_history db' = pdb_history db @ [h]" "hr_pipeline_id h = pl_id r"
      "hr_status_from h = Some (pl_status r)" "hr_status_to h = to"
    and out: "pdb_outbox db' = pdb_outbox db @ [e]"
      "po_payload e = Transition_Payload (pl_id r) x y (pl_status r) to (pl_version r + 1) ev rtr"
    and disp: "pdb_dispositions db' = pdb_dispositions db @ ds" "\<forall>d\<in>set ds. dp_pipeline_id d = pl_id r"
      "disposition_count_ok to (length ds)"
    and resp: "to = Talent_Responded \<Longrightarrow>
      (\<exists>e. ev = Some e \<and> er_kind e = ''recruiter_response_confirmation'') \<or>
      Talent_Responded \<in> hr_status_to ` set (history_of db (pl_id r))"
  shows "pdb_ok db' \<and> advances db db'"
proof -
  let ?f = "move_row now actor (pl_status r) to"
  have rok: "pipeline_row_ok db r" using ok r by (simp add: pdb_ok_def)
  have rows: "set (pdb_pipelines db') = insert (?f r) (set (pdb_pipelines db) - {r})"
    unfolding pl by (rule cas_update_row [OF ok r])
  have ids: "map pl_id (pdb_pipelines db') = map pl_id (pdb_pipelines db)"
    unfolding pl by (rule cas_update_ids) simp
  then have idset: "pl_id ` set (pdb_pipelines db') = pl_id ` set (pdb_pipelines db)"
    by (metis image_set)
  have live: "isLiveStatus (pl_status r)" using edge_source_live [OF edge] .
  have H: "history_of db' j = history_of db j @ (if j = pl_id r then [h] else [])" for j
    using hist by auto
  have E: "events_of db' j = events_of db j @ (if j = pl_id r then [(pl_status r, to, pl_version r + 1, ev)] else [])" for j
    using out by (simp add: events_of_def map_filter_simps)
  have D: "dispositions_of db' j = dispositions_of db j @ (if j = pl_id r then ds else [])" for j
    using disp(1,2) by (auto simp: dispositions_of_def filter_id_conv filter_empty_conv)
  have moved: "pipeline_row_ok db' (?f r)"
  proof -
    have ne: "history_of db (pl_id r) \<noteq> []" using rok path_nonempty by (auto simp: pipeline_row_ok_def)
    have "status_path None (history_of db' (pl_id r)) (Some to)"
      using rok edge hist H status_path_snoc [of None _ "pl_status r" h] by (simp add: pipeline_row_ok_def)
    moreover have "map (\<lambda>(f, t, v, ev). (f, t, v)) (events_of db' (pl_id r)) = moves (history_of db' (pl_id r))"
      using rok hist by (simp add: H E moves_snoc [OF ne] pipeline_row_ok_def)
    moreover have "dispositions_of db (pl_id r) = []"
      using rok live by (cases "pl_status r") (auto simp: pipeline_row_ok_def disposition_count_ok_def)
    moreover have "response_evidence db' (pl_id r)"
      if "Talent_Responded \<in> hr_status_to ` set (history_of db' (pl_id r))"
    proof (cases "Talent_Responded \<in> hr_status_to ` set (history_of db (pl_id r))")
      case True
      then show ?thesis using rok by (auto simp: pipeline_row_ok_def response_evidence_def E)
    next
      case False
      with that have t: "to = Talent_Responded" using hist(4) by (auto simp: H)
      then show ?thesis using resp False by (auto simp: response_evidence_def E)
    qed
    ultimately show ?thesis using rok live disp(3)
      by (auto simp: pipeline_row_ok_def H D move_row_def enteringTerminal_def)
  qed
  have others: "pipeline_row_ok db' s" if s: "s \<in> set (pdb_pipelines db)" "s \<noteq> r" for s
  proof (rule row_ok_untouched)
    show "pipeline_row_ok db s" using ok s by (simp add: pdb_ok_def)
    have "pl_id s \<noteq> pl_id r" using same_pipeline [OF ok s(1) r] s(2) by blast
    then show "history_of db' (pl_id s) = history_of db (pl_id s)" "events_of db' (pl_id s) = events_of db (pl_id s)"
      "dispositions_of db' (pl_id s) = dispositions_of db (pl_id s)" by (simp_all add: H E D)
  qed
  have "live_index_ok db'"
    using ok live unfolding live_index_ok_def live_rows_def pl cas_update_def pdb_ok_def
    by (intro live_index_shrink) (auto simp: cas_match_def split: if_splits dest: same_pipeline [OF ok _ r])
  with ok moved others have "pdb_ok db'" unfolding pdb_ok_def idset ids rows
    using hist out disp r by auto
  moreover have "advances db db'"
    unfolding advances_def rows using hist(1) by (auto 4 3)
  ultimately show ?thesis by blast
qed

section \<open>Transitions\<close>

lemma read_visible_row:
  "read_visible db tenant i vis = Inr r \<Longrightarrow>
     r \<in> set (pdb_pipelines db) \<and> pl_tenant_id r = tenant \<and> pl_id r = i \<and> visible vis r"
  by (auto simp: read_visible_def find_pipeline_def find_Some_iff split: option.splits if_splits)

text \<open>What the checks before the first write have established.\<close>

definition evidence_grounded :: "pipeline_db \<Rightarrow> transition_args \<Rightarrow> pipeline_status \<Rightarrow> bool" where
  "evidence_grounded db a from \<longleftrightarrow>
     (case ta_evidence a of
        Some e \<Rightarrow> isEvidenceAdmissible (ta_to_status a) (er_kind e)
      | None \<Rightarrow> backwardIntoEvidenceStage a from \<and> reachedBefore db a \<and>
          (\<exists>n. ta_note a = Some n \<and> \<not> blank n))"

lemma transition_check_go:
  assumes "transition_check env db a = Inr (cur, False)"
  shows "cur \<in> set (pdb_pipelines db)" "pl_id cur = ta_id a" "pl_tenant_id cur = ta_tenant_id a"
    and "visible (ta_visible_requisition_ids a) cur" "pl_version cur = ta_expected_version a"
    and "ta_to_status a \<in> set (LEGAL_TRANSITIONS (pl_status cur))"
    and "ta_to_status a = Not_In_Consideration \<Longrightarrow> ta_disposition a \<noteq> None"
    and "isEvidenceBackedStage (ta_to_status a) \<Longrightarrow> evidence_grounded db a (pl_status cur)"
    and "isEvidenceBackedStage (ta_to_status a) \<Longrightarrow> ta_evidence a \<noteq> None \<Longrightarrow> pe_verifier env \<noteq> None"
    and "ta_to_status a = Qualified \<Longrightarrow> pe_guard env \<noteq> None"
proof -
  obtain c where c: "read_visible db (ta_tenant_id a) (ta_id a) (ta_visible_requisition_ids a) = Inr c"
    using assms by (auto simp: transition_check_def rbind_Inr_iff)
  note d = assms [unfolded transition_check_def c rbind_simps Let_def]
  have "cur = c" using d by (auto split: if_splits)
  with read_visible_row [OF c] show "cur \<in> set (pdb_pipelines db)" "pl_id cur = ta_id a"
    "pl_tenant_id cur = ta_tenant_id a" "visible (ta_visible_requisition_ids a) cur" by auto
  show "pl_version cur = ta_expected_version a" "ta_to_status a \<in> set (LEGAL_TRANSITIONS (pl_status cur))"
    "ta_to_status a = Not_In_Consideration \<Longrightarrow> ta_disposition a \<noteq> None"
    "isEvidenceBackedStage (ta_to_status a) \<Longrightarrow> ta_evidence a \<noteq> None \<Longrightarrow> pe_verifier env \<noteq> None"
    "ta_to_status a = Qualified \<Longrightarrow> pe_guard env \<noteq> None"
    using d by (auto simp: canTransition_def split: if_splits)
  show "evidence_grounded db a (pl_status cur)" if "isEvidenceBackedStage (ta_to_status a)"
    using d that by (auto simp: evidence_grounded_def backwardIntoEvidenceStage_def split: if_splits option.splits)
qed

text \<open>A write that succeeds met the row with the version that was read, hence its status.\<close>

lemma cas_meets_row:
  assumes ok: "pdb_ok db" and adv: "advances db0 db" and cur: "cur \<in> set (pdb_pipelines db0)"
    and r: "r \<in> set (pdb_pipelines db)" "pl_id r = pl_id cur" "pl_version r = pl_version cur"
  shows "pl_status r = pl_status cur" "pl_requisition_id r = pl_requisition_id cur"
proof -
  obtain s where "s \<in> set (pdb_pipelines db)" "pl_id s = pl_id cur" "pl_requisition_id s = pl_requisition_id cur"
    "pl_version s = pl_version cur \<longrightarrow> pl_status s = pl_status cur"
    using adv cur unfolding advances_def by blast
  moreover from this have "s = r" using same_pipeline [OF ok _ r(1)] r(2) by simp
  ultimately show "pl_status r = pl_status cur" "pl_requisition_id r = pl_requisition_id cur" using r by auto
qed

lemma transition_write_cases:
  assumes "transition_write env db cur a = (db', res)"
  obtains (refused) e where "db' = db" "res = Inl e"
  | (moved) r rtr where
      "find (cas_match (ta_id a) (ta_tenant_id a) (pl_version cur)) (pdb_pipelines db) = Some r"
      "transition_gate env db cur a = Inr rtr"
      "ta_disposition a \<noteq> None \<longrightarrow> ta_id a \<notin> dp_pipeline_id ` set (pdb_dispositions db)"
      "db' = db \<lparr> pdb_pipelines := cas_update (ta_id a) (ta_tenant_id a) (pl_version cur)
                    (advance_row env a (pl_status cur)) (pdb_pipelines db),
              pdb_decisions := pdb_decisions db @ opt_list (map_option (qualify_record a cur) rtr),
              pdb_history := pdb_history db @ [transition_history env a (pl_status cur)],
              pdb_activities := pdb_activities db @
                [status_activity (ta_tenant_id a) cur (transitionNote (pl_status cur) a) (ta_changed_by_id a)],
              pdb_usage := pdb_usage db @ [transition_usage (ta_tenant_id a)],
              pdb_outbox := pdb_outbox db @ [transition_event env (ta_tenant_id a) cur (ta_to_status a)
                (pl_version (advance_row env a (pl_status cur) r)) (ta_evidence a) rtr],
              pdb_dispositions := pdb_dispositions db @
                opt_list (map_option (disposition_row_of a) (ta_disposition a)) \<rparr>"
      "res = Inr (projectView (advance_row env a (pl_status cur) r))"
  using assms unfolding transition_write_def Let_def
  by (auto split: option.splits sum.splits if_splits)

lemma opt_list_simps [simp]: "opt_list None = []" "opt_list (Some x) = [x]"
  by (simp_all add: opt_list_def)

lemma admissible_response: "isEvidenceAdmissible Talent_Responded k \<Longrightarrow> k = ''recruiter_response_confirmation''"
  by (simp add: isEvidenceAdmissible_def ADMISSIBLE_EVIDENCE_BY_STAGE_def)

lemma transition_step:
  assumes ok: "pdb_ok db" and adv: "advances db0 db"
    and disp: "ta_disposition a \<noteq> None \<longrightarrow> ta_to_status a \<in> {Not_In_Consideration, Completed}"
  shows "pdb_ok (fst (transition_tx env db0 db a)) \<and> advances db (fst (transition_tx env db0 db a))"
proof (cases "\<exists>cur. transition_check env db0 a = Inr (cur, False)")
  case False
  then have "fst (transition_tx env db0 db a) = db"
    by (auto simp: transition_tx_def split: sum.splits)
  with ok show ?thesis by simp
next
  case True
  then obtain cur where chk: "transition_check env db0 a = Inr (cur, False)" by blast
  note go = transition_check_go [OF chk]
  obtain db' res where w: "transition_write env db cur a = (db', res)" by fastforce
  then have tx: "fst (transition_tx env db0 db a) = db'" by (simp add: transition_tx_def chk)
  from w have "pdb_ok db' \<and> advances db db'"
  proof (cases rule: transition_write_cases)
    case (refused e)
    with ok show ?thesis by simp
  next
    case (moved r rtr)
    note r = find_cas [OF moved(1)]
    have st: "pl_status r = pl_status cur"
      using cas_meets_row [OF ok adv go(1) r(1)] r go by simp
    let ?ds = "opt_list (map_option (disposition_row_of a) (ta_disposition a))"
    show ?thesis unfolding moved(4)
    proof (rule move_step [OF ok r(1), where to = "ta_to_status a" and ds = ?ds and now = "pe_now env"
          and actor = "ta_changed_by_id a" and ev = "ta_evidence a" and h = "transition_history env a (pl_status cur)"])
      show "edge_ok (Some (pl_status r)) (ta_to_status a)" using go(6) st by simp
      show "\<forall>d\<in>set ?ds. dp_pipeline_id d = pl_id r"
        using r(2) by (cases "ta_disposition a") (simp_all add: disposition_row_of_def)
      show "disposition_count_ok (ta_to_status a) (length ?ds)"
        using disp go(7) by (cases "ta_disposition a") (auto simp: disposition_count_ok_def)
      assume t: "ta_to_status a = Talent_Responded"
      have g: "evidence_grounded db0 a (pl_status cur)" using go(8) t by (simp add: evidence_backed_iff)
      show "(\<exists>e. ta_evidence a = Some e \<and> er_kind e = ''recruiter_response_confirmation'') \<or>
        Talent_Responded \<in> hr_status_to ` set (history_of db (pl_id r))"
      proof (cases "ta_evidence a")
        case (Some e)
        then show ?thesis using g t admissible_response by (auto simp: evidence_grounded_def)
      next
        case None
        then obtain h where "h \<in> set (pdb_history db0)" "hr_pipeline_id h = ta_id a" "hr_status_to h = Talent_Responded"
          using g t by (auto simp: evidence_grounded_def reachedBefore_def)
        moreover have "set (pdb_history db0) \<subseteq> set (pdb_history db)" using adv by (auto simp: advances_def)
        ultimately show ?thesis using r(2) by (force simp: history_of_def)
      qed
    qed (use r go st in \<open>auto simp: advance_row_move transition_history_def transition_event_def\<close>)
  qed
  then show ?thesis unfolding tx .
qed

section \<open>The other commands\<close>

lemma void_step:
  assumes ok: "pdb_ok db" and adv: "advances db0 db"
  shows "pdb_ok (fst (void env db0 db a)) \<and> advances db (fst (void env db0 db a))"
proof (cases "fst (void env db0 db a) = db")
  case True
  with ok show ?thesis by simp
next
  case False
  obtain cur where rv: "read_visible db0 (va_tenant_id a) (va_id a) (va_visible_requisition_ids a) = Inr cur"
    using False by (auto simp: void_def split: sum.splits)
  obtain r where v: "pl_status cur = No_Contact"
    and f: "find (cas_match (va_id a) (va_tenant_id a) (pl_version cur)) (pdb_pipelines db) = Some r"
    and db': "fst (void env db0 db a) = db \<lparr> pdb_pipelines :=
           cas_update (va_id a) (va_tenant_id a) (pl_version cur) (void_row env a) (pdb_pipelines db),
         pdb_history := pdb_history db @ [void_history env a],
         pdb_activities := pdb_activities db @
           [status_activity (va_tenant_id a) cur (correctionNote (va_reason a)) (va_changed_by_id a)],
         pdb_usage := pdb_usage db @ [transition_usage (va_tenant_id a)],
         pdb_outbox := pdb_outbox db @
           [transition_event env (va_tenant_id a) cur Voided (pl_version (void_row env a r)) None None] \<rparr>"
    using False rv by (auto simp: void_def Let_def split: option.splits if_splits)
  note r = find_cas [OF f] and c = read_visible_row [OF rv]
  have st: "pl_status r = No_Contact" using cas_meets_row [OF ok adv _ r(1), of cur] r c v by simp
  show ?thesis unfolding db'
    by (rule move_step [OF ok r(1), where to = Voided and ds = "[]" and now = "pe_now env"
          and actor = "va_changed_by_id a" and ev = None and h = "void_history env a"])
      (use r c v st in \<open>auto simp: void_row_move void_history_def transition_event_def disposition_count_ok_def\<close>)
qed

lemma no_rows_of_fresh:
  assumes "pdb_ok db" "i \<notin> pl_id ` set (pdb_pipelines db)"
  shows "history_of db i = []" "events_of db i = []" "dispositions_of db i = []"
proof -
  show "history_of db i = []" "dispositions_of db i = []"
    using assms by (auto simp: pdb_ok_def history_of_def dispositions_of_def filter_empty_conv)
  have "event_of i (po_payload e) = None" if "e \<in> set (pdb_outbox db)" for e
    using assms that by (intro event_of_other) (auto simp: pdb_ok_def)
  then show "events_of db i = []" by (auto simp: events_of_def List.map_filter_def filter_empty_conv)
qed

lemma new_pipeline_sel [simp]:
  "pl_id (new_pipeline env a) = pe_uuid env 0" "pl_tenant_id (new_pipeline env a) = ca_tenant_id a"
  "pl_talent_record_id (new_pipeline env a) = ca_talent_record_id a"
  "pl_requisition_id (new_pipeline env a) = ca_requisition_id a"
  "pl_status (new_pipeline env a) = No_Contact" "pl_version (new_pipeline env a) = 0"
  "pl_ended_at (new_pipeline env a) = None"
  by (simp_all add: new_pipeline_def)

lemma create_tx_shape:
  "(\<exists>e. create_tx env db0 db a = (db, Inl e)) \<or>
   (\<exists>prov. episode_key (new_pipeline env a) \<notin> set (map episode_key (live_rows db)) \<and>
      create_tx env db0 db a =
        (db \<lparr> pdb_pipelines := pdb_pipelines db @ [new_pipeline env a],
           pdb_history := pdb_history db @ [birth_row env a],
           pdb_provenance := pdb_provenance db @ [prov],
           pdb_outbox := pdb_outbox db @ [created_event env (new_pipeline env a) (ca_entry_provenance a)],
           pdb_decisions := pdb_decisions db @ opt_list (ca_provenance a) \<rparr>,
         Inr (projectView (new_pipeline env a))))"
  unfolding create_tx_def Let_def
  by (cases "buildEntryProvenanceCreateData (ca_tenant_id a) (pl_id (new_pipeline env a)) (ca_entry_provenance a)";
      cases "lockRequisitionStatusInTx db (ca_tenant_id a) (ca_requisition_id a)")
    (simp_all del: set_map, blast?)

lemma create_tx_cases:
  assumes "create_tx env db0 db a = (db', res)"
  obtains (refused) e where "db' = db" "res = Inl e"
  | (created) prov where
      "episode_key (new_pipeline env a) \<notin> set (map episode_key (live_rows db))"
      "db' = db \<lparr> pdb_pipelines := pdb_pipelines db @ [new_pipeline env a],
         pdb_history := pdb_history db @ [birth_row env a],
         pdb_provenance := pdb_provenance db @ [prov],
         pdb_outbox := pdb_outbox db @ [created_event env (new_pipeline env a) (ca_entry_provenance a)],
         pdb_decisions := pdb_decisions db @ opt_list (ca_provenance a) \<rparr>"
      "res = Inr (projectView (new_pipeline env a))"
  using create_tx_shape [of env db0 db a] unfolding assms Pair_inject by blast

lemma create_step:
  assumes ok: "pdb_ok db" and fresh: "pe_uuid env 0 \<notin> pl_id ` set (pdb_pipelines db)"
  shows "pdb_ok (fst (create_tx env db0 db a)) \<and> advances db (fst (create_tx env db0 db a))"
proof -
  obtain db' res where c: "create_tx env db0 db a = (db', res)" by fastforce
  then have "pdb_ok db' \<and> advances db db'"
  proof (cases rule: create_tx_cases)
    case (refused e)
    with ok show ?thesis by simp
  next
    case (created prov)
    let ?n = "new_pipeline env a" let ?i = "pe_uuid env 0"
    have H: "history_of db' j = history_of db j @ (if j = ?i then [birth_row env a] else [])" for j
      using created(2) by (auto simp: birth_row_def)
    have E: "events_of db' j = events_of db j" for j
      using created(2) by (simp add: events_of_def created_event_def map_filter_simps)
    have D: "dispositions_of db' j = dispositions_of db j" for j
      using created(2) by (simp add: dispositions_of_def)
    have "pipeline_row_ok db' ?n"
      using no_rows_of_fresh [OF ok fresh]
      by (simp add: pipeline_row_ok_def H E D birth_row_def moves_def disposition_count_ok_def)
    moreover have "pipeline_row_ok db' s" if s: "s \<in> set (pdb_pipelines db)" for s
    proof (rule row_ok_untouched)
      show "pipeline_row_ok db s" using ok s by (simp add: pdb_ok_def)
      have "pl_id s \<noteq> ?i" using fresh s by (metis imageI)
      then show "history_of db' (pl_id s) = history_of db (pl_id s)" by (simp add: H)
    qed (simp_all add: E D)
    moreover have "live_index_ok db'"
      using ok created by (auto simp: pdb_ok_def live_index_ok_def live_rows_def)
    ultimately have "pdb_ok db'" using ok fresh created(2)
      by (auto simp: pdb_ok_def birth_row_def created_event_def)
    moreover have "advances db db'" using created(2) by (auto simp: advances_def)
    ultimately show ?thesis by blast
  qed
  with c show ?thesis by simp
qed

lemma forward_hops_step:
  "forward_hops env a n db view stages = Inr (db', view') \<Longrightarrow> pdb_ok db \<Longrightarrow> pdb_ok db' \<and> advances db db'"
proof (induction env a n db view stages rule: forward_hops.induct)
  case (2 env a n db view stage stages)
  show ?case
  proof (cases "activeStageOrdinal stage \<le> activeStageOrdinal (vw_status view) \<or>
      activeStageOrdinal stage > activeStageOrdinal (rf_target a)")
    case True
    with 2 show ?thesis by simp
  next
    case False
    let ?t = "transition (hop_env env n) db (hop_args a (vw_version view) stage)"
    obtain db1 view1 where t: "?t = (db1, Inr view1)"
      and rest: "forward_hops env a (Suc n) db1 view1 stages = Inr (db', view')"
      using 2(3) False by (auto split: prod.splits sum.splits)
    have "pdb_ok db1 \<and> advances db db1"
      using transition_step [OF 2(4) advances_refl, of "hop_args a (vw_version view) stage" "hop_env env n"] t
      by (simp add: transition_def hop_args_def)
    with 2(2) [OF False t [symmetric] refl rest] show ?thesis using advances_trans by blast
  qed
qed simp

lemma forward_step:
  "pdb_ok db \<Longrightarrow> pdb_ok (fst (reconcileForward env db a)) \<and> advances db (fst (reconcileForward env db a))"
  by (auto simp: reconcileForward_def dest: forward_hops_step split: sum.splits prod.splits)

lemma repoint_row_sel [simp]:
  "pl_id (repoint_row t f g only r) = pl_id r" "pl_tenant_id (repoint_row t f g only r) = pl_tenant_id r"
  "pl_requisition_id (repoint_row t f g only r) = pl_requisition_id r"
  "pl_status (repoint_row t f g only r) = pl_status r" "pl_version (repoint_row t f g only r) = pl_version r"
  "pl_ended_at (repoint_row t f g only r) = pl_ended_at r"
  by (simp_all add: repoint_row_def)

lemma repoint_step:
  assumes "pdb_ok db"
  shows "pdb_ok (fst (pipeline_repoint db t f g only)) \<and> advances db (fst (pipeline_repoint db t f g only))"
proof -
  let ?g = "repoint_row t f g (effective_only only)"
  let ?db' = "db \<lparr> pdb_pipelines := map ?g (pdb_pipelines db) \<rparr>"
  have rows: "pipeline_row_ok ?db' (?g r) \<longleftrightarrow> pipeline_row_ok db r" for r
    by (simp add: pipeline_row_ok_def history_of_def events_of_def dispositions_of_def response_evidence_def)
  have "pdb_ok ?db' \<and> advances db ?db'" if "live_index_ok ?db'"
  proof
    show "pdb_ok ?db'" using assms that by (simp add: pdb_ok_def rows o_def image_image)
    show "advances db ?db'" by (auto simp: advances_def)
  qed
  with assms show ?thesis by (auto simp: pipeline_repoint_def Let_def)
qed

lemma side_tables_step:
  assumes "pdb_ok db" "pdb_pipelines db' = pdb_pipelines db" "pdb_history db' = pdb_history db"
    "map po_payload (pdb_outbox db') = map po_payload (pdb_outbox db)"
    "pdb_dispositions db' = pdb_dispositions db"
  shows "pdb_ok db' \<and> advances db db'"
proof -
  have "events_of x i = List.map_filter (event_of i) (map po_payload (pdb_outbox x))" for x i
    by (simp add: events_of_def List.map_filter_def filter_map o_def)
  then have E: "events_of db' i = events_of db i" for i using assms(4) by simp
  have "pipeline_row_ok db' r \<longleftrightarrow> pipeline_row_ok db r" for r
    using assms by (simp add: pipeline_row_ok_def history_of_def E dispositions_of_def response_evidence_def)
  moreover have "(payload_pipeline \<circ> po_payload) ` set (pdb_outbox db') =
      (payload_pipeline \<circ> po_payload) ` set (pdb_outbox db)"
    using assms(4) by (metis image_comp list.set_map)
  ultimately show ?thesis using assms
    by (auto simp: pdb_ok_def live_index_ok_def live_rows_def advances_def)
qed

lemma exec_step:
  assumes ok: "pdb_ok db" and adv: "advances db0 db" and c: "command_ok db c"
  shows "pdb_ok (pipeline_exec db0 db c) \<and> advances db (pipeline_exec db0 db c)"
proof (cases c)
  case (Create_Cmd env a)
  then show ?thesis using create_step [OF ok] c by (simp add: command_ok_def)
next
  case (Transition_Cmd env a)
  then show ?thesis using transition_step [OF ok adv] c by (simp add: command_ok_def)
next
  case (Action_Cmd env a)
  then show ?thesis using ok transition_step [OF ok adv]
    by (auto simp: applyAction_def action_disposition_def split: sum.splits if_splits option.splits)
next
  case (Contact_Cmd env a)
  then show ?thesis using transition_step [OF ok adv] by (simp add: recordContactEvidence_def evidence_transition_def)
next
  case (Response_Cmd env a)
  then show ?thesis using transition_step [OF ok adv] by (simp add: recordResponseEvidence_def evidence_transition_def)
next
  case (Complete_Cmd env a)
  then show ?thesis using ok transition_step [OF ok adv, of "system_transition a Completed"]
    by (auto simp: complete_def system_transition_def split: option.splits)
next
  case (Downstream_Cmd env a)
  then show ?thesis using ok transition_step [OF ok adv, of "system_transition a Not_In_Consideration"]
    by (auto simp: dispositionDownstream_def system_transition_def split: option.splits)
next
  case (Void_Cmd env a)
  then show ?thesis using void_step [OF ok adv] by simp
next
  case (Forward_Cmd env a)
  then show ?thesis using forward_step [OF ok] by simp
next
  case (Repoint_Cmd t f g only)
  then show ?thesis using repoint_step [OF ok] by simp
next
  case (Publish_Cmd ids t)
  show ?thesis unfolding Publish_Cmd pipeline_exec.simps
    by (rule side_tables_step [OF ok]) (auto simp: markPublished_def)
next
  case (Decision_Cmd p)
  show ?thesis unfolding Decision_Cmd pipeline_exec.simps
    by (rule side_tables_step [OF ok]) (simp_all add: recordDecision_def)
next
  case (Resume_Cmd env tenant talent req edition actor n)
  show ?thesis unfolding Resume_Cmd pipeline_exec.simps
    by (rule side_tables_step [OF ok]) (simp_all add: createRequisitionResumeSelection_def)
next
  case (Requisitions_Cmd rows)
  show ?thesis unfolding Requisitions_Cmd pipeline_exec.simps
    by (rule side_tables_step [OF ok]) simp_all
qed

lemma trace_ok:
  "pipeline_trace dbs \<Longrightarrow> dbs \<noteq> [] \<and> pdb_ok (hd dbs) \<and> (\<forall>db0\<in>set dbs. advances db0 (hd dbs))"
proof (induction rule: pipeline_trace.induct)
  case start
  show ?case by (simp add: pdb_ok_def empty_pdb_def live_index_ok_def live_rows_def)
next
  case (step db dbs db0 c)
  then have "pdb_ok (pipeline_exec db0 db c) \<and> advances db (pipeline_exec db0 db c)"
    by (intro exec_step) auto
  with step show ?case using advances_trans by auto
qed

lemma trace_head_ok:
  assumes "pipeline_trace (db # dbs)"
  shows "pdb_ok db" "db0 \<in> set (db # dbs) \<Longrightarrow> advances db0 db"
  using trace_ok [OF assms] by auto

end
