(* ===== verification/Pipeline_Theorems.thy ===== *)
theory Pipeline_Theorems
  imports Pipeline_Invariant
begin

text \<open>
  What the pipeline repository guarantees: one live episode per talent and requisition, the
  history as the life of an episode, optimistic concurrency, evidence before qualification,
  all-or-nothing reconciliation, the exact conditions of creation and of a record merge, and
  an append-only audit trail (an interpretation of \<open>growing_log\<close>).
\<close>

section \<open>The audit trail only grows\<close>

lemma transition_tx_history: "\<exists>new. pdb_history (fst (transition_tx env db0 db a)) = pdb_history db @ new"
  by (auto simp: transition_tx_def transition_write_def Let_def split: sum.splits option.splits if_splits)

lemma forward_hops_history:
  "forward_hops env a n db view stages = Inr (db', view') \<Longrightarrow> \<exists>new. pdb_history db' = pdb_history db @ new"
proof (induction env a n db view stages rule: forward_hops.induct)
  case (2 env a n db view stage stages)
  show ?case
  proof (cases "activeStageOrdinal stage \<le> activeStageOrdinal (vw_status view) \<or>
      activeStageOrdinal stage > activeStageOrdinal (rf_target a)")
    case True
    with 2 show ?thesis by simp
  next
    case False
    let ?t = "transition (hop_env env n) db (hop_args a (vw_version view) stage)"
    obtain db1 view1 where t: "?t = (db1, Inr view1)"
      and rest: "forward_hops env a (Suc n) db1 view1 stages = Inr (db', view')"
      using 2(3) False by (auto split: prod.splits sum.splits)
    obtain x where "pdb_history db1 = pdb_history db @ x"
      using transition_tx_history [of "hop_env env n" db db "hop_args a (vw_version view) stage"] t
      by (auto simp: transition_def)
    with 2(2) [OF False t [symmetric] refl rest] show ?thesis by auto
  qed
qed simp

definition run_command :: "pipeline_db \<Rightarrow> pipeline_db \<times> pipeline_command \<Rightarrow> pipeline_db" where
  "run_command db x = pipeline_exec (fst x) db (snd x)"

interpretation pipeline_audit: growing_log run_command pdb_history
proof
  fix db :: pipeline_db and x :: "pipeline_db \<times> pipeline_command"
  obtain db0 c where x: "x = (db0, c)" by fastforce
  show "\<exists>new. pdb_history (run_command db x) = pdb_history db @ new"
    unfolding run_command_def x fst_conv snd_conv
  proof (cases c)
    case (Create_Cmd env a)
    then show "\<exists>new. pdb_history (pipeline_exec db0 db c) = pdb_history db @ new"
      using create_tx_shape [of env db0 db a] by auto
  next
    case (Void_Cmd env a)
    then show "\<exists>new. pdb_history (pipeline_exec db0 db c) = pdb_history db @ new"
      by (auto simp: void_def Let_def split: sum.splits option.splits if_splits)
  next
    case (Forward_Cmd env a)
    then show "\<exists>new. pdb_history (pipeline_exec db0 db c) = pdb_history db @ new"
      by (auto simp: reconcileForward_def dest: forward_hops_history split: sum.splits prod.splits)
  next
    case (Action_Cmd env a)
    then show "\<exists>new. pdb_history (pipeline_exec db0 db c) = pdb_history db @ new"
      by (auto simp: applyAction_def intro: transition_tx_history split: sum.splits)
  qed (auto simp: transition_tx_history recordContactEvidence_def recordResponseEvidence_def complete_def
      dispositionDownstream_def pipeline_repoint_def markPublished_def recordDecision_def Let_def
      createRequisitionResumeSelection_def split: option.splits)
qed

text \<open>
  The audit trail is append-only: after any sequence of commands, whatever state each of
  them had read, every earlier history row is still there, unchanged and in its place.
\<close>

theorem history_append_only:
  "\<exists>new. pdb_history (foldl run_command db xs) = pdb_history db @ new"
proof -
  have "foldl run_command db xs = pipeline_audit.run_all db xs"
    by (induction xs arbitrary: db) simp_all
  then show ?thesis using pipeline_audit.run_extends [of db xs] by simp
qed

section \<open>Episodes\<close>

text \<open>
  C10. At most one live episode exists for a tenant, talent and requisition, after any
  interleaving of creations, transitions, voids, merges and reconciliations.
\<close>

theorem one_live_episode:
  assumes tr: "pipeline_trace (db # dbs)"
    and r: "r \<in> set (pdb_pipelines db)" "isLiveStatus (pl_status r)"
    and s: "s \<in> set (pdb_pipelines db)" "isLiveStatus (pl_status s)"
    and key: "episode_key r = episode_key s"
  shows "r = s"
proof -
  have "distinct (map episode_key (live_rows db))"
    using trace_head_ok(1) [OF tr] by (simp add: pdb_ok_def live_index_ok_def)
  then have "inj_on episode_key (set (live_rows db))" by (simp add: distinct_map)
  with r s key show ?thesis by (auto simp: live_rows_def inj_on_def)
qed

text \<open>
  C2. The life of an episode is its history: it starts at \<open>no_contact\<close>, follows legal
  transitions (or the one void edge) without a gap up to the current status, has exactly one
  row per version, is replayed step by step with the same versions by the outbox, and the
  end is stamped exactly when the status is terminal.
\<close>

theorem history_is_the_lifecycle:
  assumes tr: "pipeline_trace (db # dbs)" and r: "r \<in> set (pdb_pipelines db)"
  shows "status_path None (history_of db (pl_id r)) (Some (pl_status r)) \<and>
    pl_version r + 1 = int (length (history_of db (pl_id r))) \<and>
    map (\<lambda>(f, t, v, ev). (f, t, v)) (events_of db (pl_id r)) = moves (history_of db (pl_id r)) \<and>
    (pl_ended_at r \<noteq> None \<longleftrightarrow> \<not> isLiveStatus (pl_status r))"
  using trace_head_ok(1) [OF tr] r by (simp add: pdb_ok_def pipeline_row_ok_def)

text \<open>
  C27. Nobody is qualified without a recorded answer: an episode that is at or past
  \<open>talent_responded\<close> (also a completed one) has an outbox event that moved it to
  \<open>talent_responded\<close> on evidence of the only admissible kind.
\<close>

theorem response_evidence_required:
  assumes tr: "pipeline_trace (db # dbs)" and r: "r \<in> set (pdb_pipelines db)"
    and st: "pl_status r \<in> {Talent_Responded, Qualifying, Qualified, Completed}"
  shows "\<exists>from v e. (from, Talent_Responded, v, Some e) \<in> set (events_of db (pl_id r)) \<and>
    er_kind e = ''recruiter_response_confirmation''"
proof -
  have ok: "pipeline_row_ok db r" using trace_head_ok(1) [OF tr] r by (simp add: pdb_ok_def)
  then have "Talent_Responded \<in> hr_status_to ` set (history_of db (pl_id r))"
    using path_through_response [OF _ st, of None] by (auto simp: pipeline_row_ok_def)
  with ok show ?thesis by (simp add: pipeline_row_ok_def response_evidence_def)
qed

text \<open>
  C37. One disposition per episode, and the database never has to refuse a second: a rejected
  episode has exactly one, a completed one at most one, every other none, and no transition
  ends in \<open>PIPELINE_ALREADY_DISPOSITIONED\<close>, whatever other commands commit between its
  read and its write.
\<close>

theorem disposition_once:
  assumes tr: "pipeline_trace (db # dbs)" and db0: "db0 \<in> set (db # dbs)"
  shows "(\<forall>r\<in>set (pdb_pipelines db). disposition_count_ok (pl_status r) (length (dispositions_of db (pl_id r)))) \<and>
    snd (transition_tx env db0 db a) \<noteq> Inl PIPELINE_ALREADY_DISPOSITIONED"
proof
  note ok = trace_head_ok(1) [OF tr] and adv = trace_head_ok(2) [OF tr db0]
  show "\<forall>r\<in>set (pdb_pipelines db). disposition_count_ok (pl_status r) (length (dispositions_of db (pl_id r)))"
    using ok by (simp add: pdb_ok_def pipeline_row_ok_def)
  show "snd (transition_tx env db0 db a) \<noteq> Inl PIPELINE_ALREADY_DISPOSITIONED"
  proof
    assume err: "snd (transition_tx env db0 db a) = Inl PIPELINE_ALREADY_DISPOSITIONED"
    have "transition_check env db0 a \<noteq> Inl PIPELINE_ALREADY_DISPOSITIONED"
      by (auto simp: transition_check_def rbind_Inl_iff read_visible_def Let_def split: if_splits option.splits)
    with err obtain cur where chk: "transition_check env db0 a = Inr (cur, False)"
      by (auto simp: transition_tx_def split: sum.splits if_splits)
    note go = transition_check_go [OF chk]
    have "transition_gate env db cur a \<noteq> Inl PIPELINE_ALREADY_DISPOSITIONED"
      by (auto simp: transition_gate_def Let_def split: option.splits sum.splits bool.splits)
    with err chk obtain r where f: "find (cas_match (ta_id a) (ta_tenant_id a) (pl_version cur)) (pdb_pipelines db) = Some r"
      and d: "ta_id a \<in> dp_pipeline_id ` set (pdb_dispositions db)"
      by (auto simp: transition_tx_def transition_write_def Let_def split: option.splits sum.splits if_splits)
    note r = find_cas [OF f]
    have "pl_status r = pl_status cur" using cas_meets_row [OF ok adv go(1) r(1)] r go by simp
    then have "isLiveStatus (pl_status r)" using go(6) legal_source_live by simp
    moreover have "disposition_count_ok (pl_status r) (length (dispositions_of db (pl_id r)))"
      using ok r(1) by (simp add: pdb_ok_def pipeline_row_ok_def)
    ultimately have "dispositions_of db (pl_id r) = []"
      by (cases "pl_status r") (simp_all add: disposition_count_ok_def)
    with d r(2) show False by (auto simp: dispositions_of_def filter_empty_conv)
  qed
qed

section \<open>Optimistic concurrency\<close>



text \<open>
  C33. Every accepted change is recorded in full: a transition that changes the database moves
  one row along a legal edge, raises its version by one and adds exactly one history row, one
  activity, one usage record and one event, the event carrying the new version; a refused or
  repeated one changes nothing.
\<close>

theorem transition_recorded:
  assumes tr: "pipeline_trace (db # dbs)" and db0: "db0 \<in> set (db # dbs)"
    and ch: "transition_tx env db0 db a = (db', res)" "db' \<noteq> db"
  shows "\<exists>r\<in>set (pdb_pipelines db). pl_id r = ta_id a \<and> pl_tenant_id r = ta_tenant_id a \<and>
      pl_version r = ta_expected_version a \<and> ta_to_status a \<in> set (LEGAL_TRANSITIONS (pl_status r)) \<and>
      visible (ta_visible_requisition_ids a) r \<and>
      set (pdb_pipelines db') = insert (advance_row env a (pl_status r) r) (set (pdb_pipelines db) - {r}) \<and>
      res = Inr (projectView (advance_row env a (pl_status r) r)) \<and>
      pdb_history db' = pdb_history db @ [transition_history env a (pl_status r)] \<and>
      length (pdb_activities db') = length (pdb_activities db) + 1 \<and>
      length (pdb_usage db') = length (pdb_usage db) + 1 \<and>
      events_of db' (ta_id a) = events_of db (ta_id a) @
        [(pl_status r, ta_to_status a, pl_version r + 1, ta_evidence a)]"
proof -
  note ok = trace_head_ok(1) [OF tr] and adv = trace_head_ok(2) [OF tr db0]
  obtain cur where chk: "transition_check env db0 a = Inr (cur, False)"
    using ch by (auto simp: transition_tx_def split: sum.splits if_splits)
  have w: "transition_write env db cur a = (db', res)" using ch(1) chk by (simp add: transition_tx_def)
  then show ?thesis
  proof (cases rule: transition_write_cases)
    case (moved r rtr)
    note r = find_cas [OF moved(1)] and go = transition_check_go [OF chk]
    have st: "pl_status r = pl_status cur" "pl_requisition_id r = pl_requisition_id cur"
      using cas_meets_row [OF ok adv go(1) r(1)] r go by auto
    have "set (pdb_pipelines db') = insert (advance_row env a (pl_status r) r) (set (pdb_pipelines db) - {r})"
      using cas_update_row [OF ok r(1), of "advance_row env a (pl_status r)"] r moved(4) st by simp
    moreover have "events_of db' (ta_id a) = events_of db (ta_id a) @
        [(pl_status r, ta_to_status a, pl_version r + 1, ta_evidence a)]"
      using moved(4) go(2) st by (simp add: events_of_def transition_event_def map_filter_simps advance_row_move)
    moreover have "visible (ta_visible_requisition_ids a) r"
      using go(4) st by (simp add: visible_def split: option.splits)
    ultimately show ?thesis using r go(5,6) st moved(4,5) by (intro bexI [of _ r]) simp_all
  qed (use ch in simp)
qed

section \<open>Forward reconciliation\<close>

text \<open>One hop that is not a repetition.\<close>

lemma hop_moves:
  assumes ok: "pdb_ok db" and row: "row \<in> set (pdb_pipelines db)" "pl_id row = ta_id a"
    "pl_status row \<noteq> ta_to_status a" and disp: "ta_disposition a = None"
    and t: "transition env db a = (db', Inr v)"
  shows "pdb_ok db'" "advance_row env a (pl_status row) row \<in> set (pdb_pipelines db')"
    "v = projectView (advance_row env a (pl_status row) row)"
    "pdb_history db' = pdb_history db @ [transition_history env a (pl_status row)]"
proof -
  show "pdb_ok db'" using transition_step [OF ok advances_refl, of a env] t disp by (simp add: transition_def)
  have no: "transition_check env db a \<noteq> Inr (c, True)" for c
  proof
    assume chk: "transition_check env db a = Inr (c, True)"
    then have "read_visible db (ta_tenant_id a) (ta_id a) (ta_visible_requisition_ids a) = Inr c"
      "pl_status c = ta_to_status a"
      by (auto simp: transition_check_def rbind_Inr_iff Let_def split: if_splits)
    then show False using read_visible_row same_pipeline [OF ok _ row(1), of c] row by force
  qed
  obtain cur where chk: "transition_check env db a = Inr (cur, False)"
    using t no by (auto simp: transition_def transition_tx_def split: sum.splits if_splits)
  note go = transition_check_go [OF chk]
  have cur: "cur = row" using same_pipeline [OF ok go(1) row(1)] go row by simp
  have "transition_write env db cur a = (db', Inr v)" using t chk by (simp add: transition_def transition_tx_def)
  then have "advance_row env a (pl_status row) row \<in> set (pdb_pipelines db') \<and>
    v = projectView (advance_row env a (pl_status row) row) \<and>
    pdb_history db' = pdb_history db @ [transition_history env a (pl_status row)]"
    unfolding cur
  proof (cases rule: transition_write_cases)
    case (moved r rtr)
    note r = find_cas [OF moved(1)]
    have rr: "r = row" using same_pipeline [OF ok r(1) row(1)] r row by simp
    have "cas_match (ta_id a) (ta_tenant_id a) (pl_version row) row" using r rr by (simp add: cas_match_def)
    then have "advance_row env a (pl_status row) row \<in> set (pdb_pipelines db')"
      using r(1) rr moved(4) by (force simp: cas_update_def)
    then show ?thesis using moved(4,5) rr by simp
  qed simp
  then show "advance_row env a (pl_status row) row \<in> set (pdb_pipelines db')"
    "v = projectView (advance_row env a (pl_status row) row)"
    "pdb_history db' = pdb_history db @ [transition_history env a (pl_status row)]" by auto
qed

lemma hop_args_sel [simp]:
  "ta_id (hop_args a v s) = rf_id a" "ta_to_status (hop_args a v s) = s" "ta_disposition (hop_args a v s) = None"
  by (simp_all add: hop_args_def)

lemma projectView_sel [simp]:
  "vw_status (projectView r) = pl_status r" "vw_version (projectView r) = pl_version r" "vw_id (projectView r) = pl_id r"
  by (simp_all add: projectView_def)

lemma advance_row_sel [simp]:
  "pl_id (advance_row env a f r) = pl_id r" "pl_status (advance_row env a f r) = ta_to_status a"
  "pl_version (advance_row env a f r) = pl_version r + 1"
  by (simp_all add: advance_row_move)

text \<open>The stages the loop still has to visit, from the status of the row.\<close>

definition forward_todo :: "pipeline_status \<Rightarrow> pipeline_status \<Rightarrow> pipeline_status list \<Rightarrow> pipeline_status list" where
  "forward_todo from target stages =
     filter (\<lambda>s. activeStageOrdinal from < activeStageOrdinal s \<and>
       activeStageOrdinal s \<le> activeStageOrdinal target) stages"

lemma forward_todo_skip:
  "activeStageOrdinal s \<le> activeStageOrdinal from \<or> activeStageOrdinal s > activeStageOrdinal target \<Longrightarrow>
     forward_todo from target (s # ss) = forward_todo from target ss"
  by (auto simp: forward_todo_def)

lemma forward_todo_go:
  assumes "\<not> (activeStageOrdinal s \<le> activeStageOrdinal from \<or> activeStageOrdinal s > activeStageOrdinal target)"
    and "sorted_wrt (\<lambda>s t. activeStageOrdinal s < activeStageOrdinal t) (s # ss)"
  shows "forward_todo from target (s # ss) = s # forward_todo s target ss"
  using assms by (auto simp: forward_todo_def intro!: filter_cong)

definition forward_result ::
  "reconcile_forward_args \<Rightarrow> pipeline_db \<Rightarrow> pipeline_row \<Rightarrow> pipeline_status list \<Rightarrow> pipeline_db \<Rightarrow> pipeline_view \<Rightarrow> bool" where
  "forward_result a db row todo db' v \<longleftrightarrow>
     vw_status v = last (pl_status row # todo) \<and> vw_version v = pl_version row + int (length todo) \<and>
     (\<exists>hs. pdb_history db' = pdb_history db @ hs \<and> map hr_status_to hs = todo \<and>
       (\<forall>h\<in>set hs. hr_pipeline_id h = rf_id a))"

lemma forward_hops_exact:
  assumes "forward_hops env a n db (projectView row) stages = Inr (db', v)"
    and "pdb_ok db" "row \<in> set (pdb_pipelines db)" "pl_id row = rf_id a"
    and "sorted_wrt (\<lambda>s t. activeStageOrdinal s < activeStageOrdinal t) stages"
  shows "forward_result a db row (forward_todo (pl_status row) (rf_target a) stages) db' v"
  using assms
proof (induction stages arbitrary: n db row)
  case Nil
  then show ?case by (auto simp: forward_result_def forward_todo_def)
next
  case (Cons stage stages)
  show ?case
  proof (cases "activeStageOrdinal stage \<le> activeStageOrdinal (pl_status row) \<or>
      activeStageOrdinal stage > activeStageOrdinal (rf_target a)")
    case True
    then have "forward_hops env a n db (projectView row) stages = Inr (db', v)" using Cons.prems(1) by simp
    from Cons.IH [OF this Cons.prems(2-4)] Cons.prems(5) show ?thesis
      by (simp add: forward_todo_skip [OF True])
  next
    case False
    let ?a = "hop_args a (pl_version row) stage" and ?env = "hop_env env n"
    obtain db1 v1 where t: "transition ?env db ?a = (db1, Inr v1)"
      and rest: "forward_hops env a (Suc n) db1 v1 stages = Inr (db', v)"
      using Cons.prems(1) False by (auto split: prod.splits sum.splits)
    have ne: "pl_status row \<noteq> stage" using False by auto
    note hop = hop_moves [OF Cons.prems(2,3) _ _ _ t, simplified, OF Cons.prems(4) ne]
    let ?row1 = "advance_row ?env ?a (pl_status row) row"
    have "forward_result a db1 ?row1 (forward_todo stage (rf_target a) stages) db' v"
      using Cons.IH [of "Suc n" db1 ?row1] rest hop(1-3) Cons.prems(4,5) by simp
    then obtain hs where hs: "pdb_history db' = pdb_history db1 @ hs"
      "map hr_status_to hs = forward_todo stage (rf_target a) stages" "\<forall>h\<in>set hs. hr_pipeline_id h = rf_id a"
      and v: "vw_status v = last (stage # forward_todo stage (rf_target a) stages)"
      "vw_version v = pl_version row + 1 + int (length (forward_todo stage (rf_target a) stages))"
      by (auto simp: forward_result_def)
    have "\<exists>hs. pdb_history db' = pdb_history db @ hs \<and>
        map hr_status_to hs = stage # forward_todo stage (rf_target a) stages \<and> (\<forall>h\<in>set hs. hr_pipeline_id h = rf_id a)"
      using hs hop(4) by (intro exI [of _ "transition_history ?env ?a (pl_status row) # hs"])
        (simp add: transition_history_def)
    with v show ?thesis by (simp add: forward_todo_go [OF False Cons.prems(5)] forward_result_def)
  qed
qed

text \<open>
  C31. Forward reconciliation is idempotent and all-or-nothing: it refuses without any effect; on
  a terminal episode or one already at or past the target it changes nothing; and otherwise
  it leaves the episode exactly at the target, with one history row for every stage in
  between and the version raised by as many.
\<close>

theorem reconcileForward_exact:
  assumes tr: "pipeline_trace (db # dbs)" and res: "reconcileForward env db a = (db', res)"
  shows "case res of
      Inl e \<Rightarrow> db' = db
    | Inr v \<Rightarrow> (\<exists>row\<in>set (pdb_pipelines db). pl_id row = rf_id a \<and> visible (rf_visible_requisition_ids a) row \<and>
        (if \<not> isLiveStatus (pl_status row) \<or> activeStageOrdinal (rf_target a) \<le> activeStageOrdinal (pl_status row)
         then db' = db \<and> v = projectView row
         else vw_status v = rf_target a \<and>
           vw_version v = pl_version row + (activeStageOrdinal (rf_target a) - activeStageOrdinal (pl_status row)) \<and>
           (\<exists>hs. pdb_history db' = pdb_history db @ hs \<and> (\<forall>h\<in>set hs. hr_pipeline_id h = rf_id a) \<and>
              int (length hs) = activeStageOrdinal (rf_target a) - activeStageOrdinal (pl_status row))))"
proof (cases res)
  case (Inl e)
  then show ?thesis using res by (auto simp: reconcileForward_def split: if_splits sum.splits prod.splits)
next
  case (Inr v)
  have tgt: "rf_target a = Contacted \<or> rf_target a = Talent_Responded"
    using res Inr by (auto simp: reconcileForward_def evidence_backed_iff split: if_splits)
  obtain row where rv: "read_visible db (rf_tenant_id a) (rf_id a) (rf_visible_requisition_ids a) = Inr row"
    using res Inr by (auto simp: reconcileForward_def split: if_splits sum.splits)
  note row = read_visible_row [OF rv]
  show ?thesis
  proof (cases "\<not> isLiveStatus (pl_status row) \<or> activeStageOrdinal (rf_target a) \<le> activeStageOrdinal (pl_status row)")
    case True
    then have "db' = db \<and> v = projectView row" using res Inr rv tgt ordinal_live [of "pl_status row"]
      by (auto simp: reconcileForward_def evidence_backed_iff split: if_splits)
    with True row Inr show ?thesis by auto
  next
    case False
    then have fh: "forward_hops env a 0 db (projectView row) EVIDENCE_BACKED_STAGES = Inr (db', v)"
      using res Inr rv tgt ordinal_live [of "pl_status row"]
      by (auto simp: reconcileForward_def evidence_backed_iff split: if_splits sum.splits prod.splits)
    let ?todo = "forward_todo (pl_status row) (rf_target a) EVIDENCE_BACKED_STAGES"
    have "forward_result a db row ?todo db' v"
      by (rule forward_hops_exact [OF fh]) (use trace_head_ok(1) [OF tr] row in \<open>auto simp: EVIDENCE_BACKED_STAGES_def\<close>)
    moreover have "last (pl_status row # ?todo) = rf_target a"
      "int (length ?todo) = activeStageOrdinal (rf_target a) - activeStageOrdinal (pl_status row)"
      using False tgt by (cases "pl_status row"; auto simp: forward_todo_def EVIDENCE_BACKED_STAGES_def)+
    ultimately show ?thesis using False row Inr
      by (auto simp: forward_result_def intro!: bexI [of _ row] dest: arg_cong [where f = length])
  qed
qed

section \<open>Creation, the requisition gate and merges\<close>

lemma find_live_row_iff:
  "find_live_row db tenant talent req = None \<longleftrightarrow> (tenant, talent, req) \<notin> set (map episode_key (live_rows db))"
  by (auto simp: find_live_row_def find_None_iff live_rows_def episode_key_def live_iff)

text \<open>
  A talent can be added exactly when no live episode exists for it on the requisition, the
  requisition exists and is neither closed nor canceled, it still has the status the decision
  was made on, and the initiator is of a known kind. An ended episode never blocks.
\<close>

theorem create_succeeds_exactly:
  "(\<exists>v. snd (create env db a) = Inr v) \<longleftrightarrow>
     findLiveEpisode db (ca_tenant_id a) (ca_talent_record_id a) (ca_requisition_id a) = None \<and>
     (\<exists>s. lockRequisitionStatusInTx db (ca_tenant_id a) (ca_requisition_id a) = Some s \<and>
        \<not> isTerminalRequisitionStatus s \<and>
        (ca_expected_requisition_status a = None \<or> ca_expected_requisition_status a = Some s)) \<and>
     ep_initiated_by_kind (ca_entry_provenance a) \<in> set ACTOR_KINDS"
proof -
  have permits: "requisitionPermits s Act_ADD \<longleftrightarrow> \<not> isTerminalRequisitionStatus s" for s
    by (simp add: requisitionPermits_def isTerminalRequisitionStatus_def)
  show ?thesis
    unfolding create_def create_tx_def Let_def findLiveEpisode_def
    using find_live_row_iff [of db "ca_tenant_id a" "ca_talent_record_id a" "ca_requisition_id a"]
    by (auto simp: episode_key_def permits buildEntryProvenanceCreateData_def isValidInitiatedByKind_def
        split: option.splits)
qed

lemma index_of_active: "index_of ACTIVE_FLOW_STAGES s = activeStageOrdinal s"
  by (simp add: activeStageOrdinal_def)

lemma gate_terminal:
  assumes "requisitionGateForTransition from to (Some s) d sys = None" "to \<in> set (LEGAL_TRANSITIONS from)"
    and "isTerminalRequisitionStatus s" "\<not> sys"
  shows "to = Not_In_Consideration \<or> to = Completed"
  using assms unfolding requisitionGateForTransition_def index_of_active Let_def
  by (cases "from"; cases to)
    (auto simp: FORWARD_ACTIVITY_def requisitionPermits_def isTerminalRequisitionStatus_def split: if_splits)

lemma gate_lead:
  assumes "requisitionGateForTransition from to (Some ''lead'') d sys = None" "to \<in> set (LEGAL_TRANSITIONS from)"
    and "\<not> sys"
  shows "to \<in> {Contacted, Not_In_Consideration, Completed} \<or> activeStageOrdinal to < activeStageOrdinal from"
  using assms unfolding requisitionGateForTransition_def index_of_active Let_def
  by (cases "from"; cases to) (auto simp: FORWARD_ACTIVITY_def requisitionPermits_def split: if_splits)

text \<open>
  C36. The requisition governs its episodes: while it is closed or canceled a transition only ends
  an episode (rejected with its reason, or completed), and while it is a lead no episode
  moves forward past \<open>contacted\<close>. Only a downstream outcome is exempt, and that ends the
  episode too.
\<close>

theorem requisition_gate_respected:
  assumes tr: "pipeline_trace (db # dbs)" and db0: "db0 \<in> set (db # dbs)"
    and ch: "transition_tx env db0 db a = (db', res)" "db' \<noteq> db"
    and disp: "ta_disposition a \<noteq> None \<Longrightarrow> ta_to_status a \<in> {Not_In_Consideration, Completed}"
    and r: "r \<in> set (pdb_pipelines db)" "pl_id r = ta_id a"
    and s: "lockRequisitionStatusInTx db (ta_tenant_id a) (pl_requisition_id r) = Some s"
  shows "(isTerminalRequisitionStatus s \<longrightarrow> ta_to_status a \<in> {Not_In_Consideration, Completed}) \<and>
    (s = ''lead'' \<longrightarrow> ta_to_status a \<in> {Contacted, Not_In_Consideration, Completed} \<or>
       activeStageOrdinal (ta_to_status a) < activeStageOrdinal (pl_status r))"
proof -
  note ok = trace_head_ok(1) [OF tr] and adv = trace_head_ok(2) [OF tr db0]
  obtain cur where chk: "transition_check env db0 a = Inr (cur, False)"
    using ch by (auto simp: transition_tx_def split: sum.splits if_splits)
  note go = transition_check_go [OF chk]
  have w: "transition_write env db cur a = (db', res)" using ch(1) chk by (simp add: transition_tx_def)
  then show ?thesis
  proof (cases rule: transition_write_cases)
    case (moved r' rtr)
    note f = find_cas [OF moved(1)]
    have "r' = r" using same_pipeline [OF ok f(1) r(1)] f r by simp
    then have cur: "pl_status r = pl_status cur" "pl_requisition_id r = pl_requisition_id cur"
      using cas_meets_row [OF ok adv go(1) f(1)] f go by auto
    let ?sys = "case ta_disposition a of None \<Rightarrow> False | Some d \<Rightarrow> dn_authority_class d = DOWNSTREAM_OUTCOME"
    have gate: "requisitionGateForTransition (pl_status cur) (ta_to_status a) (Some s) (ta_disposition a \<noteq> None) ?sys = None"
      using moved(2) s cur by (auto simp: transition_gate_def Let_def split: option.splits)
    show ?thesis
    proof (cases ?sys)
      case True
      then show ?thesis using disp by (auto split: option.splits)
    next
      case False
      show ?thesis using gate_terminal [OF gate go(6) _ False] gate_lead [OF _ go(6) False] gate cur by auto
    qed
  qed (use ch in simp)
qed

lemma repoint_key:
  "episode_key (repoint_row tenant f g None r) =
     (if pl_talent_record_id r = f \<and> pl_tenant_id r = tenant
      then (pl_tenant_id r, g, pl_requisition_id r) else episode_key r)"
  by (simp add: repoint_row_def episode_key_def)

lemma repoint_live_rows:
  "live_rows (db \<lparr> pdb_pipelines := map (repoint_row tenant f g only) (pdb_pipelines db) \<rparr>) =
     map (repoint_row tenant f g only) (live_rows db)"
  by (simp add: live_rows_def filter_map o_def)

lemma conflict_iff:
  "findLiveEpisodeConflicts db tenant f g \<noteq> [] \<longleftrightarrow>
     (\<exists>a\<in>set (live_rows db). \<exists>b\<in>set (live_rows db). pl_tenant_id a = tenant \<and> pl_tenant_id b = tenant \<and>
        pl_talent_record_id a = f \<and> pl_talent_record_id b = g \<and> pl_requisition_id a = pl_requisition_id b)"
  unfolding findLiveEpisodeConflicts_def live_rows_def live_iff
  by (auto simp: filter_empty_conv) metis+

text \<open>
  The pre-flight check of a record merge is exact: in every reachable state, moving all
  episodes of one record to another violates the live index exactly when the check reports a
  requisition on which both have a live episode.
\<close>

theorem repoint_fails_exactly_on_conflicts:
  assumes tr: "pipeline_trace (db # dbs)" and ne: "from_id \<noteq> to_id"
  shows "snd (pipeline_repoint db tenant from_id to_id None) = Inl Unique_Violation \<longleftrightarrow>
    findLiveEpisodeConflicts db tenant from_id to_id \<noteq> []"
proof -
  let ?g = "repoint_row tenant from_id to_id None"
  have ok: "pdb_ok db" using trace_head_ok(1) [OF tr] .
  then have d: "distinct (map episode_key (live_rows db))" by (simp add: pdb_ok_def live_index_ok_def)
  then have inj: "inj_on episode_key (set (live_rows db))" and dr: "distinct (live_rows db)"
    by (auto simp: distinct_map)
  have "live_index_ok (db \<lparr> pdb_pipelines := map ?g (pdb_pipelines db) \<rparr>) \<longleftrightarrow>
      inj_on (episode_key \<circ> ?g) (set (live_rows db))"
    unfolding live_index_ok_def repoint_live_rows by (simp add: distinct_map dr)
  also have "\<dots> \<longleftrightarrow> \<not> (\<exists>a\<in>set (live_rows db). \<exists>b\<in>set (live_rows db). pl_tenant_id a = tenant \<and> pl_tenant_id b = tenant \<and>
        pl_talent_record_id a = from_id \<and> pl_talent_record_id b = to_id \<and> pl_requisition_id a = pl_requisition_id b)"
    (is "?inj \<longleftrightarrow> \<not> ?conf")
  proof
    assume ?inj
    show "\<not> ?conf"
    proof
      assume ?conf
      then obtain a b where ab: "a \<in> set (live_rows db)" "b \<in> set (live_rows db)" "pl_tenant_id a = tenant"
        "pl_tenant_id b = tenant" "pl_talent_record_id a = from_id" "pl_talent_record_id b = to_id"
        "pl_requisition_id a = pl_requisition_id b" by blast
      then have "(episode_key \<circ> ?g) a = (episode_key \<circ> ?g) b"
        using ne by (simp add: repoint_key) (simp add: episode_key_def)
      with \<open>?inj\<close> ab have "a = b" by (meson inj_onD)
      with ab ne show False by simp
    qed
  next
    assume no: "\<not> ?conf"
    show ?inj
    proof (rule inj_onI)
      fix a b assume ab: "a \<in> set (live_rows db)" "b \<in> set (live_rows db)"
        "(episode_key \<circ> ?g) a = (episode_key \<circ> ?g) b"
      then have "episode_key a = episode_key b" using no
        by (auto simp: repoint_row_def episode_key_def split: if_splits) metis
      with inj ab show "a = b" by (meson inj_onD)
    qed
  qed
  finally show ?thesis
    by (auto simp: pipeline_repoint_def Let_def effective_only_def conflict_iff)
qed

section \<open>A concrete trace\<close>

definition ex_rtr :: rtr_decision where
  "ex_rtr = \<lparr> rtr_disposition = ''NOT_REQUIRED'', rtr_source = None, rtr_scope_ref = None,
     rtr_version = None, rtr_checksum = None, rtr_composite_version = None, rtr_resolved_at = ''t'' \<rparr>"

definition ex_penv :: "string \<Rightarrow> pipeline_env" where
  "ex_penv tag = \<lparr> pe_uuid = (\<lambda>k. tag @ replicate k (CHR ''+'')), pe_now = 10, pe_row_now = 11,
     pe_verifier = Some (\<lambda>_ _ _ _. None), pe_guard = Some (\<lambda>_ _ _. Inr ex_rtr) \<rparr>"

definition ex_create :: "string \<Rightarrow> create_args" where
  "ex_create talent =
     \<lparr> ca_tenant_id = ''T'', ca_site_id = None, ca_talent_record_id = talent, ca_requisition_id = ''R'',
       ca_provenance = None, ca_created_by_id = Some ''u'',
       ca_entry_provenance = \<lparr> ep_origin_type = MANUAL_RECRUITER, ep_initiated_by_kind = ''user'',
         ep_initiated_by_id = Some ''u'', ep_source_system = None, ep_source_connection_id = None,
         ep_external_object_type = None, ep_external_object_id = None, ep_external_event_id = None,
         ep_observed_at = None, ep_metadata = None \<rparr>,
       ca_expected_requisition_status = Some ''open'' \<rparr>"

definition ex_response :: evidence_args where
  "ex_response = \<lparr> ea_tenant_id = ''T'', ea_id = ''p'', ea_expected_version = 0, ea_changed_by_id = ''u'',
     ea_requestId = ''q'', ea_visible_requisition_ids = None,
     ea_evidence = \<lparr> er_kind = ''recruiter_response_confirmation'', er_id = ''e'' \<rparr>, ea_note = None \<rparr>"

definition ex_db1 :: pipeline_db where
  "ex_db1 = pipeline_exec empty_pdb empty_pdb
     (Requisitions_Cmd [\<lparr> rq_id = ''R'', rq_tenant_id = ''T'', rq_status = ''open'' \<rparr>])"

definition ex_db2 :: pipeline_db where
  "ex_db2 = pipeline_exec ex_db1 ex_db1 (Create_Cmd (ex_penv ''p'') (ex_create ''A''))"

definition ex_db3 :: pipeline_db where
  "ex_db3 = pipeline_exec ex_db2 ex_db2 (Response_Cmd (ex_penv ''h'') ex_response)"

text \<open>The requisition is closed after the talent has answered.\<close>

definition ex_db4 :: pipeline_db where
  "ex_db4 = pipeline_exec ex_db3 ex_db3
     (Requisitions_Cmd [\<lparr> rq_id = ''R'', rq_tenant_id = ''T'', rq_status = ''closed'' \<rparr>])"

lemma ex_fresh: "pe_uuid (ex_penv ''p'') 0 \<notin> pl_id ` set (pdb_pipelines ex_db1)"
  by code_simp

lemma ex_trace2: "pipeline_trace [ex_db2, ex_db1, empty_pdb]"
proof -
  have "pipeline_trace [ex_db1, empty_pdb]"
    unfolding ex_db1_def by (rule pipeline_trace.step [OF pipeline_trace.start]) (simp_all add: command_ok_def)
  then show ?thesis unfolding ex_db2_def
    by (rule pipeline_trace.step) (simp_all add: command_ok_def ex_fresh)
qed

lemma ex_trace3: "pipeline_trace [ex_db3, ex_db2, ex_db1, empty_pdb]"
  unfolding ex_db3_def by (rule pipeline_trace.step [OF ex_trace2]) (simp_all add: command_ok_def)

lemma ex_trace4: "pipeline_trace [ex_db4, ex_db3, ex_db2, ex_db1, empty_pdb]"
  unfolding ex_db4_def by (rule pipeline_trace.step [OF ex_trace3]) (simp_all add: command_ok_def)

definition ex_row :: pipeline_row where
  "ex_row = hd (pdb_pipelines ex_db3)"

lemma ex_row_in: "pdb_pipelines ex_db3 = [ex_row]" "pl_status ex_row = Talent_Responded" "pl_id ex_row = ''p''"
  by code_simp+

theorem one_live_episode_witness:
  "isLiveStatus (pl_status ex_row) \<and> last (pdb_pipelines ex_db3) = ex_row"
proof -
  have "last (pdb_pipelines ex_db3) = ex_row"
    by (rule one_live_episode [OF ex_trace3]) (simp_all add: ex_row_in)
  then show ?thesis by (simp add: ex_row_in)
qed

theorem history_is_the_lifecycle_witness:
  "status_path None (history_of ex_db3 ''p'') (Some Talent_Responded) \<and> length (history_of ex_db3 ''p'') = 2"
proof -
  have "pl_version ex_row = 1" by code_simp
  then show ?thesis using history_is_the_lifecycle [OF ex_trace3, of ex_row] ex_row_in by simp
qed

theorem response_evidence_required_witness:
  "\<exists>from v e. (from, Talent_Responded, v, Some e) \<in> set (events_of ex_db3 ''p'') \<and>
     er_kind e = ''recruiter_response_confirmation''"
  using response_evidence_required [OF ex_trace3, of ex_row] ex_row_in by simp

definition ex_back :: transition_args where
  "ex_back = \<lparr> ta_tenant_id = ''T'', ta_id = ''p'', ta_to_status = Qualifying, ta_changed_by_id = ''u'',
     ta_note = None, ta_requestId = ''q'', ta_expected_version = 1, ta_visible_requisition_ids = None,
     ta_disposition = None, ta_evidence = None \<rparr>"

theorem disposition_once_witness:
  "snd (transition_tx (ex_penv ''z'') ex_db2 ex_db3 ex_back) \<noteq> Inl PIPELINE_ALREADY_DISPOSITIONED"
  using disposition_once [OF ex_trace3, of ex_db2 "ex_penv ''z''" ex_back] by simp

lemma ex_first: "fst (transition_tx (ex_penv ''h'') ex_db2 ex_db2 (evidence_transition ex_response Talent_Responded)) = ex_db3"
  by (simp add: ex_db3_def recordResponseEvidence_def)

lemma ex_db3_changed: "ex_db3 \<noteq> ex_db2"
proof
  assume "ex_db3 = ex_db2"
  then have "map pl_version (pdb_pipelines ex_db3) = map pl_version (pdb_pipelines ex_db2)" by simp
  moreover have "map pl_version (pdb_pipelines ex_db3) = [1]" "map pl_version (pdb_pipelines ex_db2) = [0]" by code_simp+
  ultimately show False by simp
qed


theorem transition_recorded_witness:
  "length (pdb_activities ex_db3) = length (pdb_activities ex_db2) + 1 \<and>
   length (pdb_usage ex_db3) = length (pdb_usage ex_db2) + 1"
proof -
  obtain res where "transition_tx (ex_penv ''h'') ex_db2 ex_db2 (evidence_transition ex_response Talent_Responded) = (ex_db3, res)"
    using ex_first by (metis prod.collapse)
  from transition_recorded [OF ex_trace2 _ this ex_db3_changed] show ?thesis by auto
qed

definition ex_forward :: reconcile_forward_args where
  "ex_forward = \<lparr> rf_tenant_id = ''T'', rf_id = ''p'', rf_target = Talent_Responded, rf_changed_by_id = ''u'',
     rf_requestId = ''q'', rf_visible_requisition_ids = None,
     rf_evidence = \<lparr> er_kind = ''recruiter_response_confirmation'', er_id = ''e'' \<rparr> \<rparr>"

theorem reconcileForward_exact_witness:
  "case snd (reconcileForward (ex_penv ''f'') ex_db2 ex_forward) of
     Inl e \<Rightarrow> False | Inr v \<Rightarrow> vw_status v = Talent_Responded \<and> vw_version v = 2"
proof -
  obtain db' res where r: "reconcileForward (ex_penv ''f'') ex_db2 ex_forward = (db', res)" by fastforce
  have "case snd (reconcileForward (ex_penv ''f'') ex_db2 ex_forward) of Inl e \<Rightarrow> False | Inr v \<Rightarrow> True"
    by code_simp
  then have "case res of Inl e \<Rightarrow> False | Inr v \<Rightarrow> True" using r by simp
  moreover have "\<forall>row\<in>set (pdb_pipelines ex_db2). pl_status row = No_Contact \<and> pl_version row = 0" by code_simp
  moreover have "rf_target ex_forward = Talent_Responded" by (simp add: ex_forward_def)
  ultimately show ?thesis using reconcileForward_exact [OF ex_trace2 r] r
    by (auto split: sum.splits)
qed

theorem requisition_gate_respected_witness:
  "fst (transition_tx (ex_penv ''z'') ex_db4 ex_db4 ex_back) = ex_db4"
proof (rule ccontr)
  assume ch: "fst (transition_tx (ex_penv ''z'') ex_db4 ex_db4 ex_back) \<noteq> ex_db4"
  have rows: "pdb_pipelines ex_db4 = [ex_row]" by (simp add: ex_db4_def ex_row_in)
  have q: "pl_requisition_id ex_row = ''R''" by code_simp
  have l: "lockRequisitionStatusInTx ex_db4 ''T'' ''R'' = Some ''closed''" by code_simp
  obtain db' res where t: "transition_tx (ex_penv ''z'') ex_db4 ex_db4 ex_back = (db', res)" by fastforce
  have "ta_to_status ex_back \<in> {Not_In_Consideration, Completed}"
    using requisition_gate_respected [OF ex_trace4 _ t, of ex_row "''closed''"] ch t rows q l ex_row_in
    by (simp add: ex_back_def isTerminalRequisitionStatus_def TERMINAL_REQUISITION_STATUSES_def)
  then show False by (simp add: ex_back_def)
qed

theorem repoint_fails_exactly_on_conflicts_witness:
  "snd (pipeline_repoint ex_db3 ''T'' ''A'' ''B'' None) \<noteq> Inl Unique_Violation"
proof -
  have "findLiveEpisodeConflicts ex_db3 ''T'' ''A'' ''B'' = []" by code_simp
  then show ?thesis using repoint_fails_exactly_on_conflicts [OF ex_trace3, of "''A''" "''B''"] by simp
qed

end
