(* ===== verification/Consent_Vocabulary.thy ===== *)
theory Consent_Vocabulary
  imports Interfaces "HOL-Library.AList"
begin

text \<open>
  The closed vocabularies and the tables of \<^verbatim>\<open>libs/consent\<close>: scopes, actions, capture
  methods, check operations, contact channels, and the rows of the schemas
  \<^verbatim>\<open>consent\<close> (ledger, idempotency keys, outbox) and \<^verbatim>\<open>audit\<close>. A database is a record
  of row lists in physical order. Instants are milliseconds since the epoch (\<open>int\<close>);
  the strings that cross the API are kept as strings and read through the parameters
  \<open>env_iso\<close> (\<open>toISOString\<close>) and \<open>env_parse_date\<close> (\<open>new Date(s)\<close>, None for
  Invalid Date).
\<close>

section \<open>Vocabularies\<close>

datatype consent_scope =
    Profile_Storage | Resume_Processing | Matching | Contacting | Cross_Tenant_Visibility
  | Recording | Transcription | Ai_Processing

fun scope_name :: "consent_scope \<Rightarrow> string" where
  "scope_name Profile_Storage = ''profile_storage''"
| "scope_name Resume_Processing = ''resume_processing''"
| "scope_name Matching = ''matching''"
| "scope_name Contacting = ''contacting''"
| "scope_name Cross_Tenant_Visibility = ''cross_tenant_visibility''"
| "scope_name Recording = ''recording''"
| "scope_name Transcription = ''transcription''"
| "scope_name Ai_Processing = ''ai_processing''"

definition PROFILE_CONSENT_SCOPES :: "consent_scope list" where
  "PROFILE_CONSENT_SCOPES =
     [Profile_Storage, Resume_Processing, Matching, Contacting, Cross_Tenant_Visibility]"

definition CONVERSATION_OPERATION_SCOPES :: "consent_scope list" where
  "CONVERSATION_OPERATION_SCOPES = [Recording, Transcription, Ai_Processing]"

definition CONSENT_SCOPES :: "consent_scope list" where
  "CONSENT_SCOPES = PROFILE_CONSENT_SCOPES @ CONVERSATION_OPERATION_SCOPES"

datatype consent_action = Granted | Revoked | Expired

text \<open>The ledger's capture methods: the HTTP ones and the server-only last one.\<close>

datatype captured_method =
    Self_Signup | Recruiter_Capture | Upload_Flow | Import | Portal_Self_Service
  | Recruiter_Create_Default

datatype contact_channel = Email | Phone | Sms | Indeed | Portal | Other

fun channel_name :: "contact_channel \<Rightarrow> string" where
  "channel_name Email = ''email''"
| "channel_name Phone = ''phone''"
| "channel_name Sms = ''sms''"
| "channel_name Indeed = ''indeed''"
| "channel_name Portal = ''portal''"
| "channel_name Other = ''other''"

datatype check_operation =
    Op_Ingestion | Op_Matching | Op_Examination | Op_Selection | Op_Packaging | Op_Submittal
  | Op_Cross_Tenant | Op_Communication | Op_Recording | Op_Transcription | Op_Ai_Processing

fun OPERATION_SCOPE_MAP :: "check_operation \<Rightarrow> consent_scope" where
  "OPERATION_SCOPE_MAP Op_Ingestion = Profile_Storage"
| "OPERATION_SCOPE_MAP Op_Matching = Matching"
| "OPERATION_SCOPE_MAP Op_Examination = Matching"
| "OPERATION_SCOPE_MAP Op_Selection = Contacting"
| "OPERATION_SCOPE_MAP Op_Packaging = Contacting"
| "OPERATION_SCOPE_MAP Op_Submittal = Contacting"
| "OPERATION_SCOPE_MAP Op_Cross_Tenant = Cross_Tenant_Visibility"
| "OPERATION_SCOPE_MAP Op_Communication = Contacting"
| "OPERATION_SCOPE_MAP Op_Recording = Recording"
| "OPERATION_SCOPE_MAP Op_Transcription = Transcription"
| "OPERATION_SCOPE_MAP Op_Ai_Processing = Ai_Processing"

text \<open>The prerequisite scopes of a scope, the scope itself not included.\<close>

fun SCOPE_DEPENDENCY_CHAIN :: "consent_scope \<Rightarrow> consent_scope list" where
  "SCOPE_DEPENDENCY_CHAIN Profile_Storage = []"
| "SCOPE_DEPENDENCY_CHAIN Resume_Processing = []"
| "SCOPE_DEPENDENCY_CHAIN Matching = [Profile_Storage]"
| "SCOPE_DEPENDENCY_CHAIN Contacting = [Profile_Storage, Matching]"
| "SCOPE_DEPENDENCY_CHAIN Cross_Tenant_Visibility = [Profile_Storage, Matching, Contacting]"
| "SCOPE_DEPENDENCY_CHAIN Recording = []"
| "SCOPE_DEPENDENCY_CHAIN Transcription = []"
| "SCOPE_DEPENDENCY_CHAIN Ai_Processing = []"

definition STALENESS_WINDOW_MONTHS :: int where
  "STALENESS_WINDOW_MONTHS = 12"

section \<open>Decisions, errors and responses\<close>

datatype decision_result = Allowed | Denied | Error_Result

record consent_decision =
  cd_result :: decision_result
  cd_scope :: "consent_scope option"
  cd_denied_scopes :: "consent_scope list option"
  cd_reason_code :: "string option"
  cd_display_message :: "string option"
  cd_log_message :: "string option"
  cd_decision_id :: string
  cd_computed_at :: string

text \<open>The \<open>details\<close> object an error carries.\<close>

datatype consent_details =
    No_Details
  | Received_Action consent_action
  | Missing_Channel check_operation consent_scope
  | Embedded_Decision consent_decision
  | Missing_Dependency consent_scope consent_scope
  | Invalid_Field string

text \<open>
  \<open>AramoError\<close>: code, HTTP status, details. Messages and request ids are not kept. A
  value Prisma refuses (an Invalid Date) surfaces as a driver error.
\<close>

datatype consent_error =
    AramoError (err_code: string) (err_status: nat) (err_details: consent_details)
  | Driver_Error

definition IDEMPOTENCY_KEY_CONFLICT :: consent_error where
  "IDEMPOTENCY_KEY_CONFLICT = AramoError ''IDEMPOTENCY_KEY_CONFLICT'' 409 No_Details"

record grant_response =
  gr_event_id :: string
  gr_tenant_id :: string
  gr_talent_record_id :: string
  gr_scope :: consent_scope
  gr_captured_method :: captured_method
  gr_captured_by_actor_id :: "string option"
  gr_consent_version :: string
  gr_consent_document_id :: "string option"
  gr_occurred_at :: string
  gr_expires_at :: "string option"
  gr_recorded_at :: string
  gr_metadata :: "json option"

record revoke_response =
  rr_event_id :: string
  rr_tenant_id :: string
  rr_talent_record_id :: string
  rr_scope :: consent_scope
  rr_captured_method :: captured_method
  rr_captured_by_actor_id :: "string option"
  rr_consent_version :: string
  rr_consent_document_id :: "string option"
  rr_occurred_at :: string
  rr_recorded_at :: string
  rr_revoked_event_id :: "string option"
  rr_metadata :: "json option"

text \<open>The bodies kept in the idempotency table; other modules store their own JSON there.\<close>

datatype response_body =
    Grant_Body grant_response
  | Revoke_Body revoke_response
  | Decision_Body consent_decision
  | Foreign_Body json

section \<open>Rows\<close>

record consent_event =
  ev_id :: string
  ev_tenant_id :: string
  ev_talent_record_id :: string
  ev_scope :: consent_scope
  ev_action :: consent_action
  ev_captured_by_actor_id :: "string option"
  ev_captured_method :: captured_method
  ev_consent_version :: string
  ev_consent_text_snapshot :: "string option"
  ev_consent_document_id :: "string option"
  ev_occurred_at :: int
  ev_expires_at :: "int option"
  ev_metadata :: "json option"
  ev_created_at :: int

record consent_evidence =
  cv_text_hash :: string
  cv_text_version :: string
  cv_notice_version :: "string option"
  cv_channel :: string

datatype actor_type = Actor_Recruiter | Actor_Self | Actor_System

datatype audit_payload =
    Grant_Payload string consent_scope "consent_evidence option"
  | Revoke_Payload string consent_scope "string option" "string list" "int option"
      "consent_evidence option"
  | Decision_Payload string string string check_operation "consent_scope option"
      "contact_channel option" decision_result "consent_scope list" "string option" string
  | Expired_Payload string consent_scope string
  | Reconcile_Payload string string string
  | Foreign_Payload json

record audit_event =
  au_id :: string
  au_tenant_id :: string
  au_actor_id :: "string option"
  au_actor_type :: actor_type
  au_event_type :: string
  au_subject_id :: string
  au_event_payload :: audit_payload
  au_created_at :: int

datatype outbox_payload =
    Granted_Out string string consent_scope
  | Revoked_Out string string consent_scope "string option"
  | Expired_Out string string consent_scope string

record outbox_event =
  ob_id :: string
  ob_tenant_id :: string
  ob_event_type :: string
  ob_event_payload :: outbox_payload
  ob_created_at :: int
  ob_published_at :: "int option"

record idempotency_row =
  ik_id :: string
  ik_tenant_id :: string
  ik_key :: string
  ik_request_hash :: string
  ik_response_status :: nat
  ik_response_body :: response_body
  ik_created_at :: int

record consent_db =
  db_ledger :: "consent_event list"
  db_audit :: "audit_event list"
  db_outbox :: "outbox_event list"
  db_idempotency :: "idempotency_row list"

text \<open>
  What a call reads from outside: the \<open>n\<close>-th \<open>uuidv7()\<close>, the process clock, the
  \<open>now()\<close> default of its \<open>n\<close>-th row, and the date codec.
\<close>

record consent_env =
  env_uuid :: "nat \<Rightarrow> string"
  env_now :: int
  env_row_now :: "nat \<Rightarrow> int"
  env_iso :: "int \<Rightarrow> string"
  env_parse_date :: "string \<Rightarrow> int option"

section \<open>Facts about the vocabularies\<close>

lemma scope_name_inject [simp]: "scope_name a = scope_name b \<longleftrightarrow> a = b"
  by (cases a; cases b) simp_all

lemma channel_name_inject [simp]: "channel_name a = channel_name b \<longleftrightarrow> a = b"
  by (cases a; cases b) simp_all

lemma CONSENT_SCOPES_all [simp]: "s \<in> set CONSENT_SCOPES"
  by (cases s) (simp_all add: CONSENT_SCOPES_def PROFILE_CONSENT_SCOPES_def CONVERSATION_OPERATION_SCOPES_def)

text \<open>
  The chain of every scope is transitively closed and lists prerequisites first, so one
  pass over it checks them all.
\<close>

lemma chain_closed:
  "d \<in> set (SCOPE_DEPENDENCY_CHAIN s) \<Longrightarrow> set (SCOPE_DEPENDENCY_CHAIN d) \<subseteq> set (SCOPE_DEPENDENCY_CHAIN s)"
  by (cases s; cases d) auto

lemma chain_irrefl: "s \<notin> set (SCOPE_DEPENDENCY_CHAIN s)"
  by (cases s) auto

end
