(* ===== verification/Js_Date.thy ===== *)
theory Js_Date
  imports Aramo_Prelude
begin

text \<open>
  The calendar part of JavaScript's \<open>Date\<close> that the sources use: an instant is the
  number of milliseconds since 1970-01-01T00:00Z, and \<open>setMonth(getMonth() + k)\<close>
  moves it by calendar months, a day past the end of the target month running over into
  the next one. The processes run with the zone UTC, so the local fields are the UTC ones.
  Years are counted from March (\<open>month 0\<close> is March), which puts the leap day last.
\<close>

definition ms_per_day :: int where
  "ms_per_day = 86400000"

text \<open>Days before the March-based year \<open>y\<close>, and before its month \<open>m\<close>.\<close>

definition year_base :: "int \<Rightarrow> int" where
  "year_base y = 365 * y + y div 4 - y div 100 + y div 400"

definition month_base :: "int \<Rightarrow> int" where
  "month_base m = (153 * m + 2) div 5"

text \<open>Day number of 0000-03-01 relative to 1970-01-01.\<close>

definition epoch_shift :: int where
  "epoch_shift = 719468"

definition year_of_days :: "int \<Rightarrow> int" where
  "year_of_days z =
     (let y = (400 * z) div 146097
      in if z < year_base y then y - 1 else if year_base (y + 1) \<le> z then y + 1 else y)"

definition month_of_days :: "int \<Rightarrow> int" where
  "month_of_days z = (5 * (z - year_base (year_of_days z)) + 2) div 153"

text \<open>Zero-based day of the month.\<close>

definition mday_of_days :: "int \<Rightarrow> int" where
  "mday_of_days z = z - year_base (year_of_days z) - month_base (month_of_days z)"

definition add_months_days :: "int \<Rightarrow> int \<Rightarrow> int" where
  "add_months_days k z =
     (let m = month_of_days z + k
      in year_base (year_of_days z + m div 12) + month_base (m mod 12) + mday_of_days z)"

text \<open>\<open>d.setMonth(d.getMonth() + k)\<close>\<close>

definition add_months :: "int \<Rightarrow> int \<Rightarrow> int" where
  "add_months k t =
     (add_months_days k (t div ms_per_day + epoch_shift) - epoch_shift) * ms_per_day
       + t mod ms_per_day"

section \<open>Laws\<close>

lemma div_succ:
  fixes y n :: int
  assumes "0 < n"
  shows "(y + 1) div n = y div n + (if n dvd (y + 1) then 1 else 0)"
proof (cases "n dvd (y + 1)")
  case True
  then obtain k where k: "y + 1 = n * k" by (rule dvdE)
  have "y = n * (k - 1) + (n - 1)" using k by (simp add: algebra_simps)
  then have "y div n = k - 1" using assms by (metis add_0 div_mult_self4 div_pos_pos_trivial
      diff_ge_0_iff_ge less_iff_diff_less_0 add.commute diff_add_cancel less_add_one
      zle_diff1_eq zless_imp_add1_zle order_less_irrefl)
  with k True assms show ?thesis by simp
next
  case False
  let ?q = "(y + 1) div n" and ?r = "(y + 1) mod n"
  have r: "0 < ?r" "?r < n" using False assms pos_mod_bound [of n "y + 1"] pos_mod_sign [of n "y + 1"]
    by (auto simp: dvd_eq_mod_eq_0 less_le)
  have "y = n * ?q + (?r - 1)" using mult_div_mod_eq [of n "y + 1"] by linarith
  then have "y div n = ?q" by (rule int_div_pos_eq) (use r in auto)
  with False show ?thesis by simp
qed

lemma year_base_step: "365 \<le> year_base (y + 1) - year_base y" "year_base (y + 1) - year_base y \<le> 366"
proof -
  have "(400::int) dvd y + 1 \<Longrightarrow> 100 dvd y + 1" "(100::int) dvd y + 1 \<Longrightarrow> 4 dvd y + 1"
    by (rule dvd_trans [of _ 400], simp_all) (rule dvd_trans [of _ 100], simp_all)
  then show "365 \<le> year_base (y + 1) - year_base y" "year_base (y + 1) - year_base y \<le> 366"
    by (auto simp: year_base_def div_succ)
qed

lemma div_bounds:
  fixes n y :: int
  assumes "0 < n"
  shows "n * (y div n) \<le> y" and "y < n * (y div n) + n"
proof -
  have eq: "y = n * (y div n) + y mod n" by simp
  have "0 \<le> y mod n" "y mod n < n" using assms by simp_all
  with eq show "n * (y div n) \<le> y" "y < n * (y div n) + n" by linarith+
qed

lemma year_base_bounds: "146097 * y - 699 \<le> 400 * year_base y" "400 * year_base y \<le> 146097 * y + 396"
proof -
  define a b c where "a = y div 4" and "b = y div 100" and "c = y div 400"
  have "4 * a \<le> y" "y < 4 * a + 4" "100 * b \<le> y" "y < 100 * b + 100" "400 * c \<le> y" "y < 400 * c + 400"
    unfolding a_def b_def c_def using div_bounds [of 4 y] div_bounds [of 100 y] div_bounds [of 400 y] by auto
  moreover have "year_base y = 365 * y + a - b + c" by (simp add: year_base_def a_def b_def c_def)
  ultimately show "146097 * y - 699 \<le> 400 * year_base y" "400 * year_base y \<le> 146097 * y + 396"
    by auto
qed

lemma year_of_days_correct: "year_base (year_of_days z) \<le> z" "z < year_base (year_of_days z + 1)"
proof -
  define y where "y = (400 * z) div 146097"
  have y: "146097 * y \<le> 400 * z" "400 * z < 146097 * (y + 1)"
    unfolding y_def using div_bounds [of 146097 "400 * z"] by (auto simp: algebra_simps)
  have "year_base (y - 1) \<le> z" using year_base_bounds(2) [of "y - 1"] y by simp
  moreover have "z < year_base (y + 2)" using year_base_bounds(1) [of "y + 2"] y by simp
  moreover have "year_of_days z =
      (if z < year_base y then y - 1 else if year_base (y + 1) \<le> z then y + 1 else y)"
    by (simp add: year_of_days_def y_def Let_def)
  ultimately show "year_base (year_of_days z) \<le> z" "z < year_base (year_of_days z + 1)"
    by (auto simp: add.commute [of 2])
qed

lemma month_of_days_range: "0 \<le> month_of_days z" "month_of_days z \<le> 11"
proof -
  have "0 \<le> z - year_base (year_of_days z)" "z - year_base (year_of_days z) \<le> 365"
    using year_of_days_correct [of z] year_base_step(2) [of "year_of_days z"] by linarith+
  then show "0 \<le> month_of_days z" "month_of_days z \<le> 11"
    unfolding month_of_days_def by (auto simp: div_int_pos_iff intro: order.trans [OF zdiv_mono1 [of _ 1827]])
qed

text \<open>Twelve months are 365 or 366 days.\<close>

lemma add_year_days:
  "add_months_days 12 z - z \<in> {365..366}" "z - add_months_days (- 12) z \<in> {365..366}"
proof -
  let ?y = "year_of_days z" and ?m = "month_of_days z"
  have m: "0 \<le> ?m" "?m \<le> 11" by (rule month_of_days_range)+
  have "(?m + 12) div 12 = 1" "(?m + 12) mod 12 = ?m" "(?m - 12) div 12 = -1" "(?m - 12) mod 12 = ?m"
    using m by auto
  then have "add_months_days 12 z - z = year_base (?y + 1) - year_base ?y"
    "z - add_months_days (- 12) z = year_base (?y - 1 + 1) - year_base (?y - 1)"
    by (simp_all add: add_months_days_def mday_of_days_def Let_def)
  then show "add_months_days 12 z - z \<in> {365..366}" "z - add_months_days (- 12) z \<in> {365..366}"
    using year_base_step [of ?y] year_base_step [of "?y - 1"] by simp_all
qed

lemma add_months_shift:
  "add_months k t = t + (add_months_days k (t div ms_per_day + epoch_shift)
     - (t div ms_per_day + epoch_shift)) * ms_per_day"
  using div_mult_mod_eq [of t ms_per_day] by (simp add: add_months_def algebra_simps)

lemma add_year: "t + 365 * ms_per_day \<le> add_months 12 t" "add_months 12 t \<le> t + 366 * ms_per_day"
  using add_year_days(1) [of "t div ms_per_day + epoch_shift"]
  by (simp_all add: add_months_shift ms_per_day_def)

lemma sub_year: "t - 366 * ms_per_day \<le> add_months (- 12) t" "add_months (- 12) t \<le> t - 365 * ms_per_day"
  using add_year_days(2) [of "t div ms_per_day + epoch_shift"]
  by (simp_all add: add_months_shift ms_per_day_def)

end
