(* ===== verification/Consent_Ledger.thy ===== *)
theory Consent_Ledger
  imports Consent_Vocabulary Js_Date
begin

text \<open>
  The write side of \<^verbatim>\<open>libs/consent/src/lib/consent.repository.ts\<close> and of
  \<^verbatim>\<open>idempotency.service.ts\<close>: the idempotency table, the one authoritative writer
  \<open>recordConsentEvent\<close>, and the reconcile operations of a record merge. A transaction
  is one state change: \<open>(db', result)\<close>, with \<open>db' = db\<close> when it aborts.
\<close>

section \<open>The idempotency table\<close>

definition find_idempotency :: "consent_db \<Rightarrow> string \<Rightarrow> string \<Rightarrow> idempotency_row option" where
  "find_idempotency db tenant key =
     find (\<lambda>r. ik_tenant_id r = tenant \<and> ik_key r = key) (db_idempotency db)"

definition add_idempotency :: "consent_db \<Rightarrow> idempotency_row \<Rightarrow> consent_db" where
  "add_idempotency db r = db \<lparr> db_idempotency := db_idempotency db @ [r] \<rparr>"

datatype idempotency_lookup = Replay nat response_body | Proceed

definition idempotency_lookup ::
  "consent_db \<Rightarrow> string \<Rightarrow> string \<Rightarrow> string \<Rightarrow> (consent_error, idempotency_lookup) result" where
  "idempotency_lookup db tenant key request_hash =
     (case find_idempotency db tenant key of
        None \<Rightarrow> Inr Proceed
      | Some row \<Rightarrow>
          if ik_request_hash row \<noteq> request_hash then Inl IDEMPOTENCY_KEY_CONFLICT
          else Inr (Replay (ik_response_status row) (ik_response_body row)))"

text \<open>\<open>persist\<close>: the unique index on (tenant, key) refuses a second row.\<close>

definition idempotency_persist ::
  "consent_env \<Rightarrow> consent_db \<Rightarrow> string \<Rightarrow> string \<Rightarrow> string \<Rightarrow> nat \<Rightarrow> response_body \<Rightarrow>
     consent_db \<times> (consent_error, unit) result" where
  "idempotency_persist env db tenant key request_hash status body =
     (case find_idempotency db tenant key of
        Some _ \<Rightarrow> (db, Inl Driver_Error)
      | None \<Rightarrow>
          (add_idempotency db
             \<lparr> ik_id = env_uuid env 0, ik_tenant_id = tenant, ik_key = key,
               ik_request_hash = request_hash, ik_response_status = status,
               ik_response_body = body, ik_created_at = env_row_now env 0 \<rparr>,
           Inr ()))"

section \<open>recordConsentEvent\<close>

record record_input =
  ri_tenant_id :: string
  ri_talent_record_id :: string
  ri_action :: consent_action
  ri_scope :: consent_scope
  ri_captured_method :: captured_method
  ri_captured_by_actor_id :: "string option"
  ri_consent_version :: string
  ri_consent_text_snapshot :: "string option"
  ri_consent_document_id :: "string option"
  ri_occurred_at :: string
  ri_expires_at :: "string option"
  ri_metadata :: "json option"
  ri_consent_evidence :: "consent_evidence option"
  ri_idempotencyKey :: string
  ri_requestHash :: string

text \<open>
  The prior grant a revoke refers to: \<open>findFirst\<close> ordered by \<open>occurred_at desc\<close>;
  among equal instants the first in physical order.
\<close>

definition priorGrant :: "consent_db \<Rightarrow> record_input \<Rightarrow> consent_event option" where
  "priorGrant db inp =
     first_max ev_occurred_at
       (filter (\<lambda>e. ev_tenant_id e = ri_tenant_id inp \<and>
                    ev_talent_record_id e = ri_talent_record_id inp \<and>
                    ev_scope e = ri_scope inp \<and> ev_action e = Granted)
          (db_ledger db))"

definition revokedEventId :: "consent_db \<Rightarrow> record_input \<Rightarrow> string option" where
  "revokedEventId db inp =
     (if ri_action inp = Revoked then map_option ev_id (priorGrant db inp) else None)"

text \<open>\<open>expires_at\<close> is kept for grants only; an unreadable date aborts.\<close>

definition parse_expiry :: "consent_env \<Rightarrow> record_input \<Rightarrow> int option option" where
  "parse_expiry env inp =
     (case (ri_action inp, ri_expires_at inp) of
        (Granted, Some s) \<Rightarrow> map_option Some (env_parse_date env s)
      | _ \<Rightarrow> Some None)"

definition new_event :: "consent_env \<Rightarrow> record_input \<Rightarrow> int \<Rightarrow> int option \<Rightarrow> consent_event" where
  "new_event env inp occurredAt expiresAt =
     \<lparr> ev_id = env_uuid env 0, ev_tenant_id = ri_tenant_id inp,
       ev_talent_record_id = ri_talent_record_id inp, ev_scope = ri_scope inp,
       ev_action = ri_action inp, ev_captured_by_actor_id = ri_captured_by_actor_id inp,
       ev_captured_method = ri_captured_method inp,
       ev_consent_version = ri_consent_version inp,
       ev_consent_text_snapshot =
         (if ri_action inp = Granted then ri_consent_text_snapshot inp else None),
       ev_consent_document_id = ri_consent_document_id inp, ev_occurred_at = occurredAt,
       ev_expires_at = expiresAt, ev_metadata = ri_metadata inp,
       ev_created_at = env_row_now env 0 \<rparr>"

definition audit_payload_of :: "consent_env \<Rightarrow> record_input \<Rightarrow> string option \<Rightarrow> audit_payload" where
  "audit_payload_of env inp revoked =
     (if ri_action inp = Granted
      then Grant_Payload (env_uuid env 0) (ri_scope inp) (ri_consent_evidence inp)
      else Revoke_Payload (env_uuid env 0) (ri_scope inp) revoked [] None (ri_consent_evidence inp))"

definition new_audit :: "consent_env \<Rightarrow> record_input \<Rightarrow> string option \<Rightarrow> audit_event" where
  "new_audit env inp revoked =
     \<lparr> au_id = env_uuid env 1, au_tenant_id = ri_tenant_id inp,
       au_actor_id = ri_captured_by_actor_id inp,
       au_actor_type =
         (if ri_captured_method inp = Self_Signup \<or> ri_captured_method inp = Portal_Self_Service
          then Actor_Self else Actor_Recruiter),
       au_event_type =
         (if ri_action inp = Granted then ''consent.grant.recorded'' else ''consent.revoke.recorded''),
       au_subject_id = ri_talent_record_id inp,
       au_event_payload = audit_payload_of env inp revoked,
       au_created_at = env_row_now env 1 \<rparr>"

definition new_outbox :: "consent_env \<Rightarrow> record_input \<Rightarrow> string option \<Rightarrow> outbox_event" where
  "new_outbox env inp revoked =
     \<lparr> ob_id = env_uuid env 2, ob_tenant_id = ri_tenant_id inp,
       ob_event_type = (if ri_action inp = Granted then ''consent.granted'' else ''consent.revoked''),
       ob_event_payload =
         (if ri_action inp = Granted
          then Granted_Out (env_uuid env 0) (ri_talent_record_id inp) (ri_scope inp)
          else Revoked_Out (env_uuid env 0) (ri_talent_record_id inp) (ri_scope inp) revoked),
       ob_created_at = env_row_now env 2, ob_published_at = None \<rparr>"

definition event_response ::
  "consent_env \<Rightarrow> record_input \<Rightarrow> int \<Rightarrow> int option \<Rightarrow> string option \<Rightarrow> response_body" where
  "event_response env inp occurredAt expiresAt revoked =
     (if ri_action inp = Granted
      then Grant_Body
        \<lparr> gr_event_id = env_uuid env 0, gr_tenant_id = ri_tenant_id inp,
          gr_talent_record_id = ri_talent_record_id inp, gr_scope = ri_scope inp,
          gr_captured_method = ri_captured_method inp,
          gr_captured_by_actor_id = ri_captured_by_actor_id inp,
          gr_consent_version = ri_consent_version inp,
          gr_consent_document_id = ri_consent_document_id inp,
          gr_occurred_at = env_iso env occurredAt,
          gr_expires_at = map_option (env_iso env) expiresAt,
          gr_recorded_at = env_iso env (env_row_now env 0), gr_metadata = ri_metadata inp \<rparr>
      else Revoke_Body
        \<lparr> rr_event_id = env_uuid env 0, rr_tenant_id = ri_tenant_id inp,
          rr_talent_record_id = ri_talent_record_id inp, rr_scope = ri_scope inp,
          rr_captured_method = ri_captured_method inp,
          rr_captured_by_actor_id = ri_captured_by_actor_id inp,
          rr_consent_version = ri_consent_version inp,
          rr_consent_document_id = ri_consent_document_id inp,
          rr_occurred_at = env_iso env occurredAt,
          rr_recorded_at = env_iso env (env_row_now env 0),
          rr_revoked_event_id = revoked, rr_metadata = ri_metadata inp \<rparr>)"

text \<open>Steps 3 to 7: the four rows and the response, once the dates are read.\<close>

definition write_event ::
  "consent_env \<Rightarrow> consent_db \<Rightarrow> record_input \<Rightarrow> int \<Rightarrow> int option \<Rightarrow> consent_db \<times> response_body" where
  "write_event env db inp occurredAt expiresAt =
     (let revoked = revokedEventId db inp;
          response = event_response env inp occurredAt expiresAt revoked
      in (\<lparr> db_ledger = db_ledger db @ [new_event env inp occurredAt expiresAt],
            db_audit = db_audit db @ [new_audit env inp revoked],
            db_outbox = db_outbox db @ [new_outbox env inp revoked],
            db_idempotency = db_idempotency db @
              [\<lparr> ik_id = env_uuid env 3, ik_tenant_id = ri_tenant_id inp,
                 ik_key = ri_idempotencyKey inp, ik_request_hash = ri_requestHash inp,
                 ik_response_status = 201, ik_response_body = response,
                 ik_created_at = env_row_now env 3 \<rparr>] \<rparr>,
          response))"

definition recordConsentEvent ::
  "consent_env \<Rightarrow> consent_db \<Rightarrow> record_input \<Rightarrow> consent_db \<times> (consent_error, response_body) result" where
  "recordConsentEvent env db inp =
     (if ri_action inp \<noteq> Granted \<and> ri_action inp \<noteq> Revoked
      then (db, Inl (AramoError ''INTERNAL_ERROR'' 500 (Received_Action (ri_action inp))))
      else case find_idempotency db (ri_tenant_id inp) (ri_idempotencyKey inp) of
        Some existing \<Rightarrow>
          if ik_request_hash existing \<noteq> ri_requestHash inp then (db, Inl IDEMPOTENCY_KEY_CONFLICT)
          else (db, Inr (ik_response_body existing))
      | None \<Rightarrow>
          (case (env_parse_date env (ri_occurred_at inp), parse_expiry env inp) of
             (Some occurredAt, Some expiresAt) \<Rightarrow>
               (case write_event env db inp occurredAt expiresAt of (db', body) \<Rightarrow> (db', Inr body))
           | _ \<Rightarrow> (db, Inl Driver_Error)))"

section \<open>Record merges\<close>

text \<open>\<open>metadata -> 'reconcile' ->> 'operation_id'\<close>\<close>

definition reconcile_operation :: "consent_event \<Rightarrow> string option" where
  "reconcile_operation e =
     (case ev_metadata e of
        None \<Rightarrow> None
      | Some m \<Rightarrow> (case js_obj_get m ''reconcile'' of
            None \<Rightarrow> None
          | Some r \<Rightarrow> (case js_obj_get r ''operation_id'' of Some (JStr s) \<Rightarrow> Some s | _ \<Rightarrow> None)))"

record reconcile_args =
  rc_tenant_id :: string
  rc_from_record_id :: string
  rc_to_record_id :: string
  rc_operation_id :: string
  rc_actor_id :: "string option"

text \<open>The order \<open>ORDER BY scope\<close> gives the scope names.\<close>

definition SCOPES_BY_NAME :: "consent_scope list" where
  "SCOPES_BY_NAME =
     [Ai_Processing, Contacting, Cross_Tenant_Visibility, Matching, Profile_Storage, Recording,
      Resume_Processing, Transcription]"

text \<open>
  \<open>SELECT DISTINCT ON (scope) ... ORDER BY scope, occurred_at DESC, created_at DESC\<close>: the
  latest event of each scope that has one.
\<close>

definition effective_event :: "consent_db \<Rightarrow> string \<Rightarrow> string \<Rightarrow> consent_scope \<Rightarrow> consent_event option" where
  "effective_event db tenant talent s =
     first_max (\<lambda>e. (ev_occurred_at e, ev_created_at e))
       (filter (\<lambda>e. ev_talent_record_id e = talent \<and> ev_tenant_id e = tenant \<and> ev_scope e = s)
          (db_ledger db))"

definition effective_events :: "consent_db \<Rightarrow> string \<Rightarrow> string \<Rightarrow> consent_event list" where
  "effective_events db tenant talent = List.map_filter (effective_event db tenant talent) SCOPES_BY_NAME"

definition reconcile_metadata :: "reconcile_args \<Rightarrow> json" where
  "reconcile_metadata a =
     JObj [(''reconcile'', JObj [(''from_record_id'', JStr (rc_from_record_id a)),
                                (''to_record_id'', JStr (rc_to_record_id a)),
                                (''operation_id'', JStr (rc_operation_id a))])]"

definition already_reconciled :: "consent_db \<Rightarrow> reconcile_args \<Rightarrow> consent_scope \<Rightarrow> bool" where
  "already_reconciled db a s =
     (\<exists>e\<in>set (db_ledger db). ev_talent_record_id e = rc_to_record_id a \<and>
        ev_tenant_id e = rc_tenant_id a \<and> ev_scope e = s \<and>
        reconcile_operation e = Some (rc_operation_id a))"

definition reconcile_grant ::
  "consent_env \<Rightarrow> reconcile_args \<Rightarrow> nat \<Rightarrow> consent_event \<Rightarrow> consent_event" where
  "reconcile_grant env a n e =
     \<lparr> ev_id = env_uuid env n, ev_tenant_id = rc_tenant_id a,
       ev_talent_record_id = rc_to_record_id a, ev_scope = ev_scope e, ev_action = Granted,
       ev_captured_by_actor_id = rc_actor_id a, ev_captured_method = Import,
       ev_consent_version = ev_consent_version e, ev_consent_text_snapshot = None,
       ev_consent_document_id = None, ev_occurred_at = env_now env, ev_expires_at = None,
       ev_metadata = Some (reconcile_metadata a), ev_created_at = env_row_now env n \<rparr>"

text \<open>The loop: \<open>n\<close> counts the ids drawn so far.\<close>

fun repoint_loop ::
  "consent_env \<Rightarrow> reconcile_args \<Rightarrow> nat \<Rightarrow> consent_db \<Rightarrow> consent_event list \<Rightarrow> consent_db \<times> string list" where
  "repoint_loop env a n db [] = (db, [])"
| "repoint_loop env a n db (e # es) =
     (if ev_action e \<noteq> Granted then repoint_loop env a n db es
      else if already_reconciled db a (ev_scope e) then repoint_loop env a n db es
      else let row = reconcile_grant env a n e;
               r = repoint_loop env a (Suc n) (db \<lparr> db_ledger := db_ledger db @ [row] \<rparr>) es
           in (fst r, env_uuid env n # snd r))"

definition repointTalentRecordRefs ::
  "consent_env \<Rightarrow> consent_db \<Rightarrow> reconcile_args \<Rightarrow> consent_db \<times> string list" where
  "repointTalentRecordRefs env db a =
     repoint_loop env a 0 db (effective_events db (rc_tenant_id a) (rc_from_record_id a))"

text \<open>\<open>event_payload ->> 'operation_id'\<close>\<close>

fun payload_operation :: "audit_payload \<Rightarrow> string option" where
  "payload_operation (Reconcile_Payload from_id to_id op) = Some op"
| "payload_operation (Foreign_Payload v) =
     (case js_obj_get v ''operation_id'' of Some (JStr s) \<Rightarrow> Some s | _ \<Rightarrow> None)"
| "payload_operation _ = None"

definition appendRecordReconcileAuditEvent ::
  "consent_env \<Rightarrow> consent_db \<Rightarrow> reconcile_args \<Rightarrow> string option \<Rightarrow> consent_db" where
  "appendRecordReconcileAuditEvent env db a event_type =
     (let eventType = (case event_type of None \<Rightarrow> ''consent.record_reconcile'' | Some t \<Rightarrow> t)
      in if \<exists>r\<in>set (db_audit db). au_tenant_id r = rc_tenant_id a \<and> au_event_type r = eventType \<and>
              payload_operation (au_event_payload r) = Some (rc_operation_id a)
         then db
         else db \<lparr> db_audit := db_audit db @
           [\<lparr> au_id = env_uuid env 0, au_tenant_id = rc_tenant_id a, au_actor_id = rc_actor_id a,
              au_actor_type = Actor_System, au_event_type = eventType,
              au_subject_id = rc_to_record_id a,
              au_event_payload =
                Reconcile_Payload (rc_from_record_id a) (rc_to_record_id a) (rc_operation_id a),
              au_created_at = env_row_now env 0 \<rparr>] \<rparr>)"

definition is_reconcile_row :: "string \<Rightarrow> string \<Rightarrow> string \<Rightarrow> consent_event \<Rightarrow> bool" where
  "is_reconcile_row tenant to_record operation e =
     (ev_tenant_id e = tenant \<and> ev_talent_record_id e = to_record \<and>
      reconcile_operation e = Some operation)"

definition deleteReconcileGrants ::
  "consent_db \<Rightarrow> string \<Rightarrow> string \<Rightarrow> string \<Rightarrow> consent_db \<times> nat" where
  "deleteReconcileGrants db tenant to_record operation =
     (db \<lparr> db_ledger := filter (\<lambda>e. \<not> is_reconcile_row tenant to_record operation e) (db_ledger db) \<rparr>,
      length (filter (is_reconcile_row tenant to_record operation) (db_ledger db)))"

end
