(* ===== verification/Consent_Resolver.thy ===== *)
theory Consent_Resolver
  imports Consent_Ledger
begin

text \<open>
  The read side of \<^verbatim>\<open>libs/consent/src/lib/consent.repository.ts\<close>: the most-restrictive
  state of a scope across capture methods, the runtime check \<open>resolveConsentState\<close>, the
  state matrix \<open>resolveAllScopes\<close> and the contact summary of the talent list. The
  JavaScript \<open>Map\<close> is an association list whose update keeps a key's position.
\<close>

section \<open>Latest event per source\<close>

fun lps_step ::
  "(captured_method \<times> consent_event) list \<Rightarrow> consent_event \<Rightarrow> (captured_method \<times> consent_event) list" where
  "lps_step m ev =
     (case map_of m (ev_captured_method ev) of
        None \<Rightarrow> AList.update (ev_captured_method ev) ev m
      | Some prior \<Rightarrow>
          if ev_occurred_at prior < ev_occurred_at ev then AList.update (ev_captured_method ev) ev m
          else m)"

definition latestPerSource :: "consent_event list \<Rightarrow> (captured_method \<times> consent_event) list" where
  "latestPerSource evs = foldl lps_step [] evs"

datatype scope_state = St_Allowed | St_Denied | St_No_Grant

fun state_name :: "scope_state \<Rightarrow> string" where
  "state_name St_Allowed = ''allowed''"
| "state_name St_Denied = ''denied''"
| "state_name St_No_Grant = ''no_grant''"

definition computeMostRestrictiveStateForScope :: "consent_event list \<Rightarrow> consent_scope \<Rightarrow> scope_state" where
  "computeMostRestrictiveStateForScope events scope =
     (let scopeEvents = filter (\<lambda>e. ev_scope e = scope) events
      in if scopeEvents = [] then St_No_Grant
         else let latest = map snd (latestPerSource scopeEvents);
                  anyDenied = list_ex (\<lambda>ev. ev_action ev = Revoked \<or> ev_action ev = Expired) latest;
                  anyGranted = list_ex (\<lambda>ev. ev_action ev = Granted) latest
              in if anyDenied then St_Denied else if anyGranted then St_Allowed else St_No_Grant)"

definition findLatestGrantForScope :: "consent_event list \<Rightarrow> consent_scope \<Rightarrow> consent_event option" where
  "findLatestGrantForScope events scope =
     first_max ev_occurred_at (filter (\<lambda>ev. ev_scope ev = scope \<and> ev_action ev = Granted) events)"

definition isStale :: "int \<Rightarrow> int \<Rightarrow> bool" where
  "isStale occurredAt now = (occurredAt < add_months (- STALENESS_WINDOW_MONTHS) now)"

text \<open>\<open>metadata.permitted_channels\<close> as the strings of an array, None when it is not one.\<close>

definition permitted_channels :: "consent_event \<Rightarrow> string list option" where
  "permitted_channels ev =
     (case ev_metadata ev of
        None \<Rightarrow> None
      | Some meta \<Rightarrow> (case js_obj_get meta ''permitted_channels'' of
            Some (JArr vs) \<Rightarrow> Some (js_dedupe (List.map_filter (\<lambda>v. case v of JStr s \<Rightarrow> Some s | _ \<Rightarrow> None) vs))
          | _ \<Rightarrow> None))"

fun channels_step :: "string list option \<Rightarrow> consent_event \<Rightarrow> string list option" where
  "channels_step acc ev =
     (case permitted_channels ev of
        None \<Rightarrow> acc
      | Some sourceSet \<Rightarrow> (case acc of
            None \<Rightarrow> Some sourceSet
          | Some prev \<Rightarrow> Some (filter (\<lambda>c. c \<in> set sourceSet) prev)))"

definition computePermittedChannelsIntersection ::
  "consent_event list \<Rightarrow> consent_scope \<Rightarrow> string list option" where
  "computePermittedChannelsIntersection events scope =
     (let scopeGrants = filter (\<lambda>e. ev_scope e = scope \<and> ev_action e = Granted) events
      in if scopeGrants = [] then None
         else foldl channels_step None (map snd (latestPerSource scopeGrants)))"

section \<open>The runtime check\<close>

record check_input =
  ci_tenant_id :: string
  ci_talent_record_id :: string
  ci_operation :: check_operation
  ci_channel :: "contact_channel option"
  ci_idempotencyKey :: "string option"
  ci_requestHash :: string

definition decision_audit :: "consent_env \<Rightarrow> check_input \<Rightarrow> consent_decision \<Rightarrow> audit_event" where
  "decision_audit env inp d =
     \<lparr> au_id = env_uuid env 1, au_tenant_id = ci_tenant_id inp, au_actor_id = None,
       au_actor_type = Actor_System, au_event_type = ''consent.check.decision'',
       au_subject_id = ci_talent_record_id inp,
       au_event_payload =
         Decision_Payload (cd_decision_id d) (ci_talent_record_id inp) (ci_tenant_id inp)
           (ci_operation inp) (cd_scope d) (ci_channel inp) (cd_result d)
           (case cd_denied_scopes d of None \<Rightarrow> [] | Some s \<Rightarrow> s) (cd_reason_code d) (cd_computed_at d),
       au_created_at = env_row_now env 1 \<rparr>"

definition persistDecisionAudit ::
  "consent_env \<Rightarrow> consent_db \<Rightarrow> check_input \<Rightarrow> consent_decision \<Rightarrow> consent_db" where
  "persistDecisionAudit env db inp d =
     db \<lparr> db_audit := db_audit db @ [decision_audit env inp d] \<rparr>"

definition completeDecision ::
  "consent_env \<Rightarrow> consent_db \<Rightarrow> check_input \<Rightarrow> consent_decision \<Rightarrow> consent_db" where
  "completeDecision env db inp d =
     (let db1 = persistDecisionAudit env db inp d
      in case ci_idempotencyKey inp of
           None \<Rightarrow> db1
         | Some key \<Rightarrow> add_idempotency db1
             \<lparr> ik_id = env_uuid env 2, ik_tenant_id = ci_tenant_id inp, ik_key = key,
               ik_request_hash = ci_requestHash inp, ik_response_status = 200,
               ik_response_body = Decision_Body d, ik_created_at = env_row_now env 2 \<rparr>)"

definition talent_events :: "consent_db \<Rightarrow> string \<Rightarrow> string \<Rightarrow> consent_event list" where
  "talent_events db tenant talent =
     filter (\<lambda>e. ev_tenant_id e = tenant \<and> ev_talent_record_id e = talent) (db_ledger db)"

text \<open>\<open>xs.join(', ')\<close> on scope names.\<close>

fun join_names :: "consent_scope list \<Rightarrow> string" where
  "join_names [] = ''''"
| "join_names [s] = scope_name s"
| "join_names (s # t # ss) = scope_name s @ '', '' @ join_names (t # ss)"

definition failedDependencies :: "consent_event list \<Rightarrow> consent_scope \<Rightarrow> consent_scope list" where
  "failedDependencies events scope =
     filter (\<lambda>dep. computeMostRestrictiveStateForScope events dep \<noteq> St_Allowed)
       (SCOPE_DEPENDENCY_CHAIN scope)"

definition base_decision :: "consent_env \<Rightarrow> decision_result \<Rightarrow> consent_scope \<Rightarrow> string \<Rightarrow> consent_decision" where
  "base_decision env result scope log_message =
     \<lparr> cd_result = result, cd_scope = Some scope, cd_denied_scopes = None, cd_reason_code = None,
       cd_display_message = None, cd_log_message = Some log_message,
       cd_decision_id = env_uuid env 0, cd_computed_at = env_iso env (env_now env) \<rparr>"

text \<open>
  The decision the resolver reaches on the talent's events, before anything is written. The
  first component tells the 422 path, whose error is thrown after the commit.
\<close>

definition decide ::
  "consent_env \<Rightarrow> check_input \<Rightarrow> consent_event list \<Rightarrow> bool \<times> consent_decision" where
  "decide env inp events =
     (let scope = OPERATION_SCOPE_MAP (ci_operation inp);
          failed = failedDependencies events scope;
          state = computeMostRestrictiveStateForScope events scope
      in if events = [] then
           (False, (base_decision env Error_Result scope
                     (''consent_state_missing for talent '' @ ci_talent_record_id inp))
                   \<lparr> cd_reason_code := Some ''consent_state_unknown'' \<rparr>)
         else if failed \<noteq> [] then
           (True, (base_decision env Denied scope (''scope_dependency_unmet: '' @ join_names failed))
                  \<lparr> cd_denied_scopes := Some failed, cd_reason_code := Some ''scope_dependency_unmet'',
                    cd_display_message :=
                      Some (''Required consent scope(s) not granted: '' @ join_names failed) \<rparr>)
         else if state \<noteq> St_Allowed then
           (False, (base_decision env Denied scope (scope_name scope @ ''_denied: '' @ state_name state))
                   \<lparr> cd_denied_scopes := Some [scope],
                     cd_reason_code :=
                       Some (if state = St_No_Grant then ''consent_not_granted'' else ''consent_revoked'') \<rparr>)
         else if scope = Contacting \<and>
                 (case findLatestGrantForScope events Contacting of
                    None \<Rightarrow> False | Some g \<Rightarrow> isStale (ev_occurred_at g) (env_now env)) then
           (False, (base_decision env Denied Contacting ''contacting_denied: stale_consent'')
                   \<lparr> cd_denied_scopes := Some [Contacting], cd_reason_code := Some ''stale_consent'',
                     cd_display_message := Some ''Consent has expired. Refresh required.'' \<rparr>)
         else if scope = Contacting \<and>
                 (case computePermittedChannelsIntersection events Contacting of
                    None \<Rightarrow> False
                  | Some permitted \<Rightarrow> (case ci_channel inp of
                        None \<Rightarrow> True | Some c \<Rightarrow> channel_name c \<notin> set permitted)) then
           (let channel = (case ci_channel inp of None \<Rightarrow> ''undefined'' | Some c \<Rightarrow> channel_name c)
            in (False, (base_decision env Denied Contacting
                         (''contacting_denied: channel_not_consented ('' @ channel @ '')''))
                       \<lparr> cd_denied_scopes := Some [Contacting],
                         cd_reason_code := Some ''channel_not_consented'',
                         cd_display_message :=
                           Some (''Channel '' @ [CHR 0x27] @ channel @ [CHR 0x27] @
                                 '' is not permitted by current consent.'') \<rparr>))
         else (False, base_decision env Allowed scope (scope_name scope @ ''_allowed'')))"

definition missing_channel :: "check_input \<Rightarrow> bool" where
  "missing_channel inp =
     (OPERATION_SCOPE_MAP (ci_operation inp) = Contacting \<and> ci_channel inp = None)"

text \<open>
  The response is a stored body on a replay (whatever module stored it), the decision
  otherwise. \<open>findMany\<close> orders the events by \<open>occurred_at desc\<close>.
\<close>

definition resolveConsentState ::
  "consent_env \<Rightarrow> consent_db \<Rightarrow> check_input \<Rightarrow> consent_db \<times> (consent_error, response_body) result" where
  "resolveConsentState env db inp =
     (let scope = OPERATION_SCOPE_MAP (ci_operation inp);
          existing = (case ci_idempotencyKey inp of None \<Rightarrow> None
                      | Some key \<Rightarrow> find_idempotency db (ci_tenant_id inp) key)
      in if missing_channel inp
         then (db, Inl (AramoError ''VALIDATION_ERROR'' 400 (Missing_Channel (ci_operation inp) scope)))
         else case existing of
           Some row \<Rightarrow>
             if ik_request_hash row \<noteq> ci_requestHash inp then (db, Inl IDEMPOTENCY_KEY_CONFLICT)
             else (db, Inr (ik_response_body row))
         | None \<Rightarrow>
             let events = sort_key (\<lambda>e. - ev_occurred_at e)
                   (talent_events db (ci_tenant_id inp) (ci_talent_record_id inp))
             in (case decide env inp events of
                   (True, d) \<Rightarrow>
                     (persistDecisionAudit env db inp d,
                      Inl (AramoError ''INVALID_SCOPE_COMBINATION'' 422 (Embedded_Decision d)))
                 | (False, d) \<Rightarrow> (completeDecision env db inp d, Inr (Decision_Body d))))"

section \<open>The state matrix\<close>

datatype scope_status = Sts_Granted | Sts_Revoked | Sts_Expired | Sts_No_Grant

record scope_state_dto =
  ss_scope :: consent_scope
  ss_status :: scope_status
  ss_granted_at :: "string option"
  ss_revoked_at :: "string option"
  ss_expires_at :: "string option"

definition findLatestForAction :: "consent_event list \<Rightarrow> consent_action \<Rightarrow> consent_event option" where
  "findLatestForAction events action = first_max ev_occurred_at (filter (\<lambda>ev. ev_action ev = action) events)"

definition source_status :: "consent_event list \<Rightarrow> scope_status" where
  "source_status scopeEvents =
     (let latest = map snd (latestPerSource scopeEvents)
      in if list_ex (\<lambda>ev. ev_action ev = Revoked) latest then Sts_Revoked
         else if list_ex (\<lambda>ev. ev_action ev = Expired) latest then Sts_Expired
         else if list_ex (\<lambda>ev. ev_action ev = Granted) latest then Sts_Granted
         else Sts_No_Grant)"

definition deriveScopeStateForReadEndpoint ::
  "consent_env \<Rightarrow> consent_event list \<Rightarrow> consent_scope \<Rightarrow> scope_state_dto" where
  "deriveScopeStateForReadEndpoint env events scope =
     (let scopeEvents = filter (\<lambda>e. ev_scope e = scope) events
      in if scopeEvents = []
         then \<lparr> ss_scope = scope, ss_status = Sts_No_Grant, ss_granted_at = None,
                ss_revoked_at = None, ss_expires_at = None \<rparr>
         else let status = source_status scopeEvents;
                  latestGrant = findLatestForAction scopeEvents Granted;
                  latestRevoke = findLatestForAction scopeEvents Revoked;
                  expiry = Option.bind latestGrant ev_expires_at;
                  over = (case expiry of None \<Rightarrow> False | Some t \<Rightarrow> t \<le> env_now env)
              in \<lparr> ss_scope = scope,
                   ss_status = (if status = Sts_Granted \<and> over then Sts_Expired else status),
                   ss_granted_at = map_option (\<lambda>g. env_iso env (ev_occurred_at g)) latestGrant,
                   ss_revoked_at = map_option (\<lambda>g. env_iso env (ev_occurred_at g)) latestRevoke,
                   ss_expires_at = map_option (env_iso env) expiry \<rparr>)"

definition hasErasureMarker :: "consent_db \<Rightarrow> string \<Rightarrow> string \<Rightarrow> bool" where
  "hasErasureMarker db tenant talent =
     (0 < length (filter (\<lambda>r. au_tenant_id r = tenant \<and> au_subject_id r = talent \<and>
                              au_event_type r = ''consent.erased'') (db_audit db)))"

record consent_state_response =
  cs_talent_record_id :: string
  cs_tenant_id :: string
  cs_is_anonymized :: bool
  cs_computed_at :: string
  cs_scopes :: "scope_state_dto list"

definition resolveAllScopes :: "consent_env \<Rightarrow> consent_db \<Rightarrow> string \<Rightarrow> string \<Rightarrow> consent_state_response" where
  "resolveAllScopes env db tenant talent =
     \<lparr> cs_talent_record_id = talent, cs_tenant_id = tenant,
       cs_is_anonymized = hasErasureMarker db tenant talent,
       cs_computed_at = env_iso env (env_now env),
       cs_scopes = map (deriveScopeStateForReadEndpoint env (talent_events db tenant talent))
                     PROFILE_CONSENT_SCOPES \<rparr>"

section \<open>The contact summary\<close>

datatype consent_summary = Contactable | Expiring_Lt_30d | Do_Not_Contact

definition summarize :: "consent_env \<Rightarrow> consent_event list \<Rightarrow> consent_summary" where
  "summarize env evs =
     (let latest = map snd (latestPerSource evs);
          anyRevoked = list_ex (\<lambda>ev. ev_action ev = Revoked) latest;
          anyExpired = list_ex (\<lambda>ev. ev_action ev = Expired) latest;
          anyGranted = list_ex (\<lambda>ev. ev_action ev = Granted) latest;
          horizon = env_now env + 30 * 24 * 60 * 60 * 1000;
          latestGrantExpiry = Option.bind (findLatestForAction evs Granted) ev_expires_at
      in if anyRevoked \<or> anyExpired \<or> \<not> anyGranted then Do_Not_Contact
         else case latestGrantExpiry of
                None \<Rightarrow> Contactable
              | Some t \<Rightarrow> if t \<le> horizon then Expiring_Lt_30d else Contactable)"

text \<open>The result map, in the order the talents first occur among the rows read.\<close>

definition findContactingConsentSummaryForTalentIds ::
  "consent_env \<Rightarrow> consent_db \<Rightarrow> string \<Rightarrow> string list \<Rightarrow> (string \<times> consent_summary) list" where
  "findContactingConsentSummaryForTalentIds env db tenant ids =
     (if ids = [] then []
      else let events = filter (\<lambda>e. ev_tenant_id e = tenant \<and> ev_talent_record_id e \<in> set ids \<and>
                                    ev_scope e = Contacting) (db_ledger db)
           in map (\<lambda>t. (t, summarize env (filter (\<lambda>e. ev_talent_record_id e = t) events)))
                (js_dedupe (map ev_talent_record_id events)))"

end
