(* ===== verification/Consent_Checks.thy ===== *)
theory Consent_Checks
  imports Consent_Resolver
begin

text \<open>
  What the resolver computes. A scope is read off the latest event of each capture method
  (\<open>source_latest\<close>); the check is characterised completely in those terms, and the state
  matrix and the contact summary are compared with it.
\<close>

section \<open>Latest event per source\<close>

definition source_events :: "consent_event list \<Rightarrow> consent_scope \<Rightarrow> captured_method \<Rightarrow> consent_event list" where
  "source_events evs s m = filter (\<lambda>e. ev_scope e = s \<and> ev_captured_method e = m) evs"

definition source_latest :: "consent_event list \<Rightarrow> consent_scope \<Rightarrow> captured_method \<Rightarrow> consent_event option" where
  "source_latest evs s m = first_max ev_occurred_at (source_events evs s m)"

lemma latestPerSource_snoc: "latestPerSource (xs @ [x]) = lps_step (latestPerSource xs) x"
  by (simp add: latestPerSource_def)

lemma map_of_latestPerSource:
  "map_of (latestPerSource evs) m = first_max ev_occurred_at (filter (\<lambda>e. ev_captured_method e = m) evs)"
proof (induction evs arbitrary: m rule: rev_induct)
  case (snoc x xs)
  let ?prior = "first_max ev_occurred_at (filter (\<lambda>e. ev_captured_method e = ev_captured_method x) xs)"
  show ?case
    by (cases ?prior) (auto simp: latestPerSource_snoc snoc.IH update_conv' first_max_snoc)
qed (simp add: latestPerSource_def)

lemma distinct_latestPerSource: "distinct (map fst (latestPerSource evs))"
  by (induction evs rule: rev_induct)
    (auto simp: latestPerSource_def intro: distinct_update split: option.splits)

lemma in_latestPerSource:
  "e \<in> set (map snd (latestPerSource evs)) \<longleftrightarrow>
     first_max ev_occurred_at (filter (\<lambda>x. ev_captured_method x = ev_captured_method e) evs) = Some e"
  (is "?L \<longleftrightarrow> ?R")
proof
  assume ?L
  then obtain m where m: "(m, e) \<in> set (latestPerSource evs)" by auto
  then have "map_of (latestPerSource evs) m = Some e" using distinct_latestPerSource by simp
  then show ?R using first_max_in unfolding map_of_latestPerSource by fastforce
next
  assume ?R
  then have "map_of (latestPerSource evs) (ev_captured_method e) = Some e"
    by (simp add: map_of_latestPerSource)
  then show ?L by (force dest: map_of_SomeD)
qed

lemma in_latest_of_scope:
  "e \<in> set (map snd (latestPerSource (filter (\<lambda>x. ev_scope x = s) evs))) \<longleftrightarrow>
     (\<exists>m. source_latest evs s m = Some e)"
proof -
  have "source_latest evs s m = Some e \<Longrightarrow> m = ev_captured_method e" for m
    unfolding source_latest_def source_events_def by (drule first_max_in) simp
  then show ?thesis
    unfolding in_latestPerSource source_latest_def source_events_def filter_filter
    by (auto simp: conj_commute)
qed

lemma source_latest_ex: "e \<in> set evs \<Longrightarrow> \<exists>l. source_latest evs (ev_scope e) (ev_captured_method e) = Some l"
  unfolding source_latest_def source_events_def by (rule first_max_ex) (auto simp: filter_empty_conv)

lemma source_latest_in: "source_latest evs s m = Some e \<Longrightarrow> e \<in> set evs \<and> ev_scope e = s \<and> ev_captured_method e = m"
  unfolding source_latest_def source_events_def by (drule first_max_in) auto

section \<open>The state of a scope\<close>

lemma state_eqs:
  "computeMostRestrictiveStateForScope evs s = St_No_Grant \<longleftrightarrow> (\<forall>e\<in>set evs. ev_scope e \<noteq> s)"
  "computeMostRestrictiveStateForScope evs s = St_Denied \<longleftrightarrow>
     (\<exists>m e. source_latest evs s m = Some e \<and> ev_action e \<noteq> Granted)"
proof -
  let ?es = "filter (\<lambda>e. ev_scope e = s) evs"
  have mem: "e \<in> set (map snd (latestPerSource ?es)) \<longleftrightarrow> (\<exists>m. source_latest evs s m = Some e)" for e
    by (rule in_latest_of_scope)
  have none: "?es = [] \<Longrightarrow> source_latest evs s m = None" for m
    by (cases "source_latest evs s m") (auto dest: source_latest_in simp: filter_empty_conv)
  have some: "?es \<noteq> [] \<Longrightarrow> \<exists>m e. source_latest evs s m = Some e"
    using source_latest_ex by (fastforce simp: filter_empty_conv)
  have act: "ev_action e = Revoked \<or> ev_action e = Expired \<longleftrightarrow> ev_action e \<noteq> Granted" for e
    by (cases "ev_action e") auto
  show "computeMostRestrictiveStateForScope evs s = St_Denied \<longleftrightarrow>
     (\<exists>m e. source_latest evs s m = Some e \<and> ev_action e \<noteq> Granted)"
    unfolding computeMostRestrictiveStateForScope_def Let_def list_ex_iff act Bex_def mem
    using none by (auto split: if_splits)
  show "computeMostRestrictiveStateForScope evs s = St_No_Grant \<longleftrightarrow> (\<forall>e\<in>set evs. ev_scope e \<noteq> s)"
    unfolding computeMostRestrictiveStateForScope_def Let_def list_ex_iff act Bex_def mem
    using some by (auto simp: filter_empty_conv split: if_splits)
qed

lemma state_allowed:
  "computeMostRestrictiveStateForScope evs s = St_Allowed \<longleftrightarrow>
     (\<exists>e\<in>set evs. ev_scope e = s) \<and>
     (\<forall>m e. source_latest evs s m = Some e \<longrightarrow> ev_action e = Granted)"
  using state_eqs [of evs s] by (cases "computeMostRestrictiveStateForScope evs s") auto

section \<open>Order of the rows read\<close>

abbreviation newest_first :: "consent_event list \<Rightarrow> consent_event list" where
  "newest_first evs \<equiv> sort_key (\<lambda>e. - ev_occurred_at e) evs"

lemma source_latest_newest_first [simp]: "source_latest (newest_first evs) s m = source_latest evs s m"
  unfolding source_latest_def source_events_def filter_sort by (rule first_max_sort_desc)

lemma findLatestGrantForScope_newest_first [simp]:
  "findLatestGrantForScope (newest_first evs) s = findLatestGrantForScope evs s"
  unfolding findLatestGrantForScope_def filter_sort by (rule first_max_sort_desc)

lemma state_newest_first [simp]:
  "computeMostRestrictiveStateForScope (newest_first evs) s = computeMostRestrictiveStateForScope evs s"
  using state_eqs [of "newest_first evs" s] state_eqs [of evs s]
  by (cases "computeMostRestrictiveStateForScope evs s";
      cases "computeMostRestrictiveStateForScope (newest_first evs) s") auto

section \<open>Permitted channels\<close>

definition may_use :: "string list option \<Rightarrow> string \<Rightarrow> bool" where
  "may_use permitted c = (case permitted of None \<Rightarrow> True | Some p \<Rightarrow> c \<in> set p)"

lemma may_use_simps [simp]: "may_use None c" "may_use (Some p) c \<longleftrightarrow> c \<in> set p"
  by (simp_all add: may_use_def)

lemma may_use_step: "may_use (channels_step acc e) c \<longleftrightarrow> may_use acc c \<and> may_use (permitted_channels e) c"
  by (cases "permitted_channels e"; cases acc) auto

declare channels_step.simps [simp del]

lemma may_use_foldl:
  "may_use (foldl channels_step acc es) c \<longleftrightarrow> may_use acc c \<and> (\<forall>e\<in>set es. may_use (permitted_channels e) c)"
  by (induction es arbitrary: acc) (auto simp: may_use_step)

text \<open>
  A channel is permitted when every source whose latest grant names channels names this one.
\<close>

definition grant_latest :: "consent_event list \<Rightarrow> consent_scope \<Rightarrow> captured_method \<Rightarrow> consent_event option" where
  "grant_latest evs s m =
     first_max ev_occurred_at (filter (\<lambda>e. ev_scope e = s \<and> ev_action e = Granted \<and> ev_captured_method e = m) evs)"

lemma in_latest_grants:
  "e \<in> set (map snd (latestPerSource (filter (\<lambda>x. ev_scope x = s \<and> ev_action x = Granted) evs))) \<longleftrightarrow>
     (\<exists>m. grant_latest evs s m = Some e)"
proof -
  have "grant_latest evs s m = Some e \<Longrightarrow> m = ev_captured_method e" for m
    unfolding grant_latest_def by (drule first_max_in) simp
  then show ?thesis
    unfolding in_latestPerSource grant_latest_def filter_filter by (auto simp: conj_ac)
qed

definition channel_ok :: "consent_event list \<Rightarrow> string \<Rightarrow> bool" where
  "channel_ok evs c \<longleftrightarrow>
     (\<forall>m g. grant_latest evs Contacting m = Some g \<longrightarrow> may_use (permitted_channels g) c)"

lemma permitted_intersection:
  "may_use (computePermittedChannelsIntersection evs Contacting) c \<longleftrightarrow> channel_ok evs c"
proof -
  let ?gs = "filter (\<lambda>x. ev_scope x = Contacting \<and> ev_action x = Granted) evs"
  have "computePermittedChannelsIntersection evs Contacting =
      foldl channels_step None (map snd (latestPerSource ?gs))"
    by (simp add: computePermittedChannelsIntersection_def Let_def latestPerSource_def)
  then show ?thesis
    unfolding channel_ok_def by (simp only: may_use_foldl may_use_simps Ball_def in_latest_grants) blast
qed

lemma channel_ok_newest_first [simp]: "channel_ok (newest_first evs) c = channel_ok evs c"
  unfolding channel_ok_def grant_latest_def filter_sort by (simp only: first_max_sort_desc)

section \<open>The check\<close>

text \<open>Every source that has spoken about the scope currently grants it, and one has.\<close>

definition sources_agree :: "consent_event list \<Rightarrow> consent_scope \<Rightarrow> bool" where
  "sources_agree evs s \<longleftrightarrow>
     (\<exists>e\<in>set evs. ev_scope e = s) \<and>
     (\<forall>m e. source_latest evs s m = Some e \<longrightarrow> ev_action e = Granted)"

lemma sources_agreeD: "sources_agree evs s \<Longrightarrow> source_latest evs s m = Some e \<Longrightarrow> ev_action e = Granted"
  by (simp add: sources_agree_def)

lemma state_allowed_iff: "computeMostRestrictiveStateForScope evs s = St_Allowed \<longleftrightarrow> sources_agree evs s"
  unfolding sources_agree_def by (rule state_allowed)

definition grant_fresh :: "consent_event list \<Rightarrow> int \<Rightarrow> bool" where
  "grant_fresh evs now \<longleftrightarrow>
     (\<forall>g. findLatestGrantForScope evs Contacting = Some g \<longrightarrow> \<not> isStale (ev_occurred_at g) now)"

definition check_allows :: "int \<Rightarrow> check_input \<Rightarrow> consent_event list \<Rightarrow> bool" where
  "check_allows now inp evs \<longleftrightarrow>
     (let s = OPERATION_SCOPE_MAP (ci_operation inp) in
        (\<forall>d\<in>set (s # SCOPE_DEPENDENCY_CHAIN s). sources_agree evs d) \<and>
        (s = Contacting \<longrightarrow>
           grant_fresh evs now \<and> (\<forall>c. ci_channel inp = Some c \<longrightarrow> channel_ok evs (channel_name c))))"

lemma base_decision_result [simp]: "cd_result (base_decision env r s l) = r"
  by (simp add: base_decision_def)

lemma failedDependencies_Nil: "failedDependencies evs s = [] \<longleftrightarrow> (\<forall>d\<in>set (SCOPE_DEPENDENCY_CHAIN s). sources_agree evs d)"
  by (simp add: failedDependencies_def filter_empty_conv state_allowed_iff)

lemma stale_case:
  "(case findLatestGrantForScope evs Contacting of None \<Rightarrow> False | Some g \<Rightarrow> isStale (ev_occurred_at g) now)
     \<longleftrightarrow> \<not> grant_fresh evs now"
  by (cases "findLatestGrantForScope evs Contacting") (simp_all add: grant_fresh_def)

lemma channel_case:
  assumes "ci_channel inp = Some c"
  shows "(case computePermittedChannelsIntersection evs Contacting of None \<Rightarrow> False
          | Some permitted \<Rightarrow> (case ci_channel inp of None \<Rightarrow> True | Some c \<Rightarrow> channel_name c \<notin> set permitted))
     \<longleftrightarrow> \<not> channel_ok evs (channel_name c)"
  unfolding permitted_intersection [symmetric]
  by (cases "computePermittedChannelsIntersection evs Contacting") (simp_all add: assms)

lemma decide_allowed:
  assumes "\<not> missing_channel inp"
  shows "cd_result (snd (decide env inp evs)) = Allowed \<longleftrightarrow> check_allows (env_now env) inp evs"
    and "cd_result (snd (decide env inp evs)) = Allowed \<Longrightarrow> \<not> fst (decide env inp evs)"
proof -
  let ?s = "OPERATION_SCOPE_MAP (ci_operation inp)"
  have nil: "\<not> sources_agree [] ?s" by (simp add: sources_agree_def)
  show "cd_result (snd (decide env inp evs)) = Allowed \<longleftrightarrow> check_allows (env_now env) inp evs"
  proof (cases "?s = Contacting")
    case True
    then obtain c where c: "ci_channel inp = Some c" using assms by (auto simp: missing_channel_def)
    show ?thesis
      unfolding decide_def check_allows_def Let_def stale_case channel_case [OF c] failedDependencies_Nil
        state_allowed_iff True
      using nil c by (cases "evs = []") (auto simp: True)
  next
    case False
    then show ?thesis
      unfolding decide_def check_allows_def Let_def failedDependencies_Nil state_allowed_iff
      using nil by (cases "evs = []") auto
  qed
  show "cd_result (snd (decide env inp evs)) = Allowed \<Longrightarrow> \<not> fst (decide env inp evs)"
    by (auto simp: decide_def Let_def split: if_splits)
qed

lemma check_allows_newest_first [simp]: "check_allows now inp (newest_first evs) = check_allows now inp evs"
  by (simp add: check_allows_def sources_agree_def grant_fresh_def)

text \<open>A check that gets to the resolver: the channel is there and no stored answer is used.\<close>

definition check_runs :: "consent_db \<Rightarrow> check_input \<Rightarrow> bool" where
  "check_runs db inp \<longleftrightarrow> \<not> missing_channel inp \<and>
     (\<forall>k. ci_idempotencyKey inp = Some k \<longrightarrow> find_idempotency db (ci_tenant_id inp) k = None)"

abbreviation check_events :: "consent_db \<Rightarrow> check_input \<Rightarrow> consent_event list" where
  "check_events db inp \<equiv> talent_events db (ci_tenant_id inp) (ci_talent_record_id inp)"

lemma resolve_runs:
  assumes "check_runs db inp"
  shows "resolveConsentState env db inp =
    (case decide env inp (newest_first (check_events db inp)) of
       (True, d) \<Rightarrow> (persistDecisionAudit env db inp d,
                     Inl (AramoError ''INVALID_SCOPE_COMBINATION'' 422 (Embedded_Decision d)))
     | (False, d) \<Rightarrow> (completeDecision env db inp d, Inr (Decision_Body d)))"
  using assms unfolding resolveConsentState_def check_runs_def Let_def
  by (cases "ci_idempotencyKey inp") auto

definition allows :: "(consent_error, response_body) result \<Rightarrow> bool" where
  "allows r = (case r of Inr (Decision_Body d) \<Rightarrow> cd_result d = Allowed | _ \<Rightarrow> False)"

lemma allows_iff:
  assumes "check_runs db inp"
  shows "allows (snd (resolveConsentState env db inp)) \<longleftrightarrow>
           check_allows (env_now env) inp (check_events db inp)"
proof -
  let ?r = "decide env inp (newest_first (check_events db inp))"
  have "\<not> missing_channel inp" using assms by (simp add: check_runs_def)
  then have iff: "cd_result (snd ?r) = Allowed \<longleftrightarrow> check_allows (env_now env) inp (check_events db inp)"
    and f: "cd_result (snd ?r) = Allowed \<Longrightarrow> \<not> fst ?r"
    using decide_allowed [of inp env "newest_first (check_events db inp)"] by simp_all
  show ?thesis
    using f unfolding resolve_runs [OF assms] iff [symmetric] allows_def
    by (auto split: prod.splits bool.splits)
qed

section \<open>Writing an event\<close>

lemma find_idempotency_append:
  "find_idempotency (db\<lparr>db_idempotency := db_idempotency db @ rs\<rparr>) t k =
     (case find_idempotency db t k of None \<Rightarrow> find (\<lambda>r. ik_tenant_id r = t \<and> ik_key r = k) rs | Some r \<Rightarrow> Some r)"
  by (simp add: find_idempotency_def find_append)

text \<open>The one successful path that writes, as an elimination rule.\<close>

lemma recordConsentEvent_cases:
  assumes "recordConsentEvent env db inp = (db', r)"
  obtains (refused) e where "db' = db" "r = Inl e"
  | (replayed) row where "db' = db" "r = Inr (ik_response_body row)"
      "find_idempotency db (ri_tenant_id inp) (ri_idempotencyKey inp) = Some row"
      "ik_request_hash row = ri_requestHash inp" "ri_action inp \<noteq> Expired"
  | (written) t x body where "find_idempotency db (ri_tenant_id inp) (ri_idempotencyKey inp) = None"
      "env_parse_date env (ri_occurred_at inp) = Some t" "parse_expiry env inp = Some x"
      "write_event env db inp t x = (db', body)" "r = Inr body" "ri_action inp \<noteq> Expired"
  using assms unfolding recordConsentEvent_def
  by (cases "ri_action inp") (auto split: option.splits if_splits prod.splits)

lemma new_event_sel [simp]:
  "ev_tenant_id (new_event env inp t x) = ri_tenant_id inp"
  "ev_talent_record_id (new_event env inp t x) = ri_talent_record_id inp"
  "ev_scope (new_event env inp t x) = ri_scope inp"
  "ev_action (new_event env inp t x) = ri_action inp"
  "ev_captured_method (new_event env inp t x) = ri_captured_method inp"
  "ev_occurred_at (new_event env inp t x) = t"
  "ev_expires_at (new_event env inp t x) = x"
  "ev_metadata (new_event env inp t x) = ri_metadata inp"
  by (simp_all add: new_event_def)

lemma write_event_ledger [simp]:
  "db_ledger (fst (write_event env db inp t x)) = db_ledger db @ [new_event env inp t x]"
  by (simp add: write_event_def Let_def)

lemma write_event_ledgerD:
  "write_event env db inp t x = (db', body) \<Longrightarrow> db_ledger db' = db_ledger db @ [new_event env inp t x]"
  using write_event_ledger [of env db inp t x] by simp

lemma talent_events_append:
  "db_ledger db' = db_ledger db @ new \<Longrightarrow> talent_events db' tn ta = talent_events db tn ta @
     filter (\<lambda>e. ev_tenant_id e = tn \<and> ev_talent_record_id e = ta) new"
  by (simp add: talent_events_def)

text \<open>Two events of the same talent, scope and capture method.\<close>

definition same_source :: "consent_event \<Rightarrow> consent_event \<Rightarrow> bool" where
  "same_source a e \<longleftrightarrow> ev_tenant_id e = ev_tenant_id a \<and>
     ev_talent_record_id e = ev_talent_record_id a \<and> ev_scope e = ev_scope a \<and>
     ev_captured_method e = ev_captured_method a"

lemma source_latest_after:
  assumes led: "db_ledger db = old @ a # new"
    and before: "\<forall>e\<in>set old. same_source a e \<longrightarrow> ev_occurred_at e < ev_occurred_at a"
    and l: "source_latest (talent_events db (ev_tenant_id a) (ev_talent_record_id a))
              (ev_scope a) (ev_captured_method a) = Some w"
  shows "w = a \<or> w \<in> set new \<and> same_source a w \<and> ev_occurred_at a < ev_occurred_at w"
proof -
  have "source_events (talent_events db (ev_tenant_id a) (ev_talent_record_id a))
      (ev_scope a) (ev_captured_method a) = filter (same_source a) (db_ledger db)"
    unfolding source_events_def talent_events_def filter_filter
    by (rule filter_cong) (auto simp: same_source_def)
  also have "\<dots> = filter (same_source a) old @ a # filter (same_source a) new"
    by (simp add: led same_source_def)
  finally have ev: "source_events (talent_events db (ev_tenant_id a) (ev_talent_record_id a))
      (ev_scope a) (ev_captured_method a) = filter (same_source a) old @ a # filter (same_source a) new" .
  have "\<forall>e\<in>set (filter (same_source a) old). ev_occurred_at e < ev_occurred_at a"
    using before by simp
  from first_max_over [OF this, of "filter (same_source a) new" w] l
  show ?thesis unfolding source_latest_def ev by auto
qed

text \<open>
  An event that is not a grant and is the newest of its source closes the scope, and every
  scope that depends on it, until the source records a newer grant.
\<close>

lemma denial_persists:
  assumes led: "db_ledger db = old @ a # new"
    and act: "ev_action a \<noteq> Granted"
    and before: "\<forall>e\<in>set old. same_source a e \<longrightarrow> ev_occurred_at e < ev_occurred_at a"
    and no_grant: "\<forall>e\<in>set new. same_source a e \<and> ev_action e = Granted \<longrightarrow> ev_occurred_at e \<le> ev_occurred_at a"
    and who: "ci_tenant_id chk = ev_tenant_id a" "ci_talent_record_id chk = ev_talent_record_id a"
    and scope: "ev_scope a \<in> set (OPERATION_SCOPE_MAP (ci_operation chk)
                  # SCOPE_DEPENDENCY_CHAIN (OPERATION_SCOPE_MAP (ci_operation chk)))"
    and runs: "check_runs db chk"
  shows "\<not> allows (snd (resolveConsentState env db chk))"
proof -
  let ?evs = "check_events db chk"
  have "a \<in> set ?evs" using led who by (simp add: talent_events_def)
  from source_latest_ex [OF this] obtain w where
    w: "source_latest ?evs (ev_scope a) (ev_captured_method a) = Some w" by auto
  then have "ev_action w \<noteq> Granted"
    using source_latest_after [OF led before, of w] no_grant act who by fastforce
  with w have "\<not> sources_agree ?evs (ev_scope a)" by (auto simp: sources_agree_def)
  with scope show ?thesis unfolding allows_iff [OF runs] check_allows_def Let_def by blast
qed

section \<open>Properties of the check\<close>

text \<open>A small database and environment for the examples below.\<close>

definition example_env :: "int \<Rightarrow> consent_env" where
  "example_env t =
     \<lparr> env_uuid = (\<lambda>n. replicate n (CHR ''u'')), env_now = t, env_row_now = (\<lambda>n. t + int n),
       env_iso = (\<lambda>t. ''iso''), env_parse_date = (\<lambda>s. Some (int (length s))) \<rparr>"

definition example_event :: "consent_scope \<Rightarrow> consent_action \<Rightarrow> captured_method \<Rightarrow> int \<Rightarrow> consent_event" where
  "example_event s a m t =
     \<lparr> ev_id = ''e'', ev_tenant_id = ''t'', ev_talent_record_id = ''p'', ev_scope = s, ev_action = a,
       ev_captured_by_actor_id = None, ev_captured_method = m, ev_consent_version = ''v'',
       ev_consent_text_snapshot = None, ev_consent_document_id = None, ev_occurred_at = t,
       ev_expires_at = None, ev_metadata = None, ev_created_at = t \<rparr>"

definition example_db :: "consent_event list \<Rightarrow> consent_db" where
  "example_db evs = \<lparr> db_ledger = evs, db_audit = [], db_outbox = [], db_idempotency = [] \<rparr>"

definition example_check :: "check_operation \<Rightarrow> contact_channel option \<Rightarrow> check_input" where
  "example_check operation c =
     \<lparr> ci_tenant_id = ''t'', ci_talent_record_id = ''p'', ci_operation = operation, ci_channel = c,
       ci_idempotencyKey = None, ci_requestHash = ''h'' \<rparr>"

lemmas example_defs = example_env_def example_event_def example_db_def example_check_def

lemma example_check_runs:
  "check_runs (example_db evs) (example_check operation c) \<longleftrightarrow>
     \<not> (OPERATION_SCOPE_MAP operation = Contacting \<and> c = None)"
  by (simp add: check_runs_def missing_channel_def example_defs)

text \<open>
  C3. A check that runs answers \<open>allowed\<close> exactly when, for the scope of the operation and
  every scope it depends on, some capture method has an event and the latest event of every
  capture method is a grant; and, when the scope is contacting, the latest grant is not stale
  and every source whose latest grant lists channels lists the requested one.
\<close>

theorem check_allows_exactly:
  assumes "check_runs db inp"
  shows "allows (snd (resolveConsentState env db inp)) \<longleftrightarrow>
    (let s = OPERATION_SCOPE_MAP (ci_operation inp); evs = check_events db inp in
       (\<forall>d\<in>set (s # SCOPE_DEPENDENCY_CHAIN s). sources_agree evs d) \<and>
       (s = Contacting \<longrightarrow> grant_fresh evs (env_now env) \<and>
          (\<forall>c. ci_channel inp = Some c \<longrightarrow> channel_ok evs (channel_name c))))"
  unfolding allows_iff [OF assms] check_allows_def Let_def by (rule refl)

theorem check_allows_exactly_witness:
  "let db = example_db [example_event Profile_Storage Granted Import 5,
                        example_event Matching Granted Import 6,
                        example_event Matching Revoked Self_Signup 4];
       inp = example_check Op_Matching None
   in \<not> allows (snd (resolveConsentState (example_env 9) db inp)) \<and>
      \<not> sources_agree (check_events db inp) Matching"
proof -
  let ?db = "example_db [example_event Profile_Storage Granted Import 5,
                        example_event Matching Granted Import 6,
                        example_event Matching Revoked Self_Signup 4]"
  let ?inp = "example_check Op_Matching None"
  have "source_latest (check_events ?db ?inp) Matching Self_Signup =
      Some (example_event Matching Revoked Self_Signup 4)"
    by (simp add: source_latest_def source_events_def talent_events_def example_defs)
  then have no: "\<not> sources_agree (check_events ?db ?inp) Matching"
    using sources_agreeD by (fastforce simp: example_event_def)
  have "check_runs ?db ?inp" by (simp add: example_check_runs)
  from check_allows_exactly [OF this, of "example_env 9"] no show ?thesis
    by (simp add: Let_def example_check_def)
qed

text \<open>
  C15. A revocation holds: once a revoke dated after every earlier event of its source is
  recorded, no check on the scope, or on a scope that depends on it, is allowed, whatever is
  recorded later, until the same source records a later grant of the scope.
\<close>

theorem revocation_denies:
  assumes rec: "recordConsentEvent env db inp = (db', Inr body)"
    and act: "ri_action inp = Revoked"
    and fresh: "find_idempotency db (ri_tenant_id inp) (ri_idempotencyKey inp) = None"
    and date: "env_parse_date env (ri_occurred_at inp) = Some t"
    and before: "\<forall>e\<in>set (db_ledger db). same_source (new_event env inp t None) e \<longrightarrow> ev_occurred_at e < t"
    and later: "db_ledger db'' = db_ledger db' @ new"
    and no_grant: "\<forall>e\<in>set new. same_source (new_event env inp t None) e \<and> ev_action e = Granted \<longrightarrow>
                     ev_occurred_at e \<le> t"
    and who: "ci_tenant_id chk = ri_tenant_id inp" "ci_talent_record_id chk = ri_talent_record_id inp"
    and scope: "ri_scope inp \<in> set (OPERATION_SCOPE_MAP (ci_operation chk)
                  # SCOPE_DEPENDENCY_CHAIN (OPERATION_SCOPE_MAP (ci_operation chk)))"
    and runs: "check_runs db'' chk"
  shows "\<not> allows (snd (resolveConsentState env' db'' chk))"
proof -
  have "parse_expiry env inp = Some None" using act by (simp add: parse_expiry_def)
  with rec fresh date have "db_ledger db' = db_ledger db @ [new_event env inp t None]"
    by (cases rule: recordConsentEvent_cases) (auto dest: write_event_ledgerD)
  then have led: "db_ledger db'' = db_ledger db @ new_event env inp t None # new" using later by simp
  show ?thesis
    by (rule denial_persists [OF led _ _ _ _ _ _ runs]) (use act before no_grant who scope in simp_all)
qed

definition example_input :: "consent_action \<Rightarrow> consent_scope \<Rightarrow> captured_method \<Rightarrow> string \<Rightarrow> record_input" where
  "example_input a s m date =
     \<lparr> ri_tenant_id = ''t'', ri_talent_record_id = ''p'', ri_action = a, ri_scope = s,
       ri_captured_method = m, ri_captured_by_actor_id = None, ri_consent_version = ''v'',
       ri_consent_text_snapshot = None, ri_consent_document_id = None, ri_occurred_at = date,
       ri_expires_at = None, ri_metadata = None, ri_consent_evidence = None,
       ri_idempotencyKey = ''k'', ri_requestHash = ''h'' \<rparr>"

theorem revocation_denies_witness:
  "let db = example_db [example_event Profile_Storage Granted Import 1, example_event Matching Granted Import 2];
       rec = recordConsentEvent (example_env 9) db (example_input Revoked Profile_Storage Import ''later'')
   in (\<exists>body. snd rec = Inr body) \<and>
      \<not> allows (snd (resolveConsentState (example_env 9) (fst rec) (example_check Op_Matching None)))"
proof -
  let ?db = "example_db [example_event Profile_Storage Granted Import 1, example_event Matching Granted Import 2]"
  let ?inp = "example_input Revoked Profile_Storage Import ''later''"
  let ?rec = "recordConsentEvent (example_env 9) ?db ?inp"
  have ok: "\<exists>body. snd ?rec = Inr body"
    by (simp add: recordConsentEvent_def find_idempotency_def parse_expiry_def write_event_def Let_def
        example_input_def example_defs)
  then obtain body where rec: "?rec = (fst ?rec, Inr body)" by (metis prod.collapse)
  have "\<not> allows (snd (resolveConsentState (example_env 9) (fst ?rec) (example_check Op_Matching None)))"
    by (rule revocation_denies [where t = 5 and new = "[]", OF rec])
      (simp_all add: example_input_def find_idempotency_def same_source_def check_runs_def
        missing_channel_def example_defs)
  with ok show ?thesis by (simp add: Let_def)
qed

text \<open>
  C32. A check that runs appends exactly one decision row to the audit stream, with the decision
  it answers, in every outcome: allowed, denied, unknown and the 422 of an unmet dependency. It
  changes neither the ledger nor the outbox, and stores an answer under the key only when it
  returns one.
\<close>

theorem check_is_audited:
  assumes "check_runs db inp"
  shows "\<exists>d. db_audit (fst (resolveConsentState env db inp)) = db_audit db @ [decision_audit env inp d] \<and>
    db_ledger (fst (resolveConsentState env db inp)) = db_ledger db \<and>
    db_outbox (fst (resolveConsentState env db inp)) = db_outbox db \<and>
    (snd (resolveConsentState env db inp) = Inr (Decision_Body d) \<or>
     snd (resolveConsentState env db inp) =
       Inl (AramoError ''INVALID_SCOPE_COMBINATION'' 422 (Embedded_Decision d)) \<and>
     db_idempotency (fst (resolveConsentState env db inp)) = db_idempotency db)"
  unfolding resolve_runs [OF assms]
  by (cases "decide env inp (newest_first (check_events db inp))"; cases "fst (decide env inp (newest_first (check_events db inp)))";
      cases "ci_idempotencyKey inp")
    (auto simp: persistDecisionAudit_def completeDecision_def add_idempotency_def Let_def)

theorem check_is_audited_witness:
  "\<exists>d. db_audit (fst (resolveConsentState (example_env 9) (example_db []) (example_check Op_Matching None)))
     = [decision_audit (example_env 9) (example_check Op_Matching None) d]"
proof -
  have runs: "check_runs (example_db []) (example_check Op_Matching None)" by (simp add: example_check_runs)
  have "db_audit (example_db []) = []" by (simp add: example_db_def)
  with check_is_audited [OF runs, of "example_env 9"] show ?thesis by auto
qed

text \<open>
  The staleness window: a contacting grant at most 365 days old is never stale, one more than
  366 days old always is.
\<close>

theorem staleness_window:
  "(now - 365 * ms_per_day \<le> t \<longrightarrow> \<not> isStale t now) \<and>
   (t < now - 366 * ms_per_day \<longrightarrow> isStale t now)"
  using sub_year [of now] by (auto simp: isStale_def STALENESS_WINDOW_MONTHS_def)

theorem staleness_window_witness:
  "\<not> isStale 1700000000000 (1700000000000 + 365 * ms_per_day) \<and>
   isStale 1700000000000 (1700000000001 + 366 * ms_per_day)"
  using staleness_window [of "1700000000000 + 365 * ms_per_day" 1700000000000]
    staleness_window [of "1700000000001 + 366 * ms_per_day" 1700000000000] by simp

section \<open>The state matrix against the check\<close>

definition latest_has :: "consent_event list \<Rightarrow> consent_scope \<Rightarrow> consent_action \<Rightarrow> bool" where
  "latest_has evs s a \<longleftrightarrow> (\<exists>m e. source_latest evs s m = Some e \<and> ev_action e = a)"

lemma latest_has_some:
  assumes "\<exists>e\<in>set evs. ev_scope e = s"
  shows "latest_has evs s Granted \<or> latest_has evs s Revoked \<or> latest_has evs s Expired"
proof -
  obtain m e where "source_latest evs s m = Some e" using assms source_latest_ex by blast
  then show ?thesis unfolding latest_has_def by (cases "ev_action e") blast+
qed

lemma latest_has_status:
  "source_status (filter (\<lambda>e. ev_scope e = s) evs) =
    (if latest_has evs s Revoked then Sts_Revoked else if latest_has evs s Expired then Sts_Expired
     else if latest_has evs s Granted then Sts_Granted else Sts_No_Grant)"
proof -
  have "list_ex (\<lambda>ev. ev_action ev = a) (map snd (latestPerSource (filter (\<lambda>e. ev_scope e = s) evs)))
      \<longleftrightarrow> latest_has evs s a" for a
    unfolding list_ex_iff Bex_def in_latest_of_scope latest_has_def by blast
  then show ?thesis unfolding source_status_def Let_def by simp
qed

lemma latest_has_denied:
  "computeMostRestrictiveStateForScope evs s = St_Denied \<longleftrightarrow> latest_has evs s Revoked \<or> latest_has evs s Expired"
proof -
  have "ev_action e \<noteq> Granted \<longleftrightarrow> ev_action e = Revoked \<or> ev_action e = Expired" for e
    by (cases "ev_action e") auto
  then show ?thesis unfolding state_eqs latest_has_def by blast
qed

definition term_over :: "consent_event list \<Rightarrow> consent_scope \<Rightarrow> int \<Rightarrow> bool" where
  "term_over evs s now \<longleftrightarrow>
     (\<exists>g t. findLatestGrantForScope evs s = Some g \<and> ev_expires_at g = Some t \<and> t \<le> now)"

text \<open>
  The state matrix and the check read a scope alike up to the explicit term: the matrix shows
  \<open>no_grant\<close> exactly when the check finds none, and \<open>granted\<close> exactly when the check finds the
  scope allowed and the latest grant's \<open>expires_at\<close> is not over.
\<close>

theorem matrix_matches_check:
  "(ss_status (deriveScopeStateForReadEndpoint env evs s) = Sts_No_Grant \<longleftrightarrow>
      computeMostRestrictiveStateForScope evs s = St_No_Grant) \<and>
   (ss_status (deriveScopeStateForReadEndpoint env evs s) = Sts_Granted \<longleftrightarrow>
      computeMostRestrictiveStateForScope evs s = St_Allowed \<and> \<not> term_over evs s (env_now env))"
proof -
  have g: "findLatestForAction (filter (\<lambda>e. ev_scope e = s) evs) Granted = findLatestGrantForScope evs s"
    by (simp add: findLatestForAction_def findLatestGrantForScope_def conj_commute)
  have over: "(case Option.bind (findLatestGrantForScope evs s) ev_expires_at of None \<Rightarrow> False
      | Some t \<Rightarrow> t \<le> env_now env) \<longleftrightarrow> term_over evs s (env_now env)"
    by (auto simp: term_over_def split: option.splits bind_splits)
  have "ss_status (deriveScopeStateForReadEndpoint env evs s) =
      (if \<forall>e\<in>set evs. ev_scope e \<noteq> s then Sts_No_Grant
       else let st = source_status (filter (\<lambda>e. ev_scope e = s) evs)
            in if st = Sts_Granted \<and> term_over evs s (env_now env) then Sts_Expired else st)"
    unfolding deriveScopeStateForReadEndpoint_def Let_def g over by (simp add: filter_empty_conv)
  then show ?thesis
    using state_eqs(1) [of evs s] latest_has_denied [of evs s] latest_has_some [of evs s]
    by (cases "computeMostRestrictiveStateForScope evs s") (auto simp: Let_def latest_has_status split: if_splits)
qed

section \<open>The explicit term\<close>

lemma first_max_filter_map:
  assumes "\<And>e. key (f e) = key e" "\<And>e. P (f e) = P e"
  shows "first_max key (filter P (map f evs)) = map_option f (first_max key (filter P evs))"
proof -
  have "filter P (map f evs) = map f (filter P evs)" using assms(2) by (simp add: filter_map o_def)
  then show ?thesis using assms(1) by (simp add: first_max_map)
qed

lemma check_allows_expires_update:
  "check_allows now inp (map (ev_expires_at_update f) evs) = check_allows now inp evs"
proof -
  let ?u = "ev_expires_at_update f"
  have src: "source_latest (map ?u evs) s m = map_option ?u (source_latest evs s m)" for s m
    unfolding source_latest_def source_events_def by (rule first_max_filter_map) simp_all
  have grant: "grant_latest (map ?u evs) s m = map_option ?u (grant_latest evs s m)" for s m
    unfolding grant_latest_def by (rule first_max_filter_map) simp_all
  have fresh: "findLatestGrantForScope (map ?u evs) s = map_option ?u (findLatestGrantForScope evs s)" for s
    unfolding findLatestGrantForScope_def by (rule first_max_filter_map) simp_all
  have "permitted_channels (?u e) = permitted_channels e" for e by (simp add: permitted_channels_def)
  then show ?thesis
    unfolding check_allows_def sources_agree_def grant_fresh_def channel_ok_def Let_def src grant fresh
      all_map_option
    by simp
qed

text \<open>
  The check never looks at \<open>expires_at\<close>: replacing the terms of all ledger events by any
  others leaves its answer as it was. (The state matrix does look at it.)
\<close>

theorem check_ignores_term:
  assumes "check_runs db inp"
  shows "allows (snd (resolveConsentState env (db\<lparr>db_ledger := map (ev_expires_at_update f) (db_ledger db)\<rparr>) inp))
     = allows (snd (resolveConsentState env db inp))"
proof -
  let ?db = "db\<lparr>db_ledger := map (ev_expires_at_update f) (db_ledger db)\<rparr>"
  have runs: "check_runs ?db inp" using assms by (simp add: check_runs_def find_idempotency_def)
  have "check_events ?db inp = map (ev_expires_at_update f) (check_events db inp)"
    by (simp add: talent_events_def filter_map o_def)
  then show ?thesis
    unfolding allows_iff [OF runs] allows_iff [OF assms] by (simp add: check_allows_expires_update)
qed

theorem check_ignores_term_witness:
  "let evs = [example_event Profile_Storage Granted Import 1];
       over = map (ev_expires_at_update (\<lambda>_. Some 2)) evs;
       env = example_env 9
   in allows (snd (resolveConsentState env (example_db over) (example_check Op_Ingestion None))) \<and>
      ss_status (deriveScopeStateForReadEndpoint env over Profile_Storage) = Sts_Expired"
proof -
  let ?evs = "[example_event Profile_Storage Granted Import 1]"
  have runs: "check_runs (example_db ?evs) (example_check Op_Ingestion None)" by (simp add: example_check_runs)
  have "allows (snd (resolveConsentState (example_env 9) (example_db ?evs) (example_check Op_Ingestion None)))"
    unfolding allows_iff [OF runs]
    by (auto simp: check_allows_def sources_agree_def source_latest_def source_events_def talent_events_def
        example_defs dest: first_max_in split: if_splits)
  with check_ignores_term [OF runs, of "example_env 9" "\<lambda>_. Some 2"] show ?thesis
    by (simp add: Let_def example_defs deriveScopeStateForReadEndpoint_def source_status_def
        latestPerSource_def findLatestForAction_def)
qed

section \<open>The contact summary\<close>

lemma summarize_eq:
  assumes "\<forall>e\<in>set evs. ev_scope e = Contacting" "evs \<noteq> []"
  shows "summarize env evs =
    (if \<not> sources_agree evs Contacting then Do_Not_Contact
     else if \<exists>g t. findLatestGrantForScope evs Contacting = Some g \<and> ev_expires_at g = Some t \<and>
                  t \<le> env_now env + 30 * ms_per_day
          then Expiring_Lt_30d else Contactable)"
proof -
  have f: "filter (\<lambda>e. ev_scope e = Contacting) evs = evs" using assms(1) by (simp add: filter_id_conv)
  have has: "list_ex (\<lambda>ev. ev_action ev = a) (map snd (latestPerSource evs)) \<longleftrightarrow> latest_has evs Contacting a" for a
    using in_latest_of_scope [of _ Contacting evs] unfolding f list_ex_iff Bex_def latest_has_def by blast
  have g: "findLatestForAction evs Granted = findLatestGrantForScope evs Contacting"
    using assms(1) unfolding findLatestForAction_def findLatestGrantForScope_def
    by (metis (mono_tags, lifting) filter_cong)
  have some: "\<exists>e\<in>set evs. ev_scope e = Contacting" using assms by (cases evs) auto
  have agree: "sources_agree evs Contacting \<longleftrightarrow>
      \<not> (latest_has evs Contacting Revoked \<or> latest_has evs Contacting Expired \<or> \<not> latest_has evs Contacting Granted)"
    using some latest_has_some [OF some] latest_has_denied [of evs Contacting] state_eqs(1) [of evs Contacting]
    unfolding state_allowed_iff [symmetric]
    by (cases "computeMostRestrictiveStateForScope evs Contacting") auto
  show ?thesis
    unfolding summarize_def Let_def has g agree
    by (auto simp: ms_per_day_def split: option.splits bind_splits)
qed

text \<open>
  The contact summary of a page of talents has an entry exactly for the listed talents with a
  contacting event, and it is \<open>do_not_contact\<close> exactly when some source's latest contacting event
  is not a grant; otherwise \<open>expiring_lt_30d\<close> when the latest grant's term ends within 30 days
  (or has ended), else \<open>contactable\<close>.
\<close>

theorem contact_summary_exact:
  "map_of (findContactingConsentSummaryForTalentIds env db tenant ids) p =
     (let evs = filter (\<lambda>e. ev_scope e = Contacting) (talent_events db tenant p) in
      if p \<in> set ids \<and> evs \<noteq> []
      then Some (if \<not> sources_agree evs Contacting then Do_Not_Contact
                 else if \<exists>g t. findLatestGrantForScope evs Contacting = Some g \<and>
                         ev_expires_at g = Some t \<and> t \<le> env_now env + 30 * ms_per_day
                      then Expiring_Lt_30d else Contactable)
      else None)"
proof -
  let ?P = "\<lambda>e. ev_tenant_id e = tenant \<and> ev_talent_record_id e \<in> set ids \<and> ev_scope e = Contacting"
  let ?evs = "filter (\<lambda>e. ev_scope e = Contacting) (talent_events db tenant p)"
  have one: "filter (\<lambda>e. ev_talent_record_id e = p) (filter ?P (db_ledger db)) = (if p \<in> set ids then ?evs else [])"
    by (auto simp: talent_events_def intro!: filter_cong) (auto simp: filter_empty_conv)
  have mem: "p \<in> set (map ev_talent_record_id (filter ?P (db_ledger db))) \<longleftrightarrow> p \<in> set ids \<and> ?evs \<noteq> []"
    by (auto simp: talent_events_def filter_empty_conv)
  have map_of: "map_of (map (\<lambda>t. (t, h t)) ts) p = (if p \<in> set ts then Some (h p) else None)" for h ts
    by (induction ts) auto
  show ?thesis
  proof (cases "p \<in> set ids \<and> ?evs \<noteq> []")
    case True
    then have "ids \<noteq> []" by auto
    with True show ?thesis
      unfolding findContactingConsentSummaryForTalentIds_def Let_def
      by (simp add: map_of mem [simplified] one summarize_eq del: filter_filter)
  next
    case False
    then show ?thesis
      unfolding findContactingConsentSummaryForTalentIds_def Let_def
      by (auto simp: map_of mem [simplified] simp del: filter_filter)
  qed
qed

end
