(* ===== verification/Consent_Commands.thy ===== *)
theory Consent_Commands
  imports Consent_Checks
begin

text \<open>
  The commands that change the consent database, seen together: the stale-consent job
  (\<^verbatim>\<open>stale-consent.repository.ts\<close>, \<^verbatim>\<open>stale-consent.processor.ts\<close>), idempotent
  recording and checking, the audit stream that only grows, and the record merge with its
  reversal.
\<close>

section \<open>The stale-consent job\<close>

record stale_grant =
  sg_tenant_id :: string
  sg_talent_record_id :: string
  sg_latest_grant_event_id :: string
  sg_latest_grant_occurred_at :: int

definition talent_key :: "consent_event \<Rightarrow> string \<times> string" where
  "talent_key e = (ev_tenant_id e, ev_talent_record_id e)"

text \<open>The \<open>Map\<close> that keeps the first row of each talent, as its values in insertion order.\<close>

fun first_per_talent :: "(string \<times> string) list \<Rightarrow> consent_event list \<Rightarrow> consent_event list" where
  "first_per_talent seen [] = []"
| "first_per_talent seen (e # es) =
     (if talent_key e \<in> set seen then first_per_talent seen es
      else e # first_per_talent (talent_key e # seen) es)"

definition findStaleContactingGrants :: "consent_db \<Rightarrow> int \<Rightarrow> stale_grant list" where
  "findStaleContactingGrants db cutoff =
     (let events = sort_key (\<lambda>e. (talent_key e, - ev_occurred_at e))
            (filter (\<lambda>e. ev_scope e = Contacting) (db_ledger db))
      in map (\<lambda>ev. \<lparr> sg_tenant_id = ev_tenant_id ev, sg_talent_record_id = ev_talent_record_id ev,
                     sg_latest_grant_event_id = ev_id ev,
                     sg_latest_grant_occurred_at = ev_occurred_at ev \<rparr>)
           (filter (\<lambda>ev. \<not> (ev_action ev \<noteq> Granted) \<and> \<not> cutoff \<le> ev_occurred_at ev)
              (first_per_talent [] events)))"

definition expired_event :: "consent_env \<Rightarrow> nat \<Rightarrow> string \<Rightarrow> string \<Rightarrow> int \<Rightarrow> string \<Rightarrow> consent_event" where
  "expired_event env n tenant talent occurred_at reason =
     \<lparr> ev_id = env_uuid env n, ev_tenant_id = tenant, ev_talent_record_id = talent,
       ev_scope = Contacting, ev_action = Expired, ev_captured_by_actor_id = None,
       ev_captured_method = Self_Signup, ev_consent_version = ''1'',
       ev_consent_text_snapshot = None, ev_consent_document_id = None,
       ev_occurred_at = occurred_at, ev_expires_at = None,
       ev_metadata = Some (JObj [(''reason'', JStr reason)]), ev_created_at = env_row_now env n \<rparr>"

text \<open>\<open>n\<close> is the number of ids the job has drawn before.\<close>

definition markExpired ::
  "consent_env \<Rightarrow> nat \<Rightarrow> consent_db \<Rightarrow> string \<Rightarrow> string \<Rightarrow> int \<Rightarrow> string \<Rightarrow> consent_db" where
  "markExpired env n db tenant talent occurred_at reason =
     db \<lparr> db_ledger := db_ledger db @ [expired_event env n tenant talent occurred_at reason],
          db_audit := db_audit db @
            [\<lparr> au_id = env_uuid env (n + 1), au_tenant_id = tenant, au_actor_id = None,
               au_actor_type = Actor_System, au_event_type = ''consent.expired.recorded'',
               au_subject_id = talent,
               au_event_payload = Expired_Payload (env_uuid env n) Contacting reason,
               au_created_at = env_row_now env (n + 1) \<rparr>],
          db_outbox := db_outbox db @
            [\<lparr> ob_id = env_uuid env (n + 2), ob_tenant_id = tenant,
               ob_event_type = ''consent.expired'',
               ob_event_payload = Expired_Out (env_uuid env n) talent Contacting reason,
               ob_created_at = env_row_now env (n + 2), ob_published_at = None \<rparr>] \<rparr>"

fun mark_all :: "consent_env \<Rightarrow> nat \<Rightarrow> consent_db \<Rightarrow> stale_grant list \<Rightarrow> consent_db" where
  "mark_all env n db [] = db"
| "mark_all env n db (g # gs) =
     mark_all env (n + 3)
       (markExpired env n db (sg_tenant_id g) (sg_talent_record_id g) (env_now env)
          ''stale_consent_12mo_window'') gs"

definition STALE_CONSENT_WINDOW_MONTHS :: int where
  "STALE_CONSENT_WINDOW_MONTHS = 12"

definition stale_cutoff :: "consent_env \<Rightarrow> int option \<Rightarrow> int" where
  "stale_cutoff env override_window_months =
     add_months (- (case override_window_months of None \<Rightarrow> STALE_CONSENT_WINDOW_MONTHS | Some w \<Rightarrow> w)) (env_now env)"

definition process_stale :: "consent_env \<Rightarrow> consent_db \<Rightarrow> int option \<Rightarrow> consent_db" where
  "process_stale env db override_window_months =
     mark_all env 0 db (findStaleContactingGrants db (stale_cutoff env override_window_months))"

section \<open>Reading the scan\<close>

lemma sort_key_cong_order:
  assumes "\<And>x y. x \<in> set xs \<Longrightarrow> y \<in> set xs \<Longrightarrow> f x \<le> f y \<longleftrightarrow> g x \<le> g y"
  shows "sort_key f xs = sort_key g xs"
  using assms
proof (induction xs)
  case (Cons x xs)
  have "insort_key f x ys = insort_key g x ys" if "set ys \<subseteq> set (x # xs)" for ys
    using that Cons.prems by (induction ys) auto
  moreover have "sort_key f xs = sort_key g xs" using Cons by simp
  moreover have "set (sort_key g xs) \<subseteq> set (x # xs)" by auto
  ultimately show ?case by simp
qed simp

lemma hd_descending: "sorted_wrt (\<lambda>a b. key b \<le> key a) (x # xs) \<Longrightarrow> first_max key (x # xs) = Some x"
  for key :: "'a \<Rightarrow> int"
  by (rule first_max_unique [of _ "[]" _ xs]) auto

lemma first_max_hd_sort:
  fixes key :: "'a \<Rightarrow> int"
  assumes "sort_key (\<lambda>x. - key x) xs = y # ys"
  shows "first_max key xs = Some y"
proof -
  have "sorted (map (\<lambda>x. - key x) (sort_key (\<lambda>x. - key x) xs))" by (rule sorted_sort_key)
  then have "sorted_wrt (\<lambda>a b. key b \<le> key a) (y # ys)"
    unfolding assms by (simp add: sorted_map)
  from hd_descending [OF this] show ?thesis by (metis assms first_max_sort_desc)
qed

lemma first_per_talent_mem:
  "e \<in> set (first_per_talent seen es) \<longleftrightarrow>
     talent_key e \<notin> set seen \<and> (\<exists>rest. filter (\<lambda>x. talent_key x = talent_key e) es = e # rest)"
proof (induction seen es rule: first_per_talent.induct)
  case (2 seen x es)
  show ?case
  proof (cases "talent_key x \<in> set seen")
    case True
    then show ?thesis using "2.IH"(1) by (cases "talent_key x = talent_key e") simp_all
  next
    case False
    then show ?thesis using "2.IH"(2) by (cases "talent_key x = talent_key e") auto
  qed
qed simp

lemma first_per_talent_distinct: "distinct (map talent_key (first_per_talent seen es))"
proof (induction seen es rule: first_per_talent.induct)
  case (2 seen x es)
  then show ?case by (auto simp: first_per_talent_mem)
qed simp

definition contacting_latest :: "consent_db \<Rightarrow> string \<Rightarrow> string \<Rightarrow> consent_event option" where
  "contacting_latest db tenant talent =
     first_max ev_occurred_at (filter (\<lambda>e. ev_scope e = Contacting) (talent_events db tenant talent))"

lemma scan_first:
  "e \<in> set (first_per_talent [] (sort_key (\<lambda>e. (talent_key e, - ev_occurred_at e))
       (filter (\<lambda>e. ev_scope e = Contacting) (db_ledger db))))
   \<longleftrightarrow> contacting_latest db (ev_tenant_id e) (ev_talent_record_id e) = Some e"
proof -
  let ?es = "filter (\<lambda>e. ev_scope e = Contacting) (db_ledger db)"
  let ?mine = "filter (\<lambda>x. talent_key x = talent_key e) ?es"
  have "filter (\<lambda>x. talent_key x = talent_key e) (sort_key (\<lambda>e. (talent_key e, - ev_occurred_at e)) ?es)
      = sort_key (\<lambda>e. (talent_key e, - ev_occurred_at e)) ?mine" by (rule filter_sort)
  also have "\<dots> = sort_key (\<lambda>e. - ev_occurred_at e) ?mine"
    by (rule sort_key_cong_order) auto
  finally have s: "filter (\<lambda>x. talent_key x = talent_key e)
      (sort_key (\<lambda>e. (talent_key e, - ev_occurred_at e)) ?es) = sort_key (\<lambda>e. - ev_occurred_at e) ?mine" .
  have m: "?mine = filter (\<lambda>e. ev_scope e = Contacting) (talent_events db (ev_tenant_id e) (ev_talent_record_id e))"
    unfolding talent_events_def filter_filter by (rule filter_cong) (auto simp: talent_key_def)
  have "(\<exists>rest. sort_key (\<lambda>e. - ev_occurred_at e) ?mine = e # rest) \<longleftrightarrow> first_max ev_occurred_at ?mine = Some e"
  proof (cases "sort_key (\<lambda>e. - ev_occurred_at e) ?mine")
    case Nil
    then have "?mine = []" by (metis length_0_conv length_sort)
    with Nil show ?thesis by simp
  next
    case (Cons y ys)
    then show ?thesis using first_max_hd_sort [OF Cons] by auto
  qed
  then show ?thesis unfolding first_per_talent_mem s contacting_latest_def m by simp
qed

lemma stale_iff:
  "g \<in> set (findStaleContactingGrants db cutoff) \<longleftrightarrow>
     (\<exists>e. contacting_latest db (sg_tenant_id g) (sg_talent_record_id g) = Some e \<and> ev_action e = Granted \<and>
          ev_occurred_at e < cutoff \<and>
          g = \<lparr> sg_tenant_id = ev_tenant_id e, sg_talent_record_id = ev_talent_record_id e,
                sg_latest_grant_event_id = ev_id e, sg_latest_grant_occurred_at = ev_occurred_at e \<rparr>)"
  unfolding findStaleContactingGrants_def Let_def set_map set_filter image_iff
  by (auto simp: scan_first)

lemma contacting_latest_in:
  "contacting_latest db tn ta = Some e \<Longrightarrow>
     e \<in> set (db_ledger db) \<and> ev_tenant_id e = tn \<and> ev_talent_record_id e = ta \<and> ev_scope e = Contacting"
  unfolding contacting_latest_def by (drule first_max_in) (auto simp: talent_events_def)

lemma expired_event_sel [simp]:
  "ev_tenant_id (expired_event env n tn ta t r) = tn" "ev_talent_record_id (expired_event env n tn ta t r) = ta"
  "ev_scope (expired_event env n tn ta t r) = Contacting" "ev_action (expired_event env n tn ta t r) = Expired"
  "ev_captured_method (expired_event env n tn ta t r) = Self_Signup" "ev_occurred_at (expired_event env n tn ta t r) = t"
  by (simp_all add: expired_event_def)

fun expired_events :: "consent_env \<Rightarrow> nat \<Rightarrow> stale_grant list \<Rightarrow> consent_event list" where
  "expired_events env n [] = []"
| "expired_events env n (g # gs) =
     expired_event env n (sg_tenant_id g) (sg_talent_record_id g) (env_now env) ''stale_consent_12mo_window''
     # expired_events env (n + 3) gs"

lemma mark_all_ledger: "db_ledger (mark_all env n db gs) = db_ledger db @ expired_events env n gs"
  by (induction gs arbitrary: n db) (simp_all add: markExpired_def)

lemma mark_all_idempotency [simp]: "db_idempotency (mark_all env n db gs) = db_idempotency db"
  by (induction gs arbitrary: n db) (simp_all add: markExpired_def)

lemma expired_events_mem:
  "e \<in> set (expired_events env n gs) \<Longrightarrow>
     ev_scope e = Contacting \<and> ev_action e = Expired \<and> ev_occurred_at e = env_now env \<and>
     (\<exists>g\<in>set gs. ev_tenant_id e = sg_tenant_id g \<and> ev_talent_record_id e = sg_talent_record_id g)"
  by (induction gs arbitrary: n) auto

lemma expired_events_of:
  "g \<in> set gs \<Longrightarrow> distinct (map (\<lambda>g. (sg_tenant_id g, sg_talent_record_id g)) gs) \<Longrightarrow>
   \<exists>k as bs. expired_events env n gs =
     as @ expired_event env k (sg_tenant_id g) (sg_talent_record_id g) (env_now env) ''stale_consent_12mo_window'' # bs \<and>
     (\<forall>e\<in>set as. talent_key e \<noteq> (sg_tenant_id g, sg_talent_record_id g))"
proof (induction gs arbitrary: n)
  case (Cons h gs)
  show ?case
  proof (cases "g = h")
    case True
    then show ?thesis by (intro exI [of _ n] exI [of _ "[]"] exI [of _ "expired_events env (n + 3) gs"]) simp
  next
    case False
    with Cons.prems have "g \<in> set gs" by simp
    moreover have "distinct (map (\<lambda>g. (sg_tenant_id g, sg_talent_record_id g)) gs)" using Cons.prems by simp
    ultimately obtain k as bs where IH: "expired_events env (n + 3) gs = as @ expired_event env k (sg_tenant_id g)
        (sg_talent_record_id g) (env_now env) ''stale_consent_12mo_window'' # bs"
      "\<forall>e\<in>set as. talent_key e \<noteq> (sg_tenant_id g, sg_talent_record_id g)"
      using Cons.IH [of "n + 3"] by blast
    have "(sg_tenant_id h, sg_talent_record_id h) \<noteq> (sg_tenant_id g, sg_talent_record_id g)"
      using Cons.prems(2) \<open>g \<in> set gs\<close> by (auto simp: image_iff)
    with IH show ?thesis
      by (intro exI [of _ k] exI [of _ "expired_event env n (sg_tenant_id h) (sg_talent_record_id h) (env_now env)
            ''stale_consent_12mo_window'' # as"] exI [of _ bs]) (simp add: talent_key_def)
  qed
qed simp

lemma stale_cutoff_past: "stale_cutoff env None < env_now env"
  using sub_year(2) [of "env_now env"]
  by (simp add: stale_cutoff_def STALE_CONSENT_WINDOW_MONTHS_def ms_per_day_def)

lemma stale_pairs:
  "(\<exists>g\<in>set (findStaleContactingGrants db cutoff). sg_tenant_id g = tn \<and> sg_talent_record_id g = ta) \<longleftrightarrow>
     (\<exists>e. contacting_latest db tn ta = Some e \<and> ev_action e = Granted \<and> ev_occurred_at e < cutoff)" (is "?L \<longleftrightarrow> ?R")
proof
  assume ?R
  then obtain e where e: "contacting_latest db tn ta = Some e" "ev_action e = Granted" "ev_occurred_at e < cutoff"
    by blast
  let ?g = "\<lparr> sg_tenant_id = ev_tenant_id e, sg_talent_record_id = ev_talent_record_id e,
              sg_latest_grant_event_id = ev_id e, sg_latest_grant_occurred_at = ev_occurred_at e \<rparr>"
  have "?g \<in> set (findStaleContactingGrants db cutoff)"
    unfolding stale_iff using e contacting_latest_in [OF e(1)] by auto
  then show ?L using contacting_latest_in [OF e(1)] by force
qed (use stale_iff in blast)

lemma stale_distinct:
  "distinct (map (\<lambda>g. (sg_tenant_id g, sg_talent_record_id g)) (findStaleContactingGrants db cutoff))"
proof -
  let ?es = "first_per_talent [] (sort_key (\<lambda>e. (talent_key e, - ev_occurred_at e))
       (filter (\<lambda>e. ev_scope e = Contacting) (db_ledger db)))"
  have "distinct (map talent_key (filter P ?es))" for P
    by (rule distinct_map_filter) (rule first_per_talent_distinct)
  then show ?thesis by (simp add: findStaleContactingGrants_def Let_def talent_key_def [abs_def] o_def)
qed

lemma process_stale_ledger:
  "db_ledger (process_stale env db w) =
     db_ledger db @ expired_events env 0 (findStaleContactingGrants db (stale_cutoff env w))"
  by (simp add: process_stale_def mark_all_ledger)

section \<open>Properties of the stale-consent job\<close>

text \<open>
  The scan finds exactly the talents whose newest contacting event, over all capture methods,
  is a grant older than the cutoff, each once.
\<close>

theorem stale_scan_exact:
  "((\<exists>g\<in>set (findStaleContactingGrants db cutoff). sg_tenant_id g = tn \<and> sg_talent_record_id g = ta) \<longleftrightarrow>
     (\<exists>e. contacting_latest db tn ta = Some e \<and> ev_action e = Granted \<and> ev_occurred_at e < cutoff)) \<and>
   distinct (map (\<lambda>g. (sg_tenant_id g, sg_talent_record_id g)) (findStaleContactingGrants db cutoff))"
  using stale_pairs stale_distinct by blast

text \<open>
  One run of the job settles the backlog: scanning again with the same cutoff finds nothing.
\<close>

theorem stale_job_idempotent:
  "findStaleContactingGrants (process_stale env db None) (stale_cutoff env None) = []"
proof (rule ccontr)
  let ?c = "stale_cutoff env None" and ?db' = "process_stale env db None"
  let ?gs = "findStaleContactingGrants db ?c"
  let ?mine = "\<lambda>tn ta. filter (\<lambda>e. ev_scope e = Contacting \<and> ev_tenant_id e = tn \<and> ev_talent_record_id e = ta)"
  have latest: "contacting_latest d tn ta = first_max ev_occurred_at (?mine tn ta (db_ledger d))" for d tn ta
    by (simp add: contacting_latest_def talent_events_def conj_ac)
  have led: "db_ledger ?db' = db_ledger db @ expired_events env 0 ?gs"
    by (rule process_stale_ledger)
  assume "findStaleContactingGrants ?db' ?c \<noteq> []"
  then obtain g where "g \<in> set (findStaleContactingGrants ?db' ?c)" using hd_in_set by blast
  then obtain tn ta e where e: "contacting_latest ?db' tn ta = Some e" "ev_action e = Granted" "ev_occurred_at e < ?c"
    unfolding stale_iff by blast
  have none: "?mine tn ta (expired_events env 0 ?gs) = []"
  proof (rule ccontr)
    assume "?mine tn ta (expired_events env 0 ?gs) \<noteq> []"
    then obtain x where "x \<in> set (?mine tn ta (expired_events env 0 ?gs))" using hd_in_set by blast
    then have "x \<in> set (?mine tn ta (db_ledger ?db'))" "ev_occurred_at x = env_now env"
      using led expired_events_mem by auto
    with e show False using first_max_ge [of ev_occurred_at _ e x] stale_cutoff_past [of env] unfolding latest by force
  qed
  then have "contacting_latest db tn ta = Some e" using e(1) unfolding latest led by simp
  then obtain g' where "g' \<in> set ?gs" "sg_tenant_id g' = tn" "sg_talent_record_id g' = ta"
    using e(2,3) stale_pairs [of db ?c tn ta] by blast
  with expired_events_of [OF this(1) stale_distinct, of env 0] none show False
    by (auto simp: filter_empty_conv)
qed

text \<open>
  A talent the job expires stays closed for contacting until a later \<^emph>\<open>self-signup\<close> grant: the
  expiry is filed under that capture method, so grants of every other method, however recent, do
  not reopen the scope.
\<close>

theorem expiry_closes_contacting:
  assumes g: "g \<in> set (findStaleContactingGrants db (stale_cutoff env None))"
    and later: "db_ledger db'' = db_ledger (process_stale env db None) @ new"
    and no_grant: "\<forall>e\<in>set new. ev_captured_method e \<noteq> Self_Signup"
    and who: "ci_tenant_id chk = sg_tenant_id g" "ci_talent_record_id chk = sg_talent_record_id g"
    and op: "OPERATION_SCOPE_MAP (ci_operation chk) = Contacting"
    and runs: "check_runs db'' chk"
  shows "\<not> allows (snd (resolveConsentState env' db'' chk))"
proof -
  let ?gs = "findStaleContactingGrants db (stale_cutoff env None)"
  obtain k as bs where split: "expired_events env 0 ?gs = as @ expired_event env k (sg_tenant_id g)
      (sg_talent_record_id g) (env_now env) ''stale_consent_12mo_window'' # bs" (is "_ = as @ ?x # bs")
    and as: "\<forall>e\<in>set as. talent_key e \<noteq> (sg_tenant_id g, sg_talent_record_id g)"
    using expired_events_of [OF g stale_distinct] by blast
  obtain l where l: "contacting_latest db (sg_tenant_id g) (sg_talent_record_id g) = Some l"
    "ev_occurred_at l < stale_cutoff env None" using g unfolding stale_iff by blast
  have led: "db_ledger db'' = (db_ledger db @ as) @ ?x # (bs @ new)"
    by (simp add: later process_stale_ledger split)
  have "ev_occurred_at e < env_now env" if "e \<in> set (db_ledger db @ as)" "same_source ?x e" for e
  proof -
    have "talent_key e = (sg_tenant_id g, sg_talent_record_id g)" "ev_scope e = Contacting"
      using that(2) by (simp_all add: same_source_def talent_key_def)
    with that(1) as have "e \<in> set (filter (\<lambda>e. ev_scope e = Contacting)
        (talent_events db (sg_tenant_id g) (sg_talent_record_id g)))"
      by (auto simp: talent_events_def talent_key_def)
    from first_max_ge [OF l(1) [unfolded contacting_latest_def] this] l(2) stale_cutoff_past [of env]
    show ?thesis by simp
  qed
  moreover have "ev_action e \<noteq> Granted" if "e \<in> set (bs @ new)" "same_source ?x e" for e
    using that no_grant expired_events_mem [of e env 0 ?gs] by (auto simp: split same_source_def)
  ultimately show ?thesis
    by (intro denial_persists [OF led _ _ _ _ _ _ runs]) (auto simp: who op)
qed

theorem expiry_closes_contacting_witness:
  "let env = example_env (400 * ms_per_day);
       db = example_db [example_event Profile_Storage Granted Import 1, example_event Matching Granted Import 1,
                        example_event Contacting Granted Recruiter_Capture 1];
       renewal = example_event Contacting Granted Recruiter_Capture (401 * ms_per_day);
       db'' = example_db (db_ledger (process_stale env db None) @ [renewal])
   in \<not> allows (snd (resolveConsentState (example_env (402 * ms_per_day)) db'' (example_check Op_Selection (Some Email))))"
proof -
  let ?env = "example_env (400 * ms_per_day)"
  let ?db = "example_db [example_event Profile_Storage Granted Import 1, example_event Matching Granted Import 1,
                        example_event Contacting Granted Recruiter_Capture 1]"
  have "1 < stale_cutoff ?env None"
    using sub_year(1) [of "400 * ms_per_day"]
    by (simp add: stale_cutoff_def STALE_CONSENT_WINDOW_MONTHS_def ms_per_day_def example_env_def)
  then have "\<exists>e. contacting_latest ?db ''t'' ''p'' = Some e \<and> ev_action e = Granted \<and> ev_occurred_at e < stale_cutoff ?env None"
    by (simp add: contacting_latest_def talent_events_def example_db_def example_event_def)
  then obtain g where g: "g \<in> set (findStaleContactingGrants ?db (stale_cutoff ?env None))"
    "sg_tenant_id g = ''t''" "sg_talent_record_id g = ''p''"
    unfolding stale_pairs [symmetric] by blast
  show ?thesis unfolding Let_def
    by (rule expiry_closes_contacting [OF g(1), of _ "[example_event Contacting Granted Recruiter_Capture (401 * ms_per_day)]"])
      (simp_all add: g(2,3) example_check_runs, simp_all add: example_defs)
qed

section \<open>Idempotency of the API\<close>

text \<open>The two API operations that share the idempotency table.\<close>

datatype api_call = Record_Call consent_env record_input | Check_Call consent_env check_input

fun api_exec :: "consent_db \<Rightarrow> api_call \<Rightarrow> consent_db \<times> (consent_error, response_body) result" where
  "api_exec db (Record_Call env inp) = recordConsentEvent env db inp"
| "api_exec db (Check_Call env inp) = resolveConsentState env db inp"

fun api_key :: "api_call \<Rightarrow> (string \<times> string) option" where
  "api_key (Record_Call env inp) = Some (ri_tenant_id inp, ri_idempotencyKey inp)"
| "api_key (Check_Call env inp) = map_option (Pair (ci_tenant_id inp)) (ci_idempotencyKey inp)"

fun api_hash :: "api_call \<Rightarrow> string" where
  "api_hash (Record_Call env inp) = ri_requestHash inp"
| "api_hash (Check_Call env inp) = ci_requestHash inp"

text \<open>The call gets past the guards that come before the key is looked up.\<close>

fun api_valid :: "api_call \<Rightarrow> bool" where
  "api_valid (Record_Call env inp) = (ri_action inp = Granted \<or> ri_action inp = Revoked)"
| "api_valid (Check_Call env inp) = (\<not> missing_channel inp)"

definition stored :: "consent_db \<Rightarrow> string \<times> string \<Rightarrow> (string \<times> response_body) option" where
  "stored db k = map_option (\<lambda>r. (ik_request_hash r, ik_response_body r)) (find_idempotency db (fst k) (snd k))"

lemma write_event_idempotency:
  "write_event env db inp t x = (db', body) \<Longrightarrow>
     stored db' k = (case stored db k of Some y \<Rightarrow> Some y
       | None \<Rightarrow> if k = (ri_tenant_id inp, ri_idempotencyKey inp) then Some (ri_requestHash inp, body) else None)"
  by (cases k) (auto simp: write_event_def Let_def stored_def find_idempotency_def find_append split: option.splits)

lemma completeDecision_idempotency:
  "stored (completeDecision env db inp d) k = (case stored db k of Some y \<Rightarrow> Some y
       | None \<Rightarrow> if Some k = map_option (Pair (ci_tenant_id inp)) (ci_idempotencyKey inp)
                 then Some (ci_requestHash inp, Decision_Body d) else None)"
  by (cases k; cases "ci_idempotencyKey inp")
    (auto simp: completeDecision_def persistDecisionAudit_def add_idempotency_def Let_def stored_def
      find_idempotency_def find_append split: option.splits)

lemma persistDecisionAudit_idempotency [simp]: "stored (persistDecisionAudit env db inp d) k = stored db k"
  by (simp add: persistDecisionAudit_def stored_def find_idempotency_def)

text \<open>The three ways a valid check ends.\<close>

lemma resolveConsentState_cases:
  assumes "resolveConsentState env db inp = (db', r)" "\<not> missing_channel inp"
  obtains (replayed) row k where "ci_idempotencyKey inp = Some k"
      "find_idempotency db (ci_tenant_id inp) k = Some row" "db' = db"
      "r = (if ik_request_hash row \<noteq> ci_requestHash inp then Inl IDEMPOTENCY_KEY_CONFLICT
            else Inr (ik_response_body row))"
  | (deferred) d where "check_runs db inp" "db' = persistDecisionAudit env db inp d"
      "r = Inl (AramoError ''INVALID_SCOPE_COMBINATION'' 422 (Embedded_Decision d))"
  | (answered) d where "check_runs db inp" "db' = completeDecision env db inp d" "r = Inr (Decision_Body d)"
proof (cases "check_runs db inp")
  case True
  then show ?thesis
    using assms(1) deferred answered unfolding resolve_runs [OF True]
    by (auto split: prod.splits bool.splits)
next
  case False
  then obtain k row where k: "ci_idempotencyKey inp = Some k" "find_idempotency db (ci_tenant_id inp) k = Some row"
    using assms(2) by (auto simp: check_runs_def)
  have "(db', r) = (db, if ik_request_hash row \<noteq> ci_requestHash inp then Inl IDEMPOTENCY_KEY_CONFLICT
            else Inr (ik_response_body row))"
    unfolding assms(1) [symmetric] resolveConsentState_def Let_def using assms(2) k by simp
  with k show ?thesis by (intro replayed) simp_all
qed

lemma record_keeps:
  assumes "stored db k = Some y"
  shows "stored (fst (recordConsentEvent env db inp)) k = Some y"
proof -
  obtain db' r where r: "recordConsentEvent env db inp = (db', r)" by fastforce
  then have "stored db' k = Some y"
    by (cases rule: recordConsentEvent_cases) (use assms in \<open>auto simp: write_event_idempotency\<close>)
  with r show ?thesis by simp
qed

lemma check_keeps:
  assumes "stored db k = Some y"
  shows "stored (fst (resolveConsentState env db inp)) k = Some y"
proof (cases "missing_channel inp")
  case True
  with assms show ?thesis by (simp add: resolveConsentState_def Let_def)
next
  case False
  obtain db' r where r: "resolveConsentState env db inp = (db', r)" by fastforce
  from r False have "stored db' k = Some y"
    by (cases rule: resolveConsentState_cases) (use assms in \<open>auto simp: completeDecision_idempotency\<close>)
  with r show ?thesis by simp
qed

lemma record_stores:
  assumes "recordConsentEvent env db inp = (db', Inr body)"
  shows "stored db' (ri_tenant_id inp, ri_idempotencyKey inp) = Some (ri_requestHash inp, body)"
  using assms
  by (cases rule: recordConsentEvent_cases) (auto simp: write_event_idempotency, auto simp: stored_def)

lemma check_stores:
  assumes "resolveConsentState env db inp = (db', Inr body)" "\<not> missing_channel inp"
    and key: "ci_idempotencyKey inp = Some k"
  shows "stored db' (ci_tenant_id inp, k) = Some (ci_requestHash inp, body)"
  using assms(1,2)
  by (cases rule: resolveConsentState_cases)
    (use key in \<open>auto simp: completeDecision_idempotency check_runs_def split: if_splits option.splits\<close>,
     use key in \<open>auto simp: stored_def\<close>)

interpretation consent_api: idempotent_command api_exec api_key api_hash api_valid stored IDEMPOTENCY_KEY_CONFLICT
proof
  fix c k db r
  assume c: "api_valid c" "api_key c = Some k" "stored db k = Some (api_hash c, r)"
  show "api_exec db c = (db, Inr r)"
  proof (cases c)
    case (Record_Call env inp)
    with c show ?thesis by (auto simp: recordConsentEvent_def stored_def split: option.splits)
  next
    case (Check_Call env inp)
    with c show ?thesis by (auto simp: resolveConsentState_def stored_def Let_def)
  qed
next
  fix c k db h r
  assume c: "api_valid c" "api_key c = Some k" "stored db k = Some (h, r)" "h \<noteq> api_hash c"
  show "api_exec db c = (db, Inl IDEMPOTENCY_KEY_CONFLICT)"
  proof (cases c)
    case (Record_Call env inp)
    with c show ?thesis by (auto simp: recordConsentEvent_def stored_def split: option.splits)
  next
    case (Check_Call env inp)
    with c show ?thesis by (auto simp: resolveConsentState_def stored_def Let_def)
  qed
next
  fix c k db db' r
  assume "api_valid c" "api_key c = Some k" "api_exec db c = (db', Inr r)"
  then show "stored db' k = Some (api_hash c, r)"
    by (cases c) (auto intro: record_stores check_stores)
next
  fix db k x c
  assume "stored db k = Some x"
  then show "stored (fst (api_exec db c)) k = Some x"
    by (cases c) (auto intro: record_keeps check_keeps)
qed

text \<open>
  A retried call is answered from the first one: after a grant, revoke or check returned a
  response under a key, any number of later API calls, then a call with the same key and request
  hash returns that response and changes nothing; with another request hash it is refused with
  the 409 conflict and changes nothing.
\<close>

theorem api_retry_replays:
  assumes "api_valid c" "api_key c = Some k" "api_exec db c = (db1, Inr r)"
    and "api_valid c'" "api_key c' = Some k" "db2 = foldl (\<lambda>d x. fst (api_exec d x)) db1 cs"
  shows "api_exec db2 c' = (db2, if api_hash c' = api_hash c then Inr r else Inl IDEMPOTENCY_KEY_CONFLICT)"
proof -
  have run: "foldl (\<lambda>d x. fst (api_exec d x)) d cs = consent_api.run d cs" for d
    by (induction cs arbitrary: d) auto
  show ?thesis
    using consent_api.retry_replays [OF assms(1-5), of cs] consent_api.reuse_refused [OF assms(1-5), of cs]
    unfolding assms(6) run by simp
qed

theorem api_retry_replays_witness:
  "let c = Record_Call (example_env 1) (example_input Granted Matching Import ''d'');
       r = api_exec (example_db []) c
   in api_exec (fst r) c = (fst r, snd r) \<and> (\<exists>b. snd r = Inr b)"
proof -
  let ?c = "Record_Call (example_env 1) (example_input Granted Matching Import ''d'')"
  let ?r = "api_exec (example_db []) ?c"
  have ok: "\<exists>b. snd ?r = Inr b"
    by (simp add: recordConsentEvent_def find_idempotency_def parse_expiry_def write_event_def Let_def
        example_input_def example_defs)
  then obtain b where b: "?r = (fst ?r, Inr b)" by (metis prod.collapse)
  have "api_exec (fst ?r) ?c = (fst ?r, Inr b)"
    using api_retry_replays [of ?c "(''t'', ''k'')" "example_db []" "fst ?r" b ?c "fst ?r" "[]"] b
    by (simp add: example_input_def)
  with b ok show ?thesis by (simp add: Let_def)
qed

end
