(* ===== verification/Consent_History.thy ===== *)
theory Consent_History
  imports Consent_Resolver
begin

text \<open>
  The paginated reads of \<^verbatim>\<open>libs/consent\<close>: the opaque cursor of
  \<^verbatim>\<open>util/history-cursor.ts\<close>, the history \<open>resolveHistory\<close> and the decision log
  \<open>resolveDecisionLog\<close>. Both fetch one row more than the page in descending
  \<open>(created_at, id)\<close> order below the cursor; they are two instances of one contract, and
  following the cursors reads every row once.
\<close>

section \<open>The cursor\<close>

type_synonym cursor = "int \<times> string"

text \<open>
  \<open>Buffer\<close>'s base64url coding and \<open>JSON.parse\<close> are parameters; \<open>JSON.stringify\<close> of an
  ISO date and a UUID needs no escapes.
\<close>

record cursor_codec =
  cc_base64url :: "string \<Rightarrow> string"
  cc_unbase64url :: "string \<Rightarrow> string"
  cc_json_parse :: "string \<Rightarrow> json option"

definition cursor_json :: "string \<Rightarrow> string \<Rightarrow> string" where
  "cursor_json c e = ''{\"c\":\"'' @ c @ ''\",\"e\":\"'' @ e @ ''\"}''"

definition encodeCursor :: "consent_env \<Rightarrow> cursor_codec \<Rightarrow> cursor \<Rightarrow> string" where
  "encodeCursor env cc payload = cc_base64url cc (cursor_json (env_iso env (fst payload)) (snd payload))"

definition is_hex :: "char \<Rightarrow> bool" where
  "is_hex c = (c \<in> set ''0123456789abcdefABCDEF'')"

text \<open>\<open>/^[0-9a-f]{8}-[0-9a-f]{4}-[0-9a-f]{4}-[0-9a-f]{4}-[0-9a-f]{12}$/i\<close>\<close>

definition is_uuid :: "string \<Rightarrow> bool" where
  "is_uuid s = (length s = 36 \<and>
     list_all (\<lambda>i. if i \<in> {8, 13, 18, 23} then s ! i = CHR ''-'' else is_hex (s ! i)) [0..<36])"

datatype cursor_error = Empty_Cursor | Empty_Payload | Not_Json | Missing_Fields | Not_Strings | Bad_Date | Bad_Uuid

definition decodeCursor :: "consent_env \<Rightarrow> cursor_codec \<Rightarrow> string \<Rightarrow> (cursor_error, cursor) result" where
  "decodeCursor env cc cursor =
     (if cursor = [] then Inl Empty_Cursor
      else let raw = cc_unbase64url cc cursor
           in if raw = [] then Inl Empty_Payload
              else case cc_json_parse cc raw of
                None \<Rightarrow> Inl Not_Json
              | Some parsed \<Rightarrow>
                  (case (js_obj_get parsed ''c'', js_obj_get parsed ''e'') of
                     (Some (JStr c), Some (JStr e)) \<Rightarrow>
                       (case env_parse_date env c of
                          None \<Rightarrow> Inl Bad_Date
                        | Some t \<Rightarrow> if \<not> is_uuid e then Inl Bad_Uuid else Inr (t, e))
                   | (Some _, Some _) \<Rightarrow> Inl Not_Strings
                   | _ \<Rightarrow> Inl Missing_Fields))"

section \<open>History\<close>

record history_event_dto =
  he_event_id :: string
  he_scope :: consent_scope
  he_action :: consent_action
  he_created_at :: string
  he_expires_at :: "string option"

record history_response =
  hr_events :: "history_event_dto list"
  hr_next_cursor :: "string option"
  hr_is_anonymized :: bool

text \<open>\<open>ORDER BY created_at DESC, id DESC\<close> over the rows strictly below the cursor, with a limit.\<close>

definition below_cursor :: "cursor option \<Rightarrow> cursor \<Rightarrow> bool" where
  "below_cursor cursor k =
     (case cursor of
        None \<Rightarrow> True
      | Some (t, i) \<Rightarrow> fst k < t \<or> fst k = t \<and> snd k < i)"

definition event_key :: "consent_event \<Rightarrow> cursor" where
  "event_key e = (ev_created_at e, ev_id e)"

type_synonym history_query = "consent_db \<times> string \<times> string \<times> consent_scope option"

text \<open>The filter of a query, without the cursor.\<close>

fun history_match :: "history_query \<Rightarrow> consent_event \<Rightarrow> bool" where
  "history_match (db, tenant, talent, scope) e =
     (ev_tenant_id e = tenant \<and> ev_talent_record_id e = talent \<and>
      (case scope of None \<Rightarrow> True | Some s \<Rightarrow> ev_scope e = s))"

definition history_find_many :: "history_query \<Rightarrow> cursor option \<Rightarrow> nat \<Rightarrow> consent_event list" where
  "history_find_many q cursor n =
     take n (rev (sort_key event_key
       (filter (\<lambda>e. history_match q e \<and> below_cursor cursor (event_key e)) (db_ledger (fst q)))))"

definition resolveHistory ::
  "consent_env \<Rightarrow> cursor_codec \<Rightarrow> consent_db \<Rightarrow> string \<Rightarrow> string \<Rightarrow> consent_scope option \<Rightarrow> nat \<Rightarrow>
     cursor option \<Rightarrow> history_response" where
  "resolveHistory env cc db tenant talent scope limit cursor =
     (let rows = history_find_many (db, tenant, talent, scope) cursor (limit + 1);
          hasMore = length rows > limit;
          pageRows = (if hasMore then take limit rows else rows)
      in \<lparr> hr_events = map (\<lambda>row. \<lparr> he_event_id = ev_id row, he_scope = ev_scope row,
              he_action = ev_action row, he_created_at = env_iso env (ev_created_at row),
              he_expires_at = map_option (env_iso env) (ev_expires_at row) \<rparr>) pageRows,
           hr_next_cursor =
             (if hasMore \<and> pageRows \<noteq> []
              then Some (encodeCursor env cc (ev_created_at (last pageRows), ev_id (last pageRows)))
              else None),
           hr_is_anonymized = hasErasureMarker db tenant talent \<rparr>)"

section \<open>Decision log\<close>

record decision_log_entry =
  dl_event_id :: string
  dl_talent_record_id :: string
  dl_event_type :: string
  dl_created_at :: string
  dl_actor_id :: "string option"
  dl_actor_type :: actor_type
  dl_event_payload :: audit_payload

record decision_log_response =
  dr_entries :: "decision_log_entry list"
  dr_next_cursor :: "string option"
  dr_is_anonymized :: bool

definition audit_key :: "audit_event \<Rightarrow> cursor" where
  "audit_key r = (au_created_at r, au_id r)"

type_synonym log_query = "consent_db \<times> string \<times> string \<times> string option"

fun log_match :: "log_query \<Rightarrow> audit_event \<Rightarrow> bool" where
  "log_match (db, tenant, talent, event_type) r =
     (au_tenant_id r = tenant \<and> au_subject_id r = talent \<and>
      (case event_type of None \<Rightarrow> True | Some t \<Rightarrow> au_event_type r = t))"

definition log_find_many :: "log_query \<Rightarrow> cursor option \<Rightarrow> nat \<Rightarrow> audit_event list" where
  "log_find_many q cursor n =
     take n (rev (sort_key audit_key
       (filter (\<lambda>r. log_match q r \<and> below_cursor cursor (audit_key r)) (db_audit (fst q)))))"

definition resolveDecisionLog ::
  "consent_env \<Rightarrow> cursor_codec \<Rightarrow> consent_db \<Rightarrow> string \<Rightarrow> string \<Rightarrow> string option \<Rightarrow> nat \<Rightarrow>
     cursor option \<Rightarrow> decision_log_response" where
  "resolveDecisionLog env cc db tenant talent event_type limit cursor =
     (let rows = log_find_many (db, tenant, talent, event_type) cursor (limit + 1);
          hasMore = length rows > limit;
          pageRows = (if hasMore then take limit rows else rows)
      in \<lparr> dr_entries = map (\<lambda>row. \<lparr> dl_event_id = au_id row, dl_talent_record_id = au_subject_id row,
              dl_event_type = au_event_type row, dl_created_at = env_iso env (au_created_at row),
              dl_actor_id = au_actor_id row, dl_actor_type = au_actor_type row,
              dl_event_payload = au_event_payload row \<rparr>) pageRows,
           dr_next_cursor =
             (if hasMore \<and> pageRows \<noteq> []
              then Some (encodeCursor env cc (au_created_at (last pageRows), au_id (last pageRows)))
              else None),
           dr_is_anonymized = hasErasureMarker db tenant talent \<rparr>)"

section \<open>Pages\<close>

text \<open>The primary key: ids are unique within a table.\<close>

definition ids_unique :: "consent_db \<Rightarrow> bool" where
  "ids_unique db \<longleftrightarrow> distinct (map ev_id (db_ledger db)) \<and> distinct (map au_id (db_audit db))"

lemma below_cursor_below: "below_cursor c k = below c k"
  by (cases c; cases k) (auto simp: below_cursor_def)

lemma rev_sort_descending:
  assumes "distinct (map key xs)"
  shows "sorted_wrt (\<lambda>a b. key b < key a) (rev (sort_key key xs))"
proof -
  have "sorted (map key (sort_key key xs))" by simp
  moreover have "distinct (map key (sort_key key xs))"
    using assms by (simp add: distinct_map inj_on_def)
  ultimately have "sorted_wrt (<) (map key (sort_key key xs))" by (simp add: strict_sorted_iff)
  then show ?thesis by (simp add: sorted_wrt_rev sorted_wrt_map)
qed

lemma filter_rev_sort: "filter P (rev (sort_key key xs)) = rev (sort_key key (filter P xs))"
  by (simp add: rev_filter [symmetric] filter_sort)

definition history_rows :: "history_query \<Rightarrow> consent_event list" where
  "history_rows q = rev (sort_key event_key (filter (history_match q) (db_ledger (fst q))))"

definition log_rows :: "log_query \<Rightarrow> audit_event list" where
  "log_rows q = rev (sort_key audit_key (filter (log_match q) (db_audit (fst q))))"

interpretation history_pages: keyset_source history_find_many event_key history_rows "\<lambda>q. ids_unique (fst q)"
proof
  fix q :: history_query
  assume u: "ids_unique (fst q)"
  have "distinct (map event_key (filter (history_match q) (db_ledger (fst q))))"
    using u by (auto simp: ids_unique_def distinct_map event_key_def inj_on_def)
  then show "sorted_wrt (\<lambda>a b. event_key b < event_key a) (history_rows q)"
    unfolding history_rows_def by (rule rev_sort_descending)
  show "history_find_many q c n = take n (filter (\<lambda>r. below c (event_key r)) (history_rows q))" for c n
    by (simp add: history_find_many_def history_rows_def filter_rev_sort below_cursor_below conj_commute)
qed

interpretation log_pages: keyset_source log_find_many audit_key log_rows "\<lambda>q. ids_unique (fst q)"
proof
  fix q :: log_query
  assume u: "ids_unique (fst q)"
  have "distinct (map audit_key (filter (log_match q) (db_audit (fst q))))"
    using u by (auto simp: ids_unique_def distinct_map audit_key_def inj_on_def)
  then show "sorted_wrt (\<lambda>a b. audit_key b < audit_key a) (log_rows q)"
    unfolding log_rows_def by (rule rev_sort_descending)
  show "log_find_many q c n = take n (filter (\<lambda>r. below c (audit_key r)) (log_rows q))" for c n
    by (simp add: log_find_many_def log_rows_def filter_rev_sort below_cursor_below conj_commute)
qed

section \<open>Reading everything through the cursors\<close>

text \<open>What the code relies on of the codecs it calls.\<close>

definition codec_ok :: "consent_env \<Rightarrow> cursor_codec \<Rightarrow> bool" where
  "codec_ok env cc \<longleftrightarrow>
     (\<forall>t. env_parse_date env (env_iso env t) = Some t) \<and>
     (\<forall>s. cc_unbase64url cc (cc_base64url cc s) = s) \<and>
     (\<forall>s. s \<noteq> [] \<longrightarrow> cc_base64url cc s \<noteq> []) \<and>
     (\<forall>t e. is_uuid e \<longrightarrow> cc_json_parse cc (cursor_json (env_iso env t) e) =
        Some (JObj [(''c'', JStr (env_iso env t)), (''e'', JStr e)]))"

lemma cursor_decodes:
  "codec_ok env cc \<Longrightarrow> is_uuid (snd p) \<Longrightarrow> decodeCursor env cc (encodeCursor env cc p) = Inr p"
  by (cases p) (simp add: codec_ok_def decodeCursor_def encodeCursor_def cursor_json_def js_obj_get_def)

definition history_dto :: "consent_env \<Rightarrow> consent_event \<Rightarrow> history_event_dto" where
  "history_dto env row = \<lparr> he_event_id = ev_id row, he_scope = ev_scope row, he_action = ev_action row,
     he_created_at = env_iso env (ev_created_at row), he_expires_at = map_option (env_iso env) (ev_expires_at row) \<rparr>"

definition log_dto :: "consent_env \<Rightarrow> audit_event \<Rightarrow> decision_log_entry" where
  "log_dto env row = \<lparr> dl_event_id = au_id row, dl_talent_record_id = au_subject_id row,
     dl_event_type = au_event_type row, dl_created_at = env_iso env (au_created_at row),
     dl_actor_id = au_actor_id row, dl_actor_type = au_actor_type row, dl_event_payload = au_event_payload row \<rparr>"

text \<open>
  A client that follows the cursors: decode, read a page, go on with the cursor returned. \<open>None\<close>
  stands for a rejected cursor or more than \<open>n\<close> pages.
\<close>

fun follow :: "(string \<Rightarrow> (cursor_error, cursor) result) \<Rightarrow> (cursor option \<Rightarrow> 'a list \<times> string option) \<Rightarrow>
    nat \<Rightarrow> cursor option \<Rightarrow> 'a list option" where
  "follow dec get 0 c = None"
| "follow dec get (Suc n) c =
     (case get c of
        (xs, None) \<Rightarrow> Some xs
      | (xs, Some s) \<Rightarrow> (case dec s of
            Inl _ \<Rightarrow> None
          | Inr c' \<Rightarrow> map_option ((@) xs) (follow dec get n (Some c'))))"

definition history_client :: "consent_env \<Rightarrow> cursor_codec \<Rightarrow> history_query \<Rightarrow> nat \<Rightarrow> nat \<Rightarrow> history_event_dto list option" where
  "history_client env cc q limit n =
     (case q of (db, tenant, talent, scope) \<Rightarrow>
        follow (decodeCursor env cc)
          (\<lambda>c. let r = resolveHistory env cc db tenant talent scope limit c in (hr_events r, hr_next_cursor r)) n None)"

definition log_client :: "consent_env \<Rightarrow> cursor_codec \<Rightarrow> log_query \<Rightarrow> nat \<Rightarrow> nat \<Rightarrow> decision_log_entry list option" where
  "log_client env cc q limit n =
     (case q of (db, tenant, talent, event_type) \<Rightarrow>
        follow (decodeCursor env cc)
          (\<lambda>c. let r = resolveDecisionLog env cc db tenant talent event_type limit c in (dr_entries r, dr_next_cursor r)) n None)"

lemma resolveHistory_page:
  "(let r = resolveHistory env cc db tenant talent scope limit c in (hr_events r, hr_next_cursor r)) =
     (let p = history_pages.page (db, tenant, talent, scope) limit c
      in (map (history_dto env) (fst p), map_option (encodeCursor env cc) (snd p)))"
  by (auto simp: resolveHistory_def history_pages.page_def history_dto_def [abs_def] event_key_def Let_def)

lemma resolveDecisionLog_page:
  "(let r = resolveDecisionLog env cc db tenant talent t limit c in (dr_entries r, dr_next_cursor r)) =
     (let p = log_pages.page (db, tenant, talent, t) limit c
      in (map (log_dto env) (fst p), map_option (encodeCursor env cc) (snd p)))"
  by (auto simp: resolveDecisionLog_def log_pages.page_def log_dto_def [abs_def] audit_key_def Let_def)

text \<open>Following encoded cursors is following the keys, provided every key met decodes.\<close>

lemma follow_encoded:
  assumes get: "\<And>c. get c = (map dto (fst (page c)), map_option enc (snd (page c)))"
    and dec: "\<And>c k. snd (page c) = Some k \<Longrightarrow> dec (enc k) = Inr k"
    and walk0: "\<And>c. walk 0 c = None"
    and walkS: "\<And>n c. walk (Suc n) c = (case page c of (xs, None) \<Rightarrow> Some xs
                  | (xs, Some c') \<Rightarrow> map_option ((@) xs) (walk n (Some c')))"
  shows "follow dec get n c = map_option (map dto) (walk n c)"
proof (induction n arbitrary: c)
  case 0
  then show ?case by (simp add: walk0)
next
  case (Suc n)
  obtain xs o' where p: "page c = (xs, o')" by fastforce
  show ?case
  proof (cases o')
    case None
    with p show ?thesis by (simp add: get [of c] walkS)
  next
    case (Some k)
    with p dec [of c k] show ?thesis by (simp add: get [of c] walkS Suc [of "Some k"] option.map_comp o_def)
  qed
qed

definition ids_are_uuids :: "consent_db \<Rightarrow> bool" where
  "ids_are_uuids db \<longleftrightarrow> list_all (\<lambda>e. is_uuid (ev_id e)) (db_ledger db) \<and> list_all (\<lambda>r. is_uuid (au_id r)) (db_audit db)"

lemma history_page_cursor:
  assumes "ids_are_uuids (fst q)" "snd (history_pages.page q limit c) = Some k"
  shows "is_uuid (snd k)"
proof -
  obtain r where "r \<in> set (history_find_many q c (limit + 1))" "k = event_key r"
    using history_pages.page_cursor_in [OF assms(2)] by blast
  then show ?thesis
    using assms(1) unfolding history_find_many_def
    by (auto dest!: in_set_takeD simp: ids_are_uuids_def list_all_iff event_key_def)
qed

lemma log_page_cursor:
  assumes "ids_are_uuids (fst q)" "snd (log_pages.page q limit c) = Some k"
  shows "is_uuid (snd k)"
proof -
  obtain r where "r \<in> set (log_find_many q c (limit + 1))" "k = audit_key r"
    using log_pages.page_cursor_in [OF assms(2)] by blast
  then show ?thesis
    using assms(1) unfolding log_find_many_def
    by (auto dest!: in_set_takeD simp: ids_are_uuids_def list_all_iff audit_key_def)
qed

text \<open>
  C25. A client that follows the history cursors from the start gets every event of the query exactly
  once, newest first, and stops: no event is skipped or repeated at a page border, also among events
  created at the same instant.
\<close>

theorem history_client_complete:
  assumes "codec_ok env cc" "ids_unique (fst q)" "ids_are_uuids (fst q)" "0 < limit"
    and "length (history_rows q) < n"
  shows "history_client env cc q limit n = Some (map (history_dto env) (history_rows q))"
proof -
  obtain db tenant talent scope where q: "q = (db, tenant, talent, scope)" by (cases q)
  let ?get = "\<lambda>c. let r = resolveHistory env cc db tenant talent scope limit c in (hr_events r, hr_next_cursor r)"
  have get: "?get c = (map (history_dto env) (fst (history_pages.page q limit c)), map_option (encodeCursor env cc) (snd (history_pages.page q limit c)))" for c
    using resolveHistory_page [of env cc db tenant talent scope limit c] unfolding q Let_def .
  have "follow (decodeCursor env cc) ?get n None = map_option (map (history_dto env)) (history_pages.walk q limit n None)"
    by (rule follow_encoded [where page = "history_pages.page q limit" and enc = "encodeCursor env cc", OF get])
      (use assms(1,3) cursor_decodes history_page_cursor in auto)
  moreover have "history_pages.walk q limit n None = Some (history_rows q)"
    using history_pages.walk_complete [OF assms(2,4), of None n] assms(5) by simp
  ultimately show ?thesis by (simp add: history_client_def q)
qed

text \<open>The same for the decision log and its event-type filter.\<close>

theorem log_client_complete:
  assumes "codec_ok env cc" "ids_unique (fst q)" "ids_are_uuids (fst q)" "0 < limit"
    and "length (log_rows q) < n"
  shows "log_client env cc q limit n = Some (map (log_dto env) (log_rows q))"
proof -
  obtain db tenant talent t where q: "q = (db, tenant, talent, t)" by (cases q)
  let ?get = "\<lambda>c. let r = resolveDecisionLog env cc db tenant talent t limit c in (dr_entries r, dr_next_cursor r)"
  have get: "?get c = (map (log_dto env) (fst (log_pages.page q limit c)), map_option (encodeCursor env cc) (snd (log_pages.page q limit c)))" for c
    using resolveDecisionLog_page [of env cc db tenant talent t limit c] unfolding q Let_def .
  have "follow (decodeCursor env cc) ?get n None = map_option (map (log_dto env)) (log_pages.walk q limit n None)"
    by (rule follow_encoded [where page = "log_pages.page q limit" and enc = "encodeCursor env cc", OF get])
      (use assms(1,3) cursor_decodes log_page_cursor in auto)
  moreover have "log_pages.walk q limit n None = Some (log_rows q)"
    using log_pages.walk_complete [OF assms(2,4), of None n] assms(5) by simp
  ultimately show ?thesis by (simp add: log_client_def q)
qed

section \<open>A concrete codec\<close>

definition example_codec :: cursor_codec where
  "example_codec =
     \<lparr> cc_base64url = (\<lambda>s. s), cc_unbase64url = (\<lambda>s. s),
       cc_json_parse = (\<lambda>s. Some (JObj [(''c'', JStr (take (length s - 51) (drop 6 s))),
                                        (''e'', JStr (take 36 (drop 7 (drop (length s - 51) (drop 6 s)))))])) \<rparr>"

definition unary_iso :: "int \<Rightarrow> string" where
  "unary_iso t = (if t < 0 then CHR ''-'' # replicate (nat (- t)) (CHR ''1'') else replicate (nat t) (CHR ''1''))"

definition unary_parse :: "string \<Rightarrow> int option" where
  "unary_parse s = Some (if take 1 s = ''-'' then - int (length s - 1) else int (length s))"

definition codec_env :: consent_env where
  "codec_env = \<lparr> env_uuid = (\<lambda>n. []), env_now = 0, env_row_now = (\<lambda>n. 0), env_iso = unary_iso, env_parse_date = unary_parse \<rparr>"

lemma unary_roundtrip: "unary_parse (unary_iso t) = Some t"
  by (cases "nat t") (auto simp: unary_parse_def unary_iso_def)

lemma example_codec_ok: "codec_ok codec_env example_codec"
proof -
  have "cc_json_parse example_codec (cursor_json c e) = Some (JObj [(''c'', JStr c), (''e'', JStr e)])"
    if "is_uuid e" for c e
  proof -
    have "length e = 36" using that by (simp add: is_uuid_def)
    then show ?thesis by (simp add: example_codec_def cursor_json_def del: drop_drop)
  qed
  then show ?thesis by (simp add: codec_ok_def codec_env_def unary_roundtrip) (simp add: example_codec_def)
qed

definition example_uuid :: "char \<Rightarrow> string" where
  "example_uuid c = c # ''0000000-0000-0000-0000-000000000000''"

definition history_event :: "char \<Rightarrow> int \<Rightarrow> consent_event" where
  "history_event c t =
     \<lparr> ev_id = example_uuid c, ev_tenant_id = ''t'', ev_talent_record_id = ''p'', ev_scope = Matching,
       ev_action = Granted, ev_captured_by_actor_id = None, ev_captured_method = Import,
       ev_consent_version = ''v'', ev_consent_text_snapshot = None, ev_consent_document_id = None,
       ev_occurred_at = t, ev_expires_at = None, ev_metadata = None, ev_created_at = t \<rparr>"

definition history_audit :: "char \<Rightarrow> int \<Rightarrow> audit_event" where
  "history_audit c t =
     \<lparr> au_id = example_uuid c, au_tenant_id = ''t'', au_actor_id = None, au_actor_type = Actor_Self,
       au_event_type = ''consent.grant.recorded'', au_subject_id = ''p'',
       au_event_payload = Foreign_Payload JNull, au_created_at = t \<rparr>"

definition history_db :: consent_db where
  "history_db =
     \<lparr> db_ledger = [history_event (CHR ''1'') 5, history_event (CHR ''2'') 5, history_event (CHR ''3'') 4],
       db_audit = [history_audit (CHR ''4'') 5, history_audit (CHR ''5'') 6],
       db_outbox = [], db_idempotency = [] \<rparr>"

lemma history_db_ok: "ids_unique history_db" "ids_are_uuids history_db"
  by code_simp+

theorem history_client_complete_witness:
  "map_option (map he_event_id) (history_client codec_env example_codec (history_db, ''t'', ''p'', None) 1 4)
     = Some [example_uuid (CHR ''2''), example_uuid (CHR ''1''), example_uuid (CHR ''3'')]"
proof -
  have rows: "history_rows (history_db, ''t'', ''p'', None) =
      [history_event (CHR ''2'') 5, history_event (CHR ''1'') 5, history_event (CHR ''3'') 4]"
    by code_simp
  have "history_client codec_env example_codec (history_db, ''t'', ''p'', None) 1 4 =
      Some (map (history_dto codec_env) (history_rows (history_db, ''t'', ''p'', None)))"
    by (rule history_client_complete) (simp_all add: example_codec_ok history_db_ok rows)
  then show ?thesis by (simp add: rows history_dto_def history_event_def)
qed

theorem log_client_complete_witness:
  "map_option (map dl_event_id) (log_client codec_env example_codec (history_db, ''t'', ''p'', None) 1 3)
     = Some [example_uuid (CHR ''5''), example_uuid (CHR ''4'')]"
proof -
  have rows: "log_rows (history_db, ''t'', ''p'', None) = [history_audit (CHR ''5'') 6, history_audit (CHR ''4'') 5]"
    by code_simp
  have "log_client codec_env example_codec (history_db, ''t'', ''p'', None) 1 3 =
      Some (map (log_dto codec_env) (log_rows (history_db, ''t'', ''p'', None)))"
    by (rule log_client_complete) (simp_all add: example_codec_ok history_db_ok rows)
  then show ?thesis by (simp add: rows log_dto_def history_audit_def)
qed

text \<open>
  A cursor the server hands out is one it accepts: decoding an encoded (created\_at, id) pair gives
  the pair back.
\<close>

theorem cursor_roundtrip:
  assumes "codec_ok env cc" "is_uuid e"
  shows "decodeCursor env cc (encodeCursor env cc (t, e)) = Inr (t, e)"
  using cursor_decodes [OF assms(1), of "(t, e)"] assms(2) by simp

theorem cursor_roundtrip_witness:
  "decodeCursor codec_env example_codec (encodeCursor codec_env example_codec (7, example_uuid (CHR ''a'')))
     = Inr (7, example_uuid (CHR ''a''))"
proof (rule cursor_roundtrip [OF example_codec_ok])
  show "is_uuid (example_uuid (CHR ''a''))" by code_simp
qed

end
