(* ===== verification/Js_Json.thy ===== *)
theory Js_Json
  imports Policy_Signature
begin

text \<open>
  \<open>JSON.stringify\<close> on plain values, used by the request hash and by the signature event
  chain: the order in which an object enumerates its keys, the printed text as tokens, and
  unique reading. Two values print the same text exactly when they are the same value up
  to what the text cannot show (\<open>json_norm\<close>: \<open>NaN\<close> and the infinities print as
  \<open>null\<close>, \<open>-0\<close> as \<open>0\<close>).
\<close>

section \<open>Key order and printing\<close>

text \<open>
  An object enumerates its array-index keys first, in numeric order, then the others in
  insertion order.
\<close>

definition is_digit :: "char \<Rightarrow> bool" where
  "is_digit c = (c \<in> set ''0123456789'')"

definition digits_value :: "string \<Rightarrow> int" where
  "digits_value s = foldl (\<lambda>v c. 10 * v + (int (of_char c) - 48)) 0 s"

definition is_index_key :: "string \<Rightarrow> bool" where
  "is_index_key k = (k = ''0'' \<or> k \<noteq> [] \<and> list_all is_digit k \<and> hd k \<noteq> CHR ''0'' \<and> digits_value k < 2 ^ 32 - 1)"

definition js_own_order :: "(string \<times> 'a) list \<Rightarrow> (string \<times> 'a) list" where
  "js_own_order kvs =
     sort_key (\<lambda>kv. digits_value (fst kv)) (filter (\<lambda>kv. is_index_key (fst kv)) kvs)
     @ filter (\<lambda>kv. \<not> is_index_key (fst kv)) kvs"

text \<open>\<open>JSON.stringify\<close>, as the tokens of its text, in the order the object has.\<close>

fun json_toks :: "json \<Rightarrow> tok list" where
  "json_toks JNull = [Lit_null]"
| "json_toks (JBool b) = [Lit_bool b]"
| "json_toks (JNum n) = [num_tok n]"
| "json_toks (JStr s) = [Lit_str s]"
| "json_toks (JArr xs) = Punct (CHR ''['') # join_toks (map json_toks xs) @ [Punct (CHR '']'')]"
| "json_toks (JObj kvs) =
     Punct (CHR ''{'') # join_toks (map (\<lambda>kv. entry_toks (fst kv, json_toks (snd kv))) kvs) @ [Punct (CHR ''}'')]"

fun num_norm :: "js_number \<Rightarrow> json" where
  "num_norm JNegZero = JNum (JFin 0)"
| "num_norm (JFin q) = JNum (JFin q)"
| "num_norm _ = JNull"

text \<open>\<open>JSON.parse(JSON.stringify(v))\<close> with the keys kept in place.\<close>

fun json_norm :: "json \<Rightarrow> json" where
  "json_norm (JNum n) = num_norm n"
| "json_norm (JArr xs) = JArr (map json_norm xs)"
| "json_norm (JObj kvs) = JObj (map (\<lambda>kv. (fst kv, json_norm (snd kv))) kvs)"
| "json_norm v = v"

section \<open>Unique reading\<close>

lemma num_tok_simps [simp]:
  "num_tok n \<noteq> Punct c" "num_tok n \<noteq> Lit_bool b" "num_tok n \<noteq> Lit_str t"
  "Punct c \<noteq> num_tok n" "Lit_bool b \<noteq> num_tok n" "Lit_str t \<noteq> num_tok n"
  "num_tok n = Lit_null \<longleftrightarrow> num_norm n = JNull" "Lit_null = num_tok n \<longleftrightarrow> num_norm n = JNull"
  by (cases n; simp)+

lemma num_tok_eq [simp]: "num_tok a = num_tok b \<longleftrightarrow> num_norm a = num_norm b"
  by (cases a; cases b) auto

lemma json_toks_starts: "json_toks v \<noteq> [] \<and> hd (json_toks v) \<notin> closers"
  by (cases v) (auto simp: closers_def)

lemma list_all2_norm: "list_all2 (\<lambda>x y. f x = f y) xs ys \<longleftrightarrow> map f xs = map f ys"
  by (simp add: list_all2_map1 list_all2_map2 list.rel_eq [symmetric])

lemma json_toks_read_prim:
  assumes "\<forall>xs. v \<noteq> JArr xs" "\<forall>kvs. v \<noteq> JObj kvs" "json_toks v @ r = json_toks w @ s"
  shows "json_norm v = json_norm w \<and> r = s"
  using assms
  by (cases v; cases w) auto

lemma json_toks_read: "json_toks v @ r = json_toks w @ s \<Longrightarrow> json_norm v = json_norm w \<and> r = s"
proof (induction v arbitrary: w r s rule: json_norm.induct)
  case (2 xs)
  then obtain ys where ys: "w = JArr ys" by (cases w) auto
  have "list_all2 (\<lambda>x y. json_norm x = json_norm y) xs ys \<and> r = s"
  proof (rule join_toks_read [where f = json_toks and c = "Punct (CHR '']'')"])
    show "json_norm x = json_norm y \<and> p = q"
      if "x \<in> set xs" "y \<in> set ys" "json_toks x @ p = json_toks y @ q" for x y p q
      using 2(1) [OF that(1) that(3)] .
    show "join_toks (map json_toks xs) @ Punct (CHR '']'') # r = join_toks (map json_toks ys) @ Punct (CHR '']'') # s"
      using 2(2) ys by simp
  qed (simp_all add: json_toks_starts)
  with ys show ?case by (simp add: list_all2_norm)
next
  case (3 kvs)
  then obtain ys where ys: "w = JObj ys" by (cases w) auto
  let ?f = "\<lambda>kv. entry_toks (fst kv, json_toks (snd kv))"
  let ?n = "\<lambda>kv. (fst kv, json_norm (snd kv))"
  have "list_all2 (\<lambda>x y. ?n x = ?n y) kvs ys \<and> r = s"
  proof (rule join_toks_read [where f = ?f and c = "Punct (CHR ''}'')"])
    show "?n x = ?n y \<and> p = q" if "x \<in> set kvs" "y \<in> set ys" "?f x @ p = ?f y @ q" for x y p q
    proof -
      have "fst x = fst y" "json_toks (snd x) @ p = json_toks (snd y) @ q"
        using that(3) by (simp_all add: entry_toks_def)
      with 3(1) [OF that(1)] show ?thesis by blast
    qed
    show "join_toks (map ?f kvs) @ Punct (CHR ''}'') # r = join_toks (map ?f ys) @ Punct (CHR ''}'') # s"
      using 3(2) ys by simp
  qed (auto simp: entry_toks_def)
  then have "map ?n kvs = map ?n ys" "r = s" by (simp_all only: list_all2_norm)
  with ys show ?case by simp
qed (rule json_toks_read_prim; simp)+

lemma json_toks_norm [simp]: "json_toks (json_norm v) = json_toks v"
proof (induction v rule: json_norm.induct)
  case (1 n)
  then show ?case by (cases n) auto
next
  case (2 xs)
  then show ?case by (simp cong: map_cong add: o_def)
next
  case (3 kvs)
  then show ?case by (simp cong: map_cong add: o_def)
qed simp_all

lemma json_toks_eq_iff: "json_toks v = json_toks w \<longleftrightarrow> json_norm v = json_norm w"
  using json_toks_read [of v "[]" w "[]"] json_toks_norm by metis

end
