(* ===== verification/Consent_Service.thy ===== *)
theory Consent_Service
  imports Consent_Commands Consent_History Js_Json
begin

text \<open>
  The services and the request parsing over the repository: \<^verbatim>\<open>consent.service.ts\<close>,
  \<^verbatim>\<open>source-consent.service.ts\<close>, the versioned texts of \<^verbatim>\<open>consent-texts.ts\<close>, the request
  hash of \<^verbatim>\<open>libs/common/src/lib/util/canonicalize.ts\<close> and the query parsers of
  \<^verbatim>\<open>consent.controller.ts\<close>. SHA-256 is a parameter, once on texts and once on the token
  list of a JSON text.
\<close>

section \<open>Request hash\<close>

record crypto =
  sha_text :: "string \<Rightarrow> string"
  sha_json :: "tok list \<Rightarrow> string"

fun canonicalize :: "json \<Rightarrow> json" where
  "canonicalize (JArr xs) = JArr (map canonicalize xs)"
| "canonicalize (JObj kvs) = JObj (js_own_order (sort_key fst (map (\<lambda>kv. (fst kv, canonicalize (snd kv))) kvs)))"
| "canonicalize v = v"

definition hashCanonicalizedBody :: "crypto \<Rightarrow> json \<Rightarrow> string" where
  "hashCanonicalizedBody cr body = sha_json cr (json_toks (canonicalize body))"

section \<open>Consent texts\<close>

definition CONSENT_TEXT_CURRENT_VERSION :: string where
  "CONSENT_TEXT_CURRENT_VERSION = ''portal-consent-v1''"

definition CONSENT_TEXT_RECRUITER_CAPTURE_VERSION :: string where
  "CONSENT_TEXT_RECRUITER_CAPTURE_VERSION = ''recruiter-capture-v1-draft''"

definition CONSENT_TEXT_RECRUITER_CREATE_DEFAULT_VERSION :: string where
  "CONSENT_TEXT_RECRUITER_CREATE_DEFAULT_VERSION = ''recruiter-create-default-v1''"

definition NOTICE_TEXT_CURRENT_VERSION :: string where
  "NOTICE_TEXT_CURRENT_VERSION = ''portal-notice-v1''"

fun SCOPE_PHRASES :: "consent_scope \<Rightarrow> string" where
  "SCOPE_PHRASES Profile_Storage = ''store my profile''"
| "SCOPE_PHRASES Resume_Processing = ''process my resume''"
| "SCOPE_PHRASES Matching = ''match me to opportunities''"
| "SCOPE_PHRASES Contacting = ''contact me about opportunities''"
| "SCOPE_PHRASES Cross_Tenant_Visibility = ''share my profile beyond this organization''"
| "SCOPE_PHRASES Recording = ''record voice conversations with me''"
| "SCOPE_PHRASES Transcription = ''create written transcripts of conversations with me''"
| "SCOPE_PHRASES Ai_Processing =
     ''use automated (AI) analysis of conversation transcripts to assist recruiters''"

text \<open>An unknown version throws (None).\<close>

definition renderPortalConsentText :: "string \<Rightarrow> string \<Rightarrow> consent_scope \<Rightarrow> string option" where
  "renderPortalConsentText version recipient_tenant_id scope =
     (if version = ''portal-consent-v1'' then Some
        (''I authorize the organization identified as '' @ recipient_tenant_id @ '' to '' @
         SCOPE_PHRASES scope @ ''. This authorization is effective for 12 months '' @
         ''from the date I grant it, unless I revoke it earlier. I understand I may '' @
         ''revoke this consent at any time from my Aramo portal.'')
      else None)"

definition hashPortalConsentText :: "crypto \<Rightarrow> string \<Rightarrow> string \<Rightarrow> consent_scope \<Rightarrow> (string \<times> string) option" where
  "hashPortalConsentText cr version recipient_tenant_id scope =
     map_option (\<lambda>text. (version, sha_text cr text)) (renderPortalConsentText version recipient_tenant_id scope)"

text \<open>The capture scopes: the three profile scopes with approved wording.\<close>

datatype capture_scope = Cap_Profile_Storage | Cap_Matching | Cap_Contacting

fun capture_to_scope :: "capture_scope \<Rightarrow> consent_scope" where
  "capture_to_scope Cap_Profile_Storage = Profile_Storage"
| "capture_to_scope Cap_Matching = Matching"
| "capture_to_scope Cap_Contacting = Contacting"

definition CONSENT_CAPTURE_SCOPES :: "capture_scope list" where
  "CONSENT_CAPTURE_SCOPES = [Cap_Profile_Storage, Cap_Matching, Cap_Contacting]"

fun RECRUITER_CAPTURE_SCOPE_CLAUSES :: "capture_scope \<Rightarrow> string" where
  "RECRUITER_CAPTURE_SCOPE_CLAUSES Cap_Profile_Storage =
     ''store and maintain the Talent's profile and related recruiting information''"
| "RECRUITER_CAPTURE_SCOPE_CLAUSES Cap_Matching =
     ''use the Talent's profile to evaluate and match the Talent with employment opportunities''"
| "RECRUITER_CAPTURE_SCOPE_CLAUSES Cap_Contacting =
     ''contact the Talent about recruiting opportunities''"

definition renderRecruiterCaptureConsentText :: "string \<Rightarrow> capture_scope \<Rightarrow> string option" where
  "renderRecruiterCaptureConsentText version scope =
     (if version = ''recruiter-capture-v1-draft'' then Some
        (''I confirm that I obtained the Talent's authorization to '' @
         RECRUITER_CAPTURE_SCOPE_CLAUSES scope @ ''. I confirm that this '' @
         ''authorization was provided by the Talent and that I am recording it '' @
         ''accurately on the Talent's behalf. I understand that the Talent may '' @
         ''withdraw or change this authorization at any time, and that Aramo will '' @
         ''apply the Talent's current consent status to future processing and '' @
         ''communications.'')
      else None)"

definition hashRecruiterCaptureConsentText :: "crypto \<Rightarrow> string \<Rightarrow> capture_scope \<Rightarrow> (string \<times> string) option" where
  "hashRecruiterCaptureConsentText cr version scope =
     map_option (\<lambda>text. (version, sha_text cr text)) (renderRecruiterCaptureConsentText version scope)"

definition renderRecruiterCreateDefaultConsentText :: "string \<Rightarrow> string \<Rightarrow> string option" where
  "renderRecruiterCreateDefaultConsentText version recruiter_actor_id =
     (if version = ''recruiter-create-default-v1'' then Some
        (''Recorded at profile creation by '' @ recruiter_actor_id @ ''. Aramo's policy '' @
         ''for recruiter-created profiles: the recruiter verified the Talent before '' @
         ''creating the profile, and email and phone contact is permitted until the '' @
         ''Talent or a recruiter withdraws it.'')
      else None)"

definition hashRecruiterCreateDefaultConsentText :: "crypto \<Rightarrow> string \<Rightarrow> string \<Rightarrow> (string \<times> string) option" where
  "hashRecruiterCreateDefaultConsentText cr version recruiter_actor_id =
     map_option (\<lambda>text. (version, sha_text cr text)) (renderRecruiterCreateDefaultConsentText version recruiter_actor_id)"

section \<open>Grant, revoke, check\<close>

datatype consumer_type = Con_Recruiter | Con_Portal | Con_Ingestion | Con_Platform | Con_Sign | Con_Org

record auth_context =
  ac_sub :: string
  ac_consumer_type :: consumer_type
  ac_tenant_id :: string

definition deriveActorId :: "auth_context \<Rightarrow> string option" where
  "deriveActorId auth = (if ac_consumer_type auth = Con_Recruiter then Some (ac_sub auth) else None)"

fun method_name :: "captured_method \<Rightarrow> string" where
  "method_name Self_Signup = ''self_signup''"
| "method_name Recruiter_Capture = ''recruiter_capture''"
| "method_name Upload_Flow = ''upload_flow''"
| "method_name Import = ''import''"
| "method_name Portal_Self_Service = ''portal_self_service''"
| "method_name Recruiter_Create_Default = ''recruiter_create_default''"

fun operation_name :: "check_operation \<Rightarrow> string" where
  "operation_name Op_Ingestion = ''ingestion''"
| "operation_name Op_Matching = ''matching''"
| "operation_name Op_Examination = ''examination''"
| "operation_name Op_Selection = ''selection''"
| "operation_name Op_Packaging = ''packaging''"
| "operation_name Op_Submittal = ''submittal''"
| "operation_name Op_Cross_Tenant = ''cross_tenant''"
| "operation_name Op_Communication = ''communication''"
| "operation_name Op_Recording = ''recording''"
| "operation_name Op_Transcription = ''transcription''"
| "operation_name Op_Ai_Processing = ''ai_processing''"

record grant_request =
  gq_talent_record_id :: string
  gq_scope :: consent_scope
  gq_captured_method :: captured_method
  gq_consent_version :: string
  gq_occurred_at :: string
  gq_consent_text_snapshot :: "string option"
  gq_consent_document_id :: "string option"
  gq_expires_at :: "string option"
  gq_metadata :: "json option"

text \<open>A property that is undefined does not appear in the object.\<close>

definition opt_prop :: "string \<Rightarrow> ('a \<Rightarrow> json) \<Rightarrow> 'a option \<Rightarrow> (string \<times> json) list" where
  "opt_prop name f v = (case v of None \<Rightarrow> [] | Some x \<Rightarrow> [(name, f x)])"

definition grant_body :: "grant_request \<Rightarrow> json" where
  "grant_body r = JObj
     ([(''talent_record_id'', JStr (gq_talent_record_id r)), (''scope'', JStr (scope_name (gq_scope r))),
       (''captured_method'', JStr (method_name (gq_captured_method r))),
       (''consent_version'', JStr (gq_consent_version r)), (''occurred_at'', JStr (gq_occurred_at r))]
      @ opt_prop ''consent_text_snapshot'' JStr (gq_consent_text_snapshot r)
      @ opt_prop ''consent_document_id'' JStr (gq_consent_document_id r)
      @ opt_prop ''expires_at'' JStr (gq_expires_at r)
      @ opt_prop ''metadata'' (\<lambda>v. v) (gq_metadata r))"

definition grant ::
  "consent_env \<Rightarrow> crypto \<Rightarrow> consent_db \<Rightarrow> grant_request \<Rightarrow> string \<Rightarrow> auth_context \<Rightarrow>
     consent_db \<times> (consent_error, response_body) result" where
  "grant env cr db request idempotencyKey auth =
     recordConsentEvent env db
       \<lparr> ri_tenant_id = ac_tenant_id auth, ri_talent_record_id = gq_talent_record_id request,
         ri_action = Granted, ri_scope = gq_scope request,
         ri_captured_method = gq_captured_method request,
         ri_captured_by_actor_id = deriveActorId auth,
         ri_consent_version = gq_consent_version request,
         ri_consent_text_snapshot = gq_consent_text_snapshot request,
         ri_consent_document_id = gq_consent_document_id request,
         ri_occurred_at = gq_occurred_at request, ri_expires_at = gq_expires_at request,
         ri_metadata = gq_metadata request, ri_consent_evidence = None,
         ri_idempotencyKey = idempotencyKey,
         ri_requestHash = hashCanonicalizedBody cr (grant_body request) \<rparr>"

record revoke_request =
  vq_talent_record_id :: string
  vq_scope :: consent_scope
  vq_captured_method :: captured_method
  vq_consent_version :: string
  vq_occurred_at :: string
  vq_consent_document_id :: "string option"
  vq_metadata :: "json option"

definition revoke_body :: "revoke_request \<Rightarrow> json" where
  "revoke_body r = JObj
     ([(''talent_record_id'', JStr (vq_talent_record_id r)), (''scope'', JStr (scope_name (vq_scope r))),
       (''captured_method'', JStr (method_name (vq_captured_method r))),
       (''consent_version'', JStr (vq_consent_version r)), (''occurred_at'', JStr (vq_occurred_at r))]
      @ opt_prop ''consent_document_id'' JStr (vq_consent_document_id r)
      @ opt_prop ''metadata'' (\<lambda>v. v) (vq_metadata r))"

definition revoke ::
  "consent_env \<Rightarrow> crypto \<Rightarrow> consent_db \<Rightarrow> revoke_request \<Rightarrow> string \<Rightarrow> auth_context \<Rightarrow>
     consent_db \<times> (consent_error, response_body) result" where
  "revoke env cr db request idempotencyKey auth =
     recordConsentEvent env db
       \<lparr> ri_tenant_id = ac_tenant_id auth, ri_talent_record_id = vq_talent_record_id request,
         ri_action = Revoked, ri_scope = vq_scope request,
         ri_captured_method = vq_captured_method request,
         ri_captured_by_actor_id = deriveActorId auth,
         ri_consent_version = vq_consent_version request, ri_consent_text_snapshot = None,
         ri_consent_document_id = vq_consent_document_id request,
         ri_occurred_at = vq_occurred_at request, ri_expires_at = None,
         ri_metadata = vq_metadata request, ri_consent_evidence = None,
         ri_idempotencyKey = idempotencyKey,
         ri_requestHash = hashCanonicalizedBody cr (revoke_body request) \<rparr>"

definition check_body :: "string \<Rightarrow> check_operation \<Rightarrow> contact_channel option \<Rightarrow> json" where
  "check_body talent operation channel = JObj
     ([(''talent_record_id'', JStr talent), (''operation'', JStr (operation_name operation))]
      @ opt_prop ''channel'' (\<lambda>c. JStr (channel_name c)) channel)"

definition check ::
  "consent_env \<Rightarrow> crypto \<Rightarrow> consent_db \<Rightarrow> string \<Rightarrow> check_operation \<Rightarrow> contact_channel option \<Rightarrow> string option \<Rightarrow>
     auth_context \<Rightarrow> consent_db \<times> (consent_error, response_body) result" where
  "check env cr db talent operation channel idempotencyKey auth =
     resolveConsentState env db
       \<lparr> ci_tenant_id = ac_tenant_id auth, ci_talent_record_id = talent, ci_operation = operation,
         ci_channel = channel, ci_idempotencyKey = idempotencyKey,
         ci_requestHash = hashCanonicalizedBody cr (check_body talent operation channel) \<rparr>"

text \<open>The service check: one of the three conversation operations, no key.\<close>

datatype service_operation = Svc_Recording | Svc_Transcription | Svc_Ai_Processing

fun service_to_operation :: "service_operation \<Rightarrow> check_operation" where
  "service_to_operation Svc_Recording = Op_Recording"
| "service_to_operation Svc_Transcription = Op_Transcription"
| "service_to_operation Svc_Ai_Processing = Op_Ai_Processing"

definition checkOperationForService ::
  "consent_env \<Rightarrow> crypto \<Rightarrow> consent_db \<Rightarrow> string \<Rightarrow> string \<Rightarrow> service_operation \<Rightarrow>
     consent_db \<times> (consent_error, response_body) result" where
  "checkOperationForService env cr db tenant talent operation =
     resolveConsentState env db
       \<lparr> ci_tenant_id = tenant, ci_talent_record_id = talent,
         ci_operation = service_to_operation operation, ci_channel = None, ci_idempotencyKey = None,
         ci_requestHash = hashCanonicalizedBody cr
           (JObj [(''tenant_id'', JStr tenant), (''talent_record_id'', JStr talent),
                  (''operation'', JStr (operation_name (service_to_operation operation)))]) \<rparr>"

section \<open>Capture and defaults\<close>

definition CONSENT_DEFAULT_TERM_MONTHS :: int where
  "CONSENT_DEFAULT_TERM_MONTHS = 12"

text \<open>The outside of a later write of the same call: four ids and row times per write.\<close>

definition env_from :: "consent_env \<Rightarrow> nat \<Rightarrow> consent_env" where
  "env_from env k = env \<lparr> env_uuid := (\<lambda>n. env_uuid env (4 * k + n)),
                          env_row_now := (\<lambda>n. env_row_now env (4 * k + n)) \<rparr>"

text \<open>
  What a caller reads off a stored body; a field the body does not have is undefined
  (None).
\<close>

fun body_field :: "(grant_response \<Rightarrow> string) \<Rightarrow> (revoke_response \<Rightarrow> string) \<Rightarrow> string \<Rightarrow> response_body \<Rightarrow> string option" where
  "body_field g r name (Grant_Body b) = Some (g b)"
| "body_field g r name (Revoke_Body b) = Some (r b)"
| "body_field g r name (Decision_Body d) = None"
| "body_field g r name (Foreign_Body v) = (case js_obj_get v name of Some (JStr s) \<Rightarrow> Some s | _ \<Rightarrow> None)"

fun body_expires_at :: "response_body \<Rightarrow> string option" where
  "body_expires_at (Grant_Body b) = gr_expires_at b"
| "body_expires_at (Foreign_Body v) = (case js_obj_get v ''expires_at'' of Some (JStr s) \<Rightarrow> Some s | _ \<Rightarrow> None)"
| "body_expires_at _ = None"

record capture_result =
  cr_scope :: consent_scope
  cr_event_id :: "string option"
  cr_consent_version :: "string option"
  cr_consent_text_hash :: string
  cr_occurred_at :: "string option"
  cr_expires_at :: "string option"
  cr_recorded_at :: "string option"

definition capture_result_of :: "consent_scope \<Rightarrow> string \<Rightarrow> response_body \<Rightarrow> capture_result" where
  "capture_result_of scope hash body =
     \<lparr> cr_scope = scope, cr_event_id = body_field gr_event_id rr_event_id ''event_id'' body,
       cr_consent_version = body_field gr_consent_version rr_consent_version ''consent_version'' body,
       cr_consent_text_hash = hash,
       cr_occurred_at = body_field gr_occurred_at rr_occurred_at ''occurred_at'' body,
       cr_expires_at = body_expires_at body,
       cr_recorded_at = body_field gr_recorded_at rr_recorded_at ''recorded_at'' body \<rparr>"

text \<open>
  A loop of \<open>await recordConsentEvent(...)\<close>: each write is its own transaction, so an error
  leaves the writes before it in place.
\<close>

fun record_each ::
  "(nat \<Rightarrow> consent_env) \<Rightarrow> nat \<Rightarrow> consent_db \<Rightarrow> ((consent_scope \<times> string) \<times> record_input) list \<Rightarrow>
     consent_db \<times> (consent_error, capture_result list) result" where
  "record_each envs k db [] = (db, Inr [])"
| "record_each envs k db (((scope, hash), inp) # rest) =
     (case recordConsentEvent (envs k) db inp of
        (db1, Inl e) \<Rightarrow> (db1, Inl e)
      | (db1, Inr body) \<Rightarrow>
          (case record_each envs (Suc k) db1 rest of
             (db2, Inl e) \<Rightarrow> (db2, Inl e)
           | (db2, Inr rs) \<Rightarrow> (db2, Inr (capture_result_of scope hash body # rs))))"

datatype capture_method = Cap_Self_Signup | Cap_Recruiter_Capture

fun capture_to_method :: "capture_method \<Rightarrow> captured_method" where
  "capture_to_method Cap_Self_Signup = Self_Signup"
| "capture_to_method Cap_Recruiter_Capture = Recruiter_Capture"

definition capture_version :: "capture_method \<Rightarrow> string" where
  "capture_version m =
     (if m = Cap_Recruiter_Capture then CONSENT_TEXT_RECRUITER_CAPTURE_VERSION else CONSENT_TEXT_CURRENT_VERSION)"

definition renderCaptureText :: "crypto \<Rightarrow> capture_method \<Rightarrow> capture_scope \<Rightarrow> string \<Rightarrow> string \<times> string" where
  "renderCaptureText cr m scope tenant =
     (if m = Cap_Recruiter_Capture
      then (the (renderRecruiterCaptureConsentText CONSENT_TEXT_RECRUITER_CAPTURE_VERSION scope),
            snd (the (hashRecruiterCaptureConsentText cr CONSENT_TEXT_RECRUITER_CAPTURE_VERSION scope)))
      else (the (renderPortalConsentText CONSENT_TEXT_CURRENT_VERSION tenant (capture_to_scope scope)),
            snd (the (hashPortalConsentText cr CONSENT_TEXT_CURRENT_VERSION tenant (capture_to_scope scope)))))"

definition getCaptureTexts :: "crypto \<Rightarrow> capture_method \<Rightarrow> string \<Rightarrow> string \<times> (capture_scope \<times> string) list" where
  "getCaptureTexts cr m tenant =
     (capture_version m, map (\<lambda>scope. (scope, fst (renderCaptureText cr m scope tenant))) CONSENT_CAPTURE_SCOPES)"

text \<open>The first selected scope (in order of selection) with a prerequisite that is not selected.\<close>

definition missing_dependency :: "capture_scope list \<Rightarrow> (consent_scope \<times> consent_scope) option" where
  "missing_dependency selected =
     find (\<lambda>p. snd p \<notin> capture_to_scope ` set selected)
       (concat (map (\<lambda>s. map (Pair (capture_to_scope s)) (SCOPE_DEPENDENCY_CHAIN (capture_to_scope s))) (js_dedupe selected)))"

definition capture_input ::
  "consent_env \<Rightarrow> crypto \<Rightarrow> string \<Rightarrow> capture_method \<Rightarrow> auth_context \<Rightarrow> string \<Rightarrow> int \<Rightarrow> capture_scope \<Rightarrow>
     (consent_scope \<times> string) \<times> record_input" where
  "capture_input env cr talent m auth idempotencyKey now scope =
     (let rendered = renderCaptureText cr m scope (ac_tenant_id auth);
          s = capture_to_scope scope
      in ((s, snd rendered),
          \<lparr> ri_tenant_id = ac_tenant_id auth, ri_talent_record_id = talent, ri_action = Granted,
            ri_scope = s, ri_captured_method = capture_to_method m,
            ri_captured_by_actor_id = deriveActorId auth, ri_consent_version = capture_version m,
            ri_consent_text_snapshot = Some (fst rendered), ri_consent_document_id = None,
            ri_occurred_at = env_iso env now,
            ri_expires_at = Some (env_iso env (add_months CONSENT_DEFAULT_TERM_MONTHS now)),
            ri_metadata = None,
            ri_consent_evidence = Some \<lparr> cv_text_hash = snd rendered, cv_text_version = capture_version m,
              cv_notice_version = Some NOTICE_TEXT_CURRENT_VERSION,
              cv_channel = (if m = Cap_Recruiter_Capture then ''recruiter_capture'' else ''ats_self'') \<rparr>,
            ri_idempotencyKey = idempotencyKey @ '':'' @ scope_name s,
            ri_requestHash = hashCanonicalizedBody cr (JObj [(''consent_capture'', JObj
              [(''talent_record_id'', JStr talent), (''scope'', JStr (scope_name s)),
               (''captured_method'', JStr (method_name (capture_to_method m))),
               (''consent_version'', JStr (capture_version m))])]) \<rparr>))"

record capture_response =
  cp_talent_record_id :: string
  cp_captured_method :: capture_method
  cp_consent_version :: string
  cp_results :: "capture_result list"

definition captureProfileConsent ::
  "consent_env \<Rightarrow> crypto \<Rightarrow> consent_db \<Rightarrow> string \<Rightarrow> capture_method \<Rightarrow> capture_scope list \<Rightarrow> auth_context \<Rightarrow> string \<Rightarrow>
     int option \<Rightarrow> consent_db \<times> (consent_error, capture_response) result" where
  "captureProfileConsent env cr db talent m scopes auth idempotencyKey now_opt =
     (let now = (case now_opt of None \<Rightarrow> env_now env | Some t \<Rightarrow> t)
      in case missing_dependency scopes of
           Some (scope, dep) \<Rightarrow>
             (db, Inl (AramoError ''INVALID_SCOPE_COMBINATION'' 422 (Missing_Dependency scope dep)))
         | None \<Rightarrow>
             (case record_each (env_from env) 0 db
                     (map (capture_input env cr talent m auth idempotencyKey now)
                        (filter (\<lambda>s. s \<in> set scopes) CONSENT_CAPTURE_SCOPES)) of
                (db', Inl e) \<Rightarrow> (db', Inl e)
              | (db', Inr results) \<Rightarrow>
                  (db', Inr \<lparr> cp_talent_record_id = talent, cp_captured_method = m,
                              cp_consent_version = capture_version m, cp_results = results \<rparr>)))"

definition RECRUITER_CREATE_DEFAULT_SCOPES :: "consent_scope list" where
  "RECRUITER_CREATE_DEFAULT_SCOPES = [Profile_Storage, Matching, Contacting]"

definition RECRUITER_CREATE_DEFAULT_CHANNELS :: "contact_channel list" where
  "RECRUITER_CREATE_DEFAULT_CHANNELS = [Email, Phone]"

datatype default_result =
    Recorded "capture_result list"
  | Skipped_Not_Recruiter
  | Skipped_Ledger_Not_Empty

definition default_input ::
  "consent_env \<Rightarrow> crypto \<Rightarrow> string \<Rightarrow> auth_context \<Rightarrow> int \<Rightarrow> consent_scope \<Rightarrow> (consent_scope \<times> string) \<times> record_input" where
  "default_input env cr talent auth now scope =
     (let version = CONSENT_TEXT_RECRUITER_CREATE_DEFAULT_VERSION;
          hash = snd (the (hashRecruiterCreateDefaultConsentText cr version (ac_sub auth)))
      in ((scope, hash),
          \<lparr> ri_tenant_id = ac_tenant_id auth, ri_talent_record_id = talent, ri_action = Granted,
            ri_scope = scope, ri_captured_method = Recruiter_Create_Default,
            ri_captured_by_actor_id = Some (ac_sub auth), ri_consent_version = version,
            ri_consent_text_snapshot = renderRecruiterCreateDefaultConsentText version (ac_sub auth),
            ri_consent_document_id = None, ri_occurred_at = env_iso env now,
            ri_expires_at = Some (env_iso env (add_months CONSENT_DEFAULT_TERM_MONTHS now)),
            ri_metadata =
              (if scope = Contacting
               then Some (JObj [(''permitted_channels'',
                      JArr (map (\<lambda>c. JStr (channel_name c)) RECRUITER_CREATE_DEFAULT_CHANNELS))])
               else None),
            ri_consent_evidence = Some \<lparr> cv_text_hash = hash, cv_text_version = version,
              cv_notice_version = None, cv_channel = ''recruiter_create_default'' \<rparr>,
            ri_idempotencyKey = ''recruiter-create-default:'' @ talent @ '':'' @ scope_name scope,
            ri_requestHash = hashCanonicalizedBody cr (JObj [(''recruiter_create_default'', JObj
              [(''talent_record_id'', JStr talent), (''scope'', JStr (scope_name scope)),
               (''consent_version'', JStr version)])]) \<rparr>))"

definition recordRecruiterCreateDefault ::
  "consent_env \<Rightarrow> crypto \<Rightarrow> cursor_codec \<Rightarrow> consent_db \<Rightarrow> string \<Rightarrow> auth_context \<Rightarrow> int option \<Rightarrow>
     consent_db \<times> (consent_error, default_result) result" where
  "recordRecruiterCreateDefault env cr cc db talent auth now_opt =
     (if ac_consumer_type auth \<noteq> Con_Recruiter then (db, Inr Skipped_Not_Recruiter)
      else if hr_events (resolveHistory env cc db (ac_tenant_id auth) talent None 1 None) \<noteq> []
      then (db, Inr Skipped_Ledger_Not_Empty)
      else let now = (case now_opt of None \<Rightarrow> env_now env | Some t \<Rightarrow> t)
           in (case record_each (env_from env) 0 db
                     (map (default_input env cr talent auth now) RECRUITER_CREATE_DEFAULT_SCOPES) of
                 (db', Inl e) \<Rightarrow> (db', Inl e)
               | (db', Inr results) \<Rightarrow> (db', Inr (Recorded results))))"

section \<open>Portal\<close>

text \<open>\<open>grantAsPortal\<close> and \<open>revokeAsPortal\<close>; an unknown text version throws.\<close>

definition portal_evidence :: "string \<times> string \<Rightarrow> consent_evidence" where
  "portal_evidence evidence =
     \<lparr> cv_text_hash = snd evidence, cv_text_version = fst evidence,
       cv_notice_version = Some NOTICE_TEXT_CURRENT_VERSION, cv_channel = ''portal'' \<rparr>"

definition portal_input ::
  "consent_env \<Rightarrow> crypto \<Rightarrow> consent_action \<Rightarrow> string \<Rightarrow> consent_scope \<Rightarrow> auth_context \<Rightarrow> string \<Rightarrow> string \<times> string \<Rightarrow>
     int \<Rightarrow> record_input" where
  "portal_input env cr action talent scope auth idempotencyKey evidence now =
     \<lparr> ri_tenant_id = ac_tenant_id auth, ri_talent_record_id = talent, ri_action = action,
       ri_scope = scope, ri_captured_method = Portal_Self_Service,
       ri_captured_by_actor_id = Some (ac_sub auth), ri_consent_version = fst evidence,
       ri_consent_text_snapshot = None, ri_consent_document_id = None,
       ri_occurred_at = env_iso env now,
       ri_expires_at =
         (if action = Granted then Some (env_iso env (add_months CONSENT_DEFAULT_TERM_MONTHS now)) else None),
       ri_metadata = None, ri_consent_evidence = Some (portal_evidence evidence),
       ri_idempotencyKey = idempotencyKey,
       ri_requestHash = hashCanonicalizedBody cr
         (JObj [(if action = Granted then ''portal_consent_grant'' else ''portal_consent_revoke'', JObj
            [(''talent_record_id'', JStr talent), (''scope'', JStr (scope_name scope))])]) \<rparr>"

definition actAsPortal ::
  "consent_action \<Rightarrow> consent_env \<Rightarrow> crypto \<Rightarrow> consent_db \<Rightarrow> string \<Rightarrow> consent_scope \<Rightarrow> auth_context \<Rightarrow> string \<Rightarrow>
     string option \<Rightarrow> int option \<Rightarrow> consent_db \<times> (consent_error, response_body) result" where
  "actAsPortal action env cr db talent scope auth idempotencyKey version_opt now_opt =
     (let now = (case now_opt of None \<Rightarrow> env_now env | Some t \<Rightarrow> t);
          version = (case version_opt of None \<Rightarrow> CONSENT_TEXT_CURRENT_VERSION | Some v \<Rightarrow> v)
      in case hashPortalConsentText cr version (ac_tenant_id auth) scope of
           None \<Rightarrow> (db, Inl Driver_Error)
         | Some evidence \<Rightarrow>
             recordConsentEvent env db (portal_input env cr action talent scope auth idempotencyKey evidence now))"

definition grantAsPortal where "grantAsPortal = actAsPortal Granted"

definition revokeAsPortal where "revokeAsPortal = actAsPortal Revoked"

definition getPortalConsentTexts :: "string \<Rightarrow> string \<times> (consent_scope \<times> string) list" where
  "getPortalConsentTexts tenant =
     (CONSENT_TEXT_CURRENT_VERSION,
      map (\<lambda>scope. (scope, the (renderPortalConsentText CONSENT_TEXT_CURRENT_VERSION tenant scope))) PROFILE_CONSENT_SCOPES)"

text \<open>\<open>/^-?\d+$/\<close> and \<open>Number.parseInt(s, 10)\<close>.\<close>

definition is_int_text :: "string \<Rightarrow> bool" where
  "is_int_text s = (let d = (if take 1 s = ''-'' then drop 1 s else s) in d \<noteq> [] \<and> list_all is_digit d)"

definition int_of_text :: "string \<Rightarrow> int" where
  "int_of_text s = (if take 1 s = ''-'' then - digits_value (drop 1 s) else digits_value s)"

definition parsePortalLimit :: "string option \<Rightarrow> (consent_error, nat) result" where
  "parsePortalLimit limitRaw =
     (case limitRaw of
        None \<Rightarrow> Inr 50
      | Some s \<Rightarrow>
          if s = [] then Inr 50
          else if \<not> is_int_text s then Inl (AramoError ''VALIDATION_ERROR'' 400 (Invalid_Field ''limit''))
          else let parsed = int_of_text s
               in if parsed < 1 then Inl (AramoError ''VALIDATION_ERROR'' 400 (Invalid_Field ''limit''))
                  else Inr (if parsed > 200 then 200 else nat parsed))"

definition parsePortalScopeFilter :: "string option \<Rightarrow> (consent_error, consent_scope option) result" where
  "parsePortalScopeFilter scopeRaw =
     (case scopeRaw of
        None \<Rightarrow> Inr None
      | Some s \<Rightarrow>
          if s = [] then Inr None
          else case find (\<lambda>sc. scope_name sc = s) CONSENT_SCOPES of
                 None \<Rightarrow> Inl (AramoError ''VALIDATION_ERROR'' 400 (Invalid_Field ''scope''))
               | Some sc \<Rightarrow> Inr (Some sc))"

definition parsePortalCursor :: "consent_env \<Rightarrow> cursor_codec \<Rightarrow> string option \<Rightarrow> (consent_error, cursor option) result" where
  "parsePortalCursor env cc cursorRaw =
     (case cursorRaw of
        None \<Rightarrow> Inr None
      | Some s \<Rightarrow>
          if s = [] then Inr None
          else case decodeCursor env cc s of
                 Inl _ \<Rightarrow> Inl (AramoError ''VALIDATION_ERROR'' 400 (Invalid_Field ''cursor''))
               | Inr c \<Rightarrow> Inr (Some c))"

definition getPortalHistory ::
  "consent_env \<Rightarrow> cursor_codec \<Rightarrow> consent_db \<Rightarrow> string \<Rightarrow> string option \<Rightarrow> string option \<Rightarrow> string option \<Rightarrow> auth_context \<Rightarrow>
     (consent_error, history_response) result" where
  "getPortalHistory env cc db talent scopeRaw limitRaw cursorRaw auth =
     rbind (parsePortalScopeFilter scopeRaw) (\<lambda>scope.
     rbind (parsePortalLimit limitRaw) (\<lambda>limit.
     rbind (parsePortalCursor env cc cursorRaw) (\<lambda>cursor.
       Inr (resolveHistory env cc db (ac_tenant_id auth) talent scope limit cursor))))"

section \<open>Source-derived consent\<close>

datatype consent_source = Talent_Direct | Src_Indeed | Src_Github | Src_Astre_Import

fun source_name :: "consent_source \<Rightarrow> string" where
  "source_name Talent_Direct = ''talent_direct''"
| "source_name Src_Indeed = ''indeed''"
| "source_name Src_Github = ''github''"
| "source_name Src_Astre_Import = ''astre_import''"

text \<open>The grants of a source, each with its own metadata entries.\<close>

fun SOURCE_SCOPE_GRANTS :: "consent_source \<Rightarrow> (consent_scope \<times> (string \<times> json) list) list" where
  "SOURCE_SCOPE_GRANTS Src_Indeed =
     [(Profile_Storage, [(''source_terms'', JStr ''indeed'')]),
      (Resume_Processing, [(''source_terms'', JStr ''indeed'')]),
      (Matching, [(''source_terms'', JStr ''indeed'')]),
      (Contacting, [(''permitted_channels'', JArr [JStr ''indeed''])])]"
| "SOURCE_SCOPE_GRANTS Src_Github =
     [(Profile_Storage, [(''source_terms'', JStr ''github_public'')]),
      (Matching, [(''source_terms'', JStr ''github_public'')])]"
| "SOURCE_SCOPE_GRANTS Src_Astre_Import =
     [(Profile_Storage, [(''lawful_basis'', JStr ''legitimate_interest'')]),
      (Resume_Processing, []), (Matching, []), (Contacting, [])]"
| "SOURCE_SCOPE_GRANTS Talent_Direct =
     [(Profile_Storage, []), (Resume_Processing, []), (Matching, []), (Contacting, [])]"

record source_input =
  si_tenant_id :: string
  si_talent_record_id :: string
  si_source :: consent_source
  si_occurred_at :: string
  si_source_class :: "string option"

text \<open>The idempotency key is a fresh UUID, the fifth id of each write.\<close>

definition source_grant_input ::
  "consent_env \<Rightarrow> crypto \<Rightarrow> source_input \<Rightarrow> nat \<times> consent_scope \<times> (string \<times> json) list \<Rightarrow> record_input" where
  "source_grant_input env cr inp g =
     (case g of (k, scope, metadata) \<Rightarrow>
        \<lparr> ri_tenant_id = si_tenant_id inp, ri_talent_record_id = si_talent_record_id inp,
          ri_action = Granted, ri_scope = scope,
          ri_captured_method = (if si_source inp = Talent_Direct then Self_Signup else Import),
          ri_captured_by_actor_id = None, ri_consent_version = ''source-derived-v1'',
          ri_consent_text_snapshot = None, ri_consent_document_id = None,
          ri_occurred_at = si_occurred_at inp, ri_expires_at = None,
          ri_metadata = Some (JObj
            ([(''source_consent_origin'', JStr (source_name (si_source inp))),
              (''source_basis'', JObj
                ([(''channel'', JStr (source_name (si_source inp)))]
                 @ opt_prop ''source_class'' JStr (si_source_class inp)
                 @ [(''captured_at'', JStr (si_occurred_at inp))]))]
             @ metadata)),
          ri_consent_evidence = None,
          ri_idempotencyKey = env_uuid env (5 * k),
          ri_requestHash = hashCanonicalizedBody cr
            (JObj [(''tenant_id'', JStr (si_tenant_id inp)),
                   (''talent_record_id'', JStr (si_talent_record_id inp)),
                   (''source'', JStr (source_name (si_source inp))), (''scope'', JStr (scope_name scope))]) \<rparr>)"

definition source_env :: "consent_env \<Rightarrow> nat \<Rightarrow> consent_env" where
  "source_env env k = env \<lparr> env_uuid := (\<lambda>n. env_uuid env (5 * k + 1 + n)),
                            env_row_now := (\<lambda>n. env_row_now env (4 * k + n)) \<rparr>"

definition registerSourceDerivedConsent ::
  "consent_env \<Rightarrow> crypto \<Rightarrow> consent_db \<Rightarrow> source_input \<Rightarrow> consent_db \<times> (consent_error, unit) result" where
  "registerSourceDerivedConsent env cr db inp =
     (case record_each (source_env env) 0 db
             (map (\<lambda>g. ((fst (snd g), []), source_grant_input env cr inp g))
                (enumerate 0 (SOURCE_SCOPE_GRANTS (si_source inp)))) of
        (db', Inl e) \<Rightarrow> (db', Inl e)
      | (db', Inr _) \<Rightarrow> (db', Inr ()))"

section \<open>Writing several events\<close>

definition input_key :: "record_input \<Rightarrow> string \<times> string" where
  "input_key inp = (ri_tenant_id inp, ri_idempotencyKey inp)"

definition batch_events ::
  "(nat \<Rightarrow> consent_env) \<Rightarrow> nat \<Rightarrow> ((consent_scope \<times> string) \<times> record_input) list \<Rightarrow> int \<Rightarrow> int option \<Rightarrow> consent_event list" where
  "batch_events envs k xs t x = map (\<lambda>p. new_event (envs (fst p)) (snd (snd p)) t x) (enumerate k xs)"

lemma record_fresh:
  assumes "ri_action inp = Granted" "stored db (input_key inp) = None"
    and "env_parse_date env (ri_occurred_at inp) = Some t" "parse_expiry env inp = Some x"
  shows "recordConsentEvent env db inp = (fst (write_event env db inp t x), Inr (snd (write_event env db inp t x)))"
  using assms by (auto simp: recordConsentEvent_def stored_def input_key_def split: prod.splits)

lemma stored_after_write:
  "stored (fst (write_event env db inp t x)) k =
     (case stored db k of Some y \<Rightarrow> Some y
      | None \<Rightarrow> if k = input_key inp then Some (ri_requestHash inp, snd (write_event env db inp t x)) else None)"
  using write_event_idempotency [of env db inp t x "fst (write_event env db inp t x)" "snd (write_event env db inp t x)" k]
  by (simp add: input_key_def)

text \<open>
  With fresh, distinct keys and readable dates the whole batch is recorded, one event per input,
  in order.
\<close>

lemma batch_events_simps [simp]:
  "batch_events envs k [] t x = []"
  "batch_events envs k (p # xs) t x = new_event (envs k) (snd p) t x # batch_events envs (Suc k) xs t x"
  by (simp_all add: batch_events_def)

lemma record_each_writes:
  assumes "\<forall>p\<in>set xs. ri_action (snd p) = Granted \<and> stored db (input_key (snd p)) = None"
    and "\<forall>p\<in>set xs. \<forall>k. env_parse_date (envs k) (ri_occurred_at (snd p)) = Some t \<and> parse_expiry (envs k) (snd p) = Some x"
    and "distinct (map (input_key \<circ> snd) xs)"
  shows "\<exists>db' rs. record_each envs k db xs = (db', Inr rs) \<and> map cr_scope rs = map (fst \<circ> fst) xs \<and>
     db_ledger db' = db_ledger db @ batch_events envs k xs t x"
  using assms
proof (induction xs arbitrary: k db)
  case (Cons p xs)
  obtain s h inp where p: "p = ((s, h), inp)" by (metis prod.collapse)
  let ?w = "write_event (envs k) db inp t x"
  have rec: "recordConsentEvent (envs k) db inp = (fst ?w, Inr (snd ?w))"
    using Cons.prems(1,2) by (intro record_fresh) (auto simp: p)
  have fresh: "\<forall>q\<in>set xs. ri_action (snd q) = Granted \<and> stored (fst ?w) (input_key (snd q)) = None"
    using Cons.prems(1,3) by (auto simp: stored_after_write p image_iff)
  obtain db' rs where "record_each envs (Suc k) (fst ?w) xs = (db', Inr rs)"
    "map cr_scope rs = map (fst \<circ> fst) xs"
    "db_ledger db' = db_ledger (fst ?w) @ batch_events envs (Suc k) xs t x"
    using Cons.IH [OF fresh, of "Suc k"] Cons.prems(2,3) by auto
  then show ?case by (simp add: p rec capture_result_of_def)
qed simp

lemma batch_events_mem:
  "e \<in> set (batch_events envs k xs t x) \<Longrightarrow> \<exists>n. \<exists>p\<in>set xs. e = new_event (envs n) (snd p) t x"
proof (induction xs arbitrary: k)
  case (Cons p xs)
  then consider "e = new_event (envs k) (snd p) t x" | "e \<in> set (batch_events envs (Suc k) xs t x)" by auto
  then show ?case
  proof cases
    case 2
    from Cons.IH [OF this] show ?thesis by auto
  qed auto
qed simp

lemma batch_events_scopes: "map ev_scope (batch_events envs k xs t x) = map (ri_scope \<circ> snd) xs"
  by (induction xs arbitrary: k) auto

section \<open>Properties of the services\<close>

text \<open>The date codec reads back what it prints.\<close>

definition dates_ok :: "consent_env \<Rightarrow> bool" where
  "dates_ok env \<longleftrightarrow> (\<forall>t. env_parse_date env (env_iso env t) = Some t)"

lemma env_from_sel [simp]:
  "env_now (env_from env k) = env_now env" "env_iso (env_from env k) = env_iso env"
  "env_parse_date (env_from env k) = env_parse_date env"
  by (simp_all add: env_from_def)

lemma source_env_sel [simp]:
  "env_now (source_env env k) = env_now env" "env_iso (source_env env k) = env_iso env"
  "env_parse_date (source_env env k) = env_parse_date env"
  by (simp_all add: source_env_def)

lemma capture_to_scope_inject [simp]: "capture_to_scope a = capture_to_scope b \<longleftrightarrow> a = b"
  by (cases a; cases b) simp_all

lemma missing_dependency_None:
  "missing_dependency scopes = None \<longleftrightarrow>
     (\<forall>s\<in>set scopes. set (SCOPE_DEPENDENCY_CHAIN (capture_to_scope s)) \<subseteq> capture_to_scope ` set scopes)"
  unfolding missing_dependency_def find_None_iff by (auto simp: image_iff)

lemma capture_input_sel [simp]:
  "fst (fst (capture_input env cr talent m auth key now s)) = capture_to_scope s"
  "ri_action (snd (capture_input env cr talent m auth key now s)) = Granted"
  "ri_scope (snd (capture_input env cr talent m auth key now s)) = capture_to_scope s"
  "ri_tenant_id (snd (capture_input env cr talent m auth key now s)) = ac_tenant_id auth"
  "ri_talent_record_id (snd (capture_input env cr talent m auth key now s)) = talent"
  "ri_captured_method (snd (capture_input env cr talent m auth key now s)) = capture_to_method m"
  "ri_occurred_at (snd (capture_input env cr talent m auth key now s)) = env_iso env now"
  "ri_expires_at (snd (capture_input env cr talent m auth key now s)) =
     Some (env_iso env (add_months CONSENT_DEFAULT_TERM_MONTHS now))"
  "input_key (snd (capture_input env cr talent m auth key now s)) =
     (ac_tenant_id auth, key @ '':'' @ scope_name (capture_to_scope s))"
  by (simp_all add: capture_input_def Let_def input_key_def)

text \<open>
  Capturing profile consent: a selection that misses a prerequisite of a selected scope is
  rejected with the 422 and changes nothing; any other selection, under an unused key, is recorded
  completely and exactly: one grant per selected scope, prerequisites first, dated now, with the
  twelve-month term and the capture's method, and no scope that was not selected.
\<close>

theorem capture_exact:
  assumes "dates_ok env"
    and fresh: "\<forall>s. stored db (ac_tenant_id auth, key @ '':'' @ scope_name s) = None"
  shows "if \<forall>s\<in>set scopes. set (SCOPE_DEPENDENCY_CHAIN (capture_to_scope s)) \<subseteq> capture_to_scope ` set scopes
    then \<exists>db' r new. captureProfileConsent env cr db talent m scopes auth key (Some now) = (db', Inr r) \<and>
        db_ledger db' = db_ledger db @ new \<and>
        map ev_scope new = map capture_to_scope (filter (\<lambda>s. s \<in> set scopes) CONSENT_CAPTURE_SCOPES) \<and>
        map cr_scope (cp_results r) = map ev_scope new \<and>
        (\<forall>e\<in>set new. ev_action e = Granted \<and> ev_tenant_id e = ac_tenant_id auth \<and> ev_talent_record_id e = talent \<and>
           ev_captured_method e = capture_to_method m \<and> ev_occurred_at e = now \<and>
           ev_expires_at e = Some (add_months CONSENT_DEFAULT_TERM_MONTHS now))
    else \<exists>s d. captureProfileConsent env cr db talent m scopes auth key (Some now) =
        (db, Inl (AramoError ''INVALID_SCOPE_COMBINATION'' 422 (Missing_Dependency s d)))"
proof (cases "missing_dependency scopes")
  case None
  let ?sel = "filter (\<lambda>s. s \<in> set scopes) CONSENT_CAPTURE_SCOPES"
  let ?xs = "map (capture_input env cr talent m auth key now) ?sel"
  let ?x = "Some (add_months CONSENT_DEFAULT_TERM_MONTHS now)"
  have "distinct ?sel" by (simp add: CONSENT_CAPTURE_SCOPES_def)
  then have d: "distinct (map (input_key \<circ> snd) ?xs)" by (auto simp: distinct_map inj_on_def)
  obtain db' rs where rs: "record_each (env_from env) 0 db ?xs = (db', Inr rs)"
    "map cr_scope rs = map (fst \<circ> fst) ?xs"
    "db_ledger db' = db_ledger db @ batch_events (env_from env) 0 ?xs now ?x"
    using record_each_writes [of ?xs db "env_from env" now ?x 0] d assms
    by (auto simp: dates_ok_def parse_expiry_def)
  let ?new = "batch_events (env_from env) 0 ?xs now ?x"
  have "captureProfileConsent env cr db talent m scopes auth key (Some now) =
      (db', Inr \<lparr> cp_talent_record_id = talent, cp_captured_method = m,
         cp_consent_version = capture_version m, cp_results = rs \<rparr>)"
    unfolding captureProfileConsent_def Let_def None option.case by (simp add: rs(1))
  moreover have "map ev_scope ?new = map capture_to_scope ?sel"
    by (simp add: batch_events_scopes o_def)
  moreover have "ev_action e = Granted \<and> ev_tenant_id e = ac_tenant_id auth \<and> ev_talent_record_id e = talent \<and>
      ev_captured_method e = capture_to_method m \<and> ev_occurred_at e = now \<and> ev_expires_at e = ?x"
    if "e \<in> set ?new" for e
  proof -
    obtain n s where "e = new_event (env_from env n) (snd (capture_input env cr talent m auth key now s)) now ?x"
      using batch_events_mem [OF \<open>e \<in> set ?new\<close>] by auto
    then show ?thesis by simp
  qed
  ultimately show ?thesis
    using None rs(2,3) unfolding missing_dependency_None by (auto simp: o_def)
next
  case (Some p)
  then show ?thesis
    using missing_dependency_None [of scopes] by (cases p) (auto simp: captureProfileConsent_def)
qed

definition example_auth :: auth_context where
  "example_auth = \<lparr> ac_sub = ''rec'', ac_consumer_type = Con_Recruiter, ac_tenant_id = ''t'' \<rparr>"

definition example_crypto :: crypto where
  "example_crypto = \<lparr> sha_text = (\<lambda>s. s), sha_json = (\<lambda>ts. []) \<rparr>"

lemma codec_env_dates: "dates_ok codec_env"
  by (simp add: dates_ok_def codec_env_def unary_roundtrip)

lemma stored_example_db [simp]: "stored (example_db evs) k = None"
  by (simp add: stored_def find_idempotency_def example_db_def)

theorem capture_exact_witness:
  "(\<exists>db' r. captureProfileConsent codec_env example_crypto (example_db []) ''p'' Cap_Self_Signup
      [Cap_Matching, Cap_Profile_Storage] example_auth ''k'' (Some 7) = (db', Inr r) \<and>
      map ev_scope (db_ledger db') = [Profile_Storage, Matching]) \<and>
   (\<exists>s d. captureProfileConsent codec_env example_crypto (example_db []) ''p'' Cap_Self_Signup
      [Cap_Contacting] example_auth ''k'' (Some 7)
      = (example_db [], Inl (AramoError ''INVALID_SCOPE_COMBINATION'' 422 (Missing_Dependency s d))))"
proof -
  note ex = capture_exact [OF codec_env_dates, of "example_db []" example_auth "''k''" _ example_crypto "''p''" Cap_Self_Signup 7]
  have led: "db_ledger (example_db []) = []" by (simp add: example_db_def)
  have closed: "\<forall>s\<in>set [Cap_Matching, Cap_Profile_Storage]. set (SCOPE_DEPENDENCY_CHAIN (capture_to_scope s))
      \<subseteq> capture_to_scope ` set [Cap_Matching, Cap_Profile_Storage]" by simp
  have "\<exists>db' r. captureProfileConsent codec_env example_crypto (example_db []) ''p'' Cap_Self_Signup
      [Cap_Matching, Cap_Profile_Storage] example_auth ''k'' (Some 7) = (db', Inr r) \<and>
      map ev_scope (db_ledger db') = [Profile_Storage, Matching]"
    using ex [of "[Cap_Matching, Cap_Profile_Storage]"] unfolding if_P [OF closed] led
    by (auto simp: CONSENT_CAPTURE_SCOPES_def)
  moreover have "\<exists>s d. captureProfileConsent codec_env example_crypto (example_db []) ''p'' Cap_Self_Signup
      [Cap_Contacting] example_auth ''k'' (Some 7)
      = (example_db [], Inl (AramoError ''INVALID_SCOPE_COMBINATION'' 422 (Missing_Dependency s d)))"
    using ex [of "[Cap_Contacting]"] by simp
  ultimately show ?thesis by blast
qed

section \<open>The recruiter default\<close>

lemma history_first_page:
  "hr_events (resolveHistory env cc db tenant talent None 1 None) \<noteq> [] \<longleftrightarrow> talent_events db tenant talent \<noteq> []"
proof -
  have "filter (\<lambda>e. history_match (db, tenant, talent, None) e \<and> below_cursor None (event_key e)) (db_ledger db)
      = talent_events db tenant talent"
    by (simp add: talent_events_def below_cursor_def)
  then have "history_find_many (db, tenant, talent, None) None 2
      = take 2 (rev (sort_key event_key (talent_events db tenant talent)))"
    by (simp add: history_find_many_def)
  moreover have "sort_key event_key (talent_events db tenant talent) = [] \<longleftrightarrow> talent_events db tenant talent = []"
    by (metis length_0_conv length_sort)
  ultimately show ?thesis by (auto simp: resolveHistory_def Let_def numeral_2_eq_2)
qed

text \<open>
  The at-create default never touches an existing record: unless the caller is a recruiter and the
  talent's ledger in the tenant is empty, nothing is written, so no revocation or narrower grant is
  ever widened by it.
\<close>

theorem recruiter_default_precedence:
  assumes "ac_consumer_type auth \<noteq> Con_Recruiter \<or> talent_events db (ac_tenant_id auth) talent \<noteq> []"
  shows "recordRecruiterCreateDefault env cr cc db talent auth now =
    (db, Inr (if ac_consumer_type auth \<noteq> Con_Recruiter then Skipped_Not_Recruiter else Skipped_Ledger_Not_Empty))"
  using assms history_first_page [of env cc db "ac_tenant_id auth" talent]
  by (auto simp: recordRecruiterCreateDefault_def)

theorem recruiter_default_precedence_witness:
  "recordRecruiterCreateDefault codec_env example_crypto example_codec
     (example_db [example_event Contacting Revoked Self_Signup 1]) ''p'' example_auth (Some 7)
   = (example_db [example_event Contacting Revoked Self_Signup 1], Inr Skipped_Ledger_Not_Empty)"
  using recruiter_default_precedence [of example_auth "example_db [example_event Contacting Revoked Self_Signup 1]" "''p''"
      codec_env example_crypto example_codec "Some 7"]
  by (simp add: talent_events_def example_defs example_auth_def)

lemma default_input_sel [simp]:
  "ri_action (snd (default_input env cr talent auth now s)) = Granted"
  "ri_scope (snd (default_input env cr talent auth now s)) = s"
  "ri_tenant_id (snd (default_input env cr talent auth now s)) = ac_tenant_id auth"
  "ri_talent_record_id (snd (default_input env cr talent auth now s)) = talent"
  "ri_captured_method (snd (default_input env cr talent auth now s)) = Recruiter_Create_Default"
  "ri_occurred_at (snd (default_input env cr talent auth now s)) = env_iso env now"
  "ri_expires_at (snd (default_input env cr talent auth now s)) =
     Some (env_iso env (add_months CONSENT_DEFAULT_TERM_MONTHS now))"
  "ri_metadata (snd (default_input env cr talent auth now s)) =
     (if s = Contacting then Some (JObj [(''permitted_channels'', JArr [JStr ''email'', JStr ''phone''])]) else None)"
  "input_key (snd (default_input env cr talent auth now s)) =
     (ac_tenant_id auth, ''recruiter-create-default:'' @ talent @ '':'' @ scope_name s)"
  by (simp_all add: default_input_def Let_def input_key_def RECRUITER_CREATE_DEFAULT_CHANNELS_def)

text \<open>A ledger of grants only, with one contacting grant: what the check makes of it.\<close>

lemma grants_only_agree:
  assumes "\<forall>e\<in>set evs. ev_action e = Granted"
  shows "sources_agree evs s \<longleftrightarrow> (\<exists>e\<in>set evs. ev_scope e = s)"
  using assms source_latest_in unfolding sources_agree_def by blast

lemma grants_only_allow:
  assumes acts: "\<forall>e\<in>set evs. ev_action e = Granted"
    and one: "filter (\<lambda>e. ev_scope e = Contacting) evs = [c]"
    and op: "OPERATION_SCOPE_MAP (ci_operation inp) = Contacting" and ch: "ci_channel inp = Some channel"
  shows "check_allows now inp evs \<longleftrightarrow>
    (\<exists>e\<in>set evs. ev_scope e = Profile_Storage) \<and> (\<exists>e\<in>set evs. ev_scope e = Matching) \<and>
    \<not> isStale (ev_occurred_at c) now \<and> may_use (permitted_channels c) (channel_name channel)"
proof -
  have "c \<in> set (filter (\<lambda>e. ev_scope e = Contacting) evs)" using one by simp
  then have c: "\<exists>e\<in>set evs. ev_scope e = Contacting" by auto
  have "filter (\<lambda>e. ev_scope e = Contacting \<and> ev_action e = Granted) evs = filter (\<lambda>e. ev_scope e = Contacting) evs"
    by (rule filter_cong) (use acts in auto)
  then have grants: "filter (\<lambda>e. ev_scope e = Contacting \<and> ev_action e = Granted) evs = [c]" using one by simp
  have "findLatestGrantForScope evs Contacting = Some c"
    by (simp add: findLatestGrantForScope_def grants)
  moreover have "channel_ok evs ch \<longleftrightarrow> may_use (permitted_channels c) ch" for ch
  proof -
    have "grant_latest evs Contacting m = (if ev_captured_method c = m then Some c else None)" for m
    proof -
      have "filter (\<lambda>e. ev_scope e = Contacting \<and> ev_action e = Granted \<and> ev_captured_method e = m) evs
          = filter (\<lambda>e. ev_captured_method e = m) [c]"
        unfolding grants [symmetric] filter_filter by (rule filter_cong) auto
      then show ?thesis by (simp add: grant_latest_def)
    qed
    then show ?thesis by (auto simp: channel_ok_def)
  qed
  ultimately show ?thesis
    using c by (auto simp: check_allows_def Let_def op ch grant_fresh_def grants_only_agree [OF acts])
qed

lemma permitted_channels_new_event:
  "permitted_channels (new_event env inp t x) =
     (case ri_metadata inp of None \<Rightarrow> None
      | Some m \<Rightarrow> (case js_obj_get m ''permitted_channels'' of
            Some (JArr vs) \<Rightarrow> Some (js_dedupe (List.map_filter (\<lambda>v. case v of JStr s \<Rightarrow> Some s | _ \<Rightarrow> None) vs))
          | _ \<Rightarrow> None))"
  by (simp add: permitted_channels_def)

lemma not_stale_within: "t \<le> now \<Longrightarrow> now \<le> t + 365 * ms_per_day \<Longrightarrow> \<not> isStale t now"
  using sub_year(2) [of now] by (simp add: isStale_def STALENESS_WINDOW_MONTHS_def)

text \<open>
  The default a recruiter-created talent gets: on an empty ledger with unused keys the three
  grants are recorded, and for a year every contacting check on that talent is allowed by email and
  phone and denied on every other channel.
\<close>

theorem recruiter_default_effect:
  assumes dates: "dates_ok env" and rec: "ac_consumer_type auth = Con_Recruiter"
    and empty: "talent_events db (ac_tenant_id auth) talent = []"
    and fresh: "\<forall>s. stored db (ac_tenant_id auth, ''recruiter-create-default:'' @ talent @ '':'' @ scope_name s) = None"
    and run: "recordRecruiterCreateDefault env cr cc db talent auth (Some now) = (db', r)"
    and who: "ci_tenant_id chk = ac_tenant_id auth" "ci_talent_record_id chk = talent"
    and op: "OPERATION_SCOPE_MAP (ci_operation chk) = Contacting" "ci_channel chk = Some channel"
    and time: "now \<le> env_now env'" "env_now env' \<le> now + 365 * ms_per_day"
    and runs: "check_runs db' chk"
  shows "allows (snd (resolveConsentState env' db' chk)) \<longleftrightarrow> channel \<in> {Email, Phone}"
proof -
  let ?xs = "map (default_input env cr talent auth now) RECRUITER_CREATE_DEFAULT_SCOPES"
  let ?x = "Some (add_months CONSENT_DEFAULT_TERM_MONTHS now)"
  have d: "distinct (map (input_key \<circ> snd) ?xs)" by (simp add: RECRUITER_CREATE_DEFAULT_SCOPES_def)
  obtain db1 rs where rs: "record_each (env_from env) 0 db ?xs = (db1, Inr rs)"
    "db_ledger db1 = db_ledger db @ batch_events (env_from env) 0 ?xs now ?x"
    using record_each_writes [of ?xs db "env_from env" now ?x 0] d fresh dates
    by (auto simp: dates_ok_def parse_expiry_def)
  have "db' = db1"
    using run rec empty history_first_page [of env cc db "ac_tenant_id auth" talent] rs(1)
    by (auto simp: recordRecruiterCreateDefault_def)
  then have evs: "check_events db' chk =
      [new_event (env_from env 0) (snd (default_input env cr talent auth now Profile_Storage)) now ?x,
       new_event (env_from env 1) (snd (default_input env cr talent auth now Matching)) now ?x,
       new_event (env_from env 2) (snd (default_input env cr talent auth now Contacting)) now ?x]"
    using rs(2) empty who by (simp add: talent_events_def RECRUITER_CREATE_DEFAULT_SCOPES_def numeral_2_eq_2)
  have "permitted_channels (new_event (env_from env 2) (snd (default_input env cr talent auth now Contacting)) now ?x)
      = Some [''email'', ''phone'']"
    by (simp add: permitted_channels_new_event js_obj_get_def map_filter_simps js_dedupe_def)
  then show ?thesis
    unfolding allows_iff [OF runs] evs
    by (subst grants_only_allow [OF _ _ op]) (use not_stale_within [OF time] in \<open>cases channel; simp\<close>)+
qed

theorem recruiter_default_effect_witness:
  "let db' = fst (recordRecruiterCreateDefault codec_env example_crypto example_codec (example_db []) ''p'' example_auth (Some 7));
       contact = (\<lambda>c. allows (snd (resolveConsentState (example_env 9) db' (example_check Op_Submittal (Some c)))))
   in contact Email \<and> contact Phone \<and> \<not> contact Sms"
proof -
  let ?r = "recordRecruiterCreateDefault codec_env example_crypto example_codec (example_db []) ''p'' example_auth (Some 7)"
  have "allows (snd (resolveConsentState (example_env 9) (fst ?r) (example_check Op_Submittal (Some c)))) \<longleftrightarrow> c \<in> {Email, Phone}" for c
    by (rule recruiter_default_effect [where now = 7 and auth = example_auth and talent = "''p''" and r = "snd ?r", OF codec_env_dates])
      (simp_all add: check_runs_def missing_channel_def ms_per_day_def talent_events_def example_auth_def,
       simp_all add: example_defs)
  then show ?thesis by (simp add: Let_def)
qed

section \<open>Source-derived consent\<close>

lemma source_batch_key:
  "input_key (source_grant_input env cr inp (k, s, m)) = (si_tenant_id inp, env_uuid env (5 * k))"
  by (simp add: source_grant_input_def input_key_def)

lemma source_grant_input_sel [simp]:
  "ri_action (source_grant_input env cr inp (k, s, m)) = Granted"
  "ri_scope (source_grant_input env cr inp (k, s, m)) = s"
  "ri_tenant_id (source_grant_input env cr inp (k, s, m)) = si_tenant_id inp"
  "ri_talent_record_id (source_grant_input env cr inp (k, s, m)) = si_talent_record_id inp"
  "ri_occurred_at (source_grant_input env cr inp (k, s, m)) = si_occurred_at inp"
  "ri_expires_at (source_grant_input env cr inp (k, s, m)) = None"
  by (simp_all add: source_grant_input_def)

lemma register_ledger:
  assumes "inj (env_uuid env)" "\<forall>k. stored db (si_tenant_id inp, env_uuid env k) = None"
    and "env_parse_date env (si_occurred_at inp) = Some t"
  shows "\<exists>db'. registerSourceDerivedConsent env cr db inp = (db', Inr ()) \<and>
    db_ledger db' = db_ledger db @ map (\<lambda>g. new_event (source_env env (fst g)) (source_grant_input env cr inp g) t None)
      (enumerate 0 (SOURCE_SCOPE_GRANTS (si_source inp)))"
proof -
  let ?gs = "enumerate 0 (SOURCE_SCOPE_GRANTS (si_source inp))"
  let ?xs = "map (\<lambda>g. ((fst (snd g), [] :: string), source_grant_input env cr inp g)) ?gs"
  have dd: "distinct (map (\<lambda>n. (si_tenant_id inp, env_uuid env (5 * n))) (map fst ?gs))"
    by (simp add: distinct_map inj_on_def inj_eq [OF assms(1)])
  have eq: "map (input_key \<circ> snd) ?xs = map (\<lambda>n. (si_tenant_id inp, env_uuid env (5 * n))) (map fst ?gs)"
    unfolding map_map by (rule map_cong) (auto simp: source_batch_key)
  have d: "distinct (map (input_key \<circ> snd) ?xs)" unfolding eq by (rule dd)
  have "\<exists>db' rs. record_each (source_env env) 0 db ?xs = (db', Inr rs) \<and> map cr_scope rs = map (fst \<circ> fst) ?xs \<and>
     db_ledger db' = db_ledger db @ batch_events (source_env env) 0 ?xs t None"
    by (rule record_each_writes [OF _ _ d]) (use assms(2,3) in \<open>auto simp: source_batch_key parse_expiry_def\<close>)
  moreover have "batch_events (source_env env) k (map (\<lambda>g. ((fst (snd g), []), source_grant_input env cr inp g)) (enumerate k gs)) t None
      = map (\<lambda>g. new_event (source_env env (fst g)) (source_grant_input env cr inp g) t None) (enumerate k gs)" for k gs
    by (induction gs arbitrary: k) auto
  ultimately show ?thesis by (auto simp: registerSourceDerivedConsent_def)
qed

text \<open>The channels a source's arrival opens for contacting.\<close>

fun source_opens :: "consent_source \<Rightarrow> contact_channel \<Rightarrow> bool" where
  "source_opens Src_Indeed c = (c = Indeed)"
| "source_opens Src_Github c = False"
| "source_opens Src_Astre_Import c = True"
| "source_opens Talent_Direct c = True"

lemma source_permitted:
  "permitted_channels (new_event env' (source_grant_input env cr inp (k, s, m)) t x) =
     (case map_of m ''permitted_channels'' of
        Some (JArr vs) \<Rightarrow> Some (js_dedupe (List.map_filter (\<lambda>v. case v of JStr s \<Rightarrow> Some s | _ \<Rightarrow> None) vs))
      | _ \<Rightarrow> None)"
  by (simp add: permitted_channels_new_event source_grant_input_def js_obj_get_def)

text \<open>
  What an arrival opens for contacting: on a talent without consent events, registering the
  source-derived consent succeeds, and for a year after the arrival a contacting check is allowed
  for an Indeed arrival on the Indeed channel only, for a GitHub arrival on none, and for imported
  and direct talents on every channel.
\<close>

theorem source_consent_channels:
  assumes ids: "inj (env_uuid env)" "\<forall>k. stored db (si_tenant_id inp, env_uuid env k) = None"
    and date: "env_parse_date env (si_occurred_at inp) = Some t"
    and empty: "talent_events db (si_tenant_id inp) (si_talent_record_id inp) = []"
    and who: "ci_tenant_id chk = si_tenant_id inp" "ci_talent_record_id chk = si_talent_record_id inp"
    and op: "OPERATION_SCOPE_MAP (ci_operation chk) = Contacting" "ci_channel chk = Some channel"
    and time: "t \<le> env_now env'" "env_now env' \<le> t + 365 * ms_per_day"
    and runs: "check_runs (fst (registerSourceDerivedConsent env cr db inp)) chk"
  shows "snd (registerSourceDerivedConsent env cr db inp) = Inr () \<and>
    (allows (snd (resolveConsentState env' (fst (registerSourceDerivedConsent env cr db inp)) chk)) \<longleftrightarrow>
       source_opens (si_source inp) channel)"
proof -
  let ?ev = "\<lambda>g. new_event (source_env env (fst g)) (source_grant_input env cr inp g) t None"
  obtain db' where reg: "registerSourceDerivedConsent env cr db inp = (db', Inr ())"
    and led: "db_ledger db' = db_ledger db @ map ?ev (enumerate 0 (SOURCE_SCOPE_GRANTS (si_source inp)))"
    using register_ledger [OF ids date] by blast
  have mine: "filter (\<lambda>e. ev_tenant_id e = ci_tenant_id chk \<and> ev_talent_record_id e = ci_talent_record_id chk) (map ?ev gs) = map ?ev gs" for gs
    by (auto simp: filter_id_conv who)
  have evs: "check_events db' chk = map ?ev (enumerate 0 (SOURCE_SCOPE_GRANTS (si_source inp)))"
    using empty unfolding talent_events_def led filter_append mine by (simp add: who)
  have stale: "\<not> isStale t (env_now env')" using not_stale_within [OF time] .
  have acts: "\<forall>e\<in>set (check_events db' chk). ev_action e = Granted" unfolding evs by auto
  have runs': "check_runs db' chk" using runs by (simp add: reg)
  have "check_allows (env_now env') chk (check_events db' chk) \<longleftrightarrow> source_opens (si_source inp) channel"
  proof (cases "si_source inp")
    case Src_Github
    then have "\<not> sources_agree (check_events db' chk) Contacting"
      using grants_only_agree [OF acts, of Contacting] by (simp add: evs)
    with Src_Github op show ?thesis by (auto simp: check_allows_def Let_def)
  next
    case Src_Indeed
    have one: "filter (\<lambda>e. ev_scope e = Contacting) (check_events db' chk) = [?ev (Suc (Suc (Suc 0)), Contacting, [(''permitted_channels'', JArr [JStr ''indeed''])])]"
      by (simp add: evs Src_Indeed)
    show ?thesis unfolding grants_only_allow [OF acts one op]
      by (cases channel) (simp_all add: evs Src_Indeed stale source_permitted js_dedupe_def map_filter_simps)
  next
    case Src_Astre_Import
    have one: "filter (\<lambda>e. ev_scope e = Contacting) (check_events db' chk) = [?ev (Suc (Suc (Suc 0)), Contacting, [])]"
      by (simp add: evs Src_Astre_Import)
    show ?thesis unfolding grants_only_allow [OF acts one op]
      by (cases channel) (simp_all add: evs Src_Astre_Import stale source_permitted js_dedupe_def map_filter_simps)
  next
    case Talent_Direct
    have one: "filter (\<lambda>e. ev_scope e = Contacting) (check_events db' chk) = [?ev (Suc (Suc (Suc 0)), Contacting, [])]"
      by (simp add: evs Talent_Direct)
    show ?thesis unfolding grants_only_allow [OF acts one op]
      by (cases channel) (simp_all add: evs Talent_Direct stale source_permitted js_dedupe_def map_filter_simps)
  qed
  then show ?thesis by (simp add: reg allows_iff [OF runs'])
qed

theorem source_consent_channels_witness:
  "let inp = \<lparr> si_tenant_id = ''t'', si_talent_record_id = ''p'', si_source = Src_Indeed, si_occurred_at = ''1111111'',
               si_source_class = None \<rparr>;
       db' = fst (registerSourceDerivedConsent (example_env 7) example_crypto (example_db []) inp);
       contact = (\<lambda>c. allows (snd (resolveConsentState (example_env 9) db' (example_check Op_Submittal (Some c)))))
   in contact Indeed \<and> \<not> contact Email"
proof -
  let ?inp = "\<lparr> si_tenant_id = ''t'', si_talent_record_id = ''p'', si_source = Src_Indeed, si_occurred_at = ''1111111'',
               si_source_class = None \<rparr>"
  let ?reg = "registerSourceDerivedConsent (example_env 7) example_crypto (example_db []) ?inp"
  have inj: "inj (env_uuid (example_env 7))"
    by (auto simp: inj_def example_env_def dest: arg_cong [of _ _ length])
  have "snd ?reg = Inr () \<and>
    (allows (snd (resolveConsentState (example_env 9) (fst ?reg) (example_check Op_Submittal (Some c)))) \<longleftrightarrow>
       source_opens (si_source ?inp) c)" for c
    by (rule source_consent_channels [where t = 7, OF inj])
      (simp_all add: check_runs_def missing_channel_def ms_per_day_def talent_events_def, simp_all add: example_defs)
  then show ?thesis by (simp add: Let_def)
qed

section \<open>Query parameters\<close>

text \<open>
  The page size of a history request is always between 1 and 200: 50 when the parameter is
  absent or empty, the number itself up to 200, 200 above, and a 400 for a non-integer or a number
  below 1.
\<close>

theorem portal_limit_bounds:
  "(case parsePortalLimit raw of
      Inr n \<Rightarrow> 1 \<le> n \<and> n \<le> 200 \<and>
        (\<forall>s. raw = Some s \<and> s \<noteq> [] \<longrightarrow> is_int_text s \<and> int n = min 200 (int_of_text s)) \<and>
        (raw = None \<or> raw = Some [] \<longrightarrow> n = 50)
    | Inl e \<Rightarrow> err_status e = 400 \<and> (\<exists>s. raw = Some s \<and> s \<noteq> [] \<and> (\<not> is_int_text s \<or> int_of_text s < 1)))"
  by (auto simp: parsePortalLimit_def Let_def split: option.splits)

theorem portal_limit_bounds_witness:
  "parsePortalLimit (Some ''999'') = Inr 200 \<and> parsePortalLimit None = Inr 50"
  using portal_limit_bounds [of "Some ''999''"] portal_limit_bounds [of None]
  by (simp add: parsePortalLimit_def is_int_text_def is_digit_def int_of_text_def digits_value_def)

end
