(* ===== verification/Pipeline_Api.thy ===== *)
theory Pipeline_Api
  imports Pipeline_Theorems Consent_Service
begin

text \<open>
  The command boundary of the pipeline: the ADD policy
  (\<^verbatim>\<open>libs/pipeline/src/lib/policy/\<close>), which reads the requisition status, the tenant's
  policy package from the policy store and the engine's verdict, the override rules, and the
  handlers of \<^verbatim>\<open>pipeline.controller.ts\<close>. Creation is guarded by the idempotency service
  of the consent module and is interpreted as an \<open>idempotent_command\<close>. A handler runs its
  steps one after the other on the three stores it touches.
\<close>

section \<open>policy/\<close>

definition scopesToCapabilities :: "string list \<Rightarrow> (string \<rightharpoonup> bool)" where
  "scopesToCapabilities scopes = (\<lambda>s. if s \<in> set scopes then Some True else None)"

datatype enforcement = Enforce_ALLOW | Enforce_DENY | Enforce_REQUIRES_OVERRIDE

fun toEnforcementDisposition :: "decision \<Rightarrow> enforcement" where
  "toEnforcementDisposition ALLOW = Enforce_ALLOW"
| "toEnforcementDisposition ALLOW_WITH_AUDIT = Enforce_ALLOW"
| "toEnforcementDisposition DENY = Enforce_DENY"
| "toEnforcementDisposition REQUIRES_OVERRIDE = Enforce_REQUIRES_OVERRIDE"

definition VALID_OVERRIDE_REASON_CODES :: "string list" where
  "VALID_OVERRIDE_REASON_CODES =
     [''replacement'', ''client_approved_overfill'', ''duplicate_correction'',
      ''late_recorded_submittal'', ''administrative_reconciliation'']"

definition isOverrideReasonCode :: "string \<Rightarrow> bool" where
  "isOverrideReasonCode s \<longleftrightarrow> s \<in> set VALID_OVERRIDE_REASON_CODES"

definition snapshotPolicyInputs :: "policy_context \<Rightarrow> decision_inputs" where
  "snapshotPolicyInputs ctx =
     \<lparr> di_resource = ctx_resource ctx, di_action = ctx_action ctx,
       di_declared = rs_declared (ctx_resource_state ctx), di_derived = rs_derived (ctx_resource_state ctx),
       di_capabilities = ctx_principal_capabilities ctx, di_override = None \<rparr>"

definition REQUISITION_LIFECYCLE_PACKAGE_NAME :: string where
  "REQUISITION_LIFECYCLE_PACKAGE_NAME = ''requisition-lifecycle''"

definition NO_POLICY_PUBLISHED_REASON :: string where
  "NO_POLICY_PUBLISHED_REASON = ''NO_POLICY_PUBLISHED''"

definition REQUISITION_NOT_FOUND_REASON :: string where
  "REQUISITION_NOT_FOUND_REASON = ''REQUISITION_NOT_FOUND''"

record add_policy_input =
  ai_tenant_id :: string
  ai_requisition_id :: string
  ai_scopes :: "string list"
  ai_actor_id :: string
  ai_origin :: origin
  ai_correlation_id :: string

record add_policy_outcome =
  ao_disposition :: enforcement
  ao_reason_code :: string
  ao_required_capabilities :: "string list"
  ao_provenance :: decision_record
  ao_requisition_status :: "string option"

text \<open>\<open>requisitions.findStatusById\<close>, on the same table the transactions lock.\<close>

definition findStatusById :: "pipeline_db \<Rightarrow> string \<Rightarrow> string \<Rightarrow> string option" where
  "findStatusById db tenant i =
     map_option rq_status (find (\<lambda>q. rq_tenant_id q = tenant \<and> rq_id q = i) (pdb_requisitions db))"

definition add_context :: "int \<Rightarrow> add_policy_input \<Rightarrow> string option \<Rightarrow> policy_context" where
  "add_context now i status =
     \<lparr> ctx_tenant_id = ai_tenant_id i, ctx_resource = ''REQUISITION_TALENT'', ctx_action = ''ADD'',
       ctx_resource_state =
         \<lparr> rs_declared = (case status of None \<Rightarrow> Map.empty | Some s \<Rightarrow> [''status'' \<mapsto> JStr s]),
           rs_derived = Map.empty \<rparr>,
       ctx_principal_capabilities = scopesToCapabilities (ai_scopes i),
       ctx_request_metadata = \<lparr> correlation_id = ai_correlation_id i, rm_origin = ai_origin i \<rparr>,
       ctx_environment = ''production'', ctx_time = now, ctx_attributes = Map.empty \<rparr>"

definition add_record ::
  "int \<Rightarrow> add_policy_input \<Rightarrow> string option \<Rightarrow> decision \<Rightarrow> string \<Rightarrow> string \<Rightarrow> string \<Rightarrow> decision_record" where
  "add_record now i status d version rule reason =
     (let ctx = add_context now i status in
      \<lparr> dr_tenant_id = ai_tenant_id i, dr_decision = d, dr_policy_version = version, dr_rule_id = rule,
        dr_reason_code = reason, dr_resource = ctx_resource ctx, dr_action = ctx_action ctx,
        dr_inputs = snapshotPolicyInputs ctx, dr_actor_id = ai_actor_id i, dr_origin = ai_origin i,
        dr_correlation_id = ai_correlation_id i \<rparr>)"

datatype policy_failure = Engine_Failure policy_error | Store_Failure policy_store_error

definition denied_outcome :: "decision_record \<Rightarrow> string \<Rightarrow> string option \<Rightarrow> add_policy_outcome" where
  "denied_outcome rec reason status =
     \<lparr> ao_disposition = Enforce_DENY, ao_reason_code = reason, ao_required_capabilities = [],
       ao_provenance = rec, ao_requisition_status = status \<rparr>"

definition evaluated_outcome ::
  "int \<Rightarrow> add_policy_input \<Rightarrow> string option \<Rightarrow> stored_version \<Rightarrow> policy_decision \<Rightarrow> add_policy_outcome" where
  "evaluated_outcome now i status v d =
     \<lparr> ao_disposition = toEnforcementDisposition (pd_decision d), ao_reason_code = pd_reason_code d,
       ao_required_capabilities = pd_required_capabilities d,
       ao_provenance = add_record now i status (pd_decision d) (sv_version v)
         (case pd_provenance d of [] \<Rightarrow> ''__default__'' | p # _ \<Rightarrow> prov_rule_id p) (pd_reason_code d),
       ao_requisition_status = status \<rparr>"

definition add_decide ::
  "(tok list \<Rightarrow> string) \<Rightarrow> rat \<Rightarrow> int \<Rightarrow> pipeline_db \<Rightarrow> policy_store \<Rightarrow> add_policy_input \<Rightarrow>
     policy_store \<times> (policy_failure, add_policy_outcome) result" where
  "add_decide sha ttl now db st i =
     (case findStatusById db (ai_tenant_id i) (ai_requisition_id i) of
        None \<Rightarrow>
          (st, Inr (denied_outcome
             (add_record now i None DENY ''__none__'' ''__requisition_not_found__'' REQUISITION_NOT_FOUND_REASON)
             REQUISITION_NOT_FOUND_REASON None))
      | Some s \<Rightarrow>
          (case getActiveVersion sha ttl now st (ai_tenant_id i) REQUISITION_LIFECYCLE_PACKAGE_NAME None of
             (st', Inl e) \<Rightarrow> (st', Inl (Store_Failure e))
           | (st', Inr None) \<Rightarrow>
               (st', Inr (denied_outcome
                  (add_record now i (Some s) DENY ''__none__'' ''__no_policy__'' NO_POLICY_PUBLISHED_REASON)
                  NO_POLICY_PUBLISHED_REASON (Some s)))
           | (st', Inr (Some v)) \<Rightarrow>
               (case evaluate (sv_definition v) (add_context now i (Some s)) of
                  Inl e \<Rightarrow> (st', Inl (Engine_Failure e))
                | Inr d \<Rightarrow> (st', Inr (evaluated_outcome now i (Some s) v d)))))"

datatype override_resolution =
    Res_ALLOW decision_record
  | Res_OVERRIDE decision_record
  | Res_DENY decision_record string
  | REASON_REQUIRED
  | REASON_INVALID string

definition withOverrideSatisfaction :: "decision_record \<Rightarrow> string option \<Rightarrow> string list \<Rightarrow> decision_record" where
  "withOverrideSatisfaction rec reason caps =
     rec \<lparr> dr_inputs := (dr_inputs rec) \<lparr> di_override := Some \<lparr> os_reason_code = reason, os_capabilities = caps \<rparr> \<rparr> \<rparr>"

definition resolveAddTalentOutcome ::
  "add_policy_outcome \<Rightarrow> string list \<Rightarrow> string option \<Rightarrow> override_resolution" where
  "resolveAddTalentOutcome oc scopes reason =
     (case ao_disposition oc of
        Enforce_ALLOW \<Rightarrow> Res_ALLOW (ao_provenance oc)
      | Enforce_DENY \<Rightarrow> Res_DENY (ao_provenance oc) (ao_reason_code oc)
      | Enforce_REQUIRES_OVERRIDE \<Rightarrow>
          if filter (\<lambda>c. c \<notin> set scopes) (ao_required_capabilities oc) \<noteq> []
          then Res_DENY (ao_provenance oc) (ao_reason_code oc)
          else case reason of
            None \<Rightarrow> REASON_REQUIRED
          | Some r \<Rightarrow>
              if r = [] then REASON_REQUIRED
              else if \<not> isOverrideReasonCode r then REASON_INVALID r
              else Res_OVERRIDE (withOverrideSatisfaction (ao_provenance oc) (Some r) (ao_required_capabilities oc)))"

section \<open>pipeline.controller.ts\<close>

record auth_context =
  au_sub :: string
  au_tenant :: string
  au_scopes :: "string list"
  au_actor_kind :: string

record api_state =
  as_pipeline :: pipeline_db
  as_store :: policy_store
  as_consent :: consent_db

record api_env =
  ae_pipeline :: pipeline_env
  ae_consent :: consent_env
  ae_crypto :: crypto
  ae_policy_sha :: "tok list \<Rightarrow> string"
  ae_ttl :: rat
  ae_talent_exists :: "(string \<Rightarrow> string \<Rightarrow> bool) option"

datatype api_error =
    Api_Pipeline pipeline_error
  | Api_Idempotency consent_error
  | Api_Policy policy_failure
  | Api_Validation string
  | Api_Not_Found string
  | INSUFFICIENT_PERMISSIONS
  | POLICY_DENIED string
  | OVERRIDE_INVALID string

record create_request =
  cq_talent_record_id :: string
  cq_requisition_id :: string
  cq_site_id :: "string option"
  cq_override_reason_code :: "string option"

definition create_body :: "create_request \<Rightarrow> json" where
  "create_body q =
     JObj ([(''talent_record_id'', JStr (cq_talent_record_id q)),
            (''requisition_id'', JStr (cq_requisition_id q))] @
           opt_field ''site_id'' (map_option JStr (cq_site_id q)) @
           opt_field ''override_reason_code'' (map_option JStr (cq_override_reason_code q)))"

definition view_json :: "consent_env \<Rightarrow> pipeline_view \<Rightarrow> json" where
  "view_json env v =
     JObj [(''id'', JStr (vw_id v)), (''tenant_id'', JStr (vw_tenant_id v)),
           (''site_id'', opt_json (vw_site_id v)), (''talent_record_id'', JStr (vw_talent_record_id v)),
           (''requisition_id'', JStr (vw_requisition_id v)), (''status'', JStr (status_name (vw_status v))),
           (''created_at'', JStr (env_iso env (vw_created_at v))),
           (''updated_at'', JStr (env_iso env (vw_updated_at v))),
           (''version'', JNum (JFin (of_int (vw_version v))))]"

definition assertIdempotencyKeyRequired :: "string option \<Rightarrow> (api_error, string) result" where
  "assertIdempotencyKeyRequired key =
     (case key of
        None \<Rightarrow> Inl (Api_Validation ''Idempotency-Key'')
      | Some k \<Rightarrow> if k = [] \<or> \<not> is_uuid k then Inl (Api_Validation ''Idempotency-Key'') else Inr k)"

record create_call =
  cc_env :: api_env
  cc_auth :: auth_context
  cc_body :: create_request
  cc_requestId :: string
  cc_key :: "string option"
  cc_visible :: "string set option"

definition call_hash :: "create_call \<Rightarrow> string" where
  "call_hash c = hashCanonicalizedBody (ae_crypto (cc_env c)) (create_body (cc_body c))"

definition call_policy_input :: "create_call \<Rightarrow> add_policy_input" where
  "call_policy_input c =
     \<lparr> ai_tenant_id = au_tenant (cc_auth c), ai_requisition_id = cq_requisition_id (cc_body c),
       ai_scopes = au_scopes (cc_auth c), ai_actor_id = au_sub (cc_auth c), ai_origin = Origin_ui,
       ai_correlation_id = cc_requestId c \<rparr>"

definition call_create_args :: "create_call \<Rightarrow> decision_record \<Rightarrow> string option \<Rightarrow> create_args" where
  "call_create_args c prov status =
     \<lparr> ca_tenant_id = au_tenant (cc_auth c), ca_site_id = cq_site_id (cc_body c),
       ca_talent_record_id = cq_talent_record_id (cc_body c),
       ca_requisition_id = cq_requisition_id (cc_body c), ca_provenance = Some prov,
       ca_created_by_id = Some (au_sub (cc_auth c)),
       ca_entry_provenance =
         \<lparr> ep_origin_type = MANUAL_RECRUITER, ep_initiated_by_kind = au_actor_kind (cc_auth c),
           ep_initiated_by_id = Some (au_sub (cc_auth c)), ep_source_system = None,
           ep_source_connection_id = None, ep_external_object_type = None,
           ep_external_object_id = None, ep_external_event_id = None, ep_observed_at = None,
           ep_metadata = None \<rparr>,
       ca_expected_requisition_status = status \<rparr>"

text \<open>The guards between the replay check and the policy call.\<close>

definition create_guard :: "create_call \<Rightarrow> pipeline_db \<Rightarrow> api_error option" where
  "create_guard c db =
     (let tenant = au_tenant (cc_auth c); talent = cq_talent_record_id (cc_body c);
          req = cq_requisition_id (cc_body c)
      in if (case ae_talent_exists (cc_env c) of None \<Rightarrow> False | Some ex \<Rightarrow> \<not> ex tenant talent)
         then Some (Api_Not_Found ''talent_record_id'')
         else if (case cc_visible c of None \<Rightarrow> False | Some s \<Rightarrow> req \<notin> s)
         then Some (Api_Not_Found ''requisition_id'')
         else if ''pipeline:re-add'' \<notin> set (au_scopes (cc_auth c)) \<and> hasEndedEpisode db tenant talent req
         then Some INSUFFICIENT_PERMISSIONS else None)"

text \<open>After the policy outcome: refuse, or create and remember the response.\<close>

definition create_resolved ::
  "create_call \<Rightarrow> string \<Rightarrow> api_state \<Rightarrow> string option \<Rightarrow> override_resolution \<Rightarrow>
     api_state \<times> (api_error, response_body) result" where
  "create_resolved c key st status res =
     (let go = (\<lambda>prov.
        case create (ae_pipeline (cc_env c)) (as_pipeline st) (call_create_args c prov status) of
          (_, Inl e) \<Rightarrow> (st, Inl (Api_Pipeline e))
        | (pdb, Inr view) \<Rightarrow>
            let body = Foreign_Body (view_json (ae_consent (cc_env c)) view)
            in case idempotency_persist (ae_consent (cc_env c)) (as_consent st) (au_tenant (cc_auth c)) key
                      (call_hash c) 201 body of
                 (cdb, Inl e) \<Rightarrow> (st \<lparr> as_pipeline := pdb \<rparr>, Inl (Api_Idempotency e))
               | (cdb, Inr _) \<Rightarrow> (st \<lparr> as_pipeline := pdb, as_consent := cdb \<rparr>, Inr body))
      in case res of
           Res_DENY prov reason \<Rightarrow>
             (st \<lparr> as_pipeline := recordDecision (as_pipeline st) prov \<rparr>,
              Inl (if reason = REQUISITION_NOT_FOUND_REASON then Api_Not_Found ''requisition_id''
                   else POLICY_DENIED reason))
         | REASON_REQUIRED \<Rightarrow> (st, Inl (OVERRIDE_INVALID ''override_reason_required''))
         | REASON_INVALID v \<Rightarrow> (st, Inl (OVERRIDE_INVALID ''override_reason_code_invalid''))
         | Res_ALLOW prov \<Rightarrow> go prov
         | Res_OVERRIDE prov \<Rightarrow> go prov)"

definition createPipeline :: "api_state \<Rightarrow> create_call \<Rightarrow> api_state \<times> (api_error, response_body) result" where
  "createPipeline st c =
     (case assertIdempotencyKeyRequired (cc_key c) of
        Inl e \<Rightarrow> (st, Inl e)
      | Inr key \<Rightarrow>
          (case idempotency_lookup (as_consent st) (au_tenant (cc_auth c)) key (call_hash c) of
             Inl e \<Rightarrow> (st, Inl (Api_Idempotency e))
           | Inr (Replay status body) \<Rightarrow> (st, Inr body)
           | Inr Proceed \<Rightarrow>
               (case create_guard c (as_pipeline st) of
                  Some e \<Rightarrow> (st, Inl e)
                | None \<Rightarrow>
                    (case add_decide (ae_policy_sha (cc_env c)) (ae_ttl (cc_env c))
                            (pe_now (ae_pipeline (cc_env c))) (as_pipeline st) (as_store st) (call_policy_input c) of
                       (store, Inl e) \<Rightarrow> (st \<lparr> as_store := store \<rparr>, Inl (Api_Policy e))
                     | (store, Inr oc) \<Rightarrow>
                         create_resolved c key (st \<lparr> as_store := store \<rparr>) (ao_requisition_status oc)
                           (resolveAddTalentOutcome oc (au_scopes (cc_auth c))
                             (cq_override_reason_code (cc_body c)))))))"

record transition_request =
  tq_to_status :: pipeline_status
  tq_note :: "string option"
  tq_expected_version :: "int option"

text \<open>\<open>POST :id/transition\<close>; a missing version is \<open>None\<close>.\<close>

definition transitionPipeline ::
  "pipeline_env \<Rightarrow> pipeline_db \<Rightarrow> pipeline_db \<Rightarrow> auth_context \<Rightarrow> string \<Rightarrow> transition_request \<Rightarrow> string \<Rightarrow>
     string set option \<Rightarrow> pipeline_db \<times> (pipeline_error, pipeline_view) result" where
  "transitionPipeline env db0 db auth i q requestId vis =
     (case tq_expected_version q of
        None \<Rightarrow> (db, Inl (VALIDATION_ERROR ''expected_version''))
      | Some v \<Rightarrow>
          if tq_to_status q = Completed then (db, Inl PIPELINE_COMPLETE_SYSTEM_ONLY)
          else transition_tx env db0 db
            \<lparr> ta_tenant_id = au_tenant auth, ta_id = i, ta_to_status = tq_to_status q,
              ta_changed_by_id = au_sub auth, ta_note = tq_note q, ta_requestId = requestId,
              ta_expected_version = v, ta_visible_requisition_ids = vis, ta_disposition = None,
              ta_evidence = None \<rparr>)"

record action_request =
  rq_action :: string
  rq_expected_version :: "int option"
  rq_reason :: "string option"
  rq_note :: "string option"
  rq_authority_class :: "disposition_authority option"

definition actionPipeline ::
  "pipeline_env \<Rightarrow> pipeline_db \<Rightarrow> pipeline_db \<Rightarrow> auth_context \<Rightarrow> string \<Rightarrow> action_request \<Rightarrow> string \<Rightarrow>
     string set option \<Rightarrow> pipeline_db \<times> (pipeline_error, pipeline_view) result" where
  "actionPipeline env db0 db auth i q requestId vis =
     (case rq_expected_version q of
        None \<Rightarrow> (db, Inl (VALIDATION_ERROR ''expected_version''))
      | Some v \<Rightarrow>
          if rq_action q = SYSTEM_COMPLETE_ACTION then (db, Inl (VALIDATION_ERROR ''action''))
          else case recruiter_action_of (rq_action q) of
            None \<Rightarrow> (db, Inl (VALIDATION_ERROR ''action''))
          | Some act \<Rightarrow>
              applyAction env db0 db
                \<lparr> aa_tenant_id = au_tenant auth, aa_id = i, aa_action = act, aa_expected_version = v,
                  aa_changed_by_id = au_sub auth, aa_requestId = requestId,
                  aa_visible_requisition_ids = vis, aa_reason = rq_reason q, aa_note = rq_note q,
                  aa_authority_class = rq_authority_class q \<rparr>)"

record resume_edition =
  ed_edition_id :: string
  ed_lifecycle_status :: string

text \<open>\<open>PUT :id/resume-edition\<close>: the editions of the talent come from a port.\<close>

definition setResumeEdition ::
  "pipeline_env \<Rightarrow> pipeline_db \<Rightarrow> auth_context \<Rightarrow> string \<Rightarrow> string set option \<Rightarrow>
     (string \<Rightarrow> string \<Rightarrow> resume_edition list) \<Rightarrow> string \<Rightarrow> string option \<Rightarrow>
     pipeline_db \<times> (api_error, unit) result" where
  "setResumeEdition env db auth i vis editions edition_id n =
     (case findByIdForActor db (au_tenant auth) i vis of
        None \<Rightarrow> (db, Inl (Api_Not_Found ''id''))
      | Some view \<Rightarrow>
          (case find (\<lambda>e. ed_edition_id e = edition_id) (editions (au_tenant auth) (vw_talent_record_id view)) of
             None \<Rightarrow> (db, Inl (Api_Not_Found ''resume_edition_id''))
           | Some e \<Rightarrow>
               if ed_lifecycle_status e \<noteq> ''active'' then (db, Inl (Api_Validation ''resume_edition_id''))
               else (createRequisitionResumeSelection env db (au_tenant auth) (vw_talent_record_id view)
                       (vw_requisition_id view) edition_id (au_sub auth) n, Inr ())))"

section \<open>Creation is an idempotent command\<close>

definition call_key :: "create_call \<Rightarrow> (string \<times> string) option" where
  "call_key c = map_option (\<lambda>k. (au_tenant (cc_auth c), k)) (cc_key c)"

definition call_valid :: "create_call \<Rightarrow> bool" where
  "call_valid c = (case cc_key c of None \<Rightarrow> False | Some k \<Rightarrow> k \<noteq> [] \<and> is_uuid k)"

definition state_stored :: "api_state \<Rightarrow> string \<times> string \<Rightarrow> (string \<times> response_body) option" where
  "state_stored st k = stored (as_consent st) k"

definition KEY_CONFLICT :: api_error where
  "KEY_CONFLICT = Api_Idempotency IDEMPOTENCY_KEY_CONFLICT"

lemma valid_key:
  "call_valid c \<Longrightarrow> call_key c = Some k \<Longrightarrow>
     assertIdempotencyKeyRequired (cc_key c) = Inr (snd k) \<and> fst k = au_tenant (cc_auth c)"
  by (auto simp: call_valid_def call_key_def assertIdempotencyKeyRequired_def split: option.splits)

lemma persist_fresh:
  assumes "find_idempotency db tenant key = None"
  shows "\<exists>row. idempotency_persist env db tenant key h status body = (add_idempotency db row, Inr ()) \<and>
    ik_tenant_id row = tenant \<and> ik_key row = key \<and> ik_request_hash row = h \<and> ik_response_body row = body"
  unfolding idempotency_persist_def assms option.case
  by (intro exI conjI, rule refl) simp_all

lemma add_idempotency_stored:
  "stored (add_idempotency db row) k = (case stored db k of Some y \<Rightarrow> Some y
     | None \<Rightarrow> if k = (ik_tenant_id row, ik_key row) then Some (ik_request_hash row, ik_response_body row) else None)"
  by (cases k) (auto simp: stored_def find_idempotency_def add_idempotency_def find_append split: option.splits)

text \<open>What a creation that was not answered from the table did.\<close>

lemma create_resolved_cases:
  assumes "create_resolved c key st status res = (st', out)"
    and none: "find_idempotency (as_consent st) (au_tenant (cc_auth c)) key = None"
  obtains (denied) prov reason where "res = Res_DENY prov reason"
      "out = Inl (if reason = REQUISITION_NOT_FOUND_REASON then Api_Not_Found ''requisition_id'' else POLICY_DENIED reason)"
      "st' = st \<lparr> as_pipeline := recordDecision (as_pipeline st) prov \<rparr>"
  | (refused) e where "out = Inl e" "\<forall>reason. e \<noteq> POLICY_DENIED reason" "st' = st"
  | (created) prov pdb view row where "res = Res_ALLOW prov \<or> res = Res_OVERRIDE prov"
      "create (ae_pipeline (cc_env c)) (as_pipeline st) (call_create_args c prov status) = (pdb, Inr view)"
      "st' = st \<lparr> as_pipeline := pdb, as_consent := add_idempotency (as_consent st) row \<rparr>"
      "out = Inr (ik_response_body row)" "ik_tenant_id row = au_tenant (cc_auth c)" "ik_key row = key"
      "ik_request_hash row = call_hash c"
proof -
  have go: thesis if g: "(case create (ae_pipeline (cc_env c)) (as_pipeline st) (call_create_args c prov status) of
          (_, Inl e) \<Rightarrow> (st, Inl (Api_Pipeline e))
        | (pdb, Inr view) \<Rightarrow>
            let body = Foreign_Body (view_json (ae_consent (cc_env c)) view)
            in case idempotency_persist (ae_consent (cc_env c)) (as_consent st) (au_tenant (cc_auth c)) key
                      (call_hash c) 201 body of
                 (cdb, Inl e) \<Rightarrow> (st \<lparr> as_pipeline := pdb \<rparr>, Inl (Api_Idempotency e))
               | (cdb, Inr _) \<Rightarrow> (st \<lparr> as_pipeline := pdb, as_consent := cdb \<rparr>, Inr body)) = (st', out)"
    and r: "res = Res_ALLOW prov \<or> res = Res_OVERRIDE prov" for prov
  proof (cases "snd (create (ae_pipeline (cc_env c)) (as_pipeline st) (call_create_args c prov status))")
    case (Inl e)
    with g show thesis by (intro refused) (auto split: prod.splits)
  next
    case (Inr view)
    then obtain pdb where cr: "create (ae_pipeline (cc_env c)) (as_pipeline st) (call_create_args c prov status) = (pdb, Inr view)"
      by (metis prod.collapse)
    obtain row where "idempotency_persist (ae_consent (cc_env c)) (as_consent st) (au_tenant (cc_auth c)) key
        (call_hash c) 201 (Foreign_Body (view_json (ae_consent (cc_env c)) view)) = (add_idempotency (as_consent st) row, Inr ())"
      "ik_tenant_id row = au_tenant (cc_auth c)" "ik_key row = key" "ik_request_hash row = call_hash c"
      "ik_response_body row = Foreign_Body (view_json (ae_consent (cc_env c)) view)"
      using persist_fresh [OF none] by blast
    with g cr r show thesis by (intro created [of prov pdb view row]) (auto simp: Let_def)
  qed
  show thesis
  proof (cases res)
    case (Res_DENY prov reason)
    with assms(1) show thesis by (intro denied [of prov reason]) (auto simp: create_resolved_def Let_def)
  next
    case (Res_ALLOW prov)
    with assms(1) go show thesis unfolding create_resolved_def Let_def by simp
  next
    case (Res_OVERRIDE prov)
    with assms(1) go show thesis unfolding create_resolved_def Let_def by simp
  qed (use assms(1) in \<open>auto simp: create_resolved_def Let_def intro: refused\<close>)
qed

lemma createPipeline_cases:
  assumes "createPipeline st c = (st', out)"
  obtains (replayed) r where "out = Inr r" "st' = st"
      "\<And>k. call_valid c \<Longrightarrow> call_key c = Some k \<Longrightarrow> state_stored st k = Some (call_hash c, r)"
  | (stopped) e where "out = Inl e" "\<forall>reason. e \<noteq> POLICY_DENIED reason" "as_pipeline st' = as_pipeline st" "as_consent st' = as_consent st"
  | (resolved) key oc store where "cc_key c = Some key"
      "find_idempotency (as_consent st) (au_tenant (cc_auth c)) key = None"
      "create_guard c (as_pipeline st) = None"
      "add_decide (ae_policy_sha (cc_env c)) (ae_ttl (cc_env c)) (pe_now (ae_pipeline (cc_env c)))
         (as_pipeline st) (as_store st) (call_policy_input c) = (store, Inr oc)"
      "create_resolved c key (st \<lparr> as_store := store \<rparr>) (ao_requisition_status oc)
         (resolveAddTalentOutcome oc (au_scopes (cc_auth c)) (cq_override_reason_code (cc_body c))) = (st', out)"
proof (cases "assertIdempotencyKeyRequired (cc_key c)")
  case (Inl e)
  then have "\<forall>reason. e \<noteq> POLICY_DENIED reason"
    by (auto simp: assertIdempotencyKeyRequired_def split: option.splits if_splits)
  with assms Inl show thesis by (intro stopped) (auto simp: createPipeline_def)
next
  case (Inr key)
  then have key: "cc_key c = Some key"
    by (auto simp: assertIdempotencyKeyRequired_def split: option.splits if_splits)
  show thesis
  proof (cases "find_idempotency (as_consent st) (au_tenant (cc_auth c)) key")
    case (Some row)
    show thesis
    proof (cases "ik_request_hash row = call_hash c")
      case True
      with assms Inr Some key show thesis
        by (intro replayed [of "ik_response_body row"])
          (auto simp: createPipeline_def idempotency_lookup_def state_stored_def stored_def call_key_def)
    next
      case False
      with assms Inr Some show thesis
        by (intro stopped) (auto simp: createPipeline_def idempotency_lookup_def)
    qed
  next
    case None
    show thesis
    proof (cases "create_guard c (as_pipeline st)")
      case (Some e)
      then have "\<forall>reason. e \<noteq> POLICY_DENIED reason"
        by (auto simp: create_guard_def Let_def split: if_splits)
      with assms Inr None Some show thesis
        by (intro stopped) (auto simp: createPipeline_def idempotency_lookup_def)
    next
      case guard: None
      obtain store res where d: "add_decide (ae_policy_sha (cc_env c)) (ae_ttl (cc_env c)) (pe_now (ae_pipeline (cc_env c)))
         (as_pipeline st) (as_store st) (call_policy_input c) = (store, res)" by fastforce
      show thesis
      proof (cases res)
        case (Inl e)
        with assms \<open>assertIdempotencyKeyRequired (cc_key c) = Inr key\<close> None guard d show thesis
          by (intro stopped) (auto simp: createPipeline_def idempotency_lookup_def)
      next
        case (Inr oc)
        with assms \<open>assertIdempotencyKeyRequired (cc_key c) = Inr key\<close> None guard d key show thesis
          by (intro resolved [of key store oc]) (auto simp: createPipeline_def idempotency_lookup_def)
      qed
    qed
  qed
qed

lemma create_keeps_stored:
  assumes "state_stored st k = Some x"
  shows "state_stored (fst (createPipeline st c)) k = Some x"
proof -
  obtain st' out where r: "createPipeline st c = (st', out)" by fastforce
  then have "state_stored st' k = Some x"
  proof (cases rule: createPipeline_cases)
    case (resolved key oc store)
    from resolved(5) show ?thesis
      by (cases rule: create_resolved_cases)
        (use resolved(2) assms in \<open>auto simp: state_stored_def add_idempotency_stored\<close>)
  qed (use assms in \<open>auto simp: state_stored_def\<close>)
  with r show ?thesis by simp
qed

lemma create_stores:
  assumes v: "call_valid c" "call_key c = Some k" and r: "createPipeline st c = (st', Inr body)"
  shows "state_stored st' k = Some (call_hash c, body)"
  using r
proof (cases rule: createPipeline_cases)
  case (resolved key oc store)
  have k: "k = (au_tenant (cc_auth c), key)" using v(2) resolved(1) by (simp add: call_key_def)
  then have none: "stored (as_consent st) k = None" using resolved(2) by (simp add: stored_def)
  from resolved(5) show ?thesis
    by (cases rule: create_resolved_cases)
      (use resolved(2) k none in \<open>auto simp: state_stored_def add_idempotency_stored\<close>)
qed (use v in auto)

interpretation pipeline_api: idempotent_command createPipeline call_key call_hash call_valid state_stored KEY_CONFLICT
proof
  fix c k st r assume v: "call_valid c" "call_key c = Some k" "state_stored st k = Some (call_hash c, r)"
  then show "createPipeline st c = (st, Inr r)"
    using valid_key [OF v(1,2)]
    by (cases k) (auto simp: createPipeline_def idempotency_lookup_def state_stored_def stored_def)
next
  fix c k st h r assume v: "call_valid c" "call_key c = Some k" "state_stored st k = Some (h, r)" "h \<noteq> call_hash c"
  then show "createPipeline st c = (st, Inl KEY_CONFLICT)"
    using valid_key [OF v(1,2)]
    by (cases k) (auto simp: createPipeline_def idempotency_lookup_def state_stored_def stored_def KEY_CONFLICT_def)
next
  fix c k st st' r assume "call_valid c" "call_key c = Some k" "createPipeline st c = (st', Inr r)"
  then show "state_stored st' k = Some (call_hash c, r)" by (rule create_stores)
next
  fix st k x c assume "state_stored st k = Some x"
  then show "state_stored (fst (createPipeline st c)) k = Some x" by (rule create_keeps_stored)
qed

section \<open>Creation is governed\<close>

definition policy_allows :: "policy_decision \<Rightarrow> create_call \<Rightarrow> bool" where
  "policy_allows d c \<longleftrightarrow>
     (case pd_decision d of
        DENY \<Rightarrow> False
      | REQUIRES_OVERRIDE \<Rightarrow> set (pd_required_capabilities d) \<subseteq> set (au_scopes (cc_auth c)) \<and>
          (\<exists>r. cq_override_reason_code (cc_body c) = Some r \<and> r \<in> set VALID_OVERRIDE_REASON_CODES)
      | _ \<Rightarrow> True)"

lemma add_decide_outcome:
  assumes "add_decide sha ttl now db st i = (st', Inr oc)"
    and "resolveAddTalentOutcome oc scopes reason = res" "res = Res_ALLOW prov \<or> res = Res_OVERRIDE prov"
  shows "\<exists>s v d. findStatusById db (ai_tenant_id i) (ai_requisition_id i) = Some s \<and> ao_requisition_status oc = Some s \<and>
    snd (getActiveVersion sha ttl now st (ai_tenant_id i) REQUISITION_LIFECYCLE_PACKAGE_NAME None) = Inr (Some v) \<and>
    evaluate (sv_definition v) (add_context now i (Some s)) = Inr d \<and>
    pd_decision d \<noteq> DENY \<and>
    (pd_decision d = REQUIRES_OVERRIDE \<longrightarrow> set (pd_required_capabilities d) \<subseteq> set scopes \<and>
       (\<exists>r. reason = Some r \<and> r \<in> set VALID_OVERRIDE_REASON_CODES)) \<and>
    dr_decision prov = pd_decision d \<and> dr_policy_version prov = sv_version v \<and> dr_tenant_id prov = ai_tenant_id i"
proof -
  have nd: "ao_disposition oc \<noteq> Enforce_DENY"
    using assms(2,3) by (auto simp: resolveAddTalentOutcome_def)
  then obtain s v d where e: "findStatusById db (ai_tenant_id i) (ai_requisition_id i) = Some s"
    "snd (getActiveVersion sha ttl now st (ai_tenant_id i) REQUISITION_LIFECYCLE_PACKAGE_NAME None) = Inr (Some v)"
    "evaluate (sv_definition v) (add_context now i (Some s)) = Inr d" "oc = evaluated_outcome now i (Some s) v d"
    using assms(1) by (auto simp: add_decide_def denied_outcome_def
        split: option.splits prod.splits sum.splits)
  moreover have "dr_decision (ao_provenance oc) = pd_decision d" "dr_policy_version (ao_provenance oc) = sv_version v"
    "dr_tenant_id (ao_provenance oc) = ai_tenant_id i"
    by (simp_all add: e(4) evaluated_outcome_def add_record_def Let_def)
  moreover have "pd_decision d \<noteq> DENY" using nd by (auto simp: e(4) evaluated_outcome_def)
  moreover have "prov = ao_provenance oc \<or> (\<exists>r cs. prov = withOverrideSatisfaction (ao_provenance oc) r cs)"
    using assms(2,3) by (auto simp: resolveAddTalentOutcome_def split: enforcement.splits if_splits option.splits)
  moreover have "set (pd_required_capabilities d) \<subseteq> set scopes \<and>
       (\<exists>r. reason = Some r \<and> r \<in> set VALID_OVERRIDE_REASON_CODES)" if "pd_decision d = REQUIRES_OVERRIDE"
    using assms(2,3) that
    by (auto simp: resolveAddTalentOutcome_def e(4) evaluated_outcome_def isOverrideReasonCode_def filter_empty_conv
        split: if_splits option.splits)
  ultimately show ?thesis
    by (auto simp: evaluated_outcome_def withOverrideSatisfaction_def)
qed

lemma create_permitted:
  assumes "create env db a = (db', Inr v)"
  shows "\<exists>s. lockRequisitionStatusInTx db (ca_tenant_id a) (ca_requisition_id a) = Some s \<and>
    \<not> isTerminalRequisitionStatus s"
  using assms
  by (auto simp: create_def create_tx_def Let_def requisitionPermits_def isTerminalRequisitionStatus_def
      split: option.splits if_splits)

lemma create_shape:
  assumes "create env db a = (db', Inr v)"
  shows "pdb_pipelines db' = pdb_pipelines db @ [new_pipeline env a]"
    "pdb_decisions db' = pdb_decisions db @ opt_list (ca_provenance a)" "v = projectView (new_pipeline env a)"
  using assms create_tx_shape [of env db db a] by (auto simp: create_def)

lemma create_added:
  assumes run: "createPipeline st c = (st', out)"
    and new: "pdb_pipelines (as_pipeline st') \<noteq> pdb_pipelines (as_pipeline st)"
  shows "\<exists>s v d row rec.
    findStatusById (as_pipeline st) (au_tenant (cc_auth c)) (cq_requisition_id (cc_body c)) = Some s \<and>
    \<not> isTerminalRequisitionStatus s \<and>
    (case cc_visible c of None \<Rightarrow> True | Some vis \<Rightarrow> cq_requisition_id (cc_body c) \<in> vis) \<and>
    snd (getActiveVersion (ae_policy_sha (cc_env c)) (ae_ttl (cc_env c)) (pe_now (ae_pipeline (cc_env c)))
      (as_store st) (au_tenant (cc_auth c)) REQUISITION_LIFECYCLE_PACKAGE_NAME None) = Inr (Some v) \<and>
    evaluate (sv_definition v) (add_context (pe_now (ae_pipeline (cc_env c))) (call_policy_input c) (Some s)) = Inr d \<and>
    policy_allows d c \<and>
    pdb_pipelines (as_pipeline st') = pdb_pipelines (as_pipeline st) @ [row] \<and> pl_status row = No_Contact \<and>
    pdb_decisions (as_pipeline st') = pdb_decisions (as_pipeline st) @ [rec] \<and>
    dr_decision rec = pd_decision d \<and> dr_policy_version rec = sv_version v"
  using run
proof (cases rule: createPipeline_cases)
  case (resolved key oc store)
  have none: "find_idempotency (as_consent (st \<lparr> as_store := store \<rparr>)) (au_tenant (cc_auth c)) key = None"
    using resolved(2) by simp
  from resolved(5) none show ?thesis
  proof (cases rule: create_resolved_cases)
    case (created prov pdb view row)
    note c = created(2) [simplified]
    obtain s v d where d: "findStatusById (as_pipeline st) (au_tenant (cc_auth c)) (cq_requisition_id (cc_body c)) = Some s"
      "snd (getActiveVersion (ae_policy_sha (cc_env c)) (ae_ttl (cc_env c)) (pe_now (ae_pipeline (cc_env c)))
        (as_store st) (au_tenant (cc_auth c)) REQUISITION_LIFECYCLE_PACKAGE_NAME None) = Inr (Some v)"
      "evaluate (sv_definition v) (add_context (pe_now (ae_pipeline (cc_env c))) (call_policy_input c) (Some s)) = Inr d"
      "pd_decision d \<noteq> DENY"
      "pd_decision d = REQUIRES_OVERRIDE \<longrightarrow> set (pd_required_capabilities d) \<subseteq> set (au_scopes (cc_auth c)) \<and>
         (\<exists>r. cq_override_reason_code (cc_body c) = Some r \<and> r \<in> set VALID_OVERRIDE_REASON_CODES)"
      "dr_decision prov = pd_decision d" "dr_policy_version prov = sv_version v"
      using add_decide_outcome [OF resolved(4) refl created(1)] by (auto simp: call_policy_input_def)
    have "policy_allows d c" using d(4,5) by (auto simp: policy_allows_def split: decision.splits)
    moreover have "lockRequisitionStatusInTx (as_pipeline st) (au_tenant (cc_auth c)) (cq_requisition_id (cc_body c)) = Some s"
      using d(1) by (simp add: findStatusById_def lockRequisitionStatusInTx_def conj_commute)
    then have "\<not> isTerminalRequisitionStatus s" using create_permitted [OF c] by (auto simp: call_create_args_def)
    moreover have "case cc_visible c of None \<Rightarrow> True | Some vis \<Rightarrow> cq_requisition_id (cc_body c) \<in> vis"
      using resolved(3) by (auto simp: create_guard_def Let_def split: if_splits option.splits)
    ultimately show ?thesis using d created(3) create_shape [OF c] by (auto simp: call_create_args_def)
  qed (use new in \<open>auto simp: recordDecision_def\<close>)
qed (use new in auto)

text \<open>
  C5. No episode without a policy: whenever the create handler adds a row, the actor sees the
  requisition, the requisition exists and is not closed, the tenant's active package allows
  the addition (outright, or as an override whose every named capability the actor holds and
  whose reason is one of the closed set), exactly one row is added, at \<open>no_contact\<close>, and
  the decision record with the engine's verdict and the stored version is in the same commit.
\<close>

theorem create_governed:
  assumes run: "createPipeline st c = (st', out)"
    and new: "pdb_pipelines (as_pipeline st') \<noteq> pdb_pipelines (as_pipeline st)"
  shows "\<exists>s v d row rec.
    findStatusById (as_pipeline st) (au_tenant (cc_auth c)) (cq_requisition_id (cc_body c)) = Some s \<and>
    \<not> isTerminalRequisitionStatus s \<and>
    (case cc_visible c of None \<Rightarrow> True | Some vis \<Rightarrow> cq_requisition_id (cc_body c) \<in> vis) \<and>
    snd (getActiveVersion (ae_policy_sha (cc_env c)) (ae_ttl (cc_env c)) (pe_now (ae_pipeline (cc_env c)))
      (as_store st) (au_tenant (cc_auth c)) REQUISITION_LIFECYCLE_PACKAGE_NAME None) = Inr (Some v) \<and>
    evaluate (sv_definition v) (add_context (pe_now (ae_pipeline (cc_env c))) (call_policy_input c) (Some s)) = Inr d \<and>
    policy_allows d c \<and>
    pdb_pipelines (as_pipeline st') = pdb_pipelines (as_pipeline st) @ [row] \<and> pl_status row = No_Contact \<and>
    pdb_decisions (as_pipeline st') = pdb_decisions (as_pipeline st) @ [rec] \<and>
    dr_decision rec = pd_decision d \<and> dr_policy_version rec = sv_version v"
  using assms by (rule create_added)



section \<open>Concrete calls\<close>

definition lifecycle_pkg :: "decision \<Rightarrow> policy_package" where
  "lifecycle_pkg d = \<lparr> pkg_name = REQUISITION_LIFECYCLE_PACKAGE_NAME, pkg_version = ''1'',
     pkg_resources = [''REQUISITION_TALENT''], pkg_actions = [''ADD''],
     pkg_default_disposition = Some \<lparr> out_decision = d, out_reason_code = ''R_DEFAULT'',
       out_required_capability = None, out_effects = None \<rparr>, pkg_rules = [] \<rparr>"

definition ex_api_store :: "decision \<Rightarrow> policy_store" where
  "ex_api_store d = fst (publish ex_sha ''v'' 1 empty_store
     \<lparr> pi_tenant_id = ''T'', pi_definition = lifecycle_pkg d, pi_published_by = ''a'', pi_effective_from = None \<rparr>)"

definition ex_api_state :: "decision \<Rightarrow> api_state" where
  "ex_api_state d = \<lparr> as_pipeline = ex_db1, as_store = ex_api_store d,
     as_consent = \<lparr> db_ledger = [], db_audit = [], db_outbox = [], db_idempotency = [] \<rparr> \<rparr>"

definition ex_call :: create_call where
  "ex_call = \<lparr>
     cc_env = \<lparr> ae_pipeline = ex_penv ''p'',
       ae_consent = \<lparr> env_uuid = (\<lambda>_. ''i''), env_now = 10, env_row_now = (\<lambda>_. 10), env_iso = (\<lambda>_. ''t''),
         env_parse_date = (\<lambda>_. None) \<rparr>,
       ae_crypto = \<lparr> sha_text = (\<lambda>s. s), sha_json = ex_sha \<rparr>, ae_policy_sha = ex_sha, ae_ttl = 30000,
       ae_talent_exists = None \<rparr>,
     cc_auth = \<lparr> au_sub = ''u'', au_tenant = ''T'', au_scopes = [''pipeline:add''], au_actor_kind = ''user'' \<rparr>,
     cc_body = \<lparr> cq_talent_record_id = ''A'', cq_requisition_id = ''R'', cq_site_id = None,
       cq_override_reason_code = None \<rparr>,
     cc_requestId = ''q'', cc_key = Some ''00000000-0000-4000-8000-000000000000'', cc_visible = None \<rparr>"

lemma ex_call_creates:
  "length (pdb_pipelines (as_pipeline (fst (createPipeline (ex_api_state ALLOW) ex_call)))) = 1"
  "length (pdb_pipelines ex_db1) = 0"
  "case snd (createPipeline (ex_api_state ALLOW) ex_call) of Inr _ \<Rightarrow> True | _ \<Rightarrow> False"
  by code_simp+

theorem create_governed_witness:
  "\<exists>row. pdb_pipelines (as_pipeline (fst (createPipeline (ex_api_state ALLOW) ex_call))) = [row] \<and>
     pl_status row = No_Contact"
proof -
  obtain st' out where r: "createPipeline (ex_api_state ALLOW) ex_call = (st', out)" by fastforce
  have l: "length (pdb_pipelines (as_pipeline st')) = 1" "pdb_pipelines (as_pipeline (ex_api_state ALLOW)) = []"
    using ex_call_creates r by (simp_all add: ex_api_state_def)
  then have "pdb_pipelines (as_pipeline st') \<noteq> pdb_pipelines (as_pipeline (ex_api_state ALLOW))" by auto
  from create_governed [OF r this] l r show ?thesis by auto
qed



end
