(* ===== verification/Pipeline_Reads.thy ===== *)
theory Pipeline_Reads
  imports Pipeline_Api
begin

text \<open>
  The remaining reads of \<^verbatim>\<open>libs/pipeline\<close>: the batch read models of the repository, the
  reversal re-insert \<open>restoreRemovedRows\<close> (its callers pass an empty list, see the header),
  and the resume-edition view of the controller
  (\<^verbatim>\<open>dto/pipeline-resume-edition.view.ts\<close>). Where SQL leaves the order of rows open, the
  physical order stands for it.
\<close>

section \<open>Batch reads of the repository\<close>

definition in_reqs :: "string list option \<Rightarrow> pipeline_row \<Rightarrow> bool" where
  "in_reqs reqs r = (case reqs of None \<Rightarrow> True | Some qs \<Rightarrow> pl_requisition_id r \<in> set qs)"

definition list_pipelines ::
  "pipeline_db \<Rightarrow> string \<Rightarrow> string option \<Rightarrow> string list option \<Rightarrow> string option \<Rightarrow> nat option \<Rightarrow> pipeline_view list" where
  "list_pipelines db tenant req reqs talent lmt =
     (let limit = min (case lmt of None \<Rightarrow> 50 | Some n \<Rightarrow> n) 200
      in map projectView (take limit (sort_key (\<lambda>r. - pl_created_at r)
           (filter (\<lambda>r. pl_tenant_id r = tenant \<and>
              (case reqs of
                 Some qs \<Rightarrow> pl_requisition_id r \<in> set qs
               | None \<Rightarrow> (case req of None \<Rightarrow> True | Some q \<Rightarrow> pl_requisition_id r = q)) \<and>
              (case talent of None \<Rightarrow> True | Some t \<Rightarrow> pl_talent_record_id r = t)) (pdb_pipelines db)))))"

record source_cohort_row =
  sc_pipeline_id :: string
  sc_requisition_id :: string
  sc_talent_record_id :: string
  sc_status :: pipeline_status
  sc_origin_type :: "entry_origin option"
  sc_source_system :: "string option"
  sc_disposition_reason :: "string option"

text \<open>The two left joins are on unique columns: at most one match each.\<close>

definition readSourceEffectivenessCohort :: "pipeline_db \<Rightarrow> string \<Rightarrow> string list option \<Rightarrow> source_cohort_row list" where
  "readSourceEffectivenessCohort db tenant reqs =
     map (\<lambda>p. let ep = find (\<lambda>e. pv_pipeline_id e = pl_id p) (pdb_provenance db);
                  d = find (\<lambda>d. dp_pipeline_id d = pl_id p) (pdb_dispositions db)
              in \<lparr> sc_pipeline_id = pl_id p, sc_requisition_id = pl_requisition_id p,
                   sc_talent_record_id = pl_talent_record_id p, sc_status = pl_status p,
                   sc_origin_type = map_option (\<lambda>e. ep_origin_type (pv_input e)) ep,
                   sc_source_system = Option.bind ep (\<lambda>e. ep_source_system (pv_input e)),
                   sc_disposition_reason = map_option dp_reason d \<rparr>)
       (filter (\<lambda>p. pl_tenant_id p = tenant \<and> in_reqs reqs p) (pdb_pipelines db))"

definition countByRequisition ::
  "pipeline_db \<Rightarrow> string \<Rightarrow> string list \<Rightarrow> pipeline_status list \<Rightarrow> (string \<times> nat) list" where
  "countByRequisition db tenant reqs statuses =
     (if length reqs = 0 \<or> length statuses = 0 then []
      else let rows = filter (\<lambda>r. pl_tenant_id r = tenant \<and> pl_requisition_id r \<in> set reqs \<and>
                 pl_status r \<in> set statuses) (pdb_pipelines db)
           in map (\<lambda>q. (q, length (filter (\<lambda>r. pl_requisition_id r = q) rows)))
                (js_dedupe (map pl_requisition_id rows)))"

definition listActiveRequisitionsByTalent ::
  "pipeline_db \<Rightarrow> string \<Rightarrow> string list \<Rightarrow> string set option \<Rightarrow> (string \<times> string) list" where
  "listActiveRequisitionsByTalent db tenant talents vis =
     (if length talents = 0 then []
      else js_dedupe (map (\<lambda>r. (pl_talent_record_id r, pl_requisition_id r))
        (filter (\<lambda>r. pl_tenant_id r = tenant \<and> pl_talent_record_id r \<in> set talents \<and>
           pl_status r \<in> set ACTIVE_FLOW_STAGES \<and> visible vis r) (pdb_pipelines db))))"

definition listByRequisitionsAndStatus ::
  "pipeline_db \<Rightarrow> string \<Rightarrow> string list \<Rightarrow> pipeline_status list \<Rightarrow> nat option \<Rightarrow>
     (string \<times> string \<times> string \<times> pipeline_status) list" where
  "listByRequisitionsAndStatus db tenant reqs statuses lmt =
     (if length reqs = 0 \<or> length statuses = 0 then []
      else map (\<lambda>r. (pl_id r, pl_talent_record_id r, pl_requisition_id r, pl_status r)) (take (min (case lmt of None \<Rightarrow> 100 | Some n \<Rightarrow> n) 500)
        (sort_key (\<lambda>r. - pl_updated_at r) (filter (\<lambda>r. pl_tenant_id r = tenant \<and>
           pl_requisition_id r \<in> set reqs \<and> pl_status r \<in> set statuses) (pdb_pipelines db)))))"

definition findIdsForRequisitions :: "pipeline_db \<Rightarrow> string \<Rightarrow> string list \<Rightarrow> string list" where
  "findIdsForRequisitions db tenant reqs =
     (if length reqs = 0 then []
      else map pl_id (filter (\<lambda>r. pl_tenant_id r = tenant \<and> pl_requisition_id r \<in> set reqs) (pdb_pipelines db)))"

definition listForRequisitions ::
  "pipeline_db \<Rightarrow> string \<Rightarrow> string list \<Rightarrow> nat option \<Rightarrow> (string \<times> string \<times> int) list" where
  "listForRequisitions db tenant reqs lmt =
     (if length reqs = 0 then []
      else map (\<lambda>r. (pl_id r, pl_requisition_id r, pl_created_at r))
        (take (min (case lmt of None \<Rightarrow> 5000 | Some n \<Rightarrow> n) 10000)
          (filter (\<lambda>r. pl_tenant_id r = tenant \<and> pl_requisition_id r \<in> set reqs) (pdb_pipelines db))))"

definition findCurrentStageForTalentIds ::
  "pipeline_db \<Rightarrow> string \<Rightarrow> string list \<Rightarrow> string set option \<Rightarrow> (string \<rightharpoonup> pipeline_status \<times> string)" where
  "findCurrentStageForTalentIds db tenant talents vis =
     (if length talents = 0 then Map.empty
      else (\<lambda>t. if t \<in> set talents then findCurrentStage db tenant vis t else None))"

text \<open>Descending by \<open>selected_at\<close>, then by id; the first row seen of a talent is kept.\<close>

definition listCurrentRequisitionResumes ::
  "pipeline_db \<Rightarrow> string \<Rightarrow> string \<Rightarrow> string list \<Rightarrow> (string \<rightharpoonup> resume_selection_row)" where
  "listCurrentRequisitionResumes db tenant req talents =
     (if length talents = 0 then Map.empty
      else let rows = rev (sort_key (\<lambda>r. (rs_selected_at r, rs_id r))
                 (filter (\<lambda>r. rs_tenant_id r = tenant \<and> rs_requisition_id r = req \<and>
                    rs_talent_record_id r \<in> set talents) (pdb_resumes db)))
           in (\<lambda>t. find (\<lambda>r. rs_talent_record_id r = t) rows))"

definition listLatestStatusEntryForPipelines ::
  "pipeline_db \<Rightarrow> string \<Rightarrow> string list \<Rightarrow> (string \<rightharpoonup> pipeline_status \<times> int)" where
  "listLatestStatusEntryForPipelines db tenant ids =
     (if length ids = 0 then Map.empty
      else let rows = sort_key (\<lambda>h. - hr_changed_at h)
                 (filter (\<lambda>h. hr_tenant_id h = tenant \<and> hr_pipeline_id h \<in> set ids) (pdb_history db))
           in (\<lambda>i. map_option (\<lambda>h. (hr_status_to h, hr_changed_at h)) (find (\<lambda>h. hr_pipeline_id h = i) rows)))"

section \<open>The reversal re-insert\<close>

definition recon_provenance :: entry_provenance_input where
  "recon_provenance =
     \<lparr> ep_origin_type = SYSTEM_RECONCILIATION, ep_initiated_by_kind = ''system'', ep_initiated_by_id = None,
       ep_source_system = None, ep_source_connection_id = None, ep_external_object_type = None,
       ep_external_object_id = None, ep_external_event_id = None, ep_observed_at = None,
       ep_metadata = Some (JObj [(''reversal'', JBool True)]) \<rparr>"

text \<open>One row: its id, tenant, site, talent, requisition, status and two timestamps.\<close>

definition restore_row :: "pipeline_env \<Rightarrow> pipeline_db \<Rightarrow> pipeline_row \<Rightarrow> (pipeline_error, pipeline_db) result" where
  "restore_row env db row =
     (if pl_id row \<in> pl_id ` set (pdb_pipelines db) then Inr db
      else let r = row \<lparr> pl_version := 0, pl_ended_at := None, pl_ended_by_id := None \<rparr>;
               db' = db \<lparr> pdb_pipelines := pdb_pipelines db @ [r] \<rparr>
           in if \<not> live_index_ok db' then Inl Unique_Violation
              else rbind (buildEntryProvenanceCreateData (pl_tenant_id r) (pl_id r) recon_provenance) (\<lambda>prov.
                Inr (db' \<lparr> pdb_provenance := pdb_provenance db @ [prov],
                           pdb_outbox := pdb_outbox db @ [created_event env r recon_provenance] \<rparr>)))"

text \<open>Each row is a transaction of its own: the rows before a failing one stay.\<close>

fun restoreRemovedRows ::
  "pipeline_env \<Rightarrow> pipeline_db \<Rightarrow> pipeline_row list \<Rightarrow> pipeline_db \<times> (pipeline_error, unit) result" where
  "restoreRemovedRows env db [] = (db, Inr ())"
| "restoreRemovedRows env db (r # rs) =
     (case restore_row env db r of
        Inl e \<Rightarrow> (db, Inl e)
      | Inr db' \<Rightarrow> restoreRemovedRows env db' rs)"

section \<open>The resume-edition view\<close>

record resume_edition_summary = resume_edition +
  ed_is_default :: bool
  ed_purpose :: string
  ed_label :: "string option"
  ed_requisition_id :: "string option"
  ed_filename :: string
  ed_mime_type :: string
  ed_created_at :: int

text \<open>\<open>localeCompare\<close> on ids is a parameter: \<open>rank\<close> gives the collation key.\<close>

definition revisionOrdinals ::
  "(string \<Rightarrow> string) \<Rightarrow> resume_edition_summary list \<Rightarrow> (string \<rightharpoonup> nat)" where
  "revisionOrdinals rank editions =
     (let ascending = sort_key (\<lambda>e. (ed_created_at e, rank (ed_edition_id e))) editions
      in map_of (rev (zip (map ed_edition_id ascending) [1..<Suc (length ascending)])))"

definition edition_tier :: "string \<Rightarrow> resume_edition_summary \<Rightarrow> nat" where
  "edition_tier req e = (if ed_requisition_id e = Some req then 0 else if ed_requisition_id e = None then 1 else 2)"

definition orderedAvailableEditions ::
  "(string \<Rightarrow> string) \<Rightarrow> resume_edition_summary list \<Rightarrow> string \<Rightarrow> (resume_edition_summary \<times> nat option) list" where
  "orderedAvailableEditions rank editions req =
     (let ordinals = revisionOrdinals rank editions
      in map (\<lambda>e. (e, ordinals (ed_edition_id e)))
           (sort_key (\<lambda>e. (edition_tier req e, - ed_created_at e))
             (filter (\<lambda>e. ed_lifecycle_status e = ''active'') editions)))"

record resume_edition_view =
  rv_pipeline_id :: string
  rv_talent_record_id :: string
  rv_requisition_id :: string
  rv_selected_edition_id :: "string option"
  rv_selected_at :: "int option"
  rv_selected_by :: "string option"
  rv_default_edition_id :: "string option"
  rv_selected_lifecycle_status :: "string option"
  rv_selected_requires_attention :: bool
  rv_available_editions :: "(resume_edition_summary \<times> nat option) list"

fun eligibility_lifecycle :: "resume_eligibility \<Rightarrow> string option" where
  "eligibility_lifecycle Eligible = Some ''active''"
| "eligibility_lifecycle No_Selection = None"
| "eligibility_lifecycle (Ineligible s) = Some s"

definition buildResumeEditionView ::
  "(string \<Rightarrow> string) \<Rightarrow> pipeline_db \<Rightarrow> resume_edition_summary list \<Rightarrow> string \<Rightarrow> string \<Rightarrow> string \<Rightarrow> string \<Rightarrow> resume_edition_view" where
  "buildResumeEditionView rank db editions tenant pid talent req =
     (let current = getCurrentRequisitionResume db tenant talent req;
          selected = Option.bind current (\<lambda>c. find (\<lambda>e. ed_edition_id e = rs_resume_edition_id c) editions);
          eligibility = resumeSelectionEligibility (map_option rs_resume_edition_id current)
            (map_option ed_lifecycle_status selected)
      in \<lparr> rv_pipeline_id = pid, rv_talent_record_id = talent, rv_requisition_id = req,
           rv_selected_edition_id = map_option rs_resume_edition_id current,
           rv_selected_at = map_option rs_selected_at current,
           rv_selected_by = map_option rs_selected_by current,
           rv_default_edition_id = map_option ed_edition_id (find ed_is_default editions),
           rv_selected_lifecycle_status = eligibility_lifecycle eligibility,
           rv_selected_requires_attention =
             (case eligibility of Ineligible _ \<Rightarrow> True | _ \<Rightarrow> False),
           rv_available_editions = orderedAvailableEditions rank editions req \<rparr>)"

section \<open>What the reads return\<close>

text \<open>The candidates of the current-stage read: the actor's visible active memberships of the talent.\<close>

definition stage_candidates :: "pipeline_db \<Rightarrow> string \<Rightarrow> string set option \<Rightarrow> string \<Rightarrow> pipeline_row list" where
  "stage_candidates db tenant vis talent =
     filter (\<lambda>r. pl_tenant_id r = tenant \<and> pl_talent_record_id r = talent \<and>
        pl_status r \<in> set ACTIVE_FLOW_STAGES \<and> visible vis r) (pdb_pipelines db)"

lemma findCurrentStage_candidates:
  "findCurrentStage db tenant vis talent =
     map_option (\<lambda>r. (pl_status r, pl_requisition_id r)) (foldl stage_step None (stage_candidates db tenant vis talent))"
  by (simp add: findCurrentStage_def stage_candidates_def)

lemma stage_better_trans: "stage_better a b \<Longrightarrow> stage_better b c \<Longrightarrow> stage_better a c"
  by (auto simp: stage_better_def)

lemma not_better_trans: "\<not> stage_better b a \<Longrightarrow> \<not> stage_better c b \<Longrightarrow> \<not> stage_better c a"
  by (force simp: stage_better_def)

lemma stage_fold_None [simp]: "foldl stage_step None rs = None \<longleftrightarrow> rs = []"
proof (cases rs rule: rev_cases)
  case (snoc ys y)
  then show ?thesis by (cases "foldl stage_step None ys") auto
qed simp

lemma stage_fold_best:
  "foldl stage_step None rs = Some m \<Longrightarrow> m \<in> set rs \<and> (\<forall>r\<in>set rs. \<not> stage_better r m)"
proof (induction rs arbitrary: m rule: rev_induct)
  case (snoc r rs)
  show ?case
  proof (cases "foldl stage_step None rs")
    case None
    then have "rs = []" by simp
    with snoc.prems show ?thesis by (simp add: stage_better_def)
  next
    case (Some c)
    from snoc.IH [OF Some] have c: "c \<in> set rs" "\<forall>x\<in>set rs. \<not> stage_better x c" by auto
    show ?thesis
    proof (cases "stage_better r c")
      case True
      with snoc.prems Some have "m = r" by simp
      moreover have "\<not> stage_better x r" if "x \<in> set rs" for x
        using c(2) that True stage_better_trans by blast
      ultimately show ?thesis by (auto simp: stage_better_def)
    qed (use snoc.prems Some c in auto)
  qed
qed simp

lemma ordinal_active_inj:
  "s \<in> set ACTIVE_FLOW_STAGES \<Longrightarrow> t \<in> set ACTIVE_FLOW_STAGES \<Longrightarrow> activeStageOrdinal s = activeStageOrdinal t \<Longrightarrow> s = t"
  by (cases s; cases t) (simp_all add: ACTIVE_FLOW_STAGES_def)

text \<open>
  The batch current-stage read returns, for a requested talent, exactly the most advanced
  of the visible active memberships, the least requisition id among the equally advanced
  ones, whatever order the database returns the rows in; a talent that was not asked for,
  or has no visible active membership, is absent.
\<close>

theorem current_stage_exact:
  "findCurrentStageForTalentIds db tenant talents vis t = Some (st, q) \<longleftrightarrow>
     t \<in> set talents \<and>
     (\<exists>r\<in>set (pdb_pipelines db). pl_tenant_id r = tenant \<and> pl_talent_record_id r = t \<and>
        visible vis r \<and> pl_status r = st \<and> pl_requisition_id r = q \<and> st \<in> set ACTIVE_FLOW_STAGES) \<and>
     (\<forall>r\<in>set (pdb_pipelines db). pl_tenant_id r = tenant \<longrightarrow> pl_talent_record_id r = t \<longrightarrow>
        visible vis r \<longrightarrow> pl_status r \<in> set ACTIVE_FLOW_STAGES \<longrightarrow>
        activeStageOrdinal (pl_status r) < activeStageOrdinal st \<or>
        activeStageOrdinal (pl_status r) = activeStageOrdinal st \<and> q \<le> pl_requisition_id r)"
  (is "?L = (?A \<and> ?B \<and> ?C)")
proof -
  let ?cs = "stage_candidates db tenant vis t"
  have L: "?L \<longleftrightarrow> ?A \<and> findCurrentStage db tenant vis t = Some (st, q)"
    by (auto simp: findCurrentStageForTalentIds_def)
  have B: "?B \<longleftrightarrow> (\<exists>r\<in>set ?cs. pl_status r = st \<and> pl_requisition_id r = q)"
    by (auto simp: stage_candidates_def)
  have C: "?C \<longleftrightarrow> (\<forall>r\<in>set ?cs. activeStageOrdinal (pl_status r) < activeStageOrdinal st \<or>
      activeStageOrdinal (pl_status r) = activeStageOrdinal st \<and> q \<le> pl_requisition_id r)"
    by (auto simp: stage_candidates_def)
  have "findCurrentStage db tenant vis t = Some (st, q) \<longleftrightarrow> ?B \<and> ?C"
  proof
    assume "findCurrentStage db tenant vis t = Some (st, q)"
    then obtain m where m: "foldl stage_step None ?cs = Some m" "pl_status m = st" "pl_requisition_id m = q"
      by (auto simp: findCurrentStage_candidates)
    from stage_fold_best [OF m(1)] m(2,3) show "?B \<and> ?C"
      unfolding B C by (force simp: stage_better_def)
  next
    assume bc: "?B \<and> ?C"
    then have "?cs \<noteq> []" unfolding B by auto
    then obtain m where m: "foldl stage_step None ?cs = Some m"
      by (cases "foldl stage_step None ?cs") auto
    have best: "m \<in> set ?cs" "\<forall>r\<in>set ?cs. \<not> stage_better r m" using stage_fold_best [OF m] by auto
    from bc obtain r where r: "r \<in> set ?cs" "pl_status r = st" "pl_requisition_id r = q" unfolding B by auto
    have "activeStageOrdinal (pl_status m) < activeStageOrdinal st \<or>
        activeStageOrdinal (pl_status m) = activeStageOrdinal st \<and> q \<le> pl_requisition_id m"
      using bc best(1) unfolding C by blast
    moreover have "\<not> stage_better r m" using best(2) r(1) by blast
    ultimately have eq: "activeStageOrdinal (pl_status m) = activeStageOrdinal st" "pl_requisition_id m = q"
      using r by (auto simp: stage_better_def)
    have "pl_status m = st"
      by (rule ordinal_active_inj [OF _ _ eq(1)]) (use best(1) r in \<open>auto simp: stage_candidates_def\<close>)
    with eq(2) m show "findCurrentStage db tenant vis t = Some (st, q)"
      by (simp add: findCurrentStage_candidates)
  qed
  with L show ?thesis by blast
qed

theorem current_stage_exact_witness:
  "findCurrentStageForTalentIds ex_db3 ''T'' [pl_talent_record_id ex_row] None (pl_talent_record_id ex_row) =
     Some (Talent_Responded, ''R'')"
proof -
  have "ex_row \<in> set (pdb_pipelines ex_db3)" "pl_tenant_id ex_row = ''T''" "pl_requisition_id ex_row = ''R''"
    by code_simp+
  then show ?thesis
    unfolding current_stage_exact using ex_row_in by (auto simp: visible_def ACTIVE_FLOW_STAGES_def)
qed

text \<open>
  The batch read of the working resume selections answers, for every talent of the
  request, exactly what the single read answers for that talent, and nothing for any
  other: one query in place of one per card changes no result.
\<close>

theorem batch_resume_read_agrees:
  assumes "distinct (map rs_id (pdb_resumes db))"
  shows "listCurrentRequisitionResumes db tenant req talents t =
    (if t \<in> set talents then getCurrentRequisitionResume db tenant t req else None)"
proof -
  let ?rows = "filter (\<lambda>r. rs_tenant_id r = tenant \<and> rs_requisition_id r = req \<and>
      rs_talent_record_id r \<in> set talents) (pdb_resumes db)"
  have "inj_on (\<lambda>r. (rs_selected_at r, rs_id r)) (set ?rows)"
    using assms by (auto simp: distinct_map inj_on_def)
  note f = find_rev_sorted [OF this, of "\<lambda>r. rs_talent_record_id r = t"]
  have "filter (\<lambda>r. rs_talent_record_id r = t) ?rows = (if t \<in> set talents then resumes_of db tenant t req else [])"
    by (auto simp: resumes_of_def filter_empty_conv intro!: filter_cong)
  with f show ?thesis
    by (auto simp: listCurrentRequisitionResumes_def getCurrentRequisitionResume_def)
qed

definition ex_resume_db :: pipeline_db where
  "ex_resume_db = createRequisitionResumeSelection (ex_penv ''s2'')
     (createRequisitionResumeSelection (ex_penv ''s1'') ex_db3 ''T'' ''A'' ''R'' ''e1'' ''U'' None)
     ''T'' ''A'' ''R'' ''e2'' ''U'' None"

theorem batch_resume_read_agrees_witness:
  "listCurrentRequisitionResumes ex_resume_db ''T'' ''R'' [''A'', ''B''] ''A'' =
     getCurrentRequisitionResume ex_resume_db ''T'' ''A'' ''R'' \<and>
   map_option rs_id (getCurrentRequisitionResume ex_resume_db ''T'' ''A'' ''R'') = Some ''s2''"
proof
  have "distinct (map rs_id (pdb_resumes ex_resume_db))" by code_simp
  from batch_resume_read_agrees [OF this, of "''T''" "''R''" "[''A'', ''B'']" "''A''"]
  show "listCurrentRequisitionResumes ex_resume_db ''T'' ''R'' [''A'', ''B''] ''A'' =
     getCurrentRequisitionResume ex_resume_db ''T'' ''A'' ''R''" by simp
  show "map_option rs_id (getCurrentRequisitionResume ex_resume_db ''T'' ''A'' ''R'') = Some ''s2''" by code_simp
qed

text \<open>The pairs a status rollup counts, and those with a live membership.\<close>

definition pair_of :: "pipeline_row \<Rightarrow> string \<times> string" where
  "pair_of r = (pl_talent_record_id r, pl_requisition_id r)"

definition rollup_rows :: "pipeline_db \<Rightarrow> string \<Rightarrow> string list option \<Rightarrow> pipeline_row list" where
  "rollup_rows db tenant reqs = filter (\<lambda>r. pl_tenant_id r = tenant \<and> in_reqs reqs r) (pdb_pipelines db)"

lemma current_episodes_alt:
  "current_episodes db tenant reqs =
     List.map_filter (\<lambda>k. current_episode (filter (\<lambda>r. pair_of r = k) (rollup_rows db tenant reqs)))
       (js_dedupe (map pair_of (rollup_rows db tenant reqs)))"
  by (simp add: current_episodes_def rollup_rows_def in_reqs_def pair_of_def [abs_def] Let_def)

lemma current_episode_pair:
  "current_episode (filter (\<lambda>r. pair_of r = k) rows) = Some e \<Longrightarrow> pair_of e = k \<and> e \<in> set rows"
  unfolding current_episode_def by (drule first_max_in) simp

lemma map_filter_pairs:
  assumes "distinct ks" "\<forall>k\<in>set ks. k \<in> pair_of ` set rows"
  shows "map pair_of (List.map_filter (\<lambda>k. current_episode (filter (\<lambda>r. pair_of r = k) rows)) ks) = ks"
  using assms
proof (induction ks)
  case (Cons k ks)
  then have "filter (\<lambda>r. pair_of r = k) rows \<noteq> []" by (auto simp: filter_empty_conv)
  then obtain e where e: "current_episode (filter (\<lambda>r. pair_of r = k) rows) = Some e"
    using first_max_ex unfolding current_episode_def by blast
  with current_episode_pair [OF e] Cons show ?case by (simp add: List.map_filter_simps)
qed (simp add: List.map_filter_simps)

lemma current_episodes_pairs:
  "map pair_of (current_episodes db tenant reqs) = js_dedupe (map pair_of (rollup_rows db tenant reqs))"
  unfolding current_episodes_alt by (rule map_filter_pairs) auto

lemma current_episode_live:
  assumes "e \<in> set (current_episodes db tenant reqs)"
  shows "isLiveStatus (pl_status e) \<longleftrightarrow>
    (\<exists>r\<in>set (rollup_rows db tenant reqs). pair_of r = pair_of e \<and> isLiveStatus (pl_status r))"
proof -
  let ?rs = "filter (\<lambda>r. pair_of r = pair_of e) (rollup_rows db tenant reqs)"
  from assms obtain k where k: "current_episode (filter (\<lambda>r. pair_of r = k) (rollup_rows db tenant reqs)) = Some e"
    unfolding current_episodes_alt mem_map_filter by blast
  with current_episode_pair [OF k] have e: "current_episode ?rs = Some e" by simp
  have in_rs: "e \<in> set ?rs" using e unfolding current_episode_def by (rule first_max_in)
  have "isLiveStatus (pl_status e)" if "r \<in> set ?rs" "isLiveStatus (pl_status r)" for r
    using first_max_ge [OF e [unfolded current_episode_def] that(1)] that(2)
    by (auto simp: less_eq_prod_def less_bool_def le_bool_def)
  with in_rs show ?thesis by auto
qed

lemma count_over_statuses:
  assumes "distinct vs"
  shows "(\<Sum>s\<leftarrow>vs. countByStatus db tenant reqs s) =
    length (filter (\<lambda>e. pl_status e \<in> set vs) (current_episodes db tenant reqs))"
proof -
  have "countByStatus db tenant reqs s = length (filter (\<lambda>e. pl_status e = s)
      (filter (\<lambda>e. pl_status e \<in> set vs) (current_episodes db tenant reqs)))" if "s \<in> set vs" for s
    using that by (auto simp: countByStatus_def intro!: arg_cong [of _ _ length] filter_cong)
  then have "map (countByStatus db tenant reqs) vs = map (\<lambda>s. length (filter (\<lambda>e. pl_status e = s)
      (filter (\<lambda>e. pl_status e \<in> set vs) (current_episodes db tenant reqs)))) vs" by (rule map_cong [OF refl])
  then show ?thesis
    using sum_list_filter_values [OF assms, of "filter (\<lambda>e. pl_status e \<in> set vs) (current_episodes db tenant reqs)" pl_status]
    by (simp only: set_filter) blast
qed

text \<open>
  The status rollup is a count of people on requisitions, not of episodes: over all
  statuses it adds up to the number of (talent, requisition) pairs with a membership, and
  over the live statuses to the number of pairs with a live one, however many ended
  episodes a pair has behind it.
\<close>

theorem rollup_counts_pairs_once:
  "(\<Sum>s\<leftarrow>PIPELINE_STATUS_VALUES. countByStatus db tenant reqs s) =
     card {(pl_talent_record_id r, pl_requisition_id r) | r. r \<in> set (pdb_pipelines db) \<and>
       pl_tenant_id r = tenant \<and> in_reqs reqs r} \<and>
   (\<Sum>s\<leftarrow>filter isLiveStatus PIPELINE_STATUS_VALUES. countByStatus db tenant reqs s) =
     card {(pl_talent_record_id r, pl_requisition_id r) | r. r \<in> set (pdb_pipelines db) \<and>
       pl_tenant_id r = tenant \<and> in_reqs reqs r \<and> isLiveStatus (pl_status r)}"
proof -
  let ?es = "current_episodes db tenant reqs"
  have d: "distinct PIPELINE_STATUS_VALUES" by code_simp
  have all: "s \<in> set PIPELINE_STATUS_VALUES" for s by (cases s) (simp_all add: PIPELINE_STATUS_VALUES_def)
  have de: "distinct (map pair_of ?es)" by (simp add: current_episodes_pairs)
  have img: "pair_of ` set ?es = pair_of ` set (rollup_rows db tenant reqs)"
    using arg_cong [OF current_episodes_pairs, of set] by simp
  have "(\<Sum>s\<leftarrow>PIPELINE_STATUS_VALUES. countByStatus db tenant reqs s) = card {pair_of e | e. e \<in> set ?es \<and> True}"
    using count_over_statuses [OF d] length_pairs [OF de, of "\<lambda>_. True"] all by simp
  also have "{pair_of e | e. e \<in> set ?es \<and> True} = pair_of ` set ?es" by auto
  also have "\<dots> = {(pl_talent_record_id r, pl_requisition_id r) | r. r \<in> set (pdb_pipelines db) \<and>
       pl_tenant_id r = tenant \<and> in_reqs reqs r}"
    unfolding img by (auto simp: rollup_rows_def pair_of_def)
  finally have one: "(\<Sum>s\<leftarrow>PIPELINE_STATUS_VALUES. countByStatus db tenant reqs s) = card \<dots>" .
  have "(\<Sum>s\<leftarrow>filter isLiveStatus PIPELINE_STATUS_VALUES. countByStatus db tenant reqs s) =
      card {pair_of e | e. e \<in> set ?es \<and> isLiveStatus (pl_status e)}"
    using count_over_statuses [of "filter isLiveStatus PIPELINE_STATUS_VALUES"] d
      length_pairs [OF de, of "\<lambda>e. isLiveStatus (pl_status e)"] all by simp
  also have "{pair_of e | e. e \<in> set ?es \<and> isLiveStatus (pl_status e)} =
      {pair_of r | r. r \<in> set (rollup_rows db tenant reqs) \<and> isLiveStatus (pl_status r)}"
    (is "?E = ?R")
  proof
    show "?E \<subseteq> ?R"
    proof
      fix k assume "k \<in> ?E"
      then obtain e where e: "e \<in> set ?es" "isLiveStatus (pl_status e)" "k = pair_of e" by auto
      with current_episode_live [OF e(1)] show "k \<in> ?R" by (metis (mono_tags, lifting) mem_Collect_eq)
    qed
    show "?R \<subseteq> ?E"
    proof
      fix k assume "k \<in> ?R"
      then obtain r where r: "r \<in> set (rollup_rows db tenant reqs)" "isLiveStatus (pl_status r)" "k = pair_of r"
        by auto
      then obtain e where e: "e \<in> set ?es" "pair_of e = pair_of r" using img by (metis imageE imageI)
      with current_episode_live [OF e(1)] r show "k \<in> ?E" by (metis (mono_tags, lifting) mem_Collect_eq)
    qed
  qed
  also have "\<dots> = {(pl_talent_record_id r, pl_requisition_id r) | r. r \<in> set (pdb_pipelines db) \<and>
       pl_tenant_id r = tenant \<and> in_reqs reqs r \<and> isLiveStatus (pl_status r)}"
    by (auto simp: rollup_rows_def pair_of_def)
  finally show ?thesis using one by blast
qed

end
