(* ===== verification/Consent_Merge.thy ===== *)
theory Consent_Merge
  imports Consent_Commands
begin

text \<open>
  The database seen over whole histories: which rows any sequence of consent commands keeps, and
  what a record merge (\<open>repointTalentRecordRefs\<close>) and its reversal
  (\<open>deleteReconcileGrants\<close>) do to the ledger.
\<close>

section \<open>All commands\<close>

datatype write_command =
    Api_Cmd api_call
  | Stale_Job_Cmd consent_env "int option"
  | Repoint_Cmd consent_env reconcile_args
  | Reconcile_Audit_Cmd consent_env reconcile_args "string option"

datatype consent_command =
    Write_Cmd write_command
  | Undo_Reconcile_Cmd string string string

fun write_step :: "consent_db \<Rightarrow> write_command \<Rightarrow> consent_db" where
  "write_step db (Api_Cmd c) = fst (api_exec db c)"
| "write_step db (Stale_Job_Cmd env w) = process_stale env db w"
| "write_step db (Repoint_Cmd env a) = fst (repointTalentRecordRefs env db a)"
| "write_step db (Reconcile_Audit_Cmd env a t) = appendRecordReconcileAuditEvent env db a t"

fun consent_step :: "consent_db \<Rightarrow> consent_command \<Rightarrow> consent_db" where
  "consent_step db (Write_Cmd c) = write_step db c"
| "consent_step db (Undo_Reconcile_Cmd tenant to_record operation) =
     fst (deleteReconcileGrants db tenant to_record operation)"

lemma api_ledger: "\<exists>new. db_ledger (fst (api_exec db c)) = db_ledger db @ new"
proof (cases c)
  case (Record_Call env inp)
  obtain db' r where r: "recordConsentEvent env db inp = (db', r)" by fastforce
  then have "\<exists>new. db_ledger db' = db_ledger db @ new"
    by (cases rule: recordConsentEvent_cases) (auto dest: write_event_ledgerD)
  with Record_Call r show ?thesis by simp
next
  case (Check_Call env inp)
  have "db_ledger (fst (resolveConsentState env db inp)) = db_ledger db"
    by (auto simp: resolveConsentState_def completeDecision_def persistDecisionAudit_def add_idempotency_def
        Let_def split: option.splits prod.splits bool.splits)
  with Check_Call show ?thesis by simp
qed

lemma api_audit: "\<exists>new. db_audit (fst (api_exec db c)) = db_audit db @ new"
proof (cases c)
  case (Record_Call env inp)
  obtain db' r where r: "recordConsentEvent env db inp = (db', r)" by fastforce
  then have "\<exists>new. db_audit db' = db_audit db @ new"
    by (cases rule: recordConsentEvent_cases) (auto simp: write_event_def Let_def)
  with Record_Call r show ?thesis by simp
next
  case (Check_Call env inp)
  then show ?thesis
    by (auto simp: resolveConsentState_def completeDecision_def persistDecisionAudit_def add_idempotency_def
        Let_def split: option.splits prod.splits bool.splits)
qed

lemma mark_all_audit: "\<exists>new. db_audit (mark_all env n db gs) = db_audit db @ new"
proof (induction gs arbitrary: n db)
  case (Cons g gs)
  let ?db = "markExpired env n db (sg_tenant_id g) (sg_talent_record_id g) (env_now env) ''stale_consent_12mo_window''"
  obtain new where "db_audit (mark_all env (n + 3) ?db gs) = db_audit ?db @ new" using Cons by blast
  then show ?case by (simp add: markExpired_def)
qed simp

text \<open>What the merge loop appends: grants of the survivor, for distinct scopes.\<close>

lemma repoint_loop_spec:
  "\<exists>new. fst (repoint_loop env a n db es) = db\<lparr>db_ledger := db_ledger db @ new\<rparr> \<and>
     snd (repoint_loop env a n db es) = map ev_id new \<and>
     (\<forall>x\<in>set new. \<exists>k. \<exists>e\<in>set es. x = reconcile_grant env a k e \<and> ev_action e = Granted \<and>
        \<not> already_reconciled db a (ev_scope e))"
proof (induction env a n db es rule: repoint_loop.induct)
  case (2 env a n db e es)
  let ?row = "reconcile_grant env a n e"
  let ?db = "db\<lparr>db_ledger := db_ledger db @ [?row]\<rparr>"
  have mono: "already_reconciled db a s \<Longrightarrow> already_reconciled ?db a s" for s
    by (auto simp: already_reconciled_def)
  show ?case
  proof (cases "ev_action e \<noteq> Granted \<or> already_reconciled db a (ev_scope e)")
    case True
    then have "repoint_loop env a n db (e # es) = repoint_loop env a n db es" by auto
    moreover have "\<exists>new. fst (repoint_loop env a n db es) = db\<lparr>db_ledger := db_ledger db @ new\<rparr> \<and>
        snd (repoint_loop env a n db es) = map ev_id new \<and>
        (\<forall>x\<in>set new. \<exists>k. \<exists>e\<in>set es. x = reconcile_grant env a k e \<and> ev_action e = Granted \<and>
           \<not> already_reconciled db a (ev_scope e))"
      using True "2.IH"(1,2) by blast
    ultimately show ?thesis by fastforce
  next
    case False
    then obtain new where new: "fst (repoint_loop env a (Suc n) ?db es) = ?db\<lparr>db_ledger := db_ledger ?db @ new\<rparr>"
      "snd (repoint_loop env a (Suc n) ?db es) = map ev_id new"
      "\<forall>x\<in>set new. \<exists>k. \<exists>e\<in>set es. x = reconcile_grant env a k e \<and> ev_action e = Granted \<and>
           \<not> already_reconciled ?db a (ev_scope e)"
      using "2.IH"(3) by blast
    have "ev_id ?row = env_uuid env n" by (simp add: reconcile_grant_def)
    with False new show ?thesis
      using mono by (intro exI [of _ "?row # new"]) (auto simp: Let_def, blast+)
  qed
qed simp

lemma reconcile_grant_sel [simp]:
  "ev_tenant_id (reconcile_grant env a n e) = rc_tenant_id a"
  "ev_talent_record_id (reconcile_grant env a n e) = rc_to_record_id a"
  "ev_scope (reconcile_grant env a n e) = ev_scope e"
  "ev_action (reconcile_grant env a n e) = Granted"
  "ev_captured_method (reconcile_grant env a n e) = Import"
  "ev_occurred_at (reconcile_grant env a n e) = env_now env"
  "ev_expires_at (reconcile_grant env a n e) = None"
  "reconcile_operation (reconcile_grant env a n e) = Some (rc_operation_id a)"
  "permitted_channels (reconcile_grant env a n e) = None"
  by (simp_all add: reconcile_grant_def reconcile_operation_def reconcile_metadata_def js_obj_get_def
      permitted_channels_def)

lemma repoint_spec:
  "\<exists>new. fst (repointTalentRecordRefs env db a) = db\<lparr>db_ledger := db_ledger db @ new\<rparr> \<and>
     snd (repointTalentRecordRefs env db a) = map ev_id new \<and>
     (\<forall>x\<in>set new. \<exists>k. \<exists>e\<in>set (effective_events db (rc_tenant_id a) (rc_from_record_id a)).
        x = reconcile_grant env a k e \<and> ev_action e = Granted \<and> \<not> already_reconciled db a (ev_scope e))"
  unfolding repointTalentRecordRefs_def by (rule repoint_loop_spec)

interpretation audit_stream: growing_log consent_step db_audit
proof
  fix db c
  show "\<exists>new. db_audit (consent_step db c) = db_audit db @ new"
  proof (cases c)
    case (Write_Cmd w)
    show ?thesis
    proof (cases w)
      case (Repoint_Cmd env a)
      then show ?thesis using repoint_spec [of env db a] Write_Cmd by auto
    qed (use Write_Cmd api_audit mark_all_audit in
        \<open>auto simp: process_stale_def appendRecordReconcileAuditEvent_def Let_def\<close>)
  next
    case (Undo_Reconcile_Cmd t r o)
    then show ?thesis by (simp add: deleteReconcileGrants_def)
  qed
qed

interpretation write_ledger: growing_log write_step db_ledger
proof
  fix db c
  show "\<exists>new. db_ledger (write_step db c) = db_ledger db @ new"
  proof (cases c)
    case (Repoint_Cmd env a)
    then show ?thesis using repoint_spec [of env db a] by auto
  qed (use api_ledger in \<open>auto simp: process_stale_ledger appendRecordReconcileAuditEvent_def Let_def\<close>)
qed

section \<open>Properties over histories\<close>

lemma fold_run_all: "foldl consent_step db cs = audit_stream.run_all db cs"
  by (induction cs arbitrary: db) auto

text \<open>
  The audit stream is append-only under every sequence of commands, merges and their reversals
  included: every row keeps its position.
\<close>

theorem audit_append_only:
  "\<exists>new. db_audit (foldl consent_step db cs) = db_audit db @ new"
  unfolding fold_run_all by (rule audit_stream.run_extends)

text \<open>One command loses no event but the synthetic ones of the merge it reverses.\<close>

lemma consent_step_keeps:
  assumes "e \<in> set (db_ledger db)" "reconcile_operation e = None"
  shows "e \<in> set (db_ledger (consent_step db c))"
proof (cases c)
  case (Write_Cmd w)
  then show ?thesis using write_ledger.extends [of db w] assms(1) by auto
next
  case (Undo_Reconcile_Cmd t r o)
  then show ?thesis using assms by (simp add: deleteReconcileGrants_def is_reconcile_row_def)
qed

text \<open>
  C26. No sequence of commands ever loses a consent event that is not a merge artefact (one whose
  metadata carries a reconcile operation).
\<close>

theorem genuine_events_kept:
  assumes "e \<in> set (db_ledger db)" "reconcile_operation e = None"
  shows "e \<in> set (db_ledger (foldl consent_step db cs))"
  using assms by (induction cs arbitrary: db) (auto intro: consent_step_keeps)

theorem genuine_events_kept_witness:
  "example_event Matching Granted Import 1 \<in> set (db_ledger (foldl consent_step
     (example_db [example_event Matching Granted Import 1]) [Undo_Reconcile_Cmd ''t'' ''p'' ''o'']))"
  by (rule genuine_events_kept) (simp_all add: example_defs reconcile_operation_def)

lemma effective_event_scope: "effective_event db tn ta s = Some e \<Longrightarrow> ev_scope e = s"
  unfolding effective_event_def by (drule first_max_in) simp

lemma effective_events_mem:
  "e \<in> set (effective_events db tn ta) \<longleftrightarrow> effective_event db tn ta (ev_scope e) = Some e"
proof -
  have "s \<in> set SCOPES_BY_NAME" for s by (cases s) (simp_all add: SCOPES_BY_NAME_def)
  then show ?thesis
    unfolding effective_events_def mem_map_filter by (metis effective_event_scope)
qed

text \<open>
  C35. Reversing a merge restores the ledger: when the operation id is new to the survivor, deleting
  the merge's grants right after the merge gives the ledger back exactly, and the count returned is
  the number of grants the merge reported.
\<close>

theorem merge_undo_roundtrip:
  assumes fresh: "\<forall>e\<in>set (db_ledger db). \<not> is_reconcile_row (rc_tenant_id a) (rc_to_record_id a) (rc_operation_id a) e"
  shows "deleteReconcileGrants (fst (repointTalentRecordRefs env db a))
           (rc_tenant_id a) (rc_to_record_id a) (rc_operation_id a)
         = (db, length (snd (repointTalentRecordRefs env db a)))"
proof -
  obtain new where new: "fst (repointTalentRecordRefs env db a) = db\<lparr>db_ledger := db_ledger db @ new\<rparr>"
    "snd (repointTalentRecordRefs env db a) = map ev_id new"
    and grants: "\<forall>x\<in>set new. \<exists>k e. x = reconcile_grant env a k e"
    using repoint_spec [of env db a] by blast
  have rows: "is_reconcile_row (rc_tenant_id a) (rc_to_record_id a) (rc_operation_id a) x" if "x \<in> set new" for x
    using grants that by (auto simp: is_reconcile_row_def)
  have "filter (\<lambda>e. \<not> is_reconcile_row (rc_tenant_id a) (rc_to_record_id a) (rc_operation_id a) e) (db_ledger db @ new)
      = db_ledger db"
    "filter (is_reconcile_row (rc_tenant_id a) (rc_to_record_id a) (rc_operation_id a)) (db_ledger db @ new) = new"
    using fresh rows by (auto simp: filter_id_conv filter_empty_conv)
  then show ?thesis by (simp add: deleteReconcileGrants_def new(1,2))
qed

definition example_merge :: reconcile_args where
  "example_merge = \<lparr> rc_tenant_id = ''t'', rc_from_record_id = ''p'', rc_to_record_id = ''q'',
     rc_operation_id = ''o'', rc_actor_id = None \<rparr>"

theorem merge_undo_roundtrip_witness:
  "let db = example_db [example_event Matching Granted Import 1]
   in deleteReconcileGrants (fst (repointTalentRecordRefs (example_env 5) db example_merge)) ''t'' ''q'' ''o''
      = (db, length (snd (repointTalentRecordRefs (example_env 5) db example_merge)))"
  using merge_undo_roundtrip [of "example_db [example_event Matching Granted Import 1]" example_merge "example_env 5"]
  by (simp add: example_merge_def example_defs is_reconcile_row_def)

lemma repoint_loop_reconciles:
  "e \<in> set es \<Longrightarrow> ev_action e = Granted \<Longrightarrow> already_reconciled (fst (repoint_loop env a n db es)) a (ev_scope e)"
proof (induction env a n db es rule: repoint_loop.induct)
  case (2 env a n db x es)
  let ?db = "db\<lparr>db_ledger := db_ledger db @ [reconcile_grant env a n x]\<rparr>"
  have mono: "already_reconciled d a s \<Longrightarrow> already_reconciled (fst (repoint_loop env a m d es)) a s" for d m s
    using repoint_loop_spec [of env a m d es] by (auto simp: already_reconciled_def)
  have new: "already_reconciled ?db a (ev_scope x)" by (auto simp: already_reconciled_def)
  show ?case
  proof (cases "ev_action x \<noteq> Granted \<or> already_reconciled db a (ev_scope x)")
    case True
    then show ?thesis using 2 mono by auto
  next
    case False
    then show ?thesis using 2 mono [OF new] by (auto simp: Let_def)
  qed
qed simp

lemma repoint_loop_noop:
  "\<forall>e\<in>set es. ev_action e = Granted \<longrightarrow> already_reconciled db a (ev_scope e) \<Longrightarrow> repoint_loop env a n db es = (db, [])"
  by (induction es) auto

text \<open>
  A merge can be re-run: a second run of the same operation appends nothing and reports nothing.
\<close>

theorem merge_idempotent:
  assumes "rc_from_record_id a \<noteq> rc_to_record_id a"
  shows "repointTalentRecordRefs env' (fst (repointTalentRecordRefs env db a)) a
         = (fst (repointTalentRecordRefs env db a), [])"
proof -
  obtain new where new: "fst (repointTalentRecordRefs env db a) = db\<lparr>db_ledger := db_ledger db @ new\<rparr>"
    "\<forall>x\<in>set new. \<exists>k e. x = reconcile_grant env a k e"
    using repoint_spec [of env db a] by blast
  then have "\<forall>x\<in>set new. ev_talent_record_id x = rc_to_record_id a" by auto
  then have "filter (\<lambda>x. ev_talent_record_id x = rc_from_record_id a \<and> ev_tenant_id x = rc_tenant_id a \<and> ev_scope x = s) new = []" for s
    using assms by (auto simp: filter_empty_conv)
  then have same: "effective_events (fst (repointTalentRecordRefs env db a)) (rc_tenant_id a) (rc_from_record_id a)
      = effective_events db (rc_tenant_id a) (rc_from_record_id a)"
    by (simp add: effective_events_def effective_event_def [abs_def] new(1))
  show ?thesis
    unfolding repointTalentRecordRefs_def [of env' "fst (repointTalentRecordRefs env db a)" a] same
    by (rule repoint_loop_noop) (auto simp: repointTalentRecordRefs_def intro: repoint_loop_reconciles)
qed

theorem merge_idempotent_witness:
  "repointTalentRecordRefs (example_env 9)
     (fst (repointTalentRecordRefs (example_env 5) (example_db [example_event Matching Granted Import 1]) example_merge))
     example_merge
   = (fst (repointTalentRecordRefs (example_env 5) (example_db [example_event Matching Granted Import 1]) example_merge), [])"
  by (rule merge_idempotent) (simp add: example_merge_def)

text \<open>
  What a merge carries over is only the scope: every grant it appends is an unrestricted import
  grant dated at the merge, without a channel list and without a term, whatever the grant it
  replays carried.
\<close>

theorem merge_grants_unrestricted:
  "\<exists>new. db_ledger (fst (repointTalentRecordRefs env db a)) = db_ledger db @ new \<and>
     (\<forall>x\<in>set new. ev_talent_record_id x = rc_to_record_id a \<and> ev_action x = Granted \<and>
        ev_captured_method x = Import \<and> ev_occurred_at x = env_now env \<and>
        ev_expires_at x = None \<and> permitted_channels x = None \<and>
        (\<exists>e. effective_event db (rc_tenant_id a) (rc_from_record_id a) (ev_scope x) = Some e \<and> ev_action e = Granted))"
proof -
  obtain new where new: "fst (repointTalentRecordRefs env db a) = db\<lparr>db_ledger := db_ledger db @ new\<rparr>"
    and grants: "\<forall>x\<in>set new. \<exists>k. \<exists>e\<in>set (effective_events db (rc_tenant_id a) (rc_from_record_id a)).
        x = reconcile_grant env a k e \<and> ev_action e = Granted"
    using repoint_spec [of env db a] by blast
  have "db_ledger (fst (repointTalentRecordRefs env db a)) = db_ledger db @ new" by (simp add: new)
  then show ?thesis
    using grants unfolding Bex_def effective_events_mem by (intro exI [of _ new]) auto
qed

theorem merge_grants_unrestricted_witness:
  "let restricted = (example_event Contacting Granted Import 3)
         \<lparr>ev_metadata := Some (JObj [(''permitted_channels'', JArr [JStr ''indeed''])])\<rparr>
   in \<forall>x\<in>set (drop 1 (db_ledger (fst (repointTalentRecordRefs (example_env 5) (example_db [restricted]) example_merge)))).
        permitted_channels x = None \<and> ev_occurred_at x = 5"
proof -
  let ?db = "example_db [(example_event Contacting Granted Import 3)
         \<lparr>ev_metadata := Some (JObj [(''permitted_channels'', JArr [JStr ''indeed''])])\<rparr>]"
  have one: "length (db_ledger ?db) = 1" by (simp add: example_db_def)
  obtain new where "db_ledger (fst (repointTalentRecordRefs (example_env 5) ?db example_merge)) = db_ledger ?db @ new"
    "\<forall>x\<in>set new. permitted_channels x = None \<and> ev_occurred_at x = env_now (example_env 5)"
    using merge_grants_unrestricted [of "example_env 5" ?db example_merge] by blast
  with one show ?thesis by (simp add: Let_def example_env_def)
qed

section \<open>Two merges that widen consent\<close>

text \<open>
  A talent that may be contacted through one channel only: after the merge the survivor may be
  contacted through any, since the replayed grant has no channel list.
\<close>

theorem merge_widens_channels:
  "let restricted = (example_event Contacting Granted Import 3)
         \<lparr>ev_metadata := Some (JObj [(''permitted_channels'', JArr [JStr ''indeed''])])\<rparr>;
       db = example_db [example_event Profile_Storage Granted Import 1, example_event Matching Granted Import 2, restricted];
       db' = fst (repointTalentRecordRefs (example_env 5) db example_merge);
       chk = example_check Op_Selection (Some Email)
   in \<not> allows (snd (resolveConsentState (example_env 6) db chk)) \<and>
      allows (snd (resolveConsentState (example_env 6) db' (chk\<lparr>ci_talent_record_id := ''q''\<rparr>)))"
  by code_simp

text \<open>
  A talent that revoked at the portal, with a later recruiter grant: the check denies it (the
  revoking source has not granted again), the merge reads only the latest event of the scope and
  replays it as a grant, and the survivor is allowed.
\<close>

theorem merge_overrides_revocation:
  "let db = example_db [example_event Profile_Storage Revoked Portal_Self_Service 1,
                        example_event Profile_Storage Granted Recruiter_Capture 2];
       db' = fst (repointTalentRecordRefs (example_env 5) db example_merge);
       chk = example_check Op_Ingestion None
   in \<not> allows (snd (resolveConsentState (example_env 6) db chk)) \<and>
      allows (snd (resolveConsentState (example_env 6) db' (chk\<lparr>ci_talent_record_id := ''q''\<rparr>)))"
  by code_simp

end
