(* ===== verification/Sign_Chain.thy ===== *)
theory Sign_Chain
  imports Js_Json Interfaces
begin

text \<open>
  The tamper-evident event chain of the signing service: \<^verbatim>\<open>libs/sign/src/lib/hash-chain.ts\<close>
  and the ledger reads and writes of \<^verbatim>\<open>esign.repository.ts\<close>. SHA-256 and
  \<open>toISOString\<close> are parameters. The payload column is PostgreSQL \<open>jsonb\<close>: what a
  read returns has every object's keys sorted by length, then bytewise, before JavaScript
  enumerates them (\<open>jsonb_read_back\<close>).
\<close>

section \<open>Rows and hashing\<close>

record chain_env =
  ce_sha :: "tok list \<Rightarrow> string"
  ce_iso :: "int \<Rightarrow> string"

record event_hash_input =
  eh_envelope_id :: string
  eh_event_type :: string
  eh_actor_type :: string
  eh_actor_ref :: "string option"
  eh_payload :: json
  eh_occurred_at :: string

record sign_event =
  se_id :: string
  se_tenant_id :: string
  se_envelope_id :: string
  se_signer_id :: "string option"
  se_event_type :: string
  se_actor_type :: string
  se_actor_ref :: "string option"
  se_payload :: json
  se_previous_event_hash :: "string option"
  se_event_hash :: string
  se_occurred_at :: int
  se_ip_address :: "string option"
  se_user_agent :: "string option"

definition jsonb_key :: "string \<Rightarrow> nat \<times> string" where
  "jsonb_key k = (length k, k)"

fun jsonbCanonical :: "json \<Rightarrow> json" where
  "jsonbCanonical (JArr xs) = JArr (map jsonbCanonical xs)"
| "jsonbCanonical (JObj kvs) =
     JObj (js_own_order (sort_key (\<lambda>kv. jsonb_key (fst kv)) (map (\<lambda>kv. (fst kv, jsonbCanonical (snd kv))) kvs)))"
| "jsonbCanonical v = v"

definition opt_str :: "string option \<Rightarrow> json" where
  "opt_str s = (case s of None \<Rightarrow> JNull | Some t \<Rightarrow> JStr t)"

definition hash_body :: "string option \<Rightarrow> event_hash_input \<Rightarrow> json" where
  "hash_body previousHash core = JObj
     [(''previous'', opt_str previousHash),
      (''envelope_id'', JStr (eh_envelope_id core)),
      (''event_type'', JStr (eh_event_type core)),
      (''actor_type'', JStr (eh_actor_type core)),
      (''actor_ref'', opt_str (eh_actor_ref core)),
      (''payload'', jsonbCanonical (eh_payload core)),
      (''occurred_at'', JStr (eh_occurred_at core))]"

definition computeEventHash :: "chain_env \<Rightarrow> string option \<Rightarrow> event_hash_input \<Rightarrow> string" where
  "computeEventHash ce previousHash core = ce_sha ce (json_toks (hash_body previousHash core))"

text \<open>The hashed part of a stored row.\<close>

definition event_core :: "chain_env \<Rightarrow> sign_event \<Rightarrow> event_hash_input" where
  "event_core ce ev = \<lparr> eh_envelope_id = se_envelope_id ev, eh_event_type = se_event_type ev,
     eh_actor_type = se_actor_type ev, eh_actor_ref = se_actor_ref ev, eh_payload = se_payload ev,
     eh_occurred_at = ce_iso ce (se_occurred_at ev) \<rparr>"

definition jsonb_read_back :: "json \<Rightarrow> json" where
  "jsonb_read_back v = jsonbCanonical (json_norm v)"

section \<open>Appending and reading\<close>

record append_event_input =
  ae_tenant_id :: string
  ae_envelope_id :: string
  ae_signer_id :: "string option"
  ae_event_type :: string
  ae_actor_type :: string
  ae_actor_ref :: "string option"
  ae_payload :: "json option"
  ae_ip_address :: "string option"
  ae_user_agent :: "string option"

definition sign_event_key :: "sign_event \<Rightarrow> int \<times> string" where
  "sign_event_key ev = (se_occurred_at ev, se_id ev)"

definition sign_events_of :: "string \<Rightarrow> string \<Rightarrow> sign_event list \<Rightarrow> sign_event list" where
  "sign_events_of tenant envelope evs = filter (\<lambda>e. se_tenant_id e = tenant \<and> se_envelope_id e = envelope) evs"

definition terminalEventHash :: "sign_event list \<Rightarrow> string \<Rightarrow> string \<Rightarrow> string option" where
  "terminalEventHash evs tenant envelope = map_option se_event_hash (first_max sign_event_key (sign_events_of tenant envelope evs))"

definition listEvents :: "sign_event list \<Rightarrow> string \<Rightarrow> string \<Rightarrow> sign_event list" where
  "listEvents evs tenant envelope = sort_key sign_event_key (sign_events_of tenant envelope evs)"

definition new_sign_event :: "chain_env \<Rightarrow> sign_event list \<Rightarrow> append_event_input \<Rightarrow> string \<Rightarrow> int \<Rightarrow> sign_event" where
  "new_sign_event ce evs input uuid occurredAt =
     (let previousHash = terminalEventHash evs (ae_tenant_id input) (ae_envelope_id input);
          payload = (case ae_payload input of None \<Rightarrow> JNull | Some p \<Rightarrow> p)
      in \<lparr> se_id = uuid, se_tenant_id = ae_tenant_id input, se_envelope_id = ae_envelope_id input,
           se_signer_id = ae_signer_id input, se_event_type = ae_event_type input,
           se_actor_type = ae_actor_type input, se_actor_ref = ae_actor_ref input,
           se_payload = jsonb_read_back payload, se_previous_event_hash = previousHash,
           se_event_hash = computeEventHash ce previousHash
             \<lparr> eh_envelope_id = ae_envelope_id input, eh_event_type = ae_event_type input,
               eh_actor_type = ae_actor_type input, eh_actor_ref = ae_actor_ref input,
               eh_payload = payload, eh_occurred_at = ce_iso ce occurredAt \<rparr>,
           se_occurred_at = occurredAt, se_ip_address = ae_ip_address input,
           se_user_agent = ae_user_agent input \<rparr>)"

section \<open>Verification\<close>

record chain_redaction_row =
  cr_event_id :: string
  cr_original_event_hash :: string
  cr_verified_before_redaction :: bool

datatype chain_status = VERIFIED | REDACTED_ATTESTED | REDACTED_LINK_ONLY | LINK_ONLY | BROKEN

datatype broken_reason = Broken_link | Broken_redaction_record

record chain_verification =
  cv_ok :: bool
  cv_verified :: nat
  cv_redacted_attested :: nat
  cv_redacted_link_only :: nat
  cv_link_only :: nat
  cv_broken :: "(string \<times> broken_reason) list"
  cv_statuses :: "(string \<times> chain_status) list"

definition verification_start :: chain_verification where
  "verification_start = \<lparr> cv_ok = True, cv_verified = 0, cv_redacted_attested = 0, cv_redacted_link_only = 0,
     cv_link_only = 0, cv_broken = [], cv_statuses = [] \<rparr>"

definition verify_event ::
  "chain_env \<Rightarrow> (string \<Rightarrow> chain_redaction_row option) \<Rightarrow> chain_verification \<times> string option \<Rightarrow> sign_event \<Rightarrow>
     chain_verification \<times> string option" where
  "verify_event ce byEvent st ev =
     (let (out0, prior) = st;
          linked = (se_previous_event_hash ev = prior);
          out1 = (if linked then out0 else out0\<lparr>cv_broken := cv_broken out0 @ [(se_id ev, Broken_link)]\<rparr>);
          (status, out2) =
            (if computeEventHash ce (se_previous_event_hash ev) (event_core ce ev) = se_event_hash ev
             then (VERIFIED, out1\<lparr>cv_verified := cv_verified out1 + 1\<rparr>)
             else case byEvent (se_id ev) of
               Some redaction \<Rightarrow>
                 if cr_original_event_hash redaction \<noteq> se_event_hash ev
                 then (BROKEN, out1\<lparr>cv_broken := cv_broken out1 @ [(se_id ev, Broken_redaction_record)]\<rparr>)
                 else if cr_verified_before_redaction redaction
                 then (REDACTED_ATTESTED, out1\<lparr>cv_redacted_attested := cv_redacted_attested out1 + 1\<rparr>)
                 else (REDACTED_LINK_ONLY, out1\<lparr>cv_redacted_link_only := cv_redacted_link_only out1 + 1\<rparr>)
             | None \<Rightarrow> (LINK_ONLY, out1\<lparr>cv_link_only := cv_link_only out1 + 1\<rparr>))
      in (out2\<lparr>cv_statuses := cv_statuses out2 @ [(se_id ev, if linked then status else BROKEN)]\<rparr>,
          Some (se_event_hash ev)))"

definition verifyEventChain :: "chain_env \<Rightarrow> sign_event list \<Rightarrow> chain_redaction_row list \<Rightarrow> chain_verification" where
  "verifyEventChain ce events redactions =
     (let byEvent = map_of (rev (map (\<lambda>r. (cr_event_id r, r)) redactions));
          out = fst (foldl (verify_event ce byEvent) (verification_start, None) events)
      in out\<lparr>cv_ok := (cv_broken out = [])\<rparr>)"

section \<open>What the database gives back\<close>

lemma mset_js_own_order [simp]: "mset (js_own_order kvs) = mset kvs"
  by (simp add: js_own_order_def)

lemma js_own_order_map:
  assumes "\<And>kv. fst (f kv) = fst kv"
  shows "js_own_order (map f kvs) = map f (js_own_order kvs)"
  using assms by (simp add: js_own_order_def filter_map o_def sort_key_map)

lemma map_keys_own_order: "distinct (map fst kvs) \<Longrightarrow> distinct (map fst (js_own_order kvs))"
  by (metis mset_js_own_order mset_map mset_eq_imp_distinct_iff)

lemma jsonb_sort_own_order:
  fixes kvs :: "(string \<times> json) list"
  assumes "distinct (map fst kvs)"
  defines "S \<equiv> sort_key (\<lambda>kv. jsonb_key (fst kv)) kvs"
  shows "sort_key (\<lambda>kv. jsonb_key (fst kv)) (js_own_order S) = S"
proof (rule sort_key_inj_key_eq)
  have "inj_on fst (set kvs)" using assms(1) by (simp add: distinct_map)
  moreover have "set (js_own_order S) = set kvs" by (metis S_def mset_js_own_order mset_sort set_mset_mset)
  ultimately show "inj_on (\<lambda>kv. jsonb_key (fst kv)) (set (js_own_order S))"
    by (auto simp: inj_on_def jsonb_key_def)
qed (simp_all add: S_def)

lemma set_canonical_entries:
  "set (js_own_order (sort_key (\<lambda>kv. jsonb_key (fst kv)) xs)) = set xs"
  by (metis mset_js_own_order mset_sort set_mset_mset)

lemma jsonbCanonical_idem: "wf_json v \<Longrightarrow> jsonbCanonical (jsonbCanonical v) = jsonbCanonical v"
proof (induction v rule: jsonbCanonical.induct)
  case (1 xs)
  then show ?case by (simp add: list_all_iff)
next
  case (2 kvs)
  let ?c = "\<lambda>kv. (fst kv, jsonbCanonical (snd kv))"
  let ?S = "sort_key (\<lambda>kv. jsonb_key (fst kv)) (map ?c kvs)"
  have "jsonbCanonical (snd kv) = snd kv" if "kv \<in> set (js_own_order ?S)" for kv
  proof -
    have "kv \<in> set (map ?c kvs)" using that unfolding set_canonical_entries .
    then obtain x where "x \<in> set kvs" "kv = ?c x" by auto
    with 2 show ?thesis by (auto simp: list_all_iff)
  qed
  then have "map ?c (js_own_order ?S) = js_own_order ?S" by (intro map_idI) (simp add: prod_eq_iff)
  moreover have "sort_key (\<lambda>kv. jsonb_key (fst kv)) (js_own_order ?S) = ?S"
    by (rule jsonb_sort_own_order) (use 2 in \<open>simp add: o_def\<close>)
  ultimately show ?case by simp
qed simp_all

lemma canonical_num_norm [simp]: "jsonbCanonical (num_norm n) = num_norm n"
  by (cases n) auto

lemma json_norm_canonical: "json_norm (jsonbCanonical v) = jsonbCanonical (json_norm v)"
proof (induction v rule: jsonbCanonical.induct)
  case (2 kvs)
  let ?c = "\<lambda>kv. (fst kv, jsonbCanonical (snd kv))" and ?n = "\<lambda>kv. (fst kv, json_norm (snd kv))"
  have "map ?n (map ?c kvs) = map ?c (map ?n kvs)" using 2 by auto
  moreover have "map ?n (js_own_order (sort_key (\<lambda>kv. jsonb_key (fst kv)) (map ?c kvs))) =
      js_own_order (sort_key (\<lambda>kv. jsonb_key (fst kv)) (map ?n (map ?c kvs)))"
    by (simp only: js_own_order_map fst_conv sort_key_map [where f = ?n and k = "\<lambda>kv. jsonb_key (fst kv)"])
  ultimately show ?case by (simp only: jsonbCanonical.simps json_norm.simps)
qed simp_all

lemma wf_json_norm [simp]: "wf_json (json_norm v) = wf_json v"
proof (induction v rule: json_norm.induct)
  case (1 n)
  then show ?case by (cases n) auto
qed (auto simp: list_all_iff o_def)

lemma json_norm_idem [simp]: "json_norm (json_norm v) = json_norm v"
  by (metis json_toks_eq_iff json_toks_norm)

lemma json_norm_opt_str [simp]: "json_norm (opt_str s) = opt_str s"
  by (cases s) (simp_all add: opt_str_def)

lemma opt_str_inj [simp]: "opt_str a = opt_str b \<longleftrightarrow> a = b"
  by (cases a; cases b) (simp_all add: opt_str_def)

text \<open>The hashed content of a core: what an injective hash tells apart.\<close>

definition core_content :: "event_hash_input \<Rightarrow> string \<times> string \<times> string \<times> string option \<times> json \<times> string" where
  "core_content c = (eh_envelope_id c, eh_event_type c, eh_actor_type c, eh_actor_ref c,
     jsonb_read_back (eh_payload c), eh_occurred_at c)"

lemma hash_body_norm:
  "json_norm (hash_body p c) = json_norm (hash_body q d) \<longleftrightarrow> p = q \<and> core_content c = core_content d"
  by (auto simp: hash_body_def core_content_def json_norm_canonical jsonb_read_back_def)

lemma computeEventHash_cong:
  "core_content c = core_content d \<Longrightarrow> computeEventHash ce p c = computeEventHash ce p d"
  using hash_body_norm [of p c p d] by (simp add: computeEventHash_def json_toks_eq_iff [symmetric])

text \<open>The text hashed for a stored row, and that no two texts of a set collide.\<close>

definition event_text :: "chain_env \<Rightarrow> sign_event \<Rightarrow> tok list" where
  "event_text ce ev = json_toks (hash_body (se_previous_event_hash ev) (event_core ce ev))"

definition no_collision :: "chain_env \<Rightarrow> sign_event list \<Rightarrow> bool" where
  "no_collision ce evs = inj_on (ce_sha ce) (event_text ce ` set evs)"

lemma event_text_eq_iff:
  "event_text ce x = event_text ce y \<longleftrightarrow>
     se_previous_event_hash x = se_previous_event_hash y \<and>
     core_content (event_core ce x) = core_content (event_core ce y)"
  by (simp add: event_text_def json_toks_eq_iff hash_body_norm)

lemma recompute_event_text:
  "computeEventHash ce (se_previous_event_hash ev) (event_core ce ev) = ce_sha ce (event_text ce ev)"
  by (simp add: computeEventHash_def event_text_def)

lemma jsonb_read_back_stable: "wf_json v \<Longrightarrow> jsonb_read_back (jsonb_read_back v) = jsonb_read_back v"
  by (simp add: jsonb_read_back_def json_norm_canonical jsonbCanonical_idem)

text \<open>A stored row recomputes to its stored hash.\<close>

lemma new_event_recomputes:
  assumes "\<forall>p. ae_payload input = Some p \<longrightarrow> wf_json p"
  shows "computeEventHash ce (se_previous_event_hash (new_sign_event ce evs input u t)) (event_core ce (new_sign_event ce evs input u t))
     = se_event_hash (new_sign_event ce evs input u t)"
  unfolding new_sign_event_def Let_def
  by (simp, rule computeEventHash_cong)
    (use assms in \<open>auto simp: core_content_def event_core_def jsonb_read_back_stable split: option.splits\<close>)

section \<open>Linked chains\<close>

text \<open>The reference notion: every row recomputes and links to the one before it.\<close>

fun chain_from :: "chain_env \<Rightarrow> string option \<Rightarrow> sign_event list \<Rightarrow> bool" where
  "chain_from ce p [] = True"
| "chain_from ce p (r # rs) =
     (se_previous_event_hash r = p \<and>
      computeEventHash ce (se_previous_event_hash r) (event_core ce r) = se_event_hash r \<and>
      chain_from ce (Some (se_event_hash r)) rs)"

text \<open>Verification reports nothing broken and counts every event as verified.\<close>

definition fully_verified :: "chain_verification \<Rightarrow> bool" where
  "fully_verified cv = (cv_ok cv \<and> list_all (\<lambda>s. snd s = VERIFIED) (cv_statuses cv))"

lemma verify_event_exact:
  assumes "verify_event ce b (out, p) ev = (out', p')"
  shows "p' = Some (se_event_hash ev)"
    and "cv_broken out' = [] \<and> list_all (\<lambda>s. snd s = VERIFIED) (cv_statuses out') \<longleftrightarrow>
      cv_broken out = [] \<and> list_all (\<lambda>s. snd s = VERIFIED) (cv_statuses out) \<and>
      se_previous_event_hash ev = p \<and>
      computeEventHash ce (se_previous_event_hash ev) (event_core ce ev) = se_event_hash ev"
  using assms by (auto simp: verify_event_def Let_def split: if_splits option.splits)

lemma verify_fold_exact:
  assumes "foldl (verify_event ce b) (out, p) evs = (out', p')"
  shows "cv_broken out' = [] \<and> list_all (\<lambda>s. snd s = VERIFIED) (cv_statuses out') \<longleftrightarrow>
      cv_broken out = [] \<and> list_all (\<lambda>s. snd s = VERIFIED) (cv_statuses out) \<and> chain_from ce p evs"
  using assms
proof (induction evs arbitrary: out p)
  case (Cons ev evs)
  obtain o1 p1 where v: "verify_event ce b (out, p) ev = (o1, p1)" by (cases "verify_event ce b (out, p) ev")
  with Cons.prems have "foldl (verify_event ce b) (o1, p1) evs = (out', p')" by simp
  from Cons.IH [OF this] verify_event_exact [OF v] show ?case by auto
qed simp

lemma fully_verified_iff: "fully_verified (verifyEventChain ce evs reds) \<longleftrightarrow> chain_from ce None evs"
proof -
  let ?b = "map_of (rev (map (\<lambda>r. (cr_event_id r, r)) reds))"
  obtain out p where f: "foldl (verify_event ce ?b) (verification_start, None) evs = (out, p)"
    by (cases "foldl (verify_event ce ?b) (verification_start, None) evs")
  show ?thesis using verify_fold_exact [OF f] f
    by (simp add: fully_verified_def verifyEventChain_def verification_start_def)
qed

lemma chain_from_snoc:
  "chain_from ce p (rs @ [r]) \<longleftrightarrow> chain_from ce p rs \<and>
     se_previous_event_hash r = (if rs = [] then p else Some (se_event_hash (last rs))) \<and>
     computeEventHash ce (se_previous_event_hash r) (event_core ce r) = se_event_hash r"
  by (induction rs arbitrary: p) auto

lemma chain_from_append:
  "chain_from ce p (rs @ ts) \<longleftrightarrow> chain_from ce p rs \<and>
     chain_from ce (if rs = [] then p else Some (se_event_hash (last rs))) ts"
  by (induction rs arbitrary: p) auto

section \<open>Tamper evidence\<close>

lemma chain_determined:
  assumes "inj_on (ce_sha ce) T"
  shows "event_text ce ` set xs \<subseteq> T \<Longrightarrow> event_text ce ` set ys \<subseteq> T \<Longrightarrow> chain_from ce None xs \<Longrightarrow> chain_from ce None ys \<Longrightarrow>
     map_option se_event_hash (if xs = [] then None else Some (last xs)) =
     map_option se_event_hash (if ys = [] then None else Some (last ys)) \<Longrightarrow>
     map (\<lambda>e. core_content (event_core ce e)) xs = map (\<lambda>e. core_content (event_core ce e)) ys"
proof (induction xs arbitrary: ys rule: rev_induct)
  case Nil
  then show ?case by (auto split: if_splits)
next
  case (snoc x xs)
  then obtain y zs where ys: "ys = zs @ [y]" by (cases ys rule: rev_cases) auto
  have "se_event_hash x = se_event_hash y" using snoc.prems(5) ys by simp
  then have "ce_sha ce (event_text ce x) = ce_sha ce (event_text ce y)"
    using snoc.prems(3,4) ys chain_from_snoc recompute_event_text by metis
  then have "event_text ce x = event_text ce y"
    using inj_onD [OF assms] snoc.prems(1,2) ys by simp
  then have eq: "se_previous_event_hash x = se_previous_event_hash y"
    "core_content (event_core ce x) = core_content (event_core ce y)"
    by (simp_all add: event_text_eq_iff)
  have "map (\<lambda>e. core_content (event_core ce e)) xs = map (\<lambda>e. core_content (event_core ce e)) zs"
    by (rule snoc.IH) (use snoc.prems ys eq(1) in \<open>auto simp: chain_from_snoc split: if_splits\<close>)
  with ys eq(2) show ?case by simp
qed

section \<open>Chains the service appends\<close>

text \<open>
  A table in insertion order, each row of an envelope chained from the row that was
  greatest in (occurred_at, id) when it was appended.
\<close>

definition appended :: "chain_env \<Rightarrow> sign_event list \<Rightarrow> bool" where
  "appended ce rows = (\<forall>ys r zs. rows = ys @ r # zs \<longrightarrow>
     se_previous_event_hash r = map_option se_event_hash (first_max sign_event_key ys) \<and>
     computeEventHash ce (se_previous_event_hash r) (event_core ce r) = se_event_hash r)"

lemma appended_Nil [simp]: "appended ce []"
  by (simp add: appended_def)

lemma appended_snoc:
  "appended ce (rows @ [r]) \<longleftrightarrow> appended ce rows \<and>
     se_previous_event_hash r = map_option se_event_hash (first_max sign_event_key rows) \<and>
     computeEventHash ce (se_previous_event_hash r) (event_core ce r) = se_event_hash r" (is "?l \<longleftrightarrow> ?r")
proof
  assume ?l
  then show ?r unfolding appended_def by (metis append.assoc append_Cons append_Nil)
next
  assume r: ?r
  show ?l unfolding appended_def
  proof (intro allI impI)
    fix ys x zs assume "rows @ [r] = ys @ x # zs"
    then show "se_previous_event_hash x = map_option se_event_hash (first_max sign_event_key ys) \<and>
      computeEventHash ce (se_previous_event_hash x) (event_core ce x) = se_event_hash x"
      using r by (cases zs rule: rev_cases) (auto simp: appended_def)
  qed
qed

lemma first_max_last_sorted:
  fixes key :: "'a \<Rightarrow> 'k::linorder"
  assumes "sorted_wrt (\<lambda>a b. key a < key b) xs" "xs \<noteq> []"
  shows "first_max key xs = Some (last xs)"
proof -
  obtain ys m where "xs = ys @ [m]" using assms(2) by (cases xs rule: rev_cases) auto
  with assms(1) show ?thesis by (simp add: first_max_append_new sorted_wrt_append)
qed

text \<open>In key order, the appended rows are one linked chain.\<close>

lemma appended_in_order:
  "appended ce rows \<Longrightarrow> sorted_wrt (\<lambda>a b. sign_event_key a < sign_event_key b) rows \<Longrightarrow> chain_from ce None rows"
proof (induction rows rule: rev_induct)
  case (snoc r rows)
  then show ?case using first_max_last_sorted [of sign_event_key rows]
    by (auto simp: chain_from_snoc appended_snoc sorted_wrt_append)
qed simp

lemma chain_hashes_distinct:
  assumes "no_collision ce xs" "chain_from ce None xs"
  shows "distinct (map se_event_hash xs)"
proof -
  have "i = j" if ij: "i < length xs" "j < length xs" "se_event_hash (xs ! i) = se_event_hash (xs ! j)" for i j
  proof -
    have pre: "chain_from ce None (take n xs)" for n
      using assms(2) chain_from_append [of ce None "take n xs" "drop n xs"] by simp
    have "map (\<lambda>e. core_content (event_core ce e)) (take (Suc i) xs) =
        map (\<lambda>e. core_content (event_core ce e)) (take (Suc j) xs)"
      by (rule chain_determined [OF assms(1) [unfolded no_collision_def] _ _ pre pre])
        (use ij in \<open>auto simp: take_Suc_conv_app_nth dest: in_set_takeD\<close>)
    then have "length (take (Suc i) xs) = length (take (Suc j) xs)" by (rule map_eq_imp_length_eq)
    with ij show ?thesis by simp
  qed
  then show ?thesis by (auto simp: distinct_conv_nth)
qed

lemma sorted_wrt_splitI:
  "(\<And>ys r zs. xs = ys @ r # zs \<Longrightarrow> \<forall>y\<in>set ys. P y r) \<Longrightarrow> sorted_wrt P xs"
proof (induction xs rule: rev_induct)
  case (snoc x xs)
  have "sorted_wrt P xs" by (rule snoc.IH) (use snoc.prems in auto)
  moreover have "\<forall>y\<in>set xs. P y x" using snoc.prems [of xs x "[]"] by simp
  ultimately show ?case by (simp add: sorted_wrt_append)
qed simp

lemma sort_key_strict:
  assumes "distinct xs" "inj_on key (set xs)"
  shows "sorted_wrt (\<lambda>a b. key a < key b) (sort_key key xs)"
proof -
  have "distinct (map key (sort_key key xs))" using assms by (simp add: distinct_map)
  then have "sorted_wrt (<) (map key (sort_key key xs))" by (simp add: strict_sorted_iff)
  then show ?thesis by (simp add: sorted_wrt_map)
qed

text \<open>Conversely, with collision-free hashes, only rows in key order verify.\<close>

lemma verified_only_in_order:
  assumes inj: "no_collision ce rows" and app: "appended ce rows" and ids: "distinct (map se_id rows)"
    and ver: "chain_from ce None (sort_key sign_event_key rows)"
  shows "sorted_wrt (\<lambda>a b. sign_event_key a < sign_event_key b) rows"
proof (rule sorted_wrt_splitI)
  fix ys r zs assume rows: "rows = ys @ r # zs"
  let ?S = "sort_key sign_event_key rows"
  have d: "distinct rows" "inj_on sign_event_key (set rows)"
    using ids by (auto simp: distinct_map inj_on_def sign_event_key_def)
  have "r \<in> set ?S" using rows by simp
  then obtain as bs where S: "?S = as @ r # bs" by (meson split_list)
  have prev: "se_previous_event_hash r = (if as = [] then None else Some (se_event_hash (last as)))"
    using ver unfolding S by (simp add: chain_from_append)
  have prev': "se_previous_event_hash r = map_option se_event_hash (first_max sign_event_key ys)"
    using app rows by (simp add: appended_def)
  show "\<forall>y\<in>set ys. sign_event_key y < sign_event_key r"
  proof (cases "ys = []")
    case False
    then obtain m where m: "first_max sign_event_key ys = Some m" using first_max_ex by blast
    then have ne: "as \<noteq> []" and h: "se_event_hash (last as) = se_event_hash m" using prev prev' by (auto split: if_splits)
    have "m \<in> set ?S" using first_max_in [OF m] rows by (simp only: set_sort) simp
    moreover have "last as \<in> set ?S" unfolding S using ne by simp
    moreover have "no_collision ce ?S" using inj by (simp add: no_collision_def)
    ultimately have "last as = m"
      using chain_hashes_distinct [OF _ ver] h by (metis distinct_map inj_onD)
    moreover have "sign_event_key (last as) < sign_event_key r"
      using sort_key_strict [OF d] ne unfolding S by (simp add: sorted_wrt_append)
    ultimately show ?thesis using first_max_ge [OF m] by (auto intro: le_less_trans)
  qed simp
qed

section \<open>Runs of appends\<close>

type_synonym append_call = "append_event_input \<times> string \<times> int"

text \<open>The service appending one event after another, over any number of envelopes.\<close>

fun append_run :: "chain_env \<Rightarrow> sign_event list \<Rightarrow> append_call list \<Rightarrow> sign_event list" where
  "append_run ce evs [] = evs"
| "append_run ce evs ((input, uuid, t) # cs) = append_run ce (evs @ [new_sign_event ce evs input uuid t]) cs"

definition wf_append :: "append_call \<Rightarrow> bool" where
  "wf_append c = (case ae_payload (fst c) of None \<Rightarrow> True | Some p \<Rightarrow> wf_json p)"

lemma new_sign_event_sel [simp]:
  "se_id (new_sign_event ce evs input u t) = u"
  "se_tenant_id (new_sign_event ce evs input u t) = ae_tenant_id input"
  "se_envelope_id (new_sign_event ce evs input u t) = ae_envelope_id input"
  "se_event_type (new_sign_event ce evs input u t) = ae_event_type input"
  "se_signer_id (new_sign_event ce evs input u t) = ae_signer_id input"
  "se_occurred_at (new_sign_event ce evs input u t) = t"
  "se_previous_event_hash (new_sign_event ce evs input u t) = terminalEventHash evs (ae_tenant_id input) (ae_envelope_id input)"
  by (simp_all add: new_sign_event_def Let_def)

lemma events_of_simps [simp]:
  "sign_events_of tenant env [] = []"
  "sign_events_of tenant env (xs @ ys) = sign_events_of tenant env xs @ sign_events_of tenant env ys"
  "sign_events_of tenant env [e] = (if se_tenant_id e = tenant \<and> se_envelope_id e = env then [e] else [])"
  by (simp_all add: sign_events_of_def)

lemma append_appended:
  assumes "\<forall>tn en. appended ce (sign_events_of tn en evs)" "wf_append (input, u, t)"
  shows "\<forall>tn en. appended ce (sign_events_of tn en (evs @ [new_sign_event ce evs input u t]))"
  using assms new_event_recomputes [of input ce evs u t]
  by (auto simp: appended_snoc terminalEventHash_def wf_append_def split: option.splits)

lemma append_run_appended:
  "\<forall>tn en. appended ce (sign_events_of tn en evs) \<Longrightarrow> list_all wf_append cs \<Longrightarrow>
     appended ce (sign_events_of tn en (append_run ce evs cs))"
proof (induction ce evs cs rule: append_run.induct)
  case (2 ce evs input u t cs)
  then show ?case using append_appended [of ce evs input u t] by simp
qed simp

definition call_of :: "string \<Rightarrow> string \<Rightarrow> append_call \<Rightarrow> bool" where
  "call_of tenant env c = (ae_tenant_id (fst c) = tenant \<and> ae_envelope_id (fst c) = env)"

lemma append_run_keys:
  "map sign_event_key (sign_events_of tn en (append_run ce evs cs)) =
     map sign_event_key (sign_events_of tn en evs) @ map (\<lambda>(input, u, t). (t, u)) (filter (call_of tn en) cs)"
  by (induction ce evs cs rule: append_run.induct) (auto simp: call_of_def sign_event_key_def)

lemma verify_event_recomputed:
  assumes "verify_event ce b (out, p) ev = (out', p')"
    and "computeEventHash ce (se_previous_event_hash ev) (event_core ce ev) = se_event_hash ev"
  shows "cv_broken out' = [] \<longleftrightarrow> cv_broken out = [] \<and> se_previous_event_hash ev = p"
  using assms by (auto simp: verify_event_def Let_def split: if_splits)

lemma verify_fold_recomputed:
  assumes "foldl (verify_event ce b) (out, p) evs = (out', p')"
    and "\<forall>ev\<in>set evs. computeEventHash ce (se_previous_event_hash ev) (event_core ce ev) = se_event_hash ev"
  shows "cv_broken out' = [] \<longleftrightarrow> cv_broken out = [] \<and> chain_from ce p evs"
  using assms
proof (induction evs arbitrary: out p)
  case (Cons ev evs)
  obtain o1 p1 where v: "verify_event ce b (out, p) ev = (o1, p1)" by (cases "verify_event ce b (out, p) ev")
  with Cons.prems have "foldl (verify_event ce b) (o1, p1) evs = (out', p')" by simp
  from Cons.IH [OF this] Cons.prems(2) verify_event_recomputed [OF v] verify_event_exact(1) [OF v] show ?case by auto
qed simp

lemma ok_iff_chain:
  assumes "\<forall>ev\<in>set evs. computeEventHash ce (se_previous_event_hash ev) (event_core ce ev) = se_event_hash ev"
  shows "cv_ok (verifyEventChain ce evs reds) \<longleftrightarrow> chain_from ce None evs"
proof -
  let ?b = "map_of (rev (map (\<lambda>r. (cr_event_id r, r)) reds))"
  obtain out p where f: "foldl (verify_event ce ?b) (verification_start, None) evs = (out, p)"
    by (cases "foldl (verify_event ce ?b) (verification_start, None) evs")
  show ?thesis using verify_fold_recomputed [OF f assms] f
    by (simp add: verifyEventChain_def verification_start_def)
qed

lemma append_run_ids:
  "map se_id (append_run ce evs cs) = map se_id evs @ map (\<lambda>(input, u, t). u) cs"
  by (induction ce evs cs rule: append_run.induct) auto

lemma distinct_ids_events_of: "distinct (map se_id evs) \<Longrightarrow> distinct (map se_id (sign_events_of tn en evs))"
  by (simp add: sign_events_of_def distinct_map_filter)

lemma appended_recomputes:
  "appended ce rows \<Longrightarrow> ev \<in> set rows \<Longrightarrow>
     computeEventHash ce (se_previous_event_hash ev) (event_core ce ev) = se_event_hash ev"
  unfolding appended_def by (metis split_list)

text \<open>Distinct hashes are enough for the absence of collisions.\<close>

lemma no_collisionI: "distinct (map (\<lambda>e. ce_sha ce (event_text ce e)) evs) \<Longrightarrow> no_collision ce evs"
  by (auto simp: no_collision_def distinct_map inj_on_def)

section \<open>The chain verifies exactly when its keys increase\<close>

text \<open>A printed text as its own digest, for the instances below.\<close>

fun tok_text :: "tok \<Rightarrow> string" where
  "tok_text (Punct c) = [c]"
| "tok_text Lit_null = ''null''"
| "tok_text (Lit_bool b) = (if b then ''true'' else ''false'')"
| "tok_text (Lit_num q) = ''#''"
| "tok_text (Lit_str s) = s"

definition demo_chain_env :: chain_env where
  "demo_chain_env = \<lparr> ce_sha = (\<lambda>ts. concat (map tok_text ts)),
     ce_iso = (\<lambda>t. if t = 1 then ''t1'' else if t = 2 then ''t2'' else ''t'') \<rparr>"

definition demo_append :: "string \<Rightarrow> append_event_input" where
  "demo_append ty = \<lparr> ae_tenant_id = ''T'', ae_envelope_id = ''E'', ae_signer_id = None, ae_event_type = ty,
     ae_actor_type = ''SERVICE'', ae_actor_ref = None,
     ae_payload = Some (JObj [(''reason'', JStr ''x''), (''by'', JNull)]),
     ae_ip_address = None, ae_user_agent = None \<rparr>"

text \<open>
  C12. Whatever events the service appends, over any number of envelopes, reading an
  envelope's events back and verifying the chain reports no break, and counts every event
  as verified, exactly when the (occurred_at, id) keys of its appends strictly increased.
  Two events of one envelope in the same millisecond whose random ids come in the wrong
  order therefore make an untouched chain report as broken.
\<close>

theorem chain_verifies_exactly:
  assumes "list_all wf_append cs" and "distinct (map (\<lambda>(input, u, t). u) cs)"
    and "no_collision ce (sign_events_of tenant env (append_run ce [] cs))"
  shows "(cv_ok (verifyEventChain ce (listEvents (append_run ce [] cs) tenant env) reds) \<longleftrightarrow>
       sorted_wrt (<) (map (\<lambda>(input, u, t). (t, u)) (filter (call_of tenant env) cs))) \<and>
     (fully_verified (verifyEventChain ce (listEvents (append_run ce [] cs) tenant env) reds) \<longleftrightarrow>
       sorted_wrt (<) (map (\<lambda>(input, u, t). (t, u)) (filter (call_of tenant env) cs)))"
proof -
  let ?rows = "sign_events_of tenant env (append_run ce [] cs)"
  have app: "appended ce ?rows" by (rule append_run_appended) (use assms(1) in auto)
  have ids: "distinct (map se_id ?rows)"
    by (rule distinct_ids_events_of) (use assms(2) in \<open>simp add: append_run_ids\<close>)
  have keys: "map (\<lambda>(input, u, t). (t, u)) (filter (call_of tenant env) cs) = map sign_event_key ?rows"
    by (simp add: append_run_keys)
  have "chain_from ce None (listEvents (append_run ce [] cs) tenant env) \<longleftrightarrow> sorted_wrt (<) (map sign_event_key ?rows)"
  proof
    assume "chain_from ce None (listEvents (append_run ce [] cs) tenant env)"
    then show "sorted_wrt (<) (map sign_event_key ?rows)"
      using verified_only_in_order [OF assms(3) app ids] by (simp add: listEvents_def sorted_wrt_map)
  next
    assume s: "sorted_wrt (<) (map sign_event_key ?rows)"
    then have "sort_key sign_event_key ?rows = ?rows"
      by (intro sort_key_id_if_sorted strict_sorted_imp_sorted)
    with s show "chain_from ce None (listEvents (append_run ce [] cs) tenant env)"
      using appended_in_order [OF app] by (simp add: listEvents_def sorted_wrt_map)
  qed
  moreover have "\<forall>ev\<in>set (listEvents (append_run ce [] cs) tenant env).
      computeEventHash ce (se_previous_event_hash ev) (event_core ce ev) = se_event_hash ev"
    using appended_recomputes [OF app] by (simp add: listEvents_def)
  ultimately show ?thesis unfolding keys fully_verified_iff using ok_iff_chain by blast
qed

definition demo_calls :: "int \<Rightarrow> append_call list" where
  "demo_calls t = [(demo_append ''A'', ''u2'', 1), (demo_append ''B'', ''u1'', t)]"

lemma demo_calls_distinct:
  "no_collision demo_chain_env (sign_events_of ''T'' ''E'' (append_run demo_chain_env [] (demo_calls 1)))"
  "no_collision demo_chain_env (sign_events_of ''T'' ''E'' (append_run demo_chain_env [] (demo_calls 2)))"
  by (rule no_collisionI, code_simp)+

lemma chain_verifies_exactly_witness:
  "\<not> cv_ok (verifyEventChain demo_chain_env (listEvents (append_run demo_chain_env [] (demo_calls 1)) ''T'' ''E'') []) \<and>
   fully_verified (verifyEventChain demo_chain_env (listEvents (append_run demo_chain_env [] (demo_calls 2)) ''T'' ''E'') [])"
proof -
  have wf: "list_all wf_append (demo_calls 1)" "list_all wf_append (demo_calls 2)"
    "distinct (map (\<lambda>(input, u, t). u) (demo_calls 1))" "distinct (map (\<lambda>(input, u, t). u) (demo_calls 2))"
    by code_simp+
  have "\<not> sorted_wrt (<) (map (\<lambda>(input, u, t). (t, u)) (filter (call_of ''T'' ''E'') (demo_calls 1)))"
    "sorted_wrt (<) (map (\<lambda>(input, u, t). (t, u)) (filter (call_of ''T'' ''E'') (demo_calls 2)))"
    by code_simp+
  with chain_verifies_exactly [OF wf(1,3) demo_calls_distinct(1), of "[]"]
    chain_verifies_exactly [OF wf(2,4) demo_calls_distinct(2), of "[]"]
  show ?thesis by blast
qed



end
