(* ===== verification/Sign_Rules.thy ===== *)
theory Sign_Rules
  imports Interfaces Js_Json
begin

text \<open>
  The rules of the signing service that need no database: the envelope lifecycle
  (\<^verbatim>\<open>domain/envelope-lifecycle.ts\<close>), who signs and whose turn it is
  (\<^verbatim>\<open>domain/recipients.ts\<close>), the field rules at completion (\<^verbatim>\<open>domain/field-rules.ts\<close>)
  and the reminder limits (\<^verbatim>\<open>reminder-limits.ts\<close>), all under \<^verbatim>\<open>libs/sign/src/lib\<close>.
  Columns with a CHECK constraint are datatypes.
\<close>

section \<open>Envelope lifecycle\<close>

datatype envelope_status = DRAFT | SENT | IN_PROGRESS | COMPLETED | DECLINED | VOIDED | EXPIRED

fun ENVELOPE_TRANSITIONS :: "envelope_status \<Rightarrow> envelope_status list" where
  "ENVELOPE_TRANSITIONS DRAFT = [SENT, VOIDED]"
| "ENVELOPE_TRANSITIONS SENT = [IN_PROGRESS, DECLINED, VOIDED, EXPIRED]"
| "ENVELOPE_TRANSITIONS IN_PROGRESS = [COMPLETED, DECLINED, VOIDED, EXPIRED]"
| "ENVELOPE_TRANSITIONS _ = []"

definition envelope_statuses :: "envelope_status list" where
  "envelope_statuses = [DRAFT, SENT, IN_PROGRESS, COMPLETED, DECLINED, VOIDED, EXPIRED]"

definition TERMINAL_ENVELOPE_STATUSES :: "envelope_status list" where
  "TERMINAL_ENVELOPE_STATUSES = [COMPLETED, DECLINED, VOIDED, EXPIRED]"

definition SIGNABLE_ENVELOPE_STATUSES :: "envelope_status list" where
  "SIGNABLE_ENVELOPE_STATUSES = [SENT, IN_PROGRESS]"

datatype session_status = ISSUED | EXCHANGED | ACTIVE | SESSION_COMPLETED | SESSION_EXPIRED | REVOKED

definition LIVE_SESSION_STATUSES :: "session_status list" where
  "LIVE_SESSION_STATUSES = [ISSUED, EXCHANGED, ACTIVE]"

definition isTerminalEnvelopeStatus :: "envelope_status \<Rightarrow> bool" where
  "isTerminalEnvelopeStatus s \<longleftrightarrow> s \<in> set TERMINAL_ENVELOPE_STATUSES"

definition predecessorsOf :: "envelope_status \<Rightarrow> envelope_status list" where
  "predecessorsOf to_status = filter (\<lambda>s. to_status \<in> set (ENVELOPE_TRANSITIONS s)) envelope_statuses"

section \<open>Recipients\<close>

datatype recipient_kind = SIGNER | IN_PERSON_SIGNER | RECEIVES_COPY | WITNESS

datatype signer_status = PENDING | VIEWED | SIGNED | SIGNER_DECLINED

datatype copy_delivery = ON_SEND | ON_COMPLETION | BOTH

datatype copy_moment = At_Send | At_Completion

datatype routing_mode = PARALLEL | SEQUENTIAL

datatype session_origin = LINK | INBOX | HOSTED | SELF

record signer =
  sg_id :: string
  sg_tenant_id :: string
  sg_envelope_id :: string
  sg_email :: "string option"
  sg_name :: string
  sg_signing_order :: int
  sg_status :: signer_status
  sg_recipient_kind :: recipient_kind
  sg_copy_delivery :: "copy_delivery option"
  sg_bound_user_id :: "string option"
  sg_witness_for_signer_id :: "string option"
  sg_delegated_from_name :: "string option"
  sg_delegated_from_email :: "string option"
  sg_delegated_at :: "int option"
  sg_access_code_hash :: "string option"
  sg_access_code_failed_count :: int
  sg_access_code_locked_at :: "int option"
  sg_identity_verification_method :: "string option"
  sg_identity_verification_locked_at :: "int option"
  sg_viewed_at :: "int option"
  sg_signed_at :: "int option"
  sg_declined_at :: "int option"
  sg_decline_reason :: "string option"

definition SIGNING_RECIPIENT_KINDS :: "recipient_kind list" where
  "SIGNING_RECIPIENT_KINDS = [SIGNER, IN_PERSON_SIGNER, WITNESS]"

definition HOSTED_SESSION_TTL_MS :: int where
  "HOSTED_SESSION_TTL_MS = 30 * 60 * 1000"

definition SELF_SIGN_SESSION_TTL_MS :: int where
  "SELF_SIGN_SESSION_TTL_MS = 30 * 60 * 1000"

definition recipientKindOf :: "signer \<Rightarrow> recipient_kind" where
  "recipientKindOf r = (case sg_recipient_kind r of
     IN_PERSON_SIGNER \<Rightarrow> IN_PERSON_SIGNER | RECEIVES_COPY \<Rightarrow> RECEIVES_COPY | WITNESS \<Rightarrow> WITNESS | _ \<Rightarrow> SIGNER)"

definition isWitness :: "signer \<Rightarrow> bool" where
  "isWitness r \<longleftrightarrow> recipientKindOf r = WITNESS"

definition witnessReady :: "signer list \<Rightarrow> signer \<Rightarrow> bool" where
  "witnessReady rows r \<longleftrightarrow>
     (if \<not> isWitness r then True
      else case find (\<lambda>x. Some (sg_id x) = sg_witness_for_signer_id r) rows of
        None \<Rightarrow> False
      | Some witnessed \<Rightarrow> sg_status witnessed = SIGNED)"

definition isSigningRecipient :: "signer \<Rightarrow> bool" where
  "isSigningRecipient r \<longleftrightarrow> recipientKindOf r \<noteq> RECEIVES_COPY"

definition isCopyRecipient :: "signer \<Rightarrow> bool" where
  "isCopyRecipient r \<longleftrightarrow> recipientKindOf r = RECEIVES_COPY"

definition isLinkSigner :: "signer \<Rightarrow> bool" where
  "isLinkSigner r \<longleftrightarrow> recipientKindOf r = SIGNER \<or> recipientKindOf r = WITNESS"

definition signingRecipients :: "signer list \<Rightarrow> signer list" where
  "signingRecipients rows = filter isSigningRecipient rows"

definition copyRecipients :: "signer list \<Rightarrow> copy_moment \<Rightarrow> signer list" where
  "copyRecipients rows moment =
     (let wanted = (case moment of At_Send \<Rightarrow> [ON_SEND, BOTH] | At_Completion \<Rightarrow> [ON_COMPLETION, BOTH])
      in filter (\<lambda>r. isCopyRecipient r \<and> (case sg_copy_delivery r of None \<Rightarrow> False | Some d \<Rightarrow> d \<in> set wanted)) rows)"

definition allSigningRecipientsSigned :: "signer list \<Rightarrow> bool" where
  "allSigningRecipientsSigned rows \<longleftrightarrow>
     (let signing = signingRecipients rows in length signing > 0 \<and> list_all (\<lambda>s. sg_status s = SIGNED) signing)"

definition currentTurnOf :: "signer list \<Rightarrow> signer option" where
  "currentTurnOf rows =
     head_opt (sort_key sg_signing_order (filter (\<lambda>s. sg_status s \<noteq> SIGNED) (signingRecipients rows)))"

text \<open>The same rule as a query over the table.\<close>

definition currentTurnSignerId :: "signer list \<Rightarrow> string \<Rightarrow> string \<Rightarrow> string option" where
  "currentTurnSignerId table tenant envelope = map_option sg_id (head_opt (sort_key sg_signing_order
     (filter (\<lambda>s. sg_tenant_id s = tenant \<and> sg_envelope_id s = envelope \<and> sg_status s \<noteq> SIGNED \<and>
        sg_recipient_kind s \<in> set SIGNING_RECIPIENT_KINDS) table)))"

definition mayActNow :: "routing_mode \<Rightarrow> signer list \<Rightarrow> string \<Rightarrow> bool" where
  "mayActNow mode rows signer_id \<longleftrightarrow>
     (case find (\<lambda>r. sg_id r = signer_id) rows of
        None \<Rightarrow> False
      | Some row \<Rightarrow>
          if \<not> isSigningRecipient row then False
          else if \<not> witnessReady rows row then False
          else if mode \<noteq> SEQUENTIAL then True
          else map_option sg_id (currentTurnOf rows) = Some signer_id)"

definition invitedAtSend :: "routing_mode \<Rightarrow> signer list \<Rightarrow> signer list" where
  "invitedAtSend mode rows =
     (if mode = SEQUENTIAL
      then case currentTurnOf rows of
        None \<Rightarrow> []
      | Some first \<Rightarrow> if isLinkSigner first \<and> witnessReady rows first then [first] else []
      else filter (\<lambda>r. isLinkSigner r \<and> witnessReady rows r) (signingRecipients rows))"

definition pendingWitnessesOf :: "signer list \<Rightarrow> string \<Rightarrow> signer list" where
  "pendingWitnessesOf rows signer_id =
     filter (\<lambda>r. isWitness r \<and> sg_witness_for_signer_id r = Some signer_id \<and>
        (sg_status r = PENDING \<or> sg_status r = VIEWED)) rows"

record awaiting_envelope =
  aw_status :: envelope_status
  aw_routing_mode :: routing_mode
  aw_sent_at :: "int option"
  aw_expires_at :: "int option"

text \<open>The proof of the user's account email: the address and when it was proven.\<close>

type_synonym awaiting_proof = "string \<times> int"

definition provenFor :: "awaiting_envelope \<Rightarrow> awaiting_proof option \<Rightarrow> signer \<Rightarrow> bool" where
  "provenFor envelope prf r \<longleftrightarrow> (case prf of
     None \<Rightarrow> False
   | Some (email, proven_at) \<Rightarrow>
       isLinkSigner r \<and>
       (case sg_email r of None \<Rightarrow> False | Some e \<Rightarrow> js_lower (js_trim e) = email) \<and>
       (case aw_sent_at envelope of None \<Rightarrow> False | Some sent \<Rightarrow> sent \<ge> proven_at))"

definition awaitingYouSteps ::
  "awaiting_envelope \<Rightarrow> signer list \<Rightarrow> string \<Rightarrow> awaiting_proof option \<Rightarrow> int \<Rightarrow> (signer \<times> bool) list option" where
  "awaitingYouSteps envelope rows user_id prf now =
     (if aw_status envelope \<noteq> SENT \<and> aw_status envelope \<noteq> IN_PROGRESS then None
      else if (case aw_expires_at envelope of None \<Rightarrow> False | Some t \<Rightarrow> t \<le> now) then None
      else
        let actionable = filter (\<lambda>r. (sg_status r = PENDING \<or> sg_status r = VIEWED) \<and>
              mayActNow (aw_routing_mode envelope) rows (sg_id r)) (signingRecipients rows)
        in if actionable = [] then None
           else
             let steps = map (\<lambda>row. (row, provenFor envelope prf row)) actionable
             in if list_all (\<lambda>s. snd s \<or> sg_bound_user_id (fst s) = Some user_id) steps then Some steps else None)"

definition awaitingYou :: "awaiting_envelope \<Rightarrow> signer list \<Rightarrow> string \<Rightarrow> awaiting_proof option \<Rightarrow> int \<Rightarrow> bool" where
  "awaitingYou envelope rows user_id prf now \<longleftrightarrow> awaitingYouSteps envelope rows user_id prf now \<noteq> None"

section \<open>Field rules\<close>

datatype field_type =
    F_SIGNATURE | F_INITIALS | F_SIGN_DATE | F_SIGNER_NAME | F_TEXT | F_CHECKBOX | F_ACKNOWLEDGEMENT
  | F_PAYMENT | F_FIRST_NAME | F_LAST_NAME | F_EMAIL | F_COMPANY | F_TITLE

datatype group_rule = SELECT_ONE | SELECT_ANY

datatype name_mode = SIGNER_PROFILE | SIGNER_ENTERED

record sign_field =
  sf_id :: string
  sf_tenant_id :: string
  sf_envelope_document_id :: string
  sf_signer_id :: "string option"
  sf_field_type :: field_type
  sf_signature_method :: "string option"
  sf_required :: bool
  sf_value :: "string option"
  sf_filled_at :: "int option"
  sf_group_key :: "string option"
  sf_group_rule :: "group_rule option"
  sf_min_selected :: "int option"
  sf_name_mode :: "name_mode option"
  sf_payment_amount_minor :: "int option"
  sf_payment_currency :: "string option"

definition CHECK_FIELD_TYPES :: "field_type list" where
  "CHECK_FIELD_TYPES = [F_CHECKBOX, F_ACKNOWLEDGEMENT]"

definition PROFILE_TEXT_FIELD_TYPES :: "field_type list" where
  "PROFILE_TEXT_FIELD_TYPES = [F_FIRST_NAME, F_LAST_NAME, F_EMAIL, F_COMPANY, F_TITLE]"

definition PROFILE_TEXT_MAX :: nat where
  "PROFILE_TEXT_MAX = 200"

text \<open>\<open>/^[^\s@]+@[^\s@]+\.[^\s@]+$/\<close>: one at sign, no white space, a dot inside the domain.\<close>

definition FIELD_EMAIL_RE :: "string \<Rightarrow> bool" where
  "FIELD_EMAIL_RE s \<longleftrightarrow>
     (let local_part = takeWhile (\<lambda>c. c \<noteq> CHR ''@'') s; domain = drop (length local_part + 1) s
      in CHR ''@'' \<in> set s \<and> CHR ''@'' \<notin> set domain \<and> local_part \<noteq> [] \<and> \<not> list_ex js_space s \<and>
         CHR ''.'' \<in> set (butlast (tl domain)))"

datatype value_refusal = Profile_field_value_invalid | Email_field_value_invalid

definition profileTextValueRefusal :: "field_type \<Rightarrow> string \<Rightarrow> value_refusal option" where
  "profileTextValueRefusal field_type value =
     (if field_type \<notin> set PROFILE_TEXT_FIELD_TYPES then None
      else
        let v = js_trim value
        in if length v > PROFILE_TEXT_MAX then Some Profile_field_value_invalid
           else if field_type = F_EMAIL \<and> length v > 0 \<and> (length v > 254 \<or> \<not> FIELD_EMAIL_RE v)
           then Some Email_field_value_invalid
           else None)"

definition isPaymentField :: "sign_field \<Rightarrow> bool" where
  "isPaymentField f \<longleftrightarrow> sf_field_type f = F_PAYMENT"

definition isServerFilledName :: "sign_field \<Rightarrow> bool" where
  "isServerFilledName f \<longleftrightarrow> sf_field_type f = F_SIGNER_NAME \<and> sf_name_mode f = Some SIGNER_PROFILE"

definition isChecked :: "sign_field \<Rightarrow> bool" where
  "isChecked f \<longleftrightarrow> sf_filled_at f \<noteq> None \<and> sf_value f = Some ''true''"

datatype field_violation =
    Required_field_unfilled string
  | Checkbox_required_unchecked string
  | Checkbox_group_select_one string
  | Checkbox_group_min_selected string
  | Payment_required string

text \<open>\<open>groups.get(k) ?? []\<close>, \<open>push\<close>, \<open>groups.set\<close>: a Map keeps first-insertion order.\<close>

fun group_push :: "string \<Rightarrow> sign_field \<Rightarrow> (string \<times> sign_field list) list \<Rightarrow> (string \<times> sign_field list) list" where
  "group_push k f [] = [(k, [f])]"
| "group_push k f ((k', g) # gs) = (if k' = k then (k', g @ [f]) # gs else (k', g) # group_push k f gs)"

fun field_loop ::
  "(string \<times> sign_field list) list \<Rightarrow> sign_field list \<Rightarrow> (field_violation, (string \<times> sign_field list) list) result" where
  "field_loop groups [] = Inr groups"
| "field_loop groups (f # fs) =
     (if isServerFilledName f then field_loop groups fs
      else if isPaymentField f then
        (if sf_filled_at f = None then Inl (Payment_required (sf_id f)) else field_loop groups fs)
      else if sf_field_type f = F_CHECKBOX \<and> sf_group_key f \<noteq> None then
        field_loop (group_push (the (sf_group_key f)) f groups) fs
      else if \<not> sf_required f then field_loop groups fs
      else if sf_field_type f \<in> set CHECK_FIELD_TYPES then
        (if \<not> isChecked f then Inl (Checkbox_required_unchecked (sf_id f)) else field_loop groups fs)
      else if sf_filled_at f = None then Inl (Required_field_unfilled (sf_id f))
      else field_loop groups fs)"

definition group_violation :: "string \<times> sign_field list \<Rightarrow> field_violation option" where
  "group_violation g =
     (let (group_key, boxes) = g;
          checked = int (length (filter isChecked boxes));
          rule = (case head_opt boxes of None \<Rightarrow> SELECT_ANY | Some b \<Rightarrow>
                    (case sf_group_rule b of None \<Rightarrow> SELECT_ANY | Some r \<Rightarrow> r));
          required = list_ex sf_required boxes
      in if rule = SELECT_ONE \<and> checked > 1 then Some (Checkbox_group_select_one group_key)
         else
           let min_sel = (if rule = SELECT_ONE then 1
                 else foldl (\<lambda>m b. max m (case sf_min_selected b of None \<Rightarrow> 1 | Some n \<Rightarrow> n)) 1 boxes)
           in if required \<and> checked < min_sel
              then Some (if rule = SELECT_ONE then Checkbox_group_select_one group_key else Checkbox_group_min_selected group_key)
              else None)"

definition evaluateSignerFieldRules :: "sign_field list \<Rightarrow> field_violation option" where
  "evaluateSignerFieldRules rows =
     (case field_loop [] rows of
        Inl v \<Rightarrow> Some v
      | Inr groups \<Rightarrow> head_opt (List.map_filter group_violation groups))"

section \<open>Reminder limits\<close>

record reminder_limits =
  rl_per_signer_cooldown_ms :: int
  rl_per_envelope_window_ms :: int
  rl_per_envelope_max :: nat

definition SIGN_REMINDER_LIMITS :: reminder_limits where
  "SIGN_REMINDER_LIMITS = \<lparr> rl_per_signer_cooldown_ms = 60 * 60 * 1000,
     rl_per_envelope_window_ms = 24 * 60 * 60 * 1000, rl_per_envelope_max = 5 \<rparr>"

record reminder_entry =
  re_occurred_at :: int
  re_signer_ids :: "string list option"

fun json_string :: "json \<Rightarrow> string option" where
  "json_string (JStr s) = Some s"
| "json_string _ = None"

definition signerIdsOf :: "json \<Rightarrow> string list option" where
  "signerIdsOf payload =
     (case js_obj_get payload ''signer_ids'' of
        Some (JArr ids) \<Rightarrow> if list_all (\<lambda>x. json_string x \<noteq> None) ids then Some (map (the \<circ> json_string) ids) else None
      | _ \<Rightarrow> None)"

definition nextReminderAt :: "reminder_entry list \<Rightarrow> string \<Rightarrow> int \<Rightarrow> reminder_limits \<Rightarrow> int option" where
  "nextReminderAt history signer_id now limits =
     (case first_max re_occurred_at (filter (\<lambda>h. case re_signer_ids h of None \<Rightarrow> True | Some ids \<Rightarrow> signer_id \<in> set ids) history) of
        None \<Rightarrow> None
      | Some h \<Rightarrow>
          let t = re_occurred_at h + rl_per_signer_cooldown_ms limits in if t > now then Some t else None)"

definition envelopeReminderAvailableAt :: "reminder_entry list \<Rightarrow> int \<Rightarrow> reminder_limits \<Rightarrow> int option" where
  "envelopeReminderAvailableAt history now limits =
     (let since = now - rl_per_envelope_window_ms limits;
          inWindow = filter (\<lambda>h. re_occurred_at h > since) history
      in if length inWindow < rl_per_envelope_max limits then None
         else Some (re_occurred_at (inWindow ! (length inWindow - rl_per_envelope_max limits)) + rl_per_envelope_window_ms limits))"

datatype reminder_refusal = Reminder_daily_limit int | Reminder_cooldown int

fun limit_loop ::
  "(string \<Rightarrow> int option) \<Rightarrow> string list \<Rightarrow> int option \<Rightarrow> string list \<Rightarrow> string list \<times> int option" where
  "limit_loop next_at allowed soonest [] = (allowed, soonest)"
| "limit_loop next_at allowed soonest (i # is) =
     (case next_at i of
        None \<Rightarrow> limit_loop next_at (allowed @ [i]) soonest is
      | Some t \<Rightarrow> limit_loop next_at allowed
          (case soonest of None \<Rightarrow> Some t | Some s \<Rightarrow> if t < s then Some t else Some s) is)"

definition applyReminderLimits ::
  "reminder_entry list \<Rightarrow> string list \<Rightarrow> int \<Rightarrow> reminder_limits \<Rightarrow> (reminder_refusal, string list) result" where
  "applyReminderLimits history target_ids now limits =
     (case envelopeReminderAvailableAt history now limits of
        Some daily \<Rightarrow> Inl (Reminder_daily_limit daily)
      | None \<Rightarrow>
          (case limit_loop (\<lambda>i. nextReminderAt history i now limits) [] None target_ids of
             ([], Some s) \<Rightarrow> Inl (Reminder_cooldown s)
           | (allowed, _) \<Rightarrow> Inr allowed))"

section \<open>Lifecycle laws\<close>

lemma terminal_simps [simp]:
  "isTerminalEnvelopeStatus COMPLETED" "isTerminalEnvelopeStatus DECLINED" "isTerminalEnvelopeStatus VOIDED"
  "isTerminalEnvelopeStatus EXPIRED" "\<not> isTerminalEnvelopeStatus DRAFT" "\<not> isTerminalEnvelopeStatus SENT"
  "\<not> isTerminalEnvelopeStatus IN_PROGRESS"
  by (simp_all add: isTerminalEnvelopeStatus_def TERMINAL_ENVELOPE_STATUSES_def)

interpretation envelope_table: transition_table ENVELOPE_TRANSITIONS isTerminalEnvelopeStatus
proof
  fix s show "isTerminalEnvelopeStatus s \<Longrightarrow> ENVELOPE_TRANSITIONS s = []" by (cases s) auto
  show "\<not> isTerminalEnvelopeStatus s \<Longrightarrow> \<exists>t\<in>set (ENVELOPE_TRANSITIONS s). isTerminalEnvelopeStatus t"
    by (cases s) auto
qed

lemma predecessorsOf_iff [simp]: "s \<in> set (predecessorsOf t) \<longleftrightarrow> t \<in> set (ENVELOPE_TRANSITIONS s)"
  by (cases s) (auto simp: predecessorsOf_def envelope_statuses_def)

text \<open>How many status changes an envelope has left at most.\<close>

fun moves_left :: "envelope_status \<Rightarrow> nat" where
  "moves_left DRAFT = 3"
| "moves_left SENT = 2"
| "moves_left IN_PROGRESS = 1"
| "moves_left _ = 0"

lemma transition_descends: "t \<in> set (ENVELOPE_TRANSITIONS s) \<Longrightarrow> moves_left t < moves_left s"
  by (cases s) auto

section \<open>Turn laws\<close>

lemma signing_kinds_iff [simp]: "sg_recipient_kind s \<in> set SIGNING_RECIPIENT_KINDS \<longleftrightarrow> isSigningRecipient s"
  by (cases "sg_recipient_kind s") (auto simp: SIGNING_RECIPIENT_KINDS_def isSigningRecipient_def recipientKindOf_def)

definition envelope_signers :: "signer list \<Rightarrow> string \<Rightarrow> string \<Rightarrow> signer list" where
  "envelope_signers table tenant envelope = filter (\<lambda>s. sg_tenant_id s = tenant \<and> sg_envelope_id s = envelope) table"

text \<open>The query and the helper over the fetched rows agree.\<close>

lemma currentTurnSignerId_rows:
  "currentTurnSignerId table tenant env = map_option sg_id (currentTurnOf (envelope_signers table tenant env))"
  by (simp add: currentTurnSignerId_def currentTurnOf_def envelope_signers_def signingRecipients_def conj_ac)

text \<open>The table's unique keys: the id, and the signing order within an envelope.\<close>

definition wf_rows :: "signer list \<Rightarrow> bool" where
  "wf_rows rows \<longleftrightarrow> distinct (map sg_id rows) \<and> distinct (map sg_signing_order rows)"

lemma wf_rows_id: "wf_rows rows \<Longrightarrow> a \<in> set rows \<Longrightarrow> b \<in> set rows \<Longrightarrow> sg_id a = sg_id b \<Longrightarrow> a = b"
  by (auto simp: wf_rows_def distinct_map inj_on_def)

lemma find_by_id: "wf_rows rows \<Longrightarrow> r \<in> set rows \<Longrightarrow> find (\<lambda>x. sg_id x = sg_id r) rows = Some r"
  by (induction rows) (auto simp: wf_rows_def image_iff)

lemma currentTurnOf_iff:
  assumes "wf_rows rows"
  shows "currentTurnOf rows = Some r \<longleftrightarrow>
    r \<in> set rows \<and> isSigningRecipient r \<and> sg_status r \<noteq> SIGNED \<and>
    (\<forall>x\<in>set rows. isSigningRecipient x \<and> sg_status x \<noteq> SIGNED \<longrightarrow> sg_signing_order r \<le> sg_signing_order x)"
proof -
  have "inj_on sg_signing_order (set (filter (\<lambda>s. sg_status s \<noteq> SIGNED) (signingRecipients rows)))"
    using assms by (auto simp: wf_rows_def distinct_map inj_on_def signingRecipients_def)
  from head_opt_sort [OF this] show ?thesis by (auto simp: currentTurnOf_def signingRecipients_def)
qed

lemma witnessReady_iff:
  assumes "wf_rows rows"
  shows "witnessReady rows r \<longleftrightarrow>
    (isWitness r \<longrightarrow> (\<exists>p\<in>set rows. sg_witness_for_signer_id r = Some (sg_id p) \<and> sg_status p = SIGNED))"
proof (cases "sg_witness_for_signer_id r")
  case None
  moreover have "find (\<lambda>x. False) rows = None" by (simp add: find_None_iff)
  ultimately show ?thesis by (simp add: witnessReady_def)
next
  case (Some w)
  show ?thesis
  proof (cases "\<exists>p\<in>set rows. sg_id p = w")
    case True
    then obtain p where p: "p \<in> set rows" "sg_id p = w" by blast
    then have "find (\<lambda>x. sg_id x = w) rows = Some p" using find_by_id [OF assms p(1)] by simp
    then have "find (\<lambda>x. Some (sg_id x) = sg_witness_for_signer_id r) rows = Some p" using Some by simp
    then have "witnessReady rows r \<longleftrightarrow> (isWitness r \<longrightarrow> sg_status p = SIGNED)" by (simp add: witnessReady_def)
    moreover have "(\<exists>x\<in>set rows. sg_witness_for_signer_id r = Some (sg_id x) \<and> sg_status x = SIGNED) \<longleftrightarrow> sg_status p = SIGNED"
      using wf_rows_id [OF assms _ p(1)] p Some by (metis option.inject)
    ultimately show ?thesis by blast
  next
    case False
    then have "find (\<lambda>x. Some (sg_id x) = sg_witness_for_signer_id r) rows = None" using Some by (auto simp: find_None_iff)
    with False Some show ?thesis by (auto simp: witnessReady_def)
  qed
qed

lemma mayActNow_row:
  assumes wf: "wf_rows rows" and r: "r \<in> set rows"
  shows "mayActNow mode rows (sg_id r) \<longleftrightarrow>
    isSigningRecipient r \<and> witnessReady rows r \<and> (mode = SEQUENTIAL \<longrightarrow> currentTurnOf rows = Some r)"
proof -
  have "map_option sg_id (currentTurnOf rows) = Some (sg_id r) \<longleftrightarrow> currentTurnOf rows = Some r"
  proof
    assume "map_option sg_id (currentTurnOf rows) = Some (sg_id r)"
    then obtain x where x: "currentTurnOf rows = Some x" "sg_id x = sg_id r" by auto
    then have "x \<in> set rows" using currentTurnOf_iff [OF wf] by blast
    then show "currentTurnOf rows = Some r" using wf_rows_id [OF wf _ r] x by simp
  qed simp
  then show ?thesis using find_by_id [OF wf r] by (auto simp: mayActNow_def)
qed

lemma mayActNow_absent: "\<forall>r\<in>set rows. sg_id r \<noteq> sid \<Longrightarrow> \<not> mayActNow mode rows sid"
proof -
  assume "\<forall>r\<in>set rows. sg_id r \<noteq> sid"
  then have "find (\<lambda>r. sg_id r = sid) rows = None" by (auto simp: find_None_iff)
  then show ?thesis by (simp add: mayActNow_def)
qed

section \<open>Field rule laws\<close>

definition grouped :: "sign_field \<Rightarrow> bool" where
  "grouped f \<longleftrightarrow> sf_field_type f = F_CHECKBOX \<and> sf_group_key f \<noteq> None"

definition field_ok :: "sign_field \<Rightarrow> bool" where
  "field_ok f \<longleftrightarrow>
     (isPaymentField f \<longrightarrow> sf_filled_at f \<noteq> None) \<and>
     (sf_required f \<and> \<not> isServerFilledName f \<and> \<not> isPaymentField f \<and> \<not> grouped f \<longrightarrow>
        (if sf_field_type f \<in> set CHECK_FIELD_TYPES then isChecked f else sf_filled_at f \<noteq> None))"

definition group_push_all :: "(string \<times> sign_field list) list \<Rightarrow> sign_field list \<Rightarrow> (string \<times> sign_field list) list" where
  "group_push_all gs fs = foldl (\<lambda>gs f. group_push (the (sf_group_key f)) f gs) gs fs"

lemma field_loop_Inr:
  "field_loop gs fs = Inr gs' \<longleftrightarrow> list_all field_ok fs \<and> gs' = group_push_all gs (filter grouped fs)"
proof (induction gs fs rule: field_loop.induct)
  case (2 gs f fs)
  then show ?case
    by (cases "sf_field_type f = F_CHECKBOX")
      (auto simp: field_ok_def grouped_def group_push_all_def isServerFilledName_def isPaymentField_def CHECK_FIELD_TYPES_def)
qed (auto simp: group_push_all_def)

lemma map_of_group_push:
  "map_of (group_push k f gs) k' =
     (if k' = k then Some ((case map_of gs k of None \<Rightarrow> [] | Some g \<Rightarrow> g) @ [f]) else map_of gs k')"
  by (induction k f gs rule: group_push.induct) auto

lemma keys_group_push: "fst ` set (group_push k f gs) = insert k (fst ` set gs)"
  by (induction k f gs rule: group_push.induct) auto

lemma distinct_group_push: "distinct (map fst gs) \<Longrightarrow> distinct (map fst (group_push k f gs))"
  by (induction k f gs rule: group_push.induct) (auto simp: keys_group_push)

lemma group_push_all_snoc:
  "group_push_all gs (fs @ [f]) = group_push (the (sf_group_key f)) f (group_push_all gs fs)"
  by (simp add: group_push_all_def)

text \<open>The boxes of one group, in field order.\<close>

definition boxes_of :: "string \<Rightarrow> sign_field list \<Rightarrow> sign_field list" where
  "boxes_of k fs = filter (\<lambda>f. sf_field_type f = F_CHECKBOX \<and> sf_group_key f = Some k) fs"

lemma group_push_all_spec:
  "list_all grouped fs \<Longrightarrow> distinct (map fst (group_push_all [] fs)) \<and>
     map_of (group_push_all [] fs) k = (if boxes_of k fs = [] then None else Some (boxes_of k fs))"
proof (induction fs arbitrary: k rule: rev_induct)
  case (snoc f fs)
  then obtain k0 where "sf_group_key f = Some k0" "sf_field_type f = F_CHECKBOX" by (auto simp: grouped_def)
  with snoc show ?case
    by (auto simp: group_push_all_snoc map_of_group_push distinct_group_push boxes_of_def)
qed (simp add: group_push_all_def boxes_of_def)

lemma foldl_max_le:
  fixes g :: "'a \<Rightarrow> 'b::linorder"
  shows "foldl (\<lambda>m b. max m (g b)) a bs \<le> n \<longleftrightarrow> a \<le> n \<and> (\<forall>b\<in>set bs. g b \<le> n)"
  by (induction bs arbitrary: a) auto

definition box_rule :: "sign_field list \<Rightarrow> group_rule" where
  "box_rule boxes = (case head_opt boxes of None \<Rightarrow> SELECT_ANY | Some b \<Rightarrow>
     (case sf_group_rule b of None \<Rightarrow> SELECT_ANY | Some r \<Rightarrow> r))"

definition box_min :: "sign_field \<Rightarrow> int" where
  "box_min b = (case sf_min_selected b of None \<Rightarrow> 1 | Some n \<Rightarrow> n)"

text \<open>What a group requires of the number of checked boxes.\<close>

definition group_holds :: "sign_field list \<Rightarrow> bool" where
  "group_holds boxes \<longleftrightarrow>
     (let checked = int (length (filter isChecked boxes)); required = (\<exists>b\<in>set boxes. sf_required b)
      in if box_rule boxes = SELECT_ONE then checked \<le> 1 \<and> (required \<longrightarrow> checked = 1)
         else required \<longrightarrow> 1 \<le> checked \<and> (\<forall>b\<in>set boxes. box_min b \<le> checked))"

lemma group_violation_None: "group_violation (k, boxes) = None \<longleftrightarrow> group_holds boxes"
proof -
  have "foldl (\<lambda>m b. max m (case sf_min_selected b of None \<Rightarrow> 1 | Some n \<Rightarrow> n)) 1 boxes \<le> n \<longleftrightarrow>
      1 \<le> n \<and> (\<forall>b\<in>set boxes. box_min b \<le> n)" for n
    using foldl_max_le [of box_min 1 boxes n] by (simp add: box_min_def)
  then have "n < foldl (\<lambda>m b. max m (case sf_min_selected b of None \<Rightarrow> 1 | Some n \<Rightarrow> n)) 1 boxes \<longleftrightarrow>
      \<not> (1 \<le> n \<and> (\<forall>b\<in>set boxes. box_min b \<le> n))" for n
    by (metis not_less)
  then show ?thesis
    unfolding group_violation_def group_holds_def box_rule_def [symmetric] Let_def list_ex_iff prod.case
    by (cases "box_rule boxes") (simp_all add: not_less le_Suc_eq, auto)
qed

lemma groups_hold:
  assumes "list_all grouped fs"
  shows "head_opt (List.map_filter group_violation (group_push_all [] fs)) = None \<longleftrightarrow>
    (\<forall>k. boxes_of k fs \<noteq> [] \<longrightarrow> group_holds (boxes_of k fs))"
proof -
  let ?gs = "group_push_all [] fs"
  have d: "distinct (map fst ?gs)" using group_push_all_spec [OF assms] by blast
  have m: "(k, b) \<in> set ?gs \<longleftrightarrow> boxes_of k fs \<noteq> [] \<and> b = boxes_of k fs" for k b
    using map_of_eq_Some_iff [OF d, of k b] group_push_all_spec [OF assms, of k] by (auto split: if_splits)
  have "List.map_filter group_violation ?gs = [] \<longleftrightarrow> (\<forall>g\<in>set ?gs. group_violation g = None)"
    by (induction ?gs) (auto simp: List.map_filter_def filter_empty_conv)
  also have "\<dots> \<longleftrightarrow> (\<forall>k b. (k, b) \<in> set ?gs \<longrightarrow> group_holds b)"
    using group_violation_None by (metis surj_pair)
  finally show ?thesis using m by auto
qed

lemma boxes_of_grouped [simp]: "boxes_of k (filter grouped fs) = boxes_of k fs"
  by (auto simp: boxes_of_def grouped_def intro!: filter_cong)

section \<open>Reminder laws\<close>

lemma limit_loop_allowed: "fst (limit_loop nx al so ids) = al @ filter (\<lambda>i. nx i = None) ids"
  by (induction nx al so ids rule: limit_loop.induct) (auto split: option.splits)

lemma nextReminderAt_None:
  "nextReminderAt hist i now lims = None \<longleftrightarrow>
     (\<forall>h\<in>set hist. (case re_signer_ids h of None \<Rightarrow> True | Some ids \<Rightarrow> i \<in> set ids) \<longrightarrow>
        re_occurred_at h + rl_per_signer_cooldown_ms lims \<le> now)"
proof (cases "first_max re_occurred_at (filter (\<lambda>h. case re_signer_ids h of None \<Rightarrow> True | Some ids \<Rightarrow> i \<in> set ids) hist)")
  case None
  then have "filter (\<lambda>h. case re_signer_ids h of None \<Rightarrow> True | Some ids \<Rightarrow> i \<in> set ids) hist = []" by simp
  with None show ?thesis by (auto simp: nextReminderAt_def filter_empty_conv)
next
  case (Some m)
  note ge = first_max_ge [OF Some] and mem = first_max_in [OF Some]
  have "nextReminderAt hist i now lims = None \<longleftrightarrow> re_occurred_at m + rl_per_signer_cooldown_ms lims \<le> now"
    using Some by (simp add: nextReminderAt_def Let_def not_less)
  also have "\<dots> \<longleftrightarrow> (\<forall>h\<in>set (filter (\<lambda>h. case re_signer_ids h of None \<Rightarrow> True | Some ids \<Rightarrow> i \<in> set ids) hist).
      re_occurred_at h + rl_per_signer_cooldown_ms lims \<le> now)"
    using ge mem by (meson add_mono_thms_linordered_semiring(3) order_trans)
  finally show ?thesis by auto
qed

lemma applyReminderLimits_Inr:
  assumes "applyReminderLimits hist ids now lims = Inr allowed"
  shows "allowed = filter (\<lambda>i. nextReminderAt hist i now lims = None) ids"
    and "length (filter (\<lambda>h. re_occurred_at h > now - rl_per_envelope_window_ms lims) hist) < rl_per_envelope_max lims"
proof -
  have none: "envelopeReminderAvailableAt hist now lims = None"
    using assms by (auto simp: applyReminderLimits_def split: option.splits)
  then show "length (filter (\<lambda>h. re_occurred_at h > now - rl_per_envelope_window_ms lims) hist) < rl_per_envelope_max lims"
    by (auto simp: envelopeReminderAvailableAt_def Let_def split: if_splits)
  obtain al so where l: "limit_loop (\<lambda>i. nextReminderAt hist i now lims) [] None ids = (al, so)"
    by (cases "limit_loop (\<lambda>i. nextReminderAt hist i now lims) [] None ids")
  have "al = allowed" using assms none l
    by (auto simp: applyReminderLimits_def split: list.splits option.splits)
  then show "allowed = filter (\<lambda>i. nextReminderAt hist i now lims = None) ids"
    using limit_loop_allowed [of "\<lambda>i. nextReminderAt hist i now lims" "[]" None ids] l by simp
qed

lemma mayActNow_spec:
  assumes wf: "wf_rows rows" and r: "r \<in> set rows"
  shows "mayActNow mode rows (sg_id r) \<longleftrightarrow>
    isSigningRecipient r \<and>
    (isWitness r \<longrightarrow> (\<exists>p\<in>set rows. sg_witness_for_signer_id r = Some (sg_id p) \<and> sg_status p = SIGNED)) \<and>
    (mode = SEQUENTIAL \<longrightarrow> sg_status r \<noteq> SIGNED \<and>
       (\<forall>x\<in>set rows. isSigningRecipient x \<and> sg_signing_order x < sg_signing_order r \<longrightarrow> sg_status x = SIGNED))"
proof -
  have "currentTurnOf rows = Some r \<longleftrightarrow> isSigningRecipient r \<and> sg_status r \<noteq> SIGNED \<and>
      (\<forall>x\<in>set rows. isSigningRecipient x \<and> sg_signing_order x < sg_signing_order r \<longrightarrow> sg_status x = SIGNED)"
    unfolding currentTurnOf_iff [OF wf] using r by (auto simp: not_less [symmetric])
  then show ?thesis unfolding mayActNow_row [OF wf r] witnessReady_iff [OF wf] by blast
qed

section \<open>Exactness of the field rules\<close>

text \<open>
  C24. A signer's fields pass the completion rules exactly when every payment field is
  paid, every required field outside the check-box groups is filled, or checked when it is
  a check box (names the server fills apart), and every check-box group holds: at most one
  box, and exactly one when required, for select-one groups; for the others, when
  required, at least one box and at least as many as any box of the group asks for.
\<close>

theorem field_rules_exact:
  "evaluateSignerFieldRules rows = None \<longleftrightarrow>
     (\<forall>f\<in>set rows. sf_field_type f = F_PAYMENT \<longrightarrow> sf_filled_at f \<noteq> None) \<and>
     (\<forall>f\<in>set rows. sf_required f \<and> \<not> isServerFilledName f \<and> sf_field_type f \<noteq> F_PAYMENT \<and>
         \<not> (sf_field_type f = F_CHECKBOX \<and> sf_group_key f \<noteq> None) \<longrightarrow>
         (if sf_field_type f \<in> {F_CHECKBOX, F_ACKNOWLEDGEMENT} then isChecked f else sf_filled_at f \<noteq> None)) \<and>
     (\<forall>k. boxes_of k rows \<noteq> [] \<longrightarrow> group_holds (boxes_of k rows))"
proof (cases "list_all field_ok rows")
  case True
  then have "field_loop [] rows = Inr (group_push_all [] (filter grouped rows))" by (simp add: field_loop_Inr)
  then have "evaluateSignerFieldRules rows = head_opt (List.map_filter group_violation (group_push_all [] (filter grouped rows)))"
    by (simp add: evaluateSignerFieldRules_def)
  moreover have "list_all grouped (filter grouped rows)" by (simp add: list_all_iff)
  moreover have "\<forall>f\<in>set rows. field_ok f" using True by (simp add: list_all_iff)
  ultimately show ?thesis using groups_hold [of "filter grouped rows"]
    by (auto simp: field_ok_def isPaymentField_def grouped_def CHECK_FIELD_TYPES_def)
next
  case False
  then obtain v where "field_loop [] rows = Inl v" using field_loop_Inr [of "[]" rows] by (cases "field_loop [] rows") auto
  then have "evaluateSignerFieldRules rows \<noteq> None" by (simp add: evaluateSignerFieldRules_def)
  moreover obtain f where "f \<in> set rows" "\<not> field_ok f" using False by (auto simp: list_all_iff)
  ultimately show ?thesis by (auto simp: field_ok_def isPaymentField_def grouped_def CHECK_FIELD_TYPES_def split: if_splits)
qed

definition demo_box :: "string \<Rightarrow> bool \<Rightarrow> sign_field" where
  "demo_box i checked = \<lparr> sf_id = i, sf_tenant_id = ''T'', sf_envelope_document_id = ''D'', sf_signer_id = Some ''S'',
     sf_field_type = F_CHECKBOX, sf_signature_method = None, sf_required = True,
     sf_value = (if checked then Some ''true'' else None), sf_filled_at = (if checked then Some 1 else None),
     sf_group_key = Some ''g'', sf_group_rule = Some SELECT_ANY, sf_min_selected = Some 2, sf_name_mode = None,
     sf_payment_amount_minor = None, sf_payment_currency = None \<rparr>"

lemma field_rules_exact_witness:
  "evaluateSignerFieldRules [demo_box ''a'' True, demo_box ''b'' True, demo_box ''c'' False] = None \<and>
   evaluateSignerFieldRules [demo_box ''a'' True, demo_box ''b'' False] \<noteq> None \<and>
   group_holds (boxes_of ''g'' [demo_box ''a'' True, demo_box ''b'' True, demo_box ''c'' False])"
proof -
  have a: "evaluateSignerFieldRules [demo_box ''a'' True, demo_box ''b'' True, demo_box ''c'' False] = None" by code_simp
  have b: "evaluateSignerFieldRules [demo_box ''a'' True, demo_box ''b'' False] \<noteq> None" by code_simp
  have "boxes_of ''g'' [demo_box ''a'' True, demo_box ''b'' True, demo_box ''c'' False] \<noteq> []" by code_simp
  with a field_rules_exact [of "[demo_box ''a'' True, demo_box ''b'' True, demo_box ''c'' False]"]
  have "group_holds (boxes_of ''g'' [demo_box ''a'' True, demo_box ''b'' True, demo_box ''c'' False])" by blast
  with a b show ?thesis by blast
qed

end
