(* ===== verification/Sign_Db.thy ===== *)
theory Sign_Db
  imports Sign_Chain Sign_Rules
begin

text \<open>
  The tables of the signing service and the repository operations over them
  (\<^verbatim>\<open>libs/sign/src/lib/esign.repository.ts\<close>, \<^verbatim>\<open>notifications/notification-outbox.ts\<close>,
  \<^verbatim>\<open>signing-token.ts\<close>). Every signer action and every status change holds the envelope
  row lock for its whole transaction, so an operation is one atomic step. Clock readings,
  UUIDs and raw tokens are drawn one after another from the environment; \<open>sd_tick\<close>
  counts the draws. A database trigger raises the envelope's revision once per transaction
  that writes the envelope or a row below it (\<open>touch\<close>).
\<close>

section \<open>Tables\<close>

datatype envelope_mode = STANDARD_MODE | SELF_MODE

record sign_envelope =
  en_id :: string
  en_tenant_id :: string
  en_subject :: string
  en_status :: envelope_status
  en_execution_mode :: string
  en_routing_mode :: routing_mode
  en_created_by :: string
  en_created_at :: int
  en_sent_at :: "int option"
  en_completed_at :: "int option"
  en_declined_at :: "int option"
  en_voided_at :: "int option"
  en_expires_at :: "int option"
  en_source_application :: string
  en_installation_id :: "string option"
  en_origin_actor_kind :: string
  en_revision :: int
  en_message :: "string option"
  en_deleted_at :: "int option"
  en_template_refs :: "(string \<times> string) option"
  en_allow_delegation :: bool
  en_envelope_mode :: envelope_mode

record envelope_document =
  ed_id :: string
  ed_tenant_id :: string
  ed_envelope_id :: string
  ed_source_mode :: string
  ed_document_ref :: "string option"
  ed_document_revision_ref :: "string option"
  ed_source_object_key :: "string option"
  ed_content_type :: "string option"
  ed_byte_size :: "int option"
  ed_title :: string
  ed_source_sha256 :: string
  ed_ordinal :: int

record signing_session =
  ss_id :: string
  ss_tenant_id :: string
  ss_envelope_id :: string
  ss_signer_id :: string
  ss_token_hash :: string
  ss_status :: session_status
  ss_created_at :: int
  ss_expires_at :: int
  ss_first_accessed_at :: "int option"
  ss_last_accessed_at :: "int option"
  ss_completed_at :: "int option"
  ss_revoked_at :: "int option"
  ss_origin :: "session_origin option"
  ss_host_user_id :: "string option"
  ss_authenticated_user_id :: "string option"
  ss_access_code_verified_at :: "int option"

record disclosure_acceptance =
  da_id :: string
  da_tenant_id :: string
  da_signer_id :: string
  da_disclosure_version :: string
  da_disclosure_text_hash :: string
  da_accepted_at :: int
  da_ip_address :: "string option"
  da_user_agent :: "string option"
  da_session_id :: string
  da_attested_name :: "string option"

datatype delivery_status = ND_PENDING | ND_DISPATCHING | ND_SENT | ND_FAILED | ND_CANCELLED

record notification_delivery =
  nd_id :: string
  nd_tenant_id :: string
  nd_envelope_id :: string
  nd_signer_id :: "string option"
  nd_notification_kind :: string
  nd_status :: delivery_status
  nd_claimed_at :: "int option"
  nd_attempts :: nat
  nd_last_error :: "string option"
  nd_created_at :: int
  nd_sent_at :: "int option"

datatype access_kind = EXECUTED_ACCESS | COPY_VIEW

record executed_access_grant =
  ag_id :: string
  ag_tenant_id :: string
  ag_envelope_id :: string
  ag_signer_id :: string
  ag_token_hash :: string
  ag_expires_at :: int
  ag_last_accessed_at :: "int option"
  ag_access_count :: nat
  ag_access_kind :: access_kind

datatype notification_kind = N_VIEWED | N_SIGNED | N_DECLINED | N_COMPLETED | N_EXPIRED | N_SIGNATURE_NEEDED | N_REMINDER

record notification_fact =
  nf_id :: string
  nf_tenant_id :: string
  nf_envelope_id :: string
  nf_signer_id :: "string option"
  nf_kind :: notification_kind
  nf_actor_type :: string
  nf_actor_ref :: "string option"
  nf_signer_ids :: "string list"

record sign_outbox_event =
  so_id :: string
  so_tenant_id :: string
  so_event_type :: string
  so_envelope_id :: string
  so_correlation_id :: string

record recipient_binding =
  rb_id :: string
  rb_envelope_tenant_id :: string
  rb_envelope_id :: string
  rb_signer_id :: string
  rb_user_id :: string
  rb_user_tenant_id :: string
  rb_email :: string
  rb_created_at :: int
  rb_revoked_at :: "int option"
  rb_claim_session_id :: "string option"

text \<open>The qualified-signature rows another service writes, and the identity-verification attempts.\<close>

record qes_signature =
  qs_tenant_id :: string
  qs_signer_id :: string
  qs_state :: string

datatype attempt_status = AT_PENDING | AT_VERIFIED | AT_FAILED | AT_CANCELLED

record identity_verification =
  iv_id :: string
  iv_tenant_id :: string
  iv_envelope_id :: string
  iv_signer_id :: string
  iv_session_id :: string
  iv_method :: string
  iv_provider :: string
  iv_vendor_reference :: "string option"
  iv_status :: attempt_status
  iv_failure_reason :: "string option"
  iv_name_match :: "bool option"
  iv_document_country :: "string option"
  iv_created_at :: int
  iv_completed_at :: "int option"
  iv_redacted_at :: "int option"

record sign_db =
  sd_envelopes :: "sign_envelope list"
  sd_documents :: "envelope_document list"
  sd_signers :: "signer list"
  sd_fields :: "sign_field list"
  sd_sessions :: "signing_session list"
  sd_acceptances :: "disclosure_acceptance list"
  sd_events :: "sign_event list"
  sd_deliveries :: "notification_delivery list"
  sd_grants :: "executed_access_grant list"
  sd_facts :: "notification_fact list"
  sd_outbox :: "sign_outbox_event list"
  sd_bindings :: "recipient_binding list"
  sd_qes :: "qes_signature list"
  sd_identity :: "identity_verification list"
  sd_tick :: nat

record session_context =
  cx_session_id :: string
  cx_tenant_id :: string
  cx_envelope_id :: string
  cx_signer_id :: string

datatype notify_result = Delivered | Not_delivered | Notify_failed string

text \<open>
  The environment: the chain's hash and date printing, the draws, the two digests of the
  token and email texts, the scrypt comparison on the parts of a stored access code, the
  attested-name and notification ports, the Sign base URL, and the configured days an
  envelope stays signable and a signed-copy link opens, each as \<open>Number(...)\<close> reads it.
\<close>

record sign_env =
  sv_chain :: chain_env
  sv_uuid :: "nat \<Rightarrow> string"
  sv_clock :: "nat \<Rightarrow> int"
  sv_token :: "nat \<Rightarrow> string"
  sv_sha_token :: "string \<Rightarrow> string"
  sv_sha_hex :: "string \<Rightarrow> string"
  sv_scrypt :: "string list \<Rightarrow> string \<Rightarrow> bool"
  sv_attested_name :: "session_context \<Rightarrow> string option"
  sv_notify :: "nat \<Rightarrow> notify_result"
  sv_base_url :: "string option"
  sv_ttl_days :: js_number
  sv_access_ttl_days :: js_number

datatype sign_error =
    EnvelopeNotFound string
  | EnvelopeIllegalTransition envelope_status string
  | EnvelopeAlreadyExecuted string envelope_status
  | EnvelopeRevisionMismatch int int
  | EnvelopeAmbiguous nat
  | SigningSessionInvalid string
  | SigningSessionExpired string
  | SignerNotFound string
  | SignerNotYetEligible string bool
  | DisclosureVersionInvalid string
  | DisclosureNotAccepted string
  | AttestedNameRequired
  | SignerAccessCodeLocked string
  | SignerAccessCodeRequired string "int option"
  | IdentityVerificationLocked string
  | IdentityVerificationRequired string string
  | DelegationRefused string
  | FieldValueRefused string string
  | FieldIncomplete string field_violation
  | QesSignaturePending string
  | SessionIssueRefused string
  | ReminderNotAllowed string
  | ReminderLimit reminder_refusal
  | RowMissing

section \<open>Draws\<close>

definition tick :: "sign_db \<Rightarrow> sign_db" where
  "tick db = db\<lparr>sd_tick := Suc (sd_tick db)\<rparr>"

definition now_of :: "sign_env \<Rightarrow> sign_db \<Rightarrow> int" where
  "now_of env db = sv_clock env (sd_tick db)"

definition uuid_of :: "sign_env \<Rightarrow> sign_db \<Rightarrow> string" where
  "uuid_of env db = sv_uuid env (sd_tick db)"

definition update_where :: "('a \<Rightarrow> bool) \<Rightarrow> ('a \<Rightarrow> 'a) \<Rightarrow> 'a list \<Rightarrow> 'a list" where
  "update_where P f xs = map (\<lambda>x. if P x then f x else x) xs"

definition touch :: "string \<Rightarrow> sign_db \<Rightarrow> sign_db" where
  "touch eid db = db\<lparr>sd_envelopes := update_where (\<lambda>e. en_id e = eid) (\<lambda>e. e\<lparr>en_revision := en_revision e + 1\<rparr>) (sd_envelopes db)\<rparr>"

text \<open>A transaction: rolled back on an error, otherwise committed with the revision raised.\<close>

definition commit :: "string \<Rightarrow> sign_db \<Rightarrow> (sign_error, 'r \<times> sign_db) result \<Rightarrow> sign_db \<times> (sign_error, 'r) result" where
  "commit eid db r = (case r of Inl e \<Rightarrow> (db, Inl e) | Inr (x, db') \<Rightarrow> (touch eid db', Inr x))"

section \<open>Tokens\<close>

definition SIGNING_SESSION_TTL_MS :: int where
  "SIGNING_SESSION_TTL_MS = 7 * 24 * 60 * 60 * 1000"

definition hashSigningToken :: "sign_env \<Rightarrow> string \<Rightarrow> string" where
  "hashSigningToken env raw = sv_sha_token env raw"

definition signingSessionExpiresAt :: "int \<Rightarrow> int" where
  "signingSessionExpiresAt now = now + SIGNING_SESSION_TTL_MS"

section \<open>Ledger events and notification facts\<close>

definition notificationKindForLedgerEvent :: "string \<Rightarrow> notification_kind option" where
  "notificationKindForLedgerEvent event_type = map_of
     [(''SESSION_EXCHANGED'', N_VIEWED), (''SIGNER_SIGNED'', N_SIGNED), (''ENVELOPE_DECLINED'', N_DECLINED),
      (''ENVELOPE_COMPLETED'', N_COMPLETED), (''ENVELOPE_EXPIRED'', N_EXPIRED),
      (''ENVELOPE_SENT'', N_SIGNATURE_NEEDED), (''SIGNATURE_REMINDER_SENT'', N_REMINDER)] event_type"

definition reminderTargets :: "json option \<Rightarrow> string list" where
  "reminderTargets payload =
     (case payload of None \<Rightarrow> [] | Some p \<Rightarrow>
        (case js_obj_get p ''signer_ids'' of Some (JArr ids) \<Rightarrow> List.map_filter json_string ids | _ \<Rightarrow> []))"

definition hex_char :: "char \<Rightarrow> bool" where
  "hex_char c \<longleftrightarrow> c \<in> set ''0123456789abcdefABCDEF''"

definition UUID_RE :: "string \<Rightarrow> bool" where
  "UUID_RE s \<longleftrightarrow> length s = 36 \<and>
     list_all (\<lambda>(i, c). if i \<in> {8, 13, 18, 23} then c = CHR ''-'' else hex_char c) (zip [0..<36] s)"

definition recordNotificationFact :: "sign_env \<Rightarrow> sign_db \<Rightarrow> append_event_input \<Rightarrow> sign_db" where
  "recordNotificationFact env db input =
     (case notificationKindForLedgerEvent (ae_event_type input) of
        None \<Rightarrow> db
      | Some kind \<Rightarrow>
          let signer = (if kind = N_DECLINED
                then (case ae_signer_id input of None \<Rightarrow> ae_actor_ref input | Some s \<Rightarrow> Some s)
                else ae_signer_id input);
              keep = (\<lambda>s. case s of None \<Rightarrow> None | Some v \<Rightarrow> if UUID_RE v then Some v else None)
          in (tick db)\<lparr>sd_facts := sd_facts db @
               [\<lparr> nf_id = uuid_of env db, nf_tenant_id = ae_tenant_id input, nf_envelope_id = ae_envelope_id input,
                  nf_signer_id = keep signer, nf_kind = kind, nf_actor_type = ae_actor_type input,
                  nf_actor_ref = keep (ae_actor_ref input),
                  nf_signer_ids = (if kind = N_REMINDER then filter UUID_RE (reminderTargets (ae_payload input)) else []) \<rparr>]\<rparr>)"

definition appendEvent :: "sign_env \<Rightarrow> sign_db \<Rightarrow> append_event_input \<Rightarrow> sign_db" where
  "appendEvent env db input =
     (let occurredAt = now_of env db; db1 = tick db; uuid = uuid_of env db1; db2 = tick db1
      in recordNotificationFact env
           (db2\<lparr>sd_events := sd_events db2 @ [new_sign_event (sv_chain env) (sd_events db2) input uuid occurredAt]\<rparr>) input)"

text \<open>Building an event: the columns every caller gives, and none of the optional ones.\<close>

definition event :: "string \<Rightarrow> string \<Rightarrow> string \<Rightarrow> string \<Rightarrow> append_event_input" where
  "event tenant eid event_type actor_type =
     \<lparr> ae_tenant_id = tenant, ae_envelope_id = eid, ae_signer_id = None, ae_event_type = event_type,
       ae_actor_type = actor_type, ae_actor_ref = None, ae_payload = None, ae_ip_address = None, ae_user_agent = None \<rparr>"

definition signer_event :: "session_context \<Rightarrow> string \<Rightarrow> append_event_input" where
  "signer_event ctx event_type =
     (event (cx_tenant_id ctx) (cx_envelope_id ctx) event_type ''SIGNER'')
       \<lparr>ae_signer_id := Some (cx_signer_id ctx), ae_actor_ref := Some (cx_signer_id ctx)\<rparr>"

section \<open>Envelope reads and locks\<close>

definition find_envelope :: "sign_db \<Rightarrow> string \<Rightarrow> string \<Rightarrow> sign_envelope option" where
  "find_envelope db tenant eid = find (\<lambda>e. en_tenant_id e = tenant \<and> en_id e = eid) (sd_envelopes db)"

definition getEnvelope :: "sign_db \<Rightarrow> string \<Rightarrow> string \<Rightarrow> (sign_error, sign_envelope) result" where
  "getEnvelope db tenant eid = (case find_envelope db tenant eid of None \<Rightarrow> Inl (EnvelopeNotFound eid) | Some e \<Rightarrow> Inr e)"

definition envelope_rows :: "sign_db \<Rightarrow> string \<Rightarrow> signer list" where
  "envelope_rows db eid = sort_key sg_signing_order (filter (\<lambda>s. sg_envelope_id s = eid) (sd_signers db))"

definition document_rows :: "sign_db \<Rightarrow> string \<Rightarrow> envelope_document list" where
  "document_rows db eid = sort_key ed_ordinal (filter (\<lambda>d. ed_envelope_id d = eid) (sd_documents db))"

definition getEnvelopeFull ::
  "sign_db \<Rightarrow> string \<Rightarrow> string \<Rightarrow> (sign_error, sign_envelope \<times> envelope_document list \<times> signer list) result" where
  "getEnvelopeFull db tenant eid =
     (case find_envelope db tenant eid of
        None \<Rightarrow> Inl (EnvelopeNotFound eid)
      | Some e \<Rightarrow> Inr (e, document_rows db eid, envelope_rows db eid))"

definition lockEnvelope :: "sign_db \<Rightarrow> string \<Rightarrow> string \<Rightarrow> (sign_error, envelope_status) result" where
  "lockEnvelope db tenant eid =
     (case find_envelope db tenant eid of None \<Rightarrow> Inl (EnvelopeNotFound eid) | Some e \<Rightarrow> Inr (en_status e))"

definition lockEnvelopeRevision :: "sign_db \<Rightarrow> string \<Rightarrow> string \<Rightarrow> int option \<Rightarrow> (sign_error, unit) result" where
  "lockEnvelopeRevision db tenant eid expected =
     (case find_envelope db tenant eid of
        None \<Rightarrow> Inl (EnvelopeNotFound eid)
      | Some e \<Rightarrow>
          (case expected of
             None \<Rightarrow> Inr ()
           | Some r \<Rightarrow> if en_revision e \<noteq> r then Inl (EnvelopeRevisionMismatch (en_revision e) r) else Inr ()))"

definition lockSignableEnvelope :: "sign_db \<Rightarrow> string \<Rightarrow> string \<Rightarrow> (sign_error, envelope_status) result" where
  "lockSignableEnvelope db tenant eid =
     rbind (lockEnvelope db tenant eid) (\<lambda>status.
       if status = SENT \<or> status = IN_PROGRESS then Inr status
       else if isTerminalEnvelopeStatus status then Inl (EnvelopeAlreadyExecuted eid status)
       else Inl (EnvelopeIllegalTransition status ''SIGN''))"

section \<open>Transitions\<close>

datatype timestamp_field = Sent_at | Completed_at | Declined_at | Voided_at

fun set_timestamp :: "timestamp_field option \<Rightarrow> int \<Rightarrow> sign_envelope \<Rightarrow> sign_envelope" where
  "set_timestamp None now e = e"
| "set_timestamp (Some Sent_at) now e = e\<lparr>en_sent_at := Some now\<rparr>"
| "set_timestamp (Some Completed_at) now e = e\<lparr>en_completed_at := Some now\<rparr>"
| "set_timestamp (Some Declined_at) now e = e\<lparr>en_declined_at := Some now\<rparr>"
| "set_timestamp (Some Voided_at) now e = e\<lparr>en_voided_at := Some now\<rparr>"

fun TERMINAL_OUTBOX_EVENT_TYPES :: "envelope_status \<Rightarrow> string option" where
  "TERMINAL_OUTBOX_EVENT_TYPES DECLINED = Some ''sign.envelope.declined.v1''"
| "TERMINAL_OUTBOX_EVENT_TYPES VOIDED = Some ''sign.envelope.voided.v1''"
| "TERMINAL_OUTBOX_EVENT_TYPES EXPIRED = Some ''sign.envelope.expired.v1''"
| "TERMINAL_OUTBOX_EVENT_TYPES _ = None"

text \<open>The printed status, for error messages.\<close>

fun status_text :: "envelope_status \<Rightarrow> string" where
  "status_text DRAFT = ''DRAFT''"
| "status_text SENT = ''SENT''"
| "status_text IN_PROGRESS = ''IN_PROGRESS''"
| "status_text COMPLETED = ''COMPLETED''"
| "status_text DECLINED = ''DECLINED''"
| "status_text VOIDED = ''VOIDED''"
| "status_text EXPIRED = ''EXPIRED''"

definition live_session :: "signing_session \<Rightarrow> bool" where
  "live_session s \<longleftrightarrow> ss_status s \<in> set LIVE_SESSION_STATUSES"

definition revoke_where :: "(signing_session \<Rightarrow> bool) \<Rightarrow> int \<Rightarrow> sign_db \<Rightarrow> sign_db" where
  "revoke_where P now db = db\<lparr>sd_sessions := update_where (\<lambda>s. P s \<and> live_session s)
     (\<lambda>s. s\<lparr>ss_status := REVOKED, ss_revoked_at := Some now\<rparr>) (sd_sessions db)\<rparr>"

definition terminal_outbox :: "sign_env \<Rightarrow> string \<Rightarrow> string \<Rightarrow> envelope_status \<Rightarrow> sign_db \<Rightarrow> sign_db" where
  "terminal_outbox env tenant eid to_status db =
     (case TERMINAL_OUTBOX_EVENT_TYPES to_status of
        None \<Rightarrow> db
      | Some ty \<Rightarrow>
          (tick (tick db))\<lparr>sd_outbox := sd_outbox db @
             [\<lparr> so_id = uuid_of env db, so_tenant_id = tenant, so_event_type = ty, so_envelope_id = eid,
                so_correlation_id = uuid_of env (tick db) \<rparr>]\<rparr>)"

definition transitionEnvelopeIn ::
  "sign_env \<Rightarrow> sign_db \<Rightarrow> append_event_input \<Rightarrow> envelope_status \<Rightarrow> timestamp_field option \<Rightarrow> (sign_error, sign_db) result" where
  "transitionEnvelopeIn env db input to_status timestampField =
     (let tenant = ae_tenant_id input; eid = ae_envelope_id input; now = now_of env db; db1 = tick db;
          hit = (\<lambda>e. en_id e = eid \<and> en_tenant_id e = tenant \<and> en_status e \<in> set (predecessorsOf to_status))
      in if length (filter hit (sd_envelopes db1)) \<noteq> 1
         then (case find_envelope db1 tenant eid of
                 None \<Rightarrow> Inl (EnvelopeNotFound eid)
               | Some current \<Rightarrow> Inl (EnvelopeIllegalTransition (en_status current) (status_text to_status)))
         else
           let db2 = db1\<lparr>sd_envelopes := update_where hit
                 (\<lambda>e. set_timestamp timestampField now (e\<lparr>en_status := to_status\<rparr>)) (sd_envelopes db1)\<rparr>;
               db3 = (if isTerminalEnvelopeStatus to_status
                 then revoke_where (\<lambda>s. ss_tenant_id s = tenant \<and> ss_envelope_id s = eid) now db2 else db2);
               db4 = appendEvent env db3 input
           in Inr (terminal_outbox env tenant eid to_status db4))"

section \<open>Drafting\<close>

record create_envelope_input =
  ce_tenant_id :: string
  ce_subject :: string
  ce_execution_mode :: string
  ce_created_by :: string
  ce_source_application :: "string option"
  ce_installation_id :: "string option"
  ce_origin_actor_kind :: "string option"
  ce_routing_mode :: "routing_mode option"
  ce_template_refs :: "string option \<times> string option"
  ce_envelope_mode :: "envelope_mode option"

definition opt_default :: "'a \<Rightarrow> 'a option \<Rightarrow> 'a" where
  "opt_default d x = (case x of None \<Rightarrow> d | Some v \<Rightarrow> v)"

definition createEnvelope :: "sign_env \<Rightarrow> sign_db \<Rightarrow> create_envelope_input \<Rightarrow> sign_db \<times> string" where
  "createEnvelope env db input =
     (let eid = uuid_of env db; db1 = tick db; created = now_of env db1; db2 = tick db1;
          row = \<lparr> en_id = eid, en_tenant_id = ce_tenant_id input, en_subject = ce_subject input, en_status = DRAFT,
            en_execution_mode = ce_execution_mode input, en_routing_mode = opt_default PARALLEL (ce_routing_mode input),
            en_created_by = ce_created_by input, en_created_at = created, en_sent_at = None, en_completed_at = None,
            en_declined_at = None, en_voided_at = None, en_expires_at = None,
            en_source_application = opt_default ''aramo-sign'' (ce_source_application input),
            en_installation_id = ce_installation_id input,
            en_origin_actor_kind = opt_default ''USER'' (ce_origin_actor_kind input),
            en_revision = 1, en_message = None, en_deleted_at = None,
            en_template_refs = (case ce_template_refs input of (Some r, Some v) \<Rightarrow> Some (r, v) | _ \<Rightarrow> None),
            en_allow_delegation = False,
            en_envelope_mode = (if ce_envelope_mode input = Some SELF_MODE then SELF_MODE else STANDARD_MODE) \<rparr>
      in (appendEvent env (db2\<lparr>sd_envelopes := sd_envelopes db2 @ [row]\<rparr>)
            ((event (ce_tenant_id input) eid ''ENVELOPE_CREATED'' ''SERVICE'')
               \<lparr>ae_actor_ref := Some (ce_created_by input),
                ae_payload := Some (JObj ((''execution_mode'', JStr (ce_execution_mode input)) #
                  (if ce_envelope_mode input = Some SELF_MODE then [(''envelope_mode'', JStr ''SELF'')] else [])))\<rparr>), eid))"

text \<open>\<open>addDocument\<close> and \<open>addSigner\<close> on the row the caller gives; the id is drawn here.\<close>

definition addDocument :: "sign_env \<Rightarrow> sign_db \<Rightarrow> envelope_document \<Rightarrow> sign_db \<times> (sign_error, string) result" where
  "addDocument env db row =
     commit (ed_envelope_id row) db
       (rbind (getEnvelope db (ed_tenant_id row) (ed_envelope_id row)) (\<lambda>_.
          Inr (uuid_of env db, (tick db)\<lparr>sd_documents := sd_documents db @ [row\<lparr>ed_id := uuid_of env db\<rparr>]\<rparr>)))"

record add_signer_input =
  as_tenant_id :: string
  as_envelope_id :: string
  as_email :: string
  as_name :: string
  as_signing_order :: int

definition new_signer :: "string \<Rightarrow> add_signer_input \<Rightarrow> signer" where
  "new_signer uuid input = \<lparr> sg_id = uuid, sg_tenant_id = as_tenant_id input, sg_envelope_id = as_envelope_id input,
     sg_email = Some (as_email input), sg_name = as_name input, sg_signing_order = as_signing_order input,
     sg_status = PENDING, sg_recipient_kind = SIGNER, sg_copy_delivery = None, sg_bound_user_id = None,
     sg_witness_for_signer_id = None, sg_delegated_from_name = None, sg_delegated_from_email = None,
     sg_delegated_at = None, sg_access_code_hash = None, sg_access_code_failed_count = 0,
     sg_access_code_locked_at = None, sg_identity_verification_method = None,
     sg_identity_verification_locked_at = None, sg_viewed_at = None, sg_signed_at = None,
     sg_declined_at = None, sg_decline_reason = None \<rparr>"

definition addSigner :: "sign_env \<Rightarrow> sign_db \<Rightarrow> add_signer_input \<Rightarrow> sign_db \<times> (sign_error, string) result" where
  "addSigner env db input =
     commit (as_envelope_id input) db
       (rbind (getEnvelope db (as_tenant_id input) (as_envelope_id input)) (\<lambda>_.
          Inr (uuid_of env db, (tick db)\<lparr>sd_signers := sd_signers db @ [new_signer (uuid_of env db) input]\<rparr>)))"

definition addField :: "sign_env \<Rightarrow> sign_db \<Rightarrow> sign_field \<Rightarrow> sign_db" where
  "addField env db row =
     (let eid = (case find (\<lambda>d. ed_id d = sf_envelope_document_id row) (sd_documents db) of None \<Rightarrow> [] | Some d \<Rightarrow> ed_envelope_id d)
      in touch eid ((tick db)\<lparr>sd_fields := sd_fields db @
           [row\<lparr>sf_id := uuid_of env db, sf_value := None, sf_signature_method := None, sf_filled_at := None\<rparr>]\<rparr>))"

definition findNonTerminalEnvelopesByDocument ::
  "sign_db \<Rightarrow> string \<Rightarrow> string \<Rightarrow> string \<Rightarrow> (string \<times> envelope_status) list" where
  "findNonTerminalEnvelopesByDocument db tenant document_ref revision_ref =
     map (\<lambda>e. (en_id e, en_status e)) (sort_key (\<lambda>e. (en_created_at e, en_id e))
       (filter (\<lambda>e. en_tenant_id e = tenant \<and> en_status e \<in> {DRAFT, SENT, IN_PROGRESS} \<and>
          (\<exists>d\<in>set (sd_documents db). ed_envelope_id d = en_id e \<and> ed_tenant_id d = tenant \<and>
             ed_document_ref d = Some document_ref \<and> ed_document_revision_ref d = Some revision_ref)) (sd_envelopes db)))"

end
