(* ===== verification/Sign_Service.thy ===== *)
theory Sign_Service
  imports Sign_Db Js_Date
begin

text \<open>
  The operations of the signing service: \<^verbatim>\<open>libs/sign/src/lib/esign.service.ts\<close>, the
  guards it calls (\<^verbatim>\<open>domain/access-code.ts\<close>, \<^verbatim>\<open>domain/disclosure.ts\<close>,
  \<^verbatim>\<open>identity-verification/identity-gate.ts\<close>, \<^verbatim>\<open>regulated/qes-guard.ts\<close>) and the
  delivery of invitations (\<^verbatim>\<open>signing-invitation.service.ts\<close>). An operation returns the
  committed database and its result; a refusal that the source commits before raising (a
  spent link, a wrong access code) changes the database too. Producing the executed
  documents and time-stamping the manifest run after the completing transaction and are
  not part of it.
\<close>

section \<open>Settings\<close>

definition ttl_or_default :: "rat \<Rightarrow> js_number \<Rightarrow> rat" where
  "ttl_or_default d n = (case n of JFin q \<Rightarrow> if q > 0 then q else d | _ \<Rightarrow> d)"

definition ENVELOPE_TTL_DAYS_DEFAULT :: rat where
  "ENVELOPE_TTL_DAYS_DEFAULT = 30"

definition envelopeExpiresAt :: "sign_env \<Rightarrow> int \<Rightarrow> int" where
  "envelopeExpiresAt env sentAt =
     \<lfloor>of_int sentAt + ttl_or_default ENVELOPE_TTL_DAYS_DEFAULT (sv_ttl_days env) * 24 * 60 * 60 * 1000\<rfloor>"

definition EXECUTED_ACCESS_TTL_DAYS_DEFAULT :: rat where
  "EXECUTED_ACCESS_TTL_DAYS_DEFAULT = 30"

definition executedAccessExpiresAt :: "sign_env \<Rightarrow> int \<Rightarrow> int" where
  "executedAccessExpiresAt env now =
     \<lfloor>of_int now + ttl_or_default EXECUTED_ACCESS_TTL_DAYS_DEFAULT (sv_access_ttl_days env) * 24 * 60 * 60 * 1000\<rfloor>"

section \<open>Disclosures\<close>

record disclosure_version =
  dv_version :: string
  dv_text :: string
  dv_text_sha256 :: string

definition newline :: string where
  "newline = [CHR 0x0A]"

definition DISCLOSURE_V2_TEXT :: string where
  "DISCLOSURE_V2_TEXT =
     ''Agreement to Use Electronic Records and Signatures'' @ newline @ newline @
     ''By affirmatively selecting '' @ [CHR 0x22] @ ''I agree to use electronic records and signatures'' @ [CHR 0x22] @
     '', you consent to using electronic records and signatures for the document transaction presented to you, where permitted by applicable law.'' @
     newline @ newline @
     ''You acknowledge that:'' @ newline @
     ''1. The document will be presented electronically for your review.'' @ newline @
     ''2. Your electronic signature is intended to represent your agreement or other stated signing intention.'' @ newline @
     ''3. Electronic records may be made available to the document sender and other authorized parties.'' @ newline @
     ''4. You may access or obtain a copy of the signed document, subject to applicable access arrangements.'' @ newline @
     ''5. You may decline to sign electronically. Where applicable, the sender can explain available alternatives.'' @ newline @
     ''6. Instructions for withdrawing consent, requesting paper records and updating contact information will be provided where required.''"

definition disclosure_of :: "sign_env \<Rightarrow> string \<Rightarrow> string \<Rightarrow> disclosure_version" where
  "disclosure_of env v text = \<lparr> dv_version = v, dv_text = text, dv_text_sha256 = sv_sha_hex env text \<rparr>"

definition DISCLOSURES :: "sign_env \<Rightarrow> disclosure_version list" where
  "DISCLOSURES env =
     [disclosure_of env ''v1'' ''By continuing you consent to sign this document electronically.'',
      disclosure_of env ''v2'' DISCLOSURE_V2_TEXT]"

definition CURRENT_DISCLOSURE_VERSION :: string where
  "CURRENT_DISCLOSURE_VERSION = ''v1''"

definition findDisclosure :: "sign_env \<Rightarrow> string \<Rightarrow> disclosure_version option" where
  "findDisclosure env versionId = find (\<lambda>d. dv_version d = versionId) (DISCLOSURES env)"

definition currentDisclosure :: "sign_env \<Rightarrow> string option \<Rightarrow> disclosure_version option" where
  "currentDisclosure env setting =
     (case find (\<lambda>d. Some (dv_version d) = map_option js_trim setting) (DISCLOSURES env) of
        Some d \<Rightarrow> Some d
      | None \<Rightarrow> findDisclosure env CURRENT_DISCLOSURE_VERSION)"

section \<open>Access codes\<close>

definition ACCESS_CODE_MIN_LENGTH :: nat where
  "ACCESS_CODE_MIN_LENGTH = 4"

definition ACCESS_CODE_MAX_LENGTH :: nat where
  "ACCESS_CODE_MAX_LENGTH = 32"

definition MAX_ACCESS_CODE_ATTEMPTS :: int where
  "MAX_ACCESS_CODE_ATTEMPTS = 5"

text \<open>A value that is not a string is None.\<close>

definition normalizeAccessCode :: "string option \<Rightarrow> string option" where
  "normalizeAccessCode raw =
     (case raw of None \<Rightarrow> None | Some r \<Rightarrow>
        let code = js_trim r
        in if length code < ACCESS_CODE_MIN_LENGTH \<or> length code > ACCESS_CODE_MAX_LENGTH then None
           else if \<not> list_all (\<lambda>c. 0x20 \<le> (of_char c :: nat) \<and> (of_char c :: nat) \<le> 0x7E) code then None
           else Some code)"

fun split_on :: "char \<Rightarrow> string \<Rightarrow> string \<Rightarrow> string list" where
  "split_on sep acc [] = [rev acc]"
| "split_on sep acc (c # cs) = (if c = sep then rev acc # split_on sep [] cs else split_on sep (c # acc) cs)"

definition verifyAccessCode :: "sign_env \<Rightarrow> string option \<Rightarrow> string \<Rightarrow> bool" where
  "verifyAccessCode env entered stored \<longleftrightarrow>
     (let parts = split_on (CHR 0x24) [] stored
      in if length parts \<noteq> 6 \<or> parts ! 0 \<noteq> ''scrypt'' then False
         else sv_scrypt env (tl parts) (case entered of None \<Rightarrow> [] | Some e \<Rightarrow> js_trim e))"

section \<open>Guards\<close>

definition find_signer :: "sign_db \<Rightarrow> string \<Rightarrow> string \<Rightarrow> signer option" where
  "find_signer db tenant sid = find (\<lambda>s. sg_id s = sid \<and> sg_tenant_id s = tenant) (sd_signers db)"

definition find_recipient :: "sign_db \<Rightarrow> string \<Rightarrow> string \<Rightarrow> string \<Rightarrow> signer option" where
  "find_recipient db tenant eid sid =
     find (\<lambda>s. sg_id s = sid \<and> sg_tenant_id s = tenant \<and> sg_envelope_id s = eid) (sd_signers db)"

definition findSessionByToken :: "sign_env \<Rightarrow> sign_db \<Rightarrow> string \<Rightarrow> (sign_error, signing_session) result" where
  "findSessionByToken env db rawToken =
     (case find (\<lambda>s. ss_token_hash s = hashSigningToken env rawToken) (sd_sessions db) of
        None \<Rightarrow> Inl (SigningSessionInvalid ''unknown token'')
      | Some s \<Rightarrow> Inr s)"

definition context_of :: "signing_session \<Rightarrow> session_context" where
  "context_of s = \<lparr> cx_session_id = ss_id s, cx_tenant_id = ss_tenant_id s, cx_envelope_id = ss_envelope_id s,
     cx_signer_id = ss_signer_id s \<rparr>"

definition resolveSession :: "sign_env \<Rightarrow> sign_db \<Rightarrow> string \<Rightarrow> (sign_error, session_context) result" where
  "resolveSession env db rawToken =
     rbind (findSessionByToken env db rawToken) (\<lambda>session.
     rbind (getEnvelope db (ss_tenant_id session) (ss_envelope_id session)) (\<lambda>envelope.
       if isTerminalEnvelopeStatus (en_status envelope) then Inl (EnvelopeAlreadyExecuted (ss_envelope_id session) (en_status envelope))
       else if ss_status session = REVOKED \<or> ss_status session = SESSION_EXPIRED then Inl (SigningSessionExpired (ss_id session))
       else if ss_expires_at session < now_of env db then Inl (SigningSessionExpired (ss_id session))
       else Inr (context_of session)))"

definition assertLiveSession :: "sign_db \<Rightarrow> session_context \<Rightarrow> int \<Rightarrow> (sign_error, signing_session) result" where
  "assertLiveSession db ctx now =
     (case find (\<lambda>s. ss_id s = cx_session_id ctx \<and> ss_tenant_id s = cx_tenant_id ctx \<and>
          ss_envelope_id s = cx_envelope_id ctx \<and> ss_signer_id s = cx_signer_id ctx) (sd_sessions db) of
        None \<Rightarrow> Inl (SigningSessionInvalid ''unknown session'')
      | Some session \<Rightarrow>
          if ss_status session \<notin> set LIVE_SESSION_STATUSES \<or> ss_expires_at session < now
          then Inl (SigningSessionExpired (cx_session_id ctx))
          else Inr session)"

definition currentSequentialSigner :: "sign_db \<Rightarrow> string \<Rightarrow> string \<Rightarrow> string option" where
  "currentSequentialSigner db tenant eid = currentTurnSignerId (sd_signers db) tenant eid"

definition witnessed_signed :: "sign_db \<Rightarrow> string \<Rightarrow> string \<Rightarrow> signer \<Rightarrow> bool" where
  "witnessed_signed db tenant eid me \<longleftrightarrow>
     (case sg_witness_for_signer_id me of
        None \<Rightarrow> False
      | Some w \<Rightarrow> (case find_recipient db tenant eid w of None \<Rightarrow> False | Some p \<Rightarrow> sg_status p = SIGNED))"

definition assertEligible :: "sign_db \<Rightarrow> string \<Rightarrow> string \<Rightarrow> string \<Rightarrow> (sign_error, unit) result" where
  "assertEligible db tenant eid sid =
     (if (case find_recipient db tenant eid sid of None \<Rightarrow> False | Some me \<Rightarrow> isWitness me \<and> \<not> witnessed_signed db tenant eid me)
      then Inl (SignerNotYetEligible sid True)
      else if map_option en_routing_mode (find_envelope db tenant eid) \<noteq> Some SEQUENTIAL then Inr ()
      else if currentSequentialSigner db tenant eid \<noteq> Some sid then Inl (SignerNotYetEligible sid False)
      else Inr ())"

definition hasAcceptedDisclosure :: "sign_db \<Rightarrow> string \<Rightarrow> string \<Rightarrow> bool" where
  "hasAcceptedDisclosure db tenant sid \<longleftrightarrow>
     (let since = (case find_signer db tenant sid of None \<Rightarrow> None | Some s \<Rightarrow> sg_delegated_at s)
      in list_ex (\<lambda>a. da_tenant_id a = tenant \<and> da_signer_id a = sid \<and>
           (case since of None \<Rightarrow> True | Some t \<Rightarrow> da_accepted_at a \<ge> t)) (sd_acceptances db))"

definition assertAccessCodeCleared :: "sign_db \<Rightarrow> session_context \<Rightarrow> (sign_error, unit) result" where
  "assertAccessCodeCleared db ctx =
     (case find_signer db (cx_tenant_id ctx) (cx_signer_id ctx) of
        None \<Rightarrow> Inr ()
      | Some s \<Rightarrow>
          if sg_access_code_hash s = None then Inr ()
          else if sg_access_code_locked_at s \<noteq> None then Inl (SignerAccessCodeLocked (cx_signer_id ctx))
          else
            (case find (\<lambda>x. ss_id x = cx_session_id ctx \<and> ss_tenant_id x = cx_tenant_id ctx) (sd_sessions db) of
               None \<Rightarrow> Inl (SignerAccessCodeRequired (cx_signer_id ctx) None)
             | Some session \<Rightarrow>
                 if ss_access_code_verified_at session = None then Inl (SignerAccessCodeRequired (cx_signer_id ctx) None)
                 else Inr ()))"

definition assertIdentityVerificationCleared :: "sign_db \<Rightarrow> string \<Rightarrow> string \<Rightarrow> (sign_error, unit) result" where
  "assertIdentityVerificationCleared db tenant sid =
     (case find_signer db tenant sid of
        None \<Rightarrow> Inr ()
      | Some s \<Rightarrow>
          (case sg_identity_verification_method s of
             None \<Rightarrow> Inr ()
           | Some m \<Rightarrow>
               if sg_identity_verification_locked_at s \<noteq> None then Inl (IdentityVerificationLocked sid)
               else if list_ex (\<lambda>v. iv_tenant_id v = tenant \<and> iv_signer_id v = sid \<and> iv_method v = m \<and>
                   iv_status v = AT_VERIFIED) (sd_identity db) then Inr ()
               else Inl (IdentityVerificationRequired sid m)))"

definition assertQesSatisfied :: "sign_db \<Rightarrow> string \<Rightarrow> string \<Rightarrow> (sign_error, unit) result" where
  "assertQesSatisfied db tenant sid =
     (case find (\<lambda>q. qs_tenant_id q = tenant \<and> qs_signer_id q = sid) (sd_qes db) of
        None \<Rightarrow> Inr ()
      | Some q \<Rightarrow> if qs_state q \<noteq> ''SIGNED'' then Inl (QesSignaturePending sid) else Inr ())"

text \<open>
  The guards every signer mutation runs first, in this order: a signable envelope under
  its row lock, a live session, the signer's turn, the access code.
\<close>

definition signer_guard :: "sign_env \<Rightarrow> sign_db \<Rightarrow> session_context \<Rightarrow> (sign_error, envelope_status \<times> signing_session) result" where
  "signer_guard env db ctx =
     rbind (lockSignableEnvelope db (cx_tenant_id ctx) (cx_envelope_id ctx)) (\<lambda>status.
     rbind (assertLiveSession db ctx (now_of env db)) (\<lambda>live.
     rbind (assertEligible db (cx_tenant_id ctx) (cx_envelope_id ctx) (cx_signer_id ctx)) (\<lambda>_.
     rbind (assertAccessCodeCleared db ctx) (\<lambda>_. Inr (status, live)))))"

section \<open>Sending\<close>

record issued_session =
  is_session_id :: string
  is_signer_id :: string
  is_raw_token :: string

text \<open>A new session row: the raw token is drawn, then the id, then the row's creation time; only the token's hash is stored.\<close>

definition mint_session ::
  "sign_env \<Rightarrow> sign_db \<Rightarrow> string \<Rightarrow> string \<Rightarrow> string \<Rightarrow> int \<Rightarrow> session_origin \<Rightarrow> string option \<Rightarrow> string option \<Rightarrow>
     issued_session \<times> sign_db" where
  "mint_session env db tenant eid sid expires_at origin host_user_id authenticated_user_id =
     (let raw = sv_token env (sd_tick db); db1 = tick db; session_id = uuid_of env db1; db2 = tick db1;
          created_at = now_of env db2; db3 = tick db2
      in (\<lparr> is_session_id = session_id, is_signer_id = sid, is_raw_token = raw \<rparr>,
          db3\<lparr>sd_sessions := sd_sessions db3 @
            [\<lparr> ss_id = session_id, ss_tenant_id = tenant, ss_envelope_id = eid, ss_signer_id = sid,
               ss_token_hash = hashSigningToken env raw, ss_status = ISSUED, ss_created_at = created_at, ss_expires_at = expires_at,
               ss_first_accessed_at = None, ss_last_accessed_at = None, ss_completed_at = None,
               ss_revoked_at = None, ss_origin = Some origin, ss_host_user_id = host_user_id,
               ss_authenticated_user_id = authenticated_user_id, ss_access_code_verified_at = None \<rparr>]\<rparr>))"

fun mint_links :: "sign_env \<Rightarrow> string \<Rightarrow> string \<Rightarrow> int \<Rightarrow> sign_db \<Rightarrow> signer list \<Rightarrow> issued_session list \<times> sign_db" where
  "mint_links env tenant eid now db [] = ([], db)"
| "mint_links env tenant eid now db (s # ss) =
     (let (m, db1) = mint_session env db tenant eid (sg_id s) (signingSessionExpiresAt now) LINK None None;
          (ms, db2) = mint_links env tenant eid now db1 ss
      in (m # ms, db2))"

fun copy_delivery_text :: "copy_delivery option \<Rightarrow> json" where
  "copy_delivery_text None = JNull"
| "copy_delivery_text (Some ON_SEND) = JStr ''ON_SEND''"
| "copy_delivery_text (Some ON_COMPLETION) = JStr ''ON_COMPLETION''"
| "copy_delivery_text (Some BOTH) = JStr ''BOTH''"

fun issue_copies ::
  "sign_env \<Rightarrow> string \<Rightarrow> string \<Rightarrow> string \<Rightarrow> int \<Rightarrow> sign_db \<Rightarrow> signer list \<Rightarrow> (string \<times> string) list \<times> sign_db" where
  "issue_copies env tenant eid actor now db [] = ([], db)"
| "issue_copies env tenant eid actor now db (cc # ccs) =
     (let raw = sv_token env (sd_tick db); db1 = tick db; gid = uuid_of env db1; db2 = tick db1;
          db3 = db2\<lparr>sd_grants := sd_grants db2 @
            [\<lparr> ag_id = gid, ag_tenant_id = tenant, ag_envelope_id = eid, ag_signer_id = sg_id cc,
               ag_token_hash = hashSigningToken env raw, ag_expires_at = executedAccessExpiresAt env now,
               ag_last_accessed_at = None, ag_access_count = 0, ag_access_kind = COPY_VIEW \<rparr>]\<rparr>;
          db4 = appendEvent env db3 ((event tenant eid ''COPY_DELIVERY_ISSUED'' ''SERVICE'')
            \<lparr>ae_signer_id := Some (sg_id cc), ae_actor_ref := Some actor,
             ae_payload := Some (JObj [(''copy_delivery'', copy_delivery_text (sg_copy_delivery cc)), (''access_kind'', JStr ''COPY_VIEW'')])\<rparr>);
          (rest, db5) = issue_copies env tenant eid actor now db4 ccs
      in ((sg_id cc, raw) # rest, db5))"

definition sent_payload :: "sign_envelope \<Rightarrow> json option" where
  "sent_payload e = (case en_message e of
     Some m \<Rightarrow> if m \<noteq> [] then Some (JObj [(''sender_message'', JStr m), (''sender_message_source'', JStr ''SENDER_SUPPLIED'')]) else None
   | None \<Rightarrow> None)"

definition set_expires_at :: "string \<Rightarrow> int \<Rightarrow> sign_db \<Rightarrow> sign_db" where
  "set_expires_at eid t db =
     db\<lparr>sd_envelopes := update_where (\<lambda>e. en_id e = eid) (\<lambda>e. e\<lparr>en_expires_at := Some t\<rparr>) (sd_envelopes db)\<rparr>"

definition send_tx ::
  "sign_env \<Rightarrow> sign_db \<Rightarrow> string \<Rightarrow> string \<Rightarrow> string \<Rightarrow> int option \<Rightarrow> int \<Rightarrow> sign_envelope \<Rightarrow> signer list \<Rightarrow>
     (sign_error, (issued_session list \<times> (string \<times> string) list) \<times> sign_db) result" where
  "send_tx env db tenant eid actor expected now full signers =
     rbind (lockEnvelopeRevision db tenant eid expected) (\<lambda>_.
     rbind (transitionEnvelopeIn env db
         ((event tenant eid ''ENVELOPE_SENT'' ''SERVICE'')\<lparr>ae_actor_ref := Some actor,
            ae_payload := (case find_envelope db tenant eid of None \<Rightarrow> None | Some e \<Rightarrow> sent_payload e)\<rparr>)
         SENT (Some Sent_at)) (\<lambda>db1.
       let db2 = set_expires_at eid (envelopeExpiresAt env now) db1;
           invited = (if en_envelope_mode full = SELF_MODE then [] else invitedAtSend (en_routing_mode full) signers);
           (sessions, db3) = mint_links env tenant eid now db2 invited;
           (copies, db4) = issue_copies env tenant eid actor now db3 (copyRecipients signers At_Send)
       in Inr ((sessions, copies), db4)))"

definition send ::
  "sign_env \<Rightarrow> sign_db \<Rightarrow> string \<Rightarrow> string \<Rightarrow> string \<Rightarrow> int option \<Rightarrow>
     sign_db \<times> (sign_error, issued_session list \<times> (string \<times> string) list) result" where
  "send env db tenant eid actor expected =
     (case getEnvelopeFull db tenant eid of
        Inl e \<Rightarrow> (db, Inl e)
      | Inr (full, documents, signers) \<Rightarrow>
          if signingRecipients signers = [] then (db, Inl (SigningSessionInvalid ''envelope has no signers''))
          else if documents = [] then (db, Inl (SigningSessionInvalid ''envelope has no documents''))
          else commit eid db (send_tx env (tick db) tenant eid actor expected (now_of env db) full signers))"

section \<open>Opening a link\<close>

definition update_session :: "string \<Rightarrow> (signing_session \<Rightarrow> signing_session) \<Rightarrow> sign_db \<Rightarrow> sign_db" where
  "update_session sid f db = db\<lparr>sd_sessions := update_where (\<lambda>s. ss_id s = sid) f (sd_sessions db)\<rparr>"

definition update_signer :: "string \<Rightarrow> (signer \<Rightarrow> signer) \<Rightarrow> sign_db \<Rightarrow> sign_db" where
  "update_signer sid f db = db\<lparr>sd_signers := update_where (\<lambda>s. sg_id s = sid) f (sd_signers db)\<rparr>"

definition mark_viewed :: "string \<Rightarrow> string \<Rightarrow> int \<Rightarrow> sign_db \<Rightarrow> sign_db" where
  "mark_viewed tenant sid now db = db\<lparr>sd_signers :=
     update_where (\<lambda>s. sg_id s = sid \<and> sg_tenant_id s = tenant \<and> (sg_status s = PENDING \<or> sg_status s = VIEWED))
       (\<lambda>s. s\<lparr>sg_status := VIEWED, sg_viewed_at := Some now\<rparr>) (sd_signers db)\<rparr>"

definition exchange_live :: "sign_env \<Rightarrow> sign_db \<Rightarrow> signing_session \<Rightarrow> envelope_status \<Rightarrow> (sign_error, unit \<times> sign_db) result" where
  "exchange_live env db session status =
     (let ctx = context_of session; tenant = ss_tenant_id session; eid = ss_envelope_id session; sid = ss_signer_id session in
      rbind (assertEligible db tenant eid sid) (\<lambda>_.
      rbind (assertAccessCodeCleared db ctx) (\<lambda>_.
        let db1 = tick db;
            db2 = tick (update_session (ss_id session) (\<lambda>s. s\<lparr>ss_status := ACTIVE,
              ss_first_accessed_at := (case ss_first_accessed_at session of None \<Rightarrow> Some (now_of env db) | t \<Rightarrow> t),
              ss_last_accessed_at := Some (now_of env db1)\<rparr>) db1);
            db3 = appendEvent env db2 (signer_event ctx ''SESSION_EXCHANGED'');
            db4 = mark_viewed tenant sid (now_of env db3) (tick db3)
        in if status = SENT
           then rbind (transitionEnvelopeIn env db4
               ((event tenant eid ''ENVELOPE_IN_PROGRESS'' ''SIGNER'')\<lparr>ae_actor_ref := Some sid\<rparr>) IN_PROGRESS None)
               (\<lambda>db5. Inr ((), db5))
           else Inr ((), db4))))"

definition exchangeToken :: "sign_env \<Rightarrow> sign_db \<Rightarrow> string \<Rightarrow> sign_db \<times> (sign_error, session_context) result" where
  "exchangeToken env db rawToken =
     (case findSessionByToken env db rawToken of
        Inl e \<Rightarrow> (db, Inl e)
      | Inr found \<Rightarrow>
          (case lockSignableEnvelope db (ss_tenant_id found) (ss_envelope_id found) of
             Inl e \<Rightarrow> (db, Inl e)
           | Inr status \<Rightarrow>
               if ss_status found \<notin> set LIVE_SESSION_STATUSES then (db, Inl (SigningSessionExpired (ss_id found)))
               else if ss_expires_at found < now_of env db
               then (update_session (ss_id found) (\<lambda>s. s\<lparr>ss_status := SESSION_EXPIRED\<rparr>) (tick db),
                     Inl (SigningSessionExpired (ss_id found)))
               else (case commit (ss_envelope_id found) db (exchange_live env (tick db) found status) of
                       (db', Inl e) \<Rightarrow> (db', Inl e)
                     | (db', Inr _) \<Rightarrow> (db', Inr (context_of found)))))"

section \<open>Disclosure, access code, delegation\<close>

record accept_input =
  ai_disclosure_version :: string
  ai_disclosure_text_hash :: string
  ai_ip_address :: "string option"
  ai_user_agent :: "string option"
  ai_attested_name :: "string option"

definition normalizeAttestedName :: "string option \<Rightarrow> string option" where
  "normalizeAttestedName raw =
     (case raw of None \<Rightarrow> None | Some r \<Rightarrow>
        let name = collapse_space (js_trim r) in if length name > 0 \<and> length name \<le> 200 then Some name else None)"

definition accept_tx :: "sign_env \<Rightarrow> sign_db \<Rightarrow> session_context \<Rightarrow> accept_input \<Rightarrow> (sign_error, unit \<times> sign_db) result" where
  "accept_tx env db ctx input =
     rbind (signer_guard env db ctx) (\<lambda>(status, live).
       let db1 = tick db; attested = (if ss_origin live = Some HOSTED then normalizeAttestedName (ai_attested_name input) else None)
       in if ss_origin live = Some HOSTED \<and> attested = None then Inl AttestedNameRequired
          else
            let row = \<lparr> da_id = uuid_of env db1, da_tenant_id = cx_tenant_id ctx, da_signer_id = cx_signer_id ctx,
                  da_disclosure_version = ai_disclosure_version input, da_disclosure_text_hash = ai_disclosure_text_hash input,
                  da_accepted_at = now_of env (tick db1), da_ip_address = ai_ip_address input, da_user_agent = ai_user_agent input,
                  da_session_id = cx_session_id ctx, da_attested_name = attested \<rparr>;
                db2 = tick (tick db1);
                db3 = db2\<lparr>sd_acceptances := sd_acceptances db2 @ [row]\<rparr>;
                payload = (''disclosure_version'', JStr (ai_disclosure_version input)) #
                  (case attested of None \<Rightarrow> [] | Some n \<Rightarrow>
                     [(''session_origin'', JStr ''HOSTED''), (''attested_name_sha256'', JStr (sv_sha_hex env n))])
            in Inr ((), appendEvent env db3 ((signer_event ctx ''DISCLOSURE_ACCEPTED'')
                 \<lparr>ae_payload := Some (JObj payload), ae_ip_address := ai_ip_address input, ae_user_agent := ai_user_agent input\<rparr>)))"

definition acceptDisclosure :: "sign_env \<Rightarrow> sign_db \<Rightarrow> session_context \<Rightarrow> accept_input \<Rightarrow> sign_db \<times> (sign_error, unit) result" where
  "acceptDisclosure env db ctx input =
     (case findDisclosure env (ai_disclosure_version input) of
        None \<Rightarrow> (db, Inl (DisclosureVersionInvalid (ai_disclosure_version input)))
      | Some held \<Rightarrow>
          if dv_text_sha256 held \<noteq> ai_disclosure_text_hash input
          then (db, Inl (DisclosureVersionInvalid (ai_disclosure_version input)))
          else commit (cx_envelope_id ctx) db (accept_tx env db ctx input))"

datatype code_outcome = Code_verified | Code_locked | Code_incorrect int

definition code_event :: "session_context \<Rightarrow> string \<Rightarrow> (string \<times> json) list \<Rightarrow> string option \<Rightarrow> string option \<Rightarrow> append_event_input" where
  "code_event ctx ty extra ip agent = (signer_event ctx ty)
     \<lparr>ae_payload := Some (JObj ((''session_id'', JStr (cx_session_id ctx)) # extra @ [(''verification_method'', JStr ''ACCESS_CODE'')])),
      ae_ip_address := ip, ae_user_agent := agent\<rparr>"

definition access_code_tx ::
  "sign_env \<Rightarrow> sign_db \<Rightarrow> session_context \<Rightarrow> string option \<Rightarrow> string option \<Rightarrow> string option \<Rightarrow> (sign_error, code_outcome \<times> sign_db) result" where
  "access_code_tx env db ctx entered ip agent =
     rbind (lockSignableEnvelope db (cx_tenant_id ctx) (cx_envelope_id ctx)) (\<lambda>_.
     rbind (assertLiveSession db ctx (now_of env db)) (\<lambda>_.
       case find_signer db (cx_tenant_id ctx) (cx_signer_id ctx) of
         None \<Rightarrow> Inl RowMissing
       | Some s \<Rightarrow>
           (case sg_access_code_hash s of
              None \<Rightarrow> Inr (Code_verified, db)
            | Some stored \<Rightarrow>
                if sg_access_code_locked_at s \<noteq> None then Inr (Code_locked, db)
                else
                  let db1 = tick db; now = now_of env db1; db2 = tick db1
                  in if verifyAccessCode env entered stored
                     then Inr (Code_verified, appendEvent env
                       (update_signer (cx_signer_id ctx) (\<lambda>s. s\<lparr>sg_access_code_failed_count := 0\<rparr>)
                         (update_session (cx_session_id ctx) (\<lambda>x. x\<lparr>ss_access_code_verified_at := Some now\<rparr>) db2))
                       (code_event ctx ''ACCESS_CODE_VERIFIED'' [] ip agent))
                     else
                       let failed = sg_access_code_failed_count s + 1;
                           locked = (failed \<ge> MAX_ACCESS_CODE_ATTEMPTS);
                           db3 = update_signer (cx_signer_id ctx) (\<lambda>s. s\<lparr>sg_access_code_failed_count := failed,
                             sg_access_code_locked_at := (if locked then Some now else sg_access_code_locked_at s)\<rparr>) db2;
                           db4 = appendEvent env db3 (code_event ctx (if locked then ''ACCESS_CODE_LOCKED'' else ''ACCESS_CODE_FAILED'')
                             [(''failed_attempts'', JNum (JFin (of_int failed)))] ip agent)
                       in if locked
                          then Inr (Code_locked, revoke_where (\<lambda>x. ss_tenant_id x = cx_tenant_id ctx \<and>
                             ss_envelope_id x = cx_envelope_id ctx \<and> ss_signer_id x = cx_signer_id ctx) now db4)
                          else Inr (Code_incorrect (MAX_ACCESS_CODE_ATTEMPTS - failed), db4))))"

definition verifyRecipientAccessCode ::
  "sign_env \<Rightarrow> sign_db \<Rightarrow> string \<Rightarrow> string option \<Rightarrow> string option \<Rightarrow> string option \<Rightarrow> sign_db \<times> (sign_error, unit) result" where
  "verifyRecipientAccessCode env db rawToken entered ip agent =
     (case findSessionByToken env db rawToken of
        Inl e \<Rightarrow> (db, Inl e)
      | Inr found \<Rightarrow>
          let ctx = context_of found
          in case access_code_tx env db ctx entered ip agent of
               Inl e \<Rightarrow> (db, Inl e)
             | Inr (outcome, db') \<Rightarrow>
                 (if sd_tick db' = sd_tick db then db else touch (cx_envelope_id ctx) db',
                  case outcome of
                    Code_verified \<Rightarrow> Inr ()
                  | Code_locked \<Rightarrow> Inl (SignerAccessCodeLocked (cx_signer_id ctx))
                  | Code_incorrect n \<Rightarrow> Inl (SignerAccessCodeRequired (cx_signer_id ctx) (Some n))))"

text \<open>One open invitation intent per recipient: \<open>count\<close> of the open ones, \<open>create\<close> when there is none.\<close>

definition open_intent :: "string \<Rightarrow> string \<Rightarrow> string \<Rightarrow> notification_delivery \<Rightarrow> bool" where
  "open_intent tenant eid sid n \<longleftrightarrow> nd_tenant_id n = tenant \<and> nd_envelope_id n = eid \<and> nd_signer_id n = Some sid \<and>
     nd_notification_kind n = ''SIGNATURE_REQUEST'' \<and> (nd_status n = ND_PENDING \<or> nd_status n = ND_DISPATCHING)"

definition record_invitation :: "sign_env \<Rightarrow> string \<Rightarrow> string \<Rightarrow> sign_db \<Rightarrow> string \<Rightarrow> sign_db" where
  "record_invitation env tenant eid db sid =
     (if list_ex (open_intent tenant eid sid) (sd_deliveries db) then db
      else (tick (tick db))\<lparr>sd_deliveries := sd_deliveries db @
        [\<lparr> nd_id = uuid_of env db, nd_tenant_id = tenant, nd_envelope_id = eid, nd_signer_id = Some sid,
           nd_notification_kind = ''SIGNATURE_REQUEST'', nd_status = ND_PENDING, nd_claimed_at = None, nd_attempts = 0,
           nd_last_error = None, nd_created_at = now_of env (tick db), nd_sent_at = None \<rparr>]\<rparr>)"

definition clear_fields :: "string \<Rightarrow> string \<Rightarrow> sign_db \<Rightarrow> sign_db" where
  "clear_fields tenant sid db = db\<lparr>sd_fields :=
     update_where (\<lambda>f. sf_tenant_id f = tenant \<and> sf_signer_id f = Some sid)
       (\<lambda>f. f\<lparr>sf_value := None, sf_signature_method := None, sf_filled_at := None\<rparr>) (sd_fields db)\<rparr>"

definition revoke_bindings :: "string \<Rightarrow> string \<Rightarrow> int \<Rightarrow> sign_db \<Rightarrow> sign_db" where
  "revoke_bindings eid sid now db = db\<lparr>sd_bindings :=
     update_where (\<lambda>b. rb_envelope_id b = eid \<and> rb_signer_id b = sid \<and> rb_revoked_at b = None)
       (\<lambda>b. b\<lparr>rb_revoked_at := Some now\<rparr>) (sd_bindings db)\<rparr>"

definition delegate_tx ::
  "sign_env \<Rightarrow> sign_db \<Rightarrow> session_context \<Rightarrow> string \<Rightarrow> string \<Rightarrow> string option \<Rightarrow> (sign_error, string \<times> sign_db) result" where
  "delegate_tx env db ctx name email reason =
     (let tenant = cx_tenant_id ctx; eid = cx_envelope_id ctx; sid = cx_signer_id ctx in
      rbind (signer_guard env db ctx) (\<lambda>_.
        case find_envelope db tenant eid of
          None \<Rightarrow> Inl RowMissing
        | Some e \<Rightarrow>
            if \<not> en_allow_delegation e then Inl (DelegationRefused ''delegation_not_allowed'')
            else (case find_recipient db tenant eid sid of
              None \<Rightarrow> Inl RowMissing
            | Some s \<Rightarrow>
                (case (recipientKindOf s, sg_email s) of
                   (SIGNER, Some old_email) \<Rightarrow>
                     if sg_delegated_at s \<noteq> None then Inl (DelegationRefused ''already_delegated'')
                     else if sg_status s \<noteq> PENDING \<and> sg_status s \<noteq> VIEWED then Inl (DelegationRefused ''signer_not_awaiting'')
                     else if list_ex (\<lambda>x. sg_tenant_id x = tenant \<and> sg_envelope_id x = eid \<and>
                         map_option js_lower (sg_email x) = Some (js_lower email)) (sd_signers db)
                     then Inl (DelegationRefused ''delegate_email_on_envelope'')
                     else
                       let db1 = tick db; now = now_of env db1; db2 = tick db1;
                           db3 = update_signer sid (\<lambda>x. x\<lparr>sg_name := name, sg_email := Some email,
                             sg_delegated_from_name := Some (sg_name s), sg_delegated_from_email := Some old_email,
                             sg_delegated_at := Some now, sg_bound_user_id := None, sg_status := PENDING, sg_viewed_at := None\<rparr>) db2;
                           db4 = clear_fields tenant sid db3;
                           db5 = revoke_where (\<lambda>x. ss_tenant_id x = tenant \<and> ss_envelope_id x = eid \<and> ss_signer_id x = sid) now db4;
                           db6 = revoke_bindings eid sid now db5;
                           db7 = appendEvent env db6 ((signer_event ctx ''SIGNER_DELEGATED'')\<lparr>ae_payload := Some (JObj
                             ([(''from_email_sha256'', JStr (sv_sha_hex env (js_lower (js_trim old_email)))),
                               (''to_email_sha256'', JStr (sv_sha_hex env (js_lower email))),
                               (''revoked_session_id'', JStr (cx_session_id ctx))] @
                              (case reason of None \<Rightarrow> [] | Some r \<Rightarrow> [(''reason'', JStr r)])))\<rparr>)
                       in Inr (sid, record_invitation env tenant eid db7 sid)
                 | _ \<Rightarrow> Inl (DelegationRefused ''not_delegable_recipient'')))))"

definition delegateSigner ::
  "sign_env \<Rightarrow> sign_db \<Rightarrow> session_context \<Rightarrow> string \<Rightarrow> string \<Rightarrow> string option \<Rightarrow> sign_db \<times> (sign_error, string) result" where
  "delegateSigner env db ctx name_in email_in reason_in =
     (let name = collapse_space (js_trim name_in); email = js_trim email_in;
          reason = (case reason_in of None \<Rightarrow> None | Some r \<Rightarrow> if length (js_trim r) > 0 then Some (take 500 (js_trim r)) else None)
      in if length name = 0 \<or> length name > 200 \<or> \<not> FIELD_EMAIL_RE email \<or> length email > 254
         then (db, Inl (DelegationRefused ''delegate_invalid''))
         else commit (cx_envelope_id ctx) db (delegate_tx env db ctx name email reason))"

section \<open>Filling and completing\<close>

fun value_refusal_text :: "value_refusal \<Rightarrow> string" where
  "value_refusal_text Profile_field_value_invalid = ''profile_field_value_invalid''"
| "value_refusal_text Email_field_value_invalid = ''email_field_value_invalid''"

definition field_value_refusal :: "sign_field \<Rightarrow> string \<Rightarrow> string option" where
  "field_value_refusal f value =
     (if isServerFilledName f then Some ''signer_profile_name_server_filled''
      else if isPaymentField f then Some ''payment_field_server_filled''
      else if sf_field_type f \<in> set CHECK_FIELD_TYPES \<and> value \<noteq> ''true'' \<and> value \<noteq> ''false'' then Some ''checkbox_value_invalid''
      else map_option value_refusal_text (profileTextValueRefusal (sf_field_type f) value))"

definition fill_tx ::
  "sign_env \<Rightarrow> sign_db \<Rightarrow> session_context \<Rightarrow> string \<Rightarrow> string \<Rightarrow> string option \<Rightarrow> (sign_error, unit \<times> sign_db) result" where
  "fill_tx env db ctx fieldId value signature_method =
     (let tenant = cx_tenant_id ctx; sid = cx_signer_id ctx in
      rbind (signer_guard env db ctx) (\<lambda>_.
        if \<not> hasAcceptedDisclosure db tenant sid then Inl (DisclosureNotAccepted sid)
        else rbind (assertIdentityVerificationCleared db tenant sid) (\<lambda>_.
          case find (\<lambda>f. sf_tenant_id f = tenant \<and> sf_id f = fieldId \<and> sf_signer_id f = Some sid) (sd_fields db) of
            None \<Rightarrow> Inl (SignerNotFound sid)
          | Some f \<Rightarrow>
              (case field_value_refusal f value of
                 Some why \<Rightarrow> Inl (FieldValueRefused fieldId why)
               | None \<Rightarrow>
                   Inr ((), (tick (tick db))\<lparr>sd_fields := update_where (\<lambda>x. sf_id x = fieldId)
                     (\<lambda>x. x\<lparr>sf_value := Some value, sf_signature_method := signature_method,
                        sf_filled_at := Some (now_of env (tick db))\<rparr>) (sd_fields db)\<rparr>)))))"

definition fillField ::
  "sign_env \<Rightarrow> sign_db \<Rightarrow> session_context \<Rightarrow> string \<Rightarrow> string \<Rightarrow> string option \<Rightarrow> sign_db \<times> (sign_error, unit) result" where
  "fillField env db ctx fieldId value signature_method =
     commit (cx_envelope_id ctx) db (fill_tx env db ctx fieldId value signature_method)"

definition profileNameFor :: "sign_env \<Rightarrow> session_context \<Rightarrow> string \<Rightarrow> string" where
  "profileNameFor env ctx signerName =
     (case sv_attested_name env ctx of
        None \<Rightarrow> signerName
      | Some attested \<Rightarrow> if length (js_trim attested) > 0 then js_trim attested else signerName)"

definition my_fields :: "sign_db \<Rightarrow> session_context \<Rightarrow> sign_field list" where
  "my_fields db ctx = filter (\<lambda>f. sf_tenant_id f = cx_tenant_id ctx \<and> sf_signer_id f = Some (cx_signer_id ctx)) (sd_fields db)"

definition fill_names :: "sign_env \<Rightarrow> sign_db \<Rightarrow> session_context \<Rightarrow> sign_field list \<Rightarrow> (sign_error, sign_db) result" where
  "fill_names env db ctx names =
     (if names = [] then Inr db
      else case find_signer db (cx_tenant_id ctx) (cx_signer_id ctx) of
        None \<Rightarrow> Inl RowMissing
      | Some s \<Rightarrow>
          let name = profileNameFor env ctx (sg_name s); now = now_of env db
          in Inr ((tick db)\<lparr>sd_fields := update_where (\<lambda>f. sf_id f \<in> set (map sf_id names))
               (\<lambda>f. f\<lparr>sf_value := Some name, sf_signature_method := None, sf_filled_at := Some now\<rparr>) (sd_fields db)\<rparr>))"

definition signed_payload :: "signing_session \<Rightarrow> json option" where
  "signed_payload live =
     (if ss_origin live = Some HOSTED
      then Some (JObj [(''session_origin'', JStr ''HOSTED''), (''host_user_id'', opt_str (ss_host_user_id live))])
      else if ss_origin live = Some SELF
      then Some (JObj [(''session_origin'', JStr ''SELF''), (''authenticated_user_id'', opt_str (ss_authenticated_user_id live))])
      else None)"

text \<open>The signer and session rows and the ledger events of one completion.\<close>

definition complete_writes :: "sign_env \<Rightarrow> sign_db \<Rightarrow> session_context \<Rightarrow> signing_session \<Rightarrow> sign_db" where
  "complete_writes env db ctx live =
     (let sid = cx_signer_id ctx;
          db1 = tick (update_signer sid (\<lambda>s. s\<lparr>sg_status := SIGNED, sg_signed_at := Some (now_of env db)\<rparr>) db);
          db2 = tick (update_session (cx_session_id ctx)
            (\<lambda>s. s\<lparr>ss_status := SESSION_COMPLETED, ss_completed_at := Some (now_of env db1)\<rparr>) db1);
          db3 = appendEvent env db2 ((signer_event ctx ''SIGNER_SIGNED'')\<lparr>ae_payload := signed_payload live\<rparr>)
      in case find (\<lambda>s. sg_id s = sid) (envelope_signers (sd_signers db3) (cx_tenant_id ctx) (cx_envelope_id ctx)) of
           Some me \<Rightarrow>
             (case (isWitness me, sg_witness_for_signer_id me) of
                (True, Some w) \<Rightarrow> appendEvent env db3 ((signer_event ctx ''WITNESS_ATTESTED'')
                   \<lparr>ae_payload := Some (JObj [(''witness_for_signer_id'', JStr w)])\<rparr>)
              | _ \<Rightarrow> db3)
         | None \<Rightarrow> db3)"

text \<open>Not everyone has signed: the next invitations are recorded, and who is next is returned.\<close>

definition invite_next :: "sign_env \<Rightarrow> sign_db \<Rightarrow> session_context \<Rightarrow> signer list \<Rightarrow> (sign_error, string option \<times> sign_db) result" where
  "invite_next env db ctx signers =
     (let tenant = cx_tenant_id ctx; eid = cx_envelope_id ctx in
      case find_envelope db tenant eid of
        None \<Rightarrow> Inl RowMissing
      | Some e \<Rightarrow>
          if en_routing_mode e = SEQUENTIAL
          then (case currentSequentialSigner db tenant eid of
                  None \<Rightarrow> Inr (None, db)
                | Some nextId \<Rightarrow>
                    (case find_signer db tenant nextId of
                       None \<Rightarrow> Inr (None, db)
                     | Some n \<Rightarrow> if isLinkSigner n then Inr (Some nextId, record_invitation env tenant eid db nextId) else Inr (None, db)))
          else
            let witnesses = pendingWitnessesOf signers (cx_signer_id ctx)
            in Inr (map_option sg_id (head_opt witnesses),
                    foldl (record_invitation env tenant eid) db (map sg_id witnesses)))"

record complete_result =
  cp_envelope_status :: envelope_status
  cp_next_signer_id :: "string option"

definition complete_envelope :: "sign_env \<Rightarrow> sign_db \<Rightarrow> session_context \<Rightarrow> envelope_status \<Rightarrow> (sign_error, sign_db) result" where
  "complete_envelope env db ctx status =
     (let tenant = cx_tenant_id ctx; eid = cx_envelope_id ctx in
      rbind (if status = SENT
             then transitionEnvelopeIn env db ((event tenant eid ''ENVELOPE_IN_PROGRESS'' ''SIGNER'')
               \<lparr>ae_actor_ref := Some (cx_signer_id ctx)\<rparr>) IN_PROGRESS None
             else Inr db) (\<lambda>db1.
        transitionEnvelopeIn env db1 (event tenant eid ''ENVELOPE_COMPLETED'' ''SERVICE'') COMPLETED (Some Completed_at)))"

definition complete_tx :: "sign_env \<Rightarrow> sign_db \<Rightarrow> session_context \<Rightarrow> (sign_error, complete_result \<times> sign_db) result" where
  "complete_tx env db ctx =
     (let tenant = cx_tenant_id ctx; eid = cx_envelope_id ctx; sid = cx_signer_id ctx in
      rbind (signer_guard env db ctx) (\<lambda>(status, live).
        if \<not> hasAcceptedDisclosure db tenant sid then Inl (DisclosureNotAccepted sid)
        else rbind (assertIdentityVerificationCleared db tenant sid) (\<lambda>_.
          let mine = my_fields db ctx
          in case evaluateSignerFieldRules mine of
               Some violation \<Rightarrow> Inl (FieldIncomplete sid violation)
             | None \<Rightarrow>
                 rbind (assertQesSatisfied db tenant sid) (\<lambda>_.
                 rbind (fill_names env (tick db) ctx (filter isServerFilledName mine)) (\<lambda>db1.
                   let db2 = complete_writes env db1 ctx live;
                       signers = envelope_signers (sd_signers db2) tenant eid
                   in if \<not> allSigningRecipientsSigned signers
                      then rbind (invite_next env db2 ctx signers) (\<lambda>(nxt, db3).
                        Inr (\<lparr> cp_envelope_status = IN_PROGRESS, cp_next_signer_id = nxt \<rparr>, db3))
                      else rbind (complete_envelope env db2 ctx status) (\<lambda>db3.
                        Inr (\<lparr> cp_envelope_status = COMPLETED, cp_next_signer_id = None \<rparr>, db3)))))))"

definition completeSigner :: "sign_env \<Rightarrow> sign_db \<Rightarrow> session_context \<Rightarrow> sign_db \<times> (sign_error, complete_result) result" where
  "completeSigner env db ctx = commit (cx_envelope_id ctx) db (complete_tx env db ctx)"

section \<open>Ending an envelope\<close>

definition decline_tx ::
  "sign_env \<Rightarrow> sign_db \<Rightarrow> string \<Rightarrow> string \<Rightarrow> string \<Rightarrow> string \<Rightarrow> string option \<Rightarrow> (sign_error, unit \<times> sign_db) result" where
  "decline_tx env db tenant eid sid reason session_id =
     rbind (lockEnvelope db tenant eid) (\<lambda>status.
       if status \<noteq> SENT \<and> status \<noteq> IN_PROGRESS then Inl (EnvelopeIllegalTransition status ''DECLINED'')
       else
         rbind (case session_id of
                  None \<Rightarrow> Inr ()
                | Some x \<Rightarrow>
                    let ctx = \<lparr> cx_session_id = x, cx_tenant_id = tenant, cx_envelope_id = eid, cx_signer_id = sid \<rparr>
                    in rbind (assertLiveSession db ctx (now_of env db)) (\<lambda>_.
                       rbind (assertEligible db tenant eid sid) (\<lambda>_. assertAccessCodeCleared db ctx))) (\<lambda>_.
           if \<not> list_ex (\<lambda>s. sg_id s = sid) (sd_signers db) then Inl RowMissing
           else
             let db1 = tick db;
                 db2 = tick (update_signer sid (\<lambda>s. s\<lparr>sg_status := SIGNER_DECLINED, sg_declined_at := Some (now_of env db1),
                   sg_decline_reason := Some reason\<rparr>) db1)
             in rbind (transitionEnvelopeIn env db2
                  ((event tenant eid ''ENVELOPE_DECLINED'' ''SIGNER'')\<lparr>ae_actor_ref := Some sid,
                     ae_payload := Some (JObj [(''reason'', JStr reason)])\<rparr>) DECLINED (Some Declined_at)) (\<lambda>db3. Inr ((), db3))))"

definition decline ::
  "sign_env \<Rightarrow> sign_db \<Rightarrow> string \<Rightarrow> string \<Rightarrow> string \<Rightarrow> string \<Rightarrow> string option \<Rightarrow> sign_db \<times> (sign_error, unit) result" where
  "decline env db tenant eid sid reason session_id = commit eid db (decline_tx env db tenant eid sid reason session_id)"

definition voidEnvelope ::
  "sign_env \<Rightarrow> sign_db \<Rightarrow> string \<Rightarrow> string \<Rightarrow> string \<Rightarrow> string \<Rightarrow> int option \<Rightarrow> sign_db \<times> (sign_error, unit) result" where
  "voidEnvelope env db tenant eid actor reason expected =
     commit eid db
       (rbind (if expected = None then Inr () else lockEnvelopeRevision db tenant eid expected) (\<lambda>_.
        rbind (transitionEnvelopeIn env db
          ((event tenant eid ''ENVELOPE_VOIDED'' ''SERVICE'')\<lparr>ae_actor_ref := Some actor,
             ae_payload := Some (JObj [(''reason'', JStr reason)])\<rparr>) VOIDED (Some Voided_at)) (\<lambda>db1. Inr ((), db1))))"

definition expireEnvelope :: "sign_env \<Rightarrow> sign_db \<Rightarrow> string \<Rightarrow> string \<Rightarrow> sign_db \<times> (sign_error, unit) result" where
  "expireEnvelope env db tenant eid =
     commit eid db (rbind (transitionEnvelopeIn env db (event tenant eid ''ENVELOPE_EXPIRED'' ''SYSTEM'') EXPIRED None)
       (\<lambda>db1. Inr ((), db1)))"

fun expire_loop ::
  "sign_env \<Rightarrow> sign_db \<Rightarrow> (string \<times> string) list \<Rightarrow> sign_db \<times> (sign_error, (string \<times> string) list) result" where
  "expire_loop env db [] = (db, Inr [])"
| "expire_loop env db ((tenant, eid) # es) =
     (case expireEnvelope env db tenant eid of
        (db', Inl (EnvelopeIllegalTransition _ _)) \<Rightarrow> expire_loop env db' es
      | (db', Inl err) \<Rightarrow> (db', Inl err)
      | (db', Inr _) \<Rightarrow>
          (case expire_loop env db' es of (db'', r) \<Rightarrow> (db'', rbind r (\<lambda>rest. Inr ((tenant, eid) # rest)))))"

definition due_envelope :: "int \<Rightarrow> int \<Rightarrow> sign_envelope \<Rightarrow> bool" where
  "due_envelope now legacyCutoff e \<longleftrightarrow>
     (en_status e = SENT \<or> en_status e = IN_PROGRESS) \<and>
     (case en_expires_at e of
        Some t \<Rightarrow> t \<le> now
      | None \<Rightarrow> (case en_sent_at e of None \<Rightarrow> False | Some t \<Rightarrow> t \<le> legacyCutoff))"

definition expireDueEnvelopes ::
  "sign_env \<Rightarrow> sign_db \<Rightarrow> int \<Rightarrow> nat \<Rightarrow> sign_db \<times> (sign_error, (string \<times> string) list) result" where
  "expireDueEnvelopes env db now limit =
     (let ttlMs = envelopeExpiresAt env now - now;
          legacyCutoff = now - ttlMs;
          due = take limit (sort_key (\<lambda>e. case en_sent_at e of None \<Rightarrow> (1, 0) | Some t \<Rightarrow> (0 :: nat, t))
            (filter (due_envelope now legacyCutoff) (sd_envelopes db)))
      in expire_loop env db (map (\<lambda>e. (en_tenant_id e, en_id e)) due))"

section \<open>Copy links\<close>

definition count_grant_use :: "sign_env \<Rightarrow> string \<Rightarrow> sign_db \<Rightarrow> sign_db" where
  "count_grant_use env gid db = (tick db)\<lparr>sd_grants := update_where (\<lambda>g. ag_id g = gid)
     (\<lambda>g. g\<lparr>ag_last_accessed_at := Some (now_of env db), ag_access_count := ag_access_count g + 1\<rparr>) (sd_grants db)\<rparr>"

definition resolve_grant ::
  "sign_env \<Rightarrow> sign_db \<Rightarrow> string \<Rightarrow> access_kind \<Rightarrow> (sign_envelope \<Rightarrow> bool) \<Rightarrow> string \<Rightarrow>
     sign_db \<times> (sign_error, string \<times> string \<times> string) result" where
  "resolve_grant env db rawToken kind available refusal =
     (case find (\<lambda>g. ag_token_hash g = hashSigningToken env rawToken) (sd_grants db) of
        None \<Rightarrow> (db, Inl (SigningSessionInvalid ''unknown token''))
      | Some g \<Rightarrow>
          if ag_access_kind g \<noteq> kind then (db, Inl (SigningSessionInvalid ''unknown token''))
          else if ag_expires_at g < now_of env db then (db, Inl (SigningSessionExpired (ag_id g)))
          else (case getEnvelope db (ag_tenant_id g) (ag_envelope_id g) of
                  Inl e \<Rightarrow> (db, Inl e)
                | Inr e \<Rightarrow>
                    if \<not> available e then (db, Inl (SigningSessionInvalid refusal))
                    else (count_grant_use env (ag_id g) (tick db), Inr (ag_tenant_id g, ag_envelope_id g, ag_signer_id g))))"

definition resolveExecutedAccess :: "sign_env \<Rightarrow> sign_db \<Rightarrow> string \<Rightarrow> sign_db \<times> (sign_error, string \<times> string \<times> string) result" where
  "resolveExecutedAccess env db rawToken =
     resolve_grant env db rawToken EXECUTED_ACCESS (\<lambda>e. en_status e = COMPLETED) ''envelope not completed''"

definition resolveCopyAccess :: "sign_env \<Rightarrow> sign_db \<Rightarrow> string \<Rightarrow> sign_db \<times> (sign_error, string \<times> string \<times> string) result" where
  "resolveCopyAccess env db rawToken =
     resolve_grant env db rawToken COPY_VIEW
       (\<lambda>e. en_deleted_at e = None \<and> en_status e \<in> {SENT, IN_PROGRESS, COMPLETED}) ''envelope not available''"

section \<open>Hosted and self-signing sessions\<close>

definition lockForSessionIssue ::
  "sign_db \<Rightarrow> string \<Rightarrow> string \<Rightarrow> string \<Rightarrow> int \<Rightarrow> int \<Rightarrow> (sign_error, signer \<times> int) result" where
  "lockForSessionIssue db tenant eid sid now ttlMs =
     rbind (lockEnvelope db tenant eid) (\<lambda>status.
       case find_envelope db tenant eid of
         None \<Rightarrow> Inl (SessionIssueRefused ''signer_not_found'')
       | Some e \<Rightarrow>
           (case find_recipient db tenant eid sid of
              None \<Rightarrow> Inl (SessionIssueRefused ''signer_not_found'')
            | Some s \<Rightarrow>
                if (status \<noteq> SENT \<and> status \<noteq> IN_PROGRESS) \<or> (case en_expires_at e of None \<Rightarrow> False | Some t \<Rightarrow> t \<le> now)
                then Inl (SessionIssueRefused ''envelope_not_signable'')
                else if recipientKindOf s = RECEIVES_COPY \<or> (sg_status s \<noteq> PENDING \<and> sg_status s \<noteq> VIEWED)
                then Inl (SessionIssueRefused ''signer_ineligible'')
                else if en_routing_mode e = SEQUENTIAL \<and> currentSequentialSigner db tenant eid \<noteq> Some sid
                then Inl (SessionIssueRefused ''not_your_turn'')
                else Inr (s, case en_expires_at e of None \<Rightarrow> now + ttlMs | Some t \<Rightarrow> min (now + ttlMs) t)))"

definition session_event :: "string \<Rightarrow> string \<Rightarrow> string \<Rightarrow> string \<Rightarrow> string \<Rightarrow> string \<Rightarrow> string \<Rightarrow> append_event_input" where
  "session_event tenant eid sid ty actor session_id origin = (event tenant eid ty ''SERVICE'')
     \<lparr>ae_signer_id := Some sid, ae_actor_ref := Some actor,
      ae_payload := Some (JObj [(''session_id'', JStr session_id), (''signer_id'', JStr sid), (''session_origin'', JStr origin)])\<rparr>"

definition hosted_tx ::
  "sign_env \<Rightarrow> sign_db \<Rightarrow> string \<Rightarrow> string \<Rightarrow> string \<Rightarrow> string \<Rightarrow> int \<Rightarrow> (sign_error, issued_session \<times> sign_db) result" where
  "hosted_tx env db tenant eid sid host now =
     rbind (lockForSessionIssue db tenant eid sid now HOSTED_SESSION_TTL_MS) (\<lambda>(s, expiresAt).
       if recipientKindOf s \<noteq> IN_PERSON_SIGNER then Inl (SessionIssueRefused ''not_in_person_signer'')
       else
         let db1 = revoke_where (\<lambda>x. ss_tenant_id x = tenant \<and> ss_envelope_id x = eid \<and> ss_signer_id x = sid) now db;
             (minted, db2) = mint_session env db1 tenant eid sid expiresAt HOSTED (Some host) None
         in Inr (minted, appendEvent env db2
              (session_event tenant eid sid ''HOSTED_SESSION_STARTED'' host (is_session_id minted) ''HOSTED'')))"

definition issueHostedSession ::
  "sign_env \<Rightarrow> sign_db \<Rightarrow> string \<Rightarrow> string \<Rightarrow> string \<Rightarrow> string \<Rightarrow> sign_db \<times> (sign_error, issued_session) result" where
  "issueHostedSession env db tenant eid sid host = commit eid db (hosted_tx env (tick db) tenant eid sid host (now_of env db))"

definition self_tx ::
  "sign_env \<Rightarrow> sign_db \<Rightarrow> string \<Rightarrow> string \<Rightarrow> string \<Rightarrow> string option \<Rightarrow> string option \<Rightarrow> int \<Rightarrow>
     (sign_error, issued_session \<times> sign_db) result" where
  "self_tx env db tenant eid user verified_email signer_id now =
     rbind (lockEnvelope db tenant eid) (\<lambda>_.
       case head_opt (sort_key sg_signing_order (filter (\<lambda>s. sg_tenant_id s = tenant \<and> sg_envelope_id s = eid \<and>
           sg_bound_user_id s = Some user \<and> sg_recipient_kind s \<in> set SIGNING_RECIPIENT_KINDS \<and>
           (case signer_id of None \<Rightarrow> True | Some i \<Rightarrow> sg_id s = i)) (sd_signers db))) of
         None \<Rightarrow> Inl (SessionIssueRefused ''not_bound_to_you'')
       | Some target \<Rightarrow>
           rbind (lockForSessionIssue db tenant eid (sg_id target) now SELF_SIGN_SESSION_TTL_MS) (\<lambda>(s, expiresAt).
             let mine = (case verified_email of None \<Rightarrow> [] | Some e \<Rightarrow> js_lower (js_trim e))
             in if mine = [] \<or> (case sg_email s of None \<Rightarrow> True | Some e \<Rightarrow> js_lower (js_trim e) \<noteq> mine)
                then Inl (SessionIssueRefused ''email_not_verified'')
                else
                  let (minted, db1) = mint_session env db tenant eid (sg_id s) expiresAt SELF None (Some user)
                  in Inr (minted, appendEvent env db1
                       (session_event tenant eid (sg_id s) ''SELF_SIGN_SESSION_ISSUED'' user (is_session_id minted) ''SELF''))))"

definition issueSelfSignSession ::
  "sign_env \<Rightarrow> sign_db \<Rightarrow> string \<Rightarrow> string \<Rightarrow> string \<Rightarrow> string option \<Rightarrow> string option \<Rightarrow>
     sign_db \<times> (sign_error, issued_session) result" where
  "issueSelfSignSession env db tenant eid user verified_email signer_id =
     commit eid db (self_tx env (tick db) tenant eid user verified_email signer_id (now_of env db))"

section \<open>Lookup and reminders\<close>

definition findEnvelopeForDocument ::
  "sign_db \<Rightarrow> string \<Rightarrow> string \<Rightarrow> string \<Rightarrow> (sign_error, (string \<times> envelope_status) option) result" where
  "findEnvelopeForDocument db tenant document_ref revision_ref =
     (let matches = findNonTerminalEnvelopesByDocument db tenant document_ref revision_ref
      in if length matches > 1 then Inl (EnvelopeAmbiguous (length matches)) else Inr (head_opt matches))"

definition reminderHistory :: "sign_db \<Rightarrow> string \<Rightarrow> string \<Rightarrow> int \<Rightarrow> reminder_limits \<Rightarrow> reminder_entry list" where
  "reminderHistory db tenant eid now limits =
     (let horizon = now - max (rl_per_envelope_window_ms limits) (rl_per_signer_cooldown_ms limits)
      in map (\<lambda>r. \<lparr> re_occurred_at = se_occurred_at r, re_signer_ids = signerIdsOf (se_payload r) \<rparr>)
           (sort_key sign_event_key (filter (\<lambda>e. se_event_type e = ''SIGNATURE_REMINDER_SENT'' \<and> se_occurred_at e > horizon)
              (sign_events_of tenant eid (sd_events db)))))"

fun remind_loop :: "sign_env \<Rightarrow> string \<Rightarrow> string \<Rightarrow> int \<Rightarrow> sign_db \<Rightarrow> signer list \<Rightarrow> issued_session list \<times> sign_db" where
  "remind_loop env tenant eid now db [] = ([], db)"
| "remind_loop env tenant eid now db (s # ss) =
     (let db1 = revoke_where (\<lambda>x. ss_tenant_id x = tenant \<and> ss_envelope_id x = eid \<and> ss_signer_id x = sg_id s) now db;
          (m, db2) = mint_session env db1 tenant eid (sg_id s) (signingSessionExpiresAt now) LINK None None;
          (ms, db3) = remind_loop env tenant eid now db2 ss
      in (m # ms, db3))"

definition reminder_targets :: "sign_db \<Rightarrow> string \<Rightarrow> string \<Rightarrow> string option \<Rightarrow> (sign_error, signer list) result" where
  "reminder_targets db tenant eid signer_id =
     (let everyone = envelope_signers (sd_signers db) tenant eid;
          incomplete = sort_key sg_signing_order (filter (\<lambda>s. (sg_status s = PENDING \<or> sg_status s = VIEWED) \<and>
            sg_recipient_kind s \<in> set SIGNING_RECIPIENT_KINDS) everyone)
      in if incomplete = [] then Inl (ReminderNotAllowed ''no incomplete signer to remind'')
         else case find_envelope db tenant eid of
           None \<Rightarrow> Inl RowMissing
         | Some e \<Rightarrow>
             let eligible = filter (\<lambda>s. isLinkSigner s \<and> witnessReady everyone s)
                   (if en_routing_mode e = SEQUENTIAL then take 1 incomplete else incomplete);
                 targets = (case signer_id of None \<Rightarrow> eligible | Some i \<Rightarrow> filter (\<lambda>s. sg_id s = i) eligible)
             in if targets = []
                then Inl (ReminderNotAllowed (if en_routing_mode e = SEQUENTIAL
                  then ''only the signer whose turn it is can be reminded''
                  else ''that signer has already signed or is not on this envelope''))
                else Inr targets)"

definition remind_tx ::
  "sign_env \<Rightarrow> sign_db \<Rightarrow> string \<Rightarrow> string \<Rightarrow> string \<Rightarrow> string option \<Rightarrow> reminder_limits option \<Rightarrow> int \<Rightarrow>
     (sign_error, issued_session list \<times> sign_db) result" where
  "remind_tx env db tenant eid actor signer_id limits now =
     rbind (lockEnvelope db tenant eid) (\<lambda>status.
       if status \<noteq> SENT \<and> status \<noteq> IN_PROGRESS then Inl (ReminderNotAllowed (status_text status))
       else rbind (reminder_targets db tenant eid signer_id) (\<lambda>targets0.
         rbind (case limits of
                  None \<Rightarrow> Inr targets0
                | Some l \<Rightarrow>
                    (case applyReminderLimits (reminderHistory db tenant eid now l) (map sg_id targets0) now l of
                       Inl refused \<Rightarrow> Inl (ReminderLimit refused)
                     | Inr allowed \<Rightarrow> Inr (filter (\<lambda>s. sg_id s \<in> set allowed) targets0))) (\<lambda>targets.
           let (minted, db1) = remind_loop env tenant eid now db targets
           in Inr (minted, appendEvent env db1 ((event tenant eid ''SIGNATURE_REMINDER_SENT'' ''SERVICE'')
                \<lparr>ae_actor_ref := Some actor,
                 ae_payload := Some (JObj [(''signer_ids'', JArr (map (\<lambda>s. JStr (sg_id s)) targets))])\<rparr>)))))"

definition remindSigner ::
  "sign_env \<Rightarrow> sign_db \<Rightarrow> string \<Rightarrow> string \<Rightarrow> string \<Rightarrow> string option \<Rightarrow> reminder_limits option \<Rightarrow>
     sign_db \<times> (sign_error, issued_session list) result" where
  "remindSigner env db tenant eid actor signer_id limits =
     commit eid db (remind_tx env (tick db) tenant eid actor signer_id limits (now_of env db))"

section \<open>Delivering invitations\<close>

definition STALE_CLAIM_MS :: int where
  "STALE_CLAIM_MS = 5 * 60000"

definition SIGNING_INVITATION_MAX_ATTEMPTS :: nat where
  "SIGNING_INVITATION_MAX_ATTEMPTS = 10"

definition set_delivery :: "string \<Rightarrow> (notification_delivery \<Rightarrow> notification_delivery) \<Rightarrow> sign_db \<Rightarrow> sign_db" where
  "set_delivery nid f db = db\<lparr>sd_deliveries := update_where (\<lambda>n. nd_id n = nid) f (sd_deliveries db)\<rparr>"

definition fail_delivery :: "string \<Rightarrow> string \<Rightarrow> sign_db \<Rightarrow> sign_db" where
  "fail_delivery nid err = set_delivery nid (\<lambda>n. n\<lparr>nd_status := ND_FAILED, nd_last_error := Some (take 500 err)\<rparr>)"

text \<open>Issuing the link under the row lock: the reason to cancel the intent, or the minted session.\<close>

definition issue_link ::
  "sign_env \<Rightarrow> sign_db \<Rightarrow> notification_delivery \<Rightarrow> int \<Rightarrow> (sign_error, (string, issued_session \<times> sign_db) result) result" where
  "issue_link env db intent now =
     (let tenant = nd_tenant_id intent; eid = nd_envelope_id intent in
      rbind (lockEnvelope db tenant eid) (\<lambda>status.
        if status \<noteq> SENT \<and> status \<noteq> IN_PROGRESS then Inr (Inl (''envelope '' @ status_text status))
        else case nd_signer_id intent of
          None \<Rightarrow> Inr (Inl ''no signer'')
        | Some sid \<Rightarrow>
            (case find_recipient db tenant eid sid of
               None \<Rightarrow> Inr (Inl ''signer no longer awaiting'')
             | Some s \<Rightarrow>
                 if sg_status s \<noteq> PENDING \<and> sg_status s \<noteq> VIEWED then Inr (Inl ''signer no longer awaiting'')
                 else if \<not> isLinkSigner s \<or> sg_email s = None then Inr (Inl ''recipient is not invited by email'')
                 else if isWitness s \<and> \<not> witnessed_signed db tenant eid s then Inr (Inl ''witnessed signer has not signed'')
                 else (case find_envelope db tenant eid of
                   None \<Rightarrow> Inl RowMissing
                 | Some e \<Rightarrow>
                     if en_routing_mode e = SEQUENTIAL \<and> currentTurnSignerId (sd_signers db) tenant eid \<noteq> Some sid
                     then Inr (Inl ''not this signer's turn'')
                     else Inr (Inr (mint_session env
                       (revoke_where (\<lambda>x. ss_tenant_id x = tenant \<and> ss_envelope_id x = eid \<and> ss_signer_id x = sid) now db)
                       tenant eid sid (signingSessionExpiresAt now) LINK None None))))))"

definition deliver_after_commit :: "sign_env \<Rightarrow> sign_db \<Rightarrow> string \<Rightarrow> sign_db \<times> bool" where
  "deliver_after_commit env db nid =
     (if sv_base_url env = None then (fail_delivery nid ''no delivery channel (notifier or Sign base URL unset)'' db, False)
      else case sv_notify env (sd_tick db) of
        Delivered \<Rightarrow> (set_delivery nid (\<lambda>n. n\<lparr>nd_status := ND_SENT, nd_sent_at := Some (now_of env db), nd_last_error := None\<rparr>) (tick db), True)
      | Not_delivered \<Rightarrow> (fail_delivery nid ''provider reported not delivered'' (tick db), False)
      | Notify_failed err \<Rightarrow> (fail_delivery nid err (tick db), False))"

definition deliverOne :: "sign_env \<Rightarrow> sign_db \<Rightarrow> notification_delivery \<Rightarrow> int \<Rightarrow> sign_db \<times> (sign_error, bool) result" where
  "deliverOne env db intent now =
     (let claimable = (\<lambda>n. nd_id n = nd_id intent \<and> nd_status n = nd_status intent \<and> nd_attempts n = nd_attempts intent)
      in if \<not> list_ex claimable (sd_deliveries db) then (db, Inr False)
         else
           let db1 = db\<lparr>sd_deliveries := update_where claimable
                 (\<lambda>n. n\<lparr>nd_status := ND_DISPATCHING, nd_claimed_at := Some now, nd_attempts := nd_attempts n + 1\<rparr>) (sd_deliveries db)\<rparr>
           in case issue_link env db1 intent now of
                Inl e \<Rightarrow> (db1, Inl e)
              | Inr (Inl reason) \<Rightarrow>
                  (set_delivery (nd_id intent) (\<lambda>n. n\<lparr>nd_status := ND_CANCELLED, nd_last_error := Some (take 500 reason)\<rparr>) db1, Inr False)
              | Inr (Inr (minted, db2)) \<Rightarrow> (case deliver_after_commit env db2 (nd_id intent) of (db3, ok) \<Rightarrow> (db3, Inr ok)))"

definition deliverable :: "string option \<Rightarrow> string option \<Rightarrow> int \<Rightarrow> notification_delivery \<Rightarrow> bool" where
  "deliverable tenant eid now n \<longleftrightarrow>
     (case tenant of None \<Rightarrow> True | Some t \<Rightarrow> nd_tenant_id n = t) \<and>
     (case eid of None \<Rightarrow> True | Some e \<Rightarrow> nd_envelope_id n = e) \<and>
     nd_notification_kind n = ''SIGNATURE_REQUEST'' \<and>
     (nd_status n = ND_PENDING \<or>
      nd_status n = ND_FAILED \<and> nd_claimed_at n \<noteq> None \<and> nd_attempts n < SIGNING_INVITATION_MAX_ATTEMPTS \<or>
      nd_status n = ND_DISPATCHING \<and> (case nd_claimed_at n of None \<Rightarrow> False | Some t \<Rightarrow> t < now - STALE_CLAIM_MS))"

fun dispatch_loop :: "sign_env \<Rightarrow> int \<Rightarrow> sign_db \<Rightarrow> notification_delivery list \<Rightarrow> sign_db \<times> nat" where
  "dispatch_loop env now db [] = (db, 0)"
| "dispatch_loop env now db (n # ns) =
     (case deliverOne env db n now of
        (db', r) \<Rightarrow> (case dispatch_loop env now db' ns of (db'', k) \<Rightarrow> (db'', if r = Inr True then k + 1 else k)))"

definition dispatch :: "sign_env \<Rightarrow> sign_db \<Rightarrow> string option \<Rightarrow> string option \<Rightarrow> nat \<Rightarrow> sign_db \<times> nat" where
  "dispatch env db tenant eid limit =
     (let now = now_of env db
      in dispatch_loop env now (tick db) (take limit (sort_key nd_created_at (filter (deliverable tenant eid now) (sd_deliveries db)))))"

section \<open>Signer reads\<close>

definition signerEnvelopeMessage :: "sign_db \<Rightarrow> session_context \<Rightarrow> (sign_error, string option) result" where
  "signerEnvelopeMessage db ctx =
     rbind (assertAccessCodeCleared db ctx) (\<lambda>_.
       Inr (case find_envelope db (cx_tenant_id ctx) (cx_envelope_id ctx) of None \<Rightarrow> None | Some e \<Rightarrow> en_message e))"

record payment_field =
  pf_field_id :: string
  pf_amount_minor :: int
  pf_currency :: string
  pf_filled :: bool
  pf_subject :: string

definition signerPaymentField :: "sign_env \<Rightarrow> sign_db \<Rightarrow> session_context \<Rightarrow> string \<Rightarrow> (sign_error, payment_field) result" where
  "signerPaymentField env db ctx fieldId =
     (let tenant = cx_tenant_id ctx; eid = cx_envelope_id ctx; sid = cx_signer_id ctx in
      rbind (lockSignableEnvelope db tenant eid) (\<lambda>_.
      rbind (assertLiveSession db ctx (now_of env db)) (\<lambda>_.
      rbind (assertEligible db tenant eid sid) (\<lambda>_.
        if \<not> hasAcceptedDisclosure db tenant sid then Inl (DisclosureNotAccepted sid)
        else case find (\<lambda>f. sf_tenant_id f = tenant \<and> sf_id f = fieldId \<and> sf_signer_id f = Some sid) (sd_fields db) of
          None \<Rightarrow> Inl (SignerNotFound sid)
        | Some f \<Rightarrow>
            (case (isPaymentField f, sf_payment_amount_minor f, sf_payment_currency f) of
               (True, Some amount, Some currency) \<Rightarrow>
                 (case find_envelope db tenant eid of
                    None \<Rightarrow> Inl RowMissing
                  | Some e \<Rightarrow> Inr \<lparr> pf_field_id = sf_id f, pf_amount_minor = amount, pf_currency = currency,
                      pf_filled = (sf_filled_at f \<noteq> None), pf_subject = en_subject e \<rparr>)
             | _ \<Rightarrow> Inl (SignerNotFound sid))))))"

record source_descriptor =
  sr_tenant_id :: string
  sr_owned :: bool
  sr_document_ref :: "string option"
  sr_document_revision_ref :: "string option"
  sr_source_object_key :: "string option"
  sr_content_type :: string

definition resolveSignerSource :: "sign_db \<Rightarrow> session_context \<Rightarrow> string \<Rightarrow> (sign_error, source_descriptor) result" where
  "resolveSignerSource db ctx documentId =
     (let tenant = cx_tenant_id ctx; eid = cx_envelope_id ctx; sid = cx_signer_id ctx in
      rbind (assertEligible db tenant eid sid) (\<lambda>_.
      rbind (assertAccessCodeCleared db ctx) (\<lambda>_.
        if \<not> hasAcceptedDisclosure db tenant sid then Inl (DisclosureNotAccepted sid)
        else rbind (assertIdentityVerificationCleared db tenant sid) (\<lambda>_.
        rbind (getEnvelopeFull db tenant eid) (\<lambda>(full, documents, signers).
          case find (\<lambda>d. ed_id d = documentId) documents of
            None \<Rightarrow> Inl (SigningSessionInvalid ''document not in session'')
          | Some d \<Rightarrow> Inr \<lparr> sr_tenant_id = tenant, sr_owned = (ed_source_mode d = ''OWNED''),
              sr_document_ref = ed_document_ref d, sr_document_revision_ref = ed_document_revision_ref d,
              sr_source_object_key = ed_source_object_key d,
              sr_content_type = opt_default ''application/pdf'' (ed_content_type d) \<rparr>)))))"

end
