(* ===== verification/Sign_Lifecycle.thy ===== *)
theory Sign_Lifecycle
  imports Sign_Db
begin

text \<open>
  The abstract signing protocol the service promises: envelopes with a status and a
  routing mode, recipients with a status and an access-code counter, the sessions that
  still carry signing authority, and the terminal events published. The steps are what a
  sender or a recipient may do; the laws below hold in every run. The service refines this
  protocol (theory \<open>Sign_Refinement\<close>).
\<close>

section \<open>Protocol state and steps\<close>

record env_core =
  ec_id :: string
  ec_tenant :: string
  ec_status :: envelope_status
  ec_mode :: routing_mode

record sign_view =
  vw_envs :: "env_core list"
  vw_signers :: "signer list"
  vw_live :: "session_context list"
  vw_outbox :: "(string \<times> string \<times> string) list"

definition rows_of :: "sign_view \<Rightarrow> string \<Rightarrow> string \<Rightarrow> signer list" where
  "rows_of v tenant eid = envelope_signers (vw_signers v) tenant eid"

definition signable :: "env_core \<Rightarrow> bool" where
  "signable e \<longleftrightarrow> ec_status e = SENT \<or> ec_status e = IN_PROGRESS"

definition of_envelope :: "env_core \<Rightarrow> session_context \<Rightarrow> bool" where
  "of_envelope e c \<longleftrightarrow> cx_tenant_id c = ec_tenant e \<and> cx_envelope_id c = ec_id e"

definition set_status :: "env_core \<Rightarrow> envelope_status \<Rightarrow> sign_view \<Rightarrow> sign_view" where
  "set_status e to_status v = v\<lparr>
     vw_envs := update_where (\<lambda>x. ec_id x = ec_id e) (\<lambda>x. x\<lparr>ec_status := to_status\<rparr>) (vw_envs v),
     vw_live := (if isTerminalEnvelopeStatus to_status then filter (\<lambda>c. \<not> of_envelope e c) (vw_live v) else vw_live v),
     vw_outbox := vw_outbox v @ (case TERMINAL_OUTBOX_EVENT_TYPES to_status of None \<Rightarrow> [] | Some ty \<Rightarrow> [(ec_tenant e, ec_id e, ty)])\<rparr>"

definition set_signer :: "string \<Rightarrow> (signer \<Rightarrow> signer) \<Rightarrow> sign_view \<Rightarrow> sign_view" where
  "set_signer sid f v = v\<lparr>vw_signers := update_where (\<lambda>s. sg_id s = sid) f (vw_signers v)\<rparr>"

text \<open>Counting a wrong access code.\<close>

definition count_failure :: "int \<Rightarrow> signer \<Rightarrow> signer" where
  "count_failure t s = (let n = sg_access_code_failed_count s + 1
     in s\<lparr>sg_access_code_failed_count := n,
          sg_access_code_locked_at := (if n \<ge> 5 then Some t else sg_access_code_locked_at s)\<rparr>)"

inductive vstep :: "sign_view \<Rightarrow> sign_view \<Rightarrow> bool" where
  create: "eid \<notin> ec_id ` set (vw_envs v) \<Longrightarrow>
    vstep v (v\<lparr>vw_envs := vw_envs v @ [\<lparr> ec_id = eid, ec_tenant = tenant, ec_status = DRAFT, ec_mode = mode \<rparr>]\<rparr>)"
| recruit: "e \<in> set (vw_envs v) \<Longrightarrow> ec_status e = DRAFT \<Longrightarrow> sg_tenant_id s = ec_tenant e \<Longrightarrow> sg_envelope_id s = ec_id e \<Longrightarrow>
    sg_id s \<notin> sg_id ` set (vw_signers v) \<Longrightarrow>
    sg_signing_order s \<notin> sg_signing_order ` set (rows_of v (ec_tenant e) (ec_id e)) \<Longrightarrow>
    sg_status s = PENDING \<Longrightarrow> sg_access_code_failed_count s = 0 \<Longrightarrow> sg_access_code_locked_at s = None \<Longrightarrow>
    vstep v (v\<lparr>vw_signers := vw_signers v @ [s]\<rparr>)"
| move: "e \<in> set (vw_envs v) \<Longrightarrow> to_status \<in> set (ENVELOPE_TRANSITIONS (ec_status e)) \<Longrightarrow>
    (to_status = COMPLETED \<Longrightarrow> allSigningRecipientsSigned (rows_of v (ec_tenant e) (ec_id e))) \<Longrightarrow>
    vstep v (set_status e to_status v)"
| refuse: "e \<in> set (vw_envs v) \<Longrightarrow> ec_status e = DECLINED \<Longrightarrow> s \<in> set (rows_of v (ec_tenant e) (ec_id e)) \<Longrightarrow>
    vstep v (set_signer (sg_id s) (\<lambda>x. x\<lparr>sg_status := SIGNER_DECLINED\<rparr>) v)"
| mint: "e \<in> set (vw_envs v) \<Longrightarrow> signable e \<Longrightarrow> of_envelope e c \<Longrightarrow>
    s \<in> set (rows_of v (ec_tenant e) (ec_id e)) \<Longrightarrow> isSigningRecipient s \<Longrightarrow> sg_id s = cx_signer_id c \<Longrightarrow>
    cx_session_id c \<notin> cx_session_id ` set (vw_live v) \<Longrightarrow>
    vstep v (v\<lparr>vw_live := vw_live v @ [c]\<rparr>)"
| kill: "vstep v (v\<lparr>vw_live := filter P (vw_live v)\<rparr>)"
| seen: "s \<in> set (vw_signers v) \<Longrightarrow> sg_status s = PENDING \<or> sg_status s = VIEWED \<Longrightarrow>
    vstep v (set_signer (sg_id s) (\<lambda>x. x\<lparr>sg_status := VIEWED\<rparr>) v)"
| sign: "e \<in> set (vw_envs v) \<Longrightarrow> signable e \<Longrightarrow> c \<in> set (vw_live v) \<Longrightarrow> of_envelope e c \<Longrightarrow>
    mayActNow (ec_mode e) (rows_of v (ec_tenant e) (ec_id e)) (cx_signer_id c) \<Longrightarrow>
    vstep v (set_signer (cx_signer_id c) (\<lambda>x. x\<lparr>sg_status := SIGNED\<rparr>)
      (v\<lparr>vw_live := filter (\<lambda>x. cx_session_id x \<noteq> cx_session_id c) (vw_live v)\<rparr>))"
| delegate: "e \<in> set (vw_envs v) \<Longrightarrow> signable e \<Longrightarrow> s \<in> set (rows_of v (ec_tenant e) (ec_id e)) \<Longrightarrow>
    sg_status s = PENDING \<or> sg_status s = VIEWED \<Longrightarrow>
    vstep v (set_signer (sg_id s) (\<lambda>x. x\<lparr>sg_status := PENDING\<rparr>) v)"
| code_right: "s \<in> set (vw_signers v) \<Longrightarrow> sg_access_code_locked_at s = None \<Longrightarrow>
    vstep v (set_signer (sg_id s) (\<lambda>x. x\<lparr>sg_access_code_failed_count := 0\<rparr>) v)"
| code_wrong: "s \<in> set (vw_signers v) \<Longrightarrow> sg_access_code_locked_at s = None \<Longrightarrow>
    vstep v (set_signer (sg_id s) (count_failure t) v)"

section \<open>Invariant\<close>

definition order_holds :: "sign_view \<Rightarrow> env_core \<Rightarrow> signer \<Rightarrow> bool" where
  "order_holds v e s \<longleftrightarrow>
     (ec_mode e = SEQUENTIAL \<longrightarrow>
        (\<forall>x\<in>set (rows_of v (ec_tenant e) (ec_id e)). isSigningRecipient x \<and> sg_signing_order x < sg_signing_order s \<longrightarrow> sg_status x = SIGNED)) \<and>
     (isWitness s \<longrightarrow>
        (\<exists>p\<in>set (rows_of v (ec_tenant e) (ec_id e)). sg_witness_for_signer_id s = Some (sg_id p) \<and> sg_status p = SIGNED))"

text \<open>The unique index on signers, and the foreign key to the envelope.\<close>

definition route_key :: "signer \<Rightarrow> (string \<times> string) \<times> int" where
  "route_key s = ((sg_tenant_id s, sg_envelope_id s), sg_signing_order s)"

definition env_key :: "env_core \<Rightarrow> string \<times> string" where
  "env_key e = (ec_tenant e, ec_id e)"

definition inv_ids :: "sign_view \<Rightarrow> bool" where
  "inv_ids v \<longleftrightarrow> distinct (map ec_id (vw_envs v)) \<and> distinct (map sg_id (vw_signers v)) \<and>
     distinct (map route_key (vw_signers v)) \<and>
     set (map (fst \<circ> route_key) (vw_signers v)) \<subseteq> set (map env_key (vw_envs v))"

definition inv_live :: "sign_view \<Rightarrow> bool" where
  "inv_live v \<longleftrightarrow> (\<forall>c\<in>set (vw_live v).
     (\<exists>e\<in>set (vw_envs v). signable e \<and> of_envelope e c) \<and>
     (\<exists>s\<in>set (rows_of v (cx_tenant_id c) (cx_envelope_id c)). isSigningRecipient s \<and> sg_id s = cx_signer_id c))"

definition inv_done :: "sign_view \<Rightarrow> bool" where
  "inv_done v \<longleftrightarrow> (\<forall>e\<in>set (vw_envs v). ec_status e = COMPLETED \<longrightarrow> allSigningRecipientsSigned (rows_of v (ec_tenant e) (ec_id e)))"

definition inv_order :: "sign_view \<Rightarrow> bool" where
  "inv_order v \<longleftrightarrow> (\<forall>e\<in>set (vw_envs v). \<forall>s\<in>set (rows_of v (ec_tenant e) (ec_id e)).
     ec_status e \<noteq> DECLINED \<and> sg_status s = SIGNED \<longrightarrow> order_holds v e s)"

definition inv_draft :: "sign_view \<Rightarrow> bool" where
  "inv_draft v \<longleftrightarrow> (\<forall>e\<in>set (vw_envs v). \<forall>s\<in>set (rows_of v (ec_tenant e) (ec_id e)). ec_status e = DRAFT \<longrightarrow> sg_status s \<noteq> SIGNED)"

definition inv_code :: "sign_view \<Rightarrow> bool" where
  "inv_code v \<longleftrightarrow> (\<forall>s\<in>set (vw_signers v). 0 \<le> sg_access_code_failed_count s \<and> sg_access_code_failed_count s \<le> 5 \<and>
     (sg_access_code_locked_at s \<noteq> None \<longleftrightarrow> sg_access_code_failed_count s = 5))"

definition inv_outbox :: "sign_view \<Rightarrow> bool" where
  "inv_outbox v \<longleftrightarrow>
     (\<forall>e\<in>set (vw_envs v). filter (\<lambda>b. fst (snd b) = ec_id e) (vw_outbox v) =
        (case TERMINAL_OUTBOX_EVENT_TYPES (ec_status e) of None \<Rightarrow> [] | Some ty \<Rightarrow> [(ec_tenant e, ec_id e, ty)])) \<and>
     (\<forall>b\<in>set (vw_outbox v). fst (snd b) \<in> ec_id ` set (vw_envs v))"

section \<open>Updates\<close>

lemma mem_update_where [simp]: "x \<in> set (update_where P f xs) \<longleftrightarrow> (\<exists>y\<in>set xs. x = (if P y then f y else y))"
  by (auto simp: update_where_def)

lemma map_update_where: "(\<And>x. P x \<Longrightarrow> g (f x) = g x) \<Longrightarrow> map g (update_where P f xs) = map g xs"
  by (simp add: update_where_def)

lemma filter_update_where:
  "(\<And>x. P x \<Longrightarrow> Q (f x) = Q x) \<Longrightarrow> filter Q (update_where P f xs) = update_where P f (filter Q xs)"
  by (induction xs) (auto simp: update_where_def)

lemma update_where_append [simp]: "update_where P f (xs @ ys) = update_where P f xs @ update_where P f ys"
  by (simp add: update_where_def)

text \<open>Updates of a recipient that keep what the routing depends on.\<close>

definition keeps_routing :: "(signer \<Rightarrow> signer) \<Rightarrow> bool" where
  "keeps_routing f \<longleftrightarrow> (\<forall>s. sg_id (f s) = sg_id s \<and> sg_tenant_id (f s) = sg_tenant_id s \<and>
     sg_envelope_id (f s) = sg_envelope_id s \<and> sg_signing_order (f s) = sg_signing_order s \<and>
     sg_recipient_kind (f s) = sg_recipient_kind s \<and> sg_witness_for_signer_id (f s) = sg_witness_for_signer_id s)"

lemma keeps_routing_updates [simp]:
  "keeps_routing (\<lambda>x. x\<lparr>sg_status := st\<rparr>)" "keeps_routing (\<lambda>x. x\<lparr>sg_access_code_failed_count := n\<rparr>)"
  "keeps_routing (count_failure t)"
  by (simp_all add: keeps_routing_def count_failure_def Let_def)

lemma kind_kept: "keeps_routing f \<Longrightarrow> isSigningRecipient (f s) = isSigningRecipient s \<and> isWitness (f s) = isWitness s"
  by (simp add: keeps_routing_def isSigningRecipient_def isWitness_def recipientKindOf_def)

lemma rows_set_signer:
  "keeps_routing f \<Longrightarrow> rows_of (set_signer sid f v) tenant eid = update_where (\<lambda>s. sg_id s = sid) f (rows_of v tenant eid)"
  unfolding rows_of_def set_signer_def envelope_signers_def
  by (simp add: filter_update_where keeps_routing_def)

lemma set_signer_sel [simp]:
  "vw_envs (set_signer sid f v) = vw_envs v" "vw_live (set_signer sid f v) = vw_live v"
  "vw_outbox (set_signer sid f v) = vw_outbox v"
  "vw_signers (set_signer sid f v) = update_where (\<lambda>s. sg_id s = sid) f (vw_signers v)"
  by (simp_all add: set_signer_def)

lemma rows_frame [simp]:
  "rows_of (v\<lparr>vw_envs := es\<rparr>) = rows_of v" "rows_of (v\<lparr>vw_live := ls\<rparr>) = rows_of v" "rows_of (set_status e st v) = rows_of v"
  by (simp_all add: rows_of_def set_status_def fun_eq_iff)

lemma mem_rows: "s \<in> set (rows_of v tenant eid) \<longleftrightarrow> s \<in> set (vw_signers v) \<and> sg_tenant_id s = tenant \<and> sg_envelope_id s = eid"
  by (auto simp: rows_of_def envelope_signers_def)

lemma inv_ids_row: "inv_ids v \<Longrightarrow> a \<in> set (vw_signers v) \<Longrightarrow> b \<in> set (vw_signers v) \<Longrightarrow> sg_id a = sg_id b \<Longrightarrow> a = b"
  by (auto simp: inv_ids_def distinct_map inj_on_def)

lemma inv_ids_env: "inv_ids v \<Longrightarrow> a \<in> set (vw_envs v) \<Longrightarrow> b \<in> set (vw_envs v) \<Longrightarrow> ec_id a = ec_id b \<Longrightarrow> a = b"
  by (auto simp: inv_ids_def distinct_map inj_on_def)

lemma wf_rows_of: "inv_ids v \<Longrightarrow> wf_rows (rows_of v tenant eid)"
  unfolding wf_rows_def rows_of_def envelope_signers_def
  by (auto simp: inv_ids_def distinct_map inj_on_def route_key_def)

lemma all_signed_iff:
  "allSigningRecipientsSigned rows \<longleftrightarrow> (\<exists>s\<in>set rows. isSigningRecipient s) \<and> (\<forall>s\<in>set rows. isSigningRecipient s \<longrightarrow> sg_status s = SIGNED)"
  by (auto simp: allSigningRecipientsSigned_def signingRecipients_def Let_def list_all_iff filter_empty_conv)

section \<open>Preservation\<close>

lemma ids_set_signer:
  assumes "inv_ids v" "keeps_routing f"
  shows "inv_ids (set_signer sid f v)"
proof -
  have "map sg_id (vw_signers (set_signer sid f v)) = map sg_id (vw_signers v)"
    "map route_key (vw_signers (set_signer sid f v)) = map route_key (vw_signers v)"
    "map (fst \<circ> route_key) (vw_signers (set_signer sid f v)) = map (fst \<circ> route_key) (vw_signers v)"
    using assms(2) by (simp_all add: map_update_where keeps_routing_def route_key_def)
  with assms(1) show ?thesis unfolding inv_ids_def set_signer_sel(1) by metis
qed

lemma envs_set_status:
  "map ec_id (vw_envs (set_status e st v)) = map ec_id (vw_envs v)"
  "map env_key (vw_envs (set_status e st v)) = map env_key (vw_envs v)"
  by (simp_all add: set_status_def map_update_where env_key_def)

lemma set_status_sel [simp]:
  "vw_signers (set_status e st v) = vw_signers v"
  "vw_envs (set_status e st v) = update_where (\<lambda>x. ec_id x = ec_id e) (\<lambda>x. x\<lparr>ec_status := st\<rparr>) (vw_envs v)"
  by (simp_all add: set_status_def)

lemma inv_ids_live [simp]: "inv_ids (v\<lparr>vw_live := ls\<rparr>) = inv_ids v"
  by (simp add: inv_ids_def)

lemma ids_step: "vstep v w \<Longrightarrow> inv_ids v \<Longrightarrow> inv_ids w"
proof (induction rule: vstep.induct)
  case (create eid v tenant mode)
  then show ?case by (auto simp: inv_ids_def)
next
  case (recruit e v s)
  have "route_key s \<notin> route_key ` set (vw_signers v)"
    using recruit by (auto simp: route_key_def mem_rows image_iff)
  with recruit show ?case by (auto simp: inv_ids_def route_key_def env_key_def image_iff)
next
  case (move e v st)
  then show ?case unfolding inv_ids_def envs_set_status by (simp del: set_map set_status_sel add: set_status_sel(1))
qed (simp_all add: ids_set_signer)

lemma rows_recruit:
  "rows_of (v\<lparr>vw_signers := vw_signers v @ [s]\<rparr>) tenant eid =
     rows_of v tenant eid @ (if sg_tenant_id s = tenant \<and> sg_envelope_id s = eid then [s] else [])"
  by (simp add: rows_of_def envelope_signers_def)

lemma recipient_set_signer:
  assumes "keeps_routing f" "\<exists>s\<in>set (rows_of v tenant eid). isSigningRecipient s \<and> sg_id s = i"
  shows "\<exists>s\<in>set (rows_of (set_signer sid f v) tenant eid). isSigningRecipient s \<and> sg_id s = i"
proof -
  obtain s where s: "s \<in> set (rows_of v tenant eid)" "isSigningRecipient s" "sg_id s = i" using assms(2) by blast
  let ?s = "if sg_id s = sid then f s else s"
  have "?s \<in> set (rows_of (set_signer sid f v) tenant eid)" using s(1) by (auto simp: rows_set_signer [OF assms(1)])
  moreover have "isSigningRecipient ?s" "sg_id ?s = i"
    using s kind_kept [OF assms(1)] assms(1) by (simp_all add: keeps_routing_def)
  ultimately show ?thesis by blast
qed

lemma live_set_signer: "keeps_routing f \<Longrightarrow> inv_live v \<Longrightarrow> inv_live (set_signer sid f v)"
  by (simp add: inv_live_def recipient_set_signer)

lemma live_shrink: "inv_live v \<Longrightarrow> set ls \<subseteq> set (vw_live v) \<Longrightarrow> inv_live (v\<lparr>vw_live := ls\<rparr>)"
  by (auto simp: inv_live_def)

lemma live_move:
  assumes "inv_ids v" "inv_live v" "e \<in> set (vw_envs v)" "st \<in> set (ENVELOPE_TRANSITIONS (ec_status e))"
  shows "inv_live (set_status e st v)"
  unfolding inv_live_def
proof
  fix c assume c: "c \<in> set (vw_live (set_status e st v))"
  then have cv: "c \<in> set (vw_live v)" by (auto simp: set_status_def split: if_splits)
  then obtain e1 where e1: "e1 \<in> set (vw_envs v)" "signable e1" "of_envelope e1 c" using assms(2) unfolding inv_live_def by blast
  have "\<exists>e'\<in>set (vw_envs (set_status e st v)). signable e' \<and> of_envelope e' c"
  proof (cases "ec_id e1 = ec_id e")
    case True
    then have "e1 = e" using inv_ids_env [OF assms(1) e1(1) assms(3)] by simp
    then have "\<not> isTerminalEnvelopeStatus st" using c e1(3) by (auto simp: set_status_def split: if_splits)
    then have "signable (e1\<lparr>ec_status := st\<rparr>)" "of_envelope (e1\<lparr>ec_status := st\<rparr>) c"
      using assms(4) e1 \<open>e1 = e\<close> by (cases st; auto simp: signable_def of_envelope_def)+
    moreover have "e1\<lparr>ec_status := st\<rparr> \<in> set (vw_envs (set_status e st v))" using True e1(1) by auto
    ultimately show ?thesis by blast
  next
    case False
    then have "e1 \<in> set (vw_envs (set_status e st v))" using e1(1) by auto
    with e1 show ?thesis by blast
  qed
  then show "(\<exists>e'\<in>set (vw_envs (set_status e st v)). signable e' \<and> of_envelope e' c) \<and>
      (\<exists>s\<in>set (rows_of (set_status e st v) (cx_tenant_id c) (cx_envelope_id c)). isSigningRecipient s \<and> sg_id s = cx_signer_id c)"
    using cv assms(2) by (simp add: inv_live_def)
qed

lemma live_step:
  assumes "vstep v w" "inv_ids v" "inv_live v"
  shows "inv_live w"
  using assms
proof (induction rule: vstep.induct)
  case (recruit e v s)
  then show ?case unfolding inv_live_def by (simp add: rows_recruit) (metis UnCI)
next
  case (mint e v c s)
  then show ?case by (auto simp: inv_live_def of_envelope_def)
next
  case (sign e v c)
  have "inv_live (v\<lparr>vw_live := filter (\<lambda>x. cx_session_id x \<noteq> cx_session_id c) (vw_live v)\<rparr>)"
    using sign.prems(2) by (rule live_shrink) auto
  then show ?case by (intro live_set_signer) simp
next
  case (kill v P)
  then show ?case by (intro live_shrink) auto
next
  case (move e v st)
  then show ?case by (intro live_move)
next
  case (create eid v tenant mode)
  then show ?case by (auto simp: inv_live_def)
qed (simp_all add: live_set_signer)

lemma row_of_env:
  "inv_ids v \<Longrightarrow> s \<in> set (vw_signers v) \<Longrightarrow> e \<in> set (vw_envs v) \<Longrightarrow> e' \<in> set (vw_envs v) \<Longrightarrow>
     s \<in> set (rows_of v (ec_tenant e) (ec_id e)) \<Longrightarrow> s \<in> set (rows_of v (ec_tenant e') (ec_id e')) \<Longrightarrow> e' = e"
  by (auto simp: mem_rows intro: inv_ids_env)

text \<open>Steps that never take a signature back.\<close>

definition keeps_signed :: "sign_view \<Rightarrow> string \<Rightarrow> (signer \<Rightarrow> signer) \<Rightarrow> bool" where
  "keeps_signed v sid f \<longleftrightarrow> (\<forall>s\<in>set (vw_signers v). sg_id s = sid \<and> sg_status s = SIGNED \<longrightarrow> sg_status (f s) = SIGNED)"

lemma all_signed_set_signer:
  assumes "keeps_routing f" "keeps_signed v sid f" "allSigningRecipientsSigned (rows_of v tenant eid)"
  shows "allSigningRecipientsSigned (rows_of (set_signer sid f v) tenant eid)"
  unfolding all_signed_iff rows_set_signer [OF assms(1)]
proof (intro conjI ballI impI)
  let ?g = "\<lambda>y. if sg_id y = sid then f y else y"
  have kind: "isSigningRecipient (?g y) = isSigningRecipient y" for y using kind_kept [OF assms(1)] by simp
  obtain y where y: "y \<in> set (rows_of v tenant eid)" "isSigningRecipient y" using assms(3) unfolding all_signed_iff by blast
  then have "?g y \<in> set (update_where (\<lambda>s. sg_id s = sid) f (rows_of v tenant eid))" "isSigningRecipient (?g y)"
    using kind by auto
  then show "\<exists>s\<in>set (update_where (\<lambda>s. sg_id s = sid) f (rows_of v tenant eid)). isSigningRecipient s" by blast
  fix x assume x: "x \<in> set (update_where (\<lambda>s. sg_id s = sid) f (rows_of v tenant eid))" "isSigningRecipient x"
  then obtain z where z: "z \<in> set (rows_of v tenant eid)" "x = ?g z" by auto
  then have "isSigningRecipient z" using x(2) kind by metis
  then have "sg_status z = SIGNED" using assms(3) z(1) unfolding all_signed_iff by blast
  then show "sg_status x = SIGNED" using z assms(2) by (auto simp: keeps_signed_def mem_rows)
qed

lemma done_set_signer:
  "keeps_routing f \<Longrightarrow> keeps_signed v sid f \<Longrightarrow> inv_done v \<Longrightarrow> inv_done (set_signer sid f v)"
  by (auto simp: inv_done_def all_signed_set_signer)

lemma rows_untouched:
  assumes "inv_ids v" "s \<in> set (vw_signers v)" "(tenant, eid) \<noteq> (sg_tenant_id s, sg_envelope_id s)" "keeps_routing f"
  shows "rows_of (set_signer (sg_id s) f v) tenant eid = rows_of v tenant eid"
proof -
  have "\<forall>x\<in>set (rows_of v tenant eid). sg_id x \<noteq> sg_id s"
  proof (intro ballI notI)
    fix x assume x: "x \<in> set (rows_of v tenant eid)" "sg_id x = sg_id s"
    then have "x = s" using inv_ids_row [OF assms(1) _ assms(2)] by (simp add: mem_rows)
    with x assms(3) show False by (simp add: mem_rows)
  qed
  then show ?thesis unfolding rows_set_signer [OF assms(4)] update_where_def by (intro map_idI) auto
qed

lemma keeps_signed_not_signed: "inv_ids v \<Longrightarrow> s \<in> set (vw_signers v) \<Longrightarrow> sg_status s \<noteq> SIGNED \<Longrightarrow> keeps_signed v (sg_id s) f"
  by (auto simp: keeps_signed_def dest: inv_ids_row)

lemma keeps_signed_code [simp]:
  "keeps_signed v sid (\<lambda>x. x\<lparr>sg_access_code_failed_count := n\<rparr>)" "keeps_signed v sid (count_failure t)"
  "keeps_signed v sid (\<lambda>x. x\<lparr>sg_status := SIGNED\<rparr>)"
  by (simp_all add: keeps_signed_def count_failure_def Let_def)

lemma not_signed_cases: "sg_status s = PENDING \<or> sg_status s = VIEWED \<Longrightarrow> sg_status s \<noteq> SIGNED"
  by auto

lemma done_step:
  assumes "vstep v w" "inv_ids v" "inv_done v"
  shows "inv_done w"
  using assms
proof (induction rule: vstep.induct)
  case (recruit e v s)
  have "rows_of (v\<lparr>vw_signers := vw_signers v @ [s]\<rparr>) (ec_tenant x) (ec_id x) = rows_of v (ec_tenant x) (ec_id x)"
    if "x \<in> set (vw_envs v)" "ec_status x = COMPLETED" for x
  proof -
    have "x \<noteq> e" using that recruit.hyps(2) by auto
    then show ?thesis using inv_ids_env [OF recruit.prems(1) that(1) recruit.hyps(1)] recruit.hyps(4) by (auto simp: rows_recruit)
  qed
  with recruit.prems(2) show ?case by (simp add: inv_done_def)
next
  case (move e v st)
  have "allSigningRecipientsSigned (rows_of v (ec_tenant x) (ec_id x))"
    if x: "x \<in> set (vw_envs (set_status e st v))" "ec_status x = COMPLETED" for x
  proof -
    obtain y where y: "y \<in> set (vw_envs v)" "x = (if ec_id y = ec_id e then y\<lparr>ec_status := st\<rparr> else y)"
      using x(1) by auto
    show ?thesis
    proof (cases "ec_id y = ec_id e")
      case True
      then have "y = e" using inv_ids_env [OF move.prems(1) y(1) move.hyps(1)] by simp
      with y True x(2) move.hyps(3) show ?thesis by simp
    next
      case False
      with y x(2) move.prems(2) show ?thesis by (simp add: inv_done_def)
    qed
  qed
  then show ?case by (simp add: inv_done_def)
next
  case (refuse e v s)
  have "rows_of (set_signer (sg_id s) (\<lambda>x. x\<lparr>sg_status := SIGNER_DECLINED\<rparr>) v) (ec_tenant x) (ec_id x) = rows_of v (ec_tenant x) (ec_id x)"
    if "x \<in> set (vw_envs v)" "ec_status x = COMPLETED" for x
    by (rule rows_untouched) (use refuse that inv_ids_env [OF refuse.prems(1) that(1) refuse.hyps(1)] in \<open>auto simp: mem_rows\<close>)
  with refuse.prems(2) show ?case by (simp add: inv_done_def)
next
  case (seen s v)
  then show ?case by (intro done_set_signer keeps_signed_not_signed) (auto dest: not_signed_cases)
next
  case (delegate e v s)
  then show ?case by (intro done_set_signer keeps_signed_not_signed) (auto simp: mem_rows)
next
  case (sign e v c)
  then show ?case by (intro done_set_signer) (auto simp: inv_done_def)
qed (simp_all add: done_set_signer, auto simp: inv_done_def)

lemma draft_set_signer:
  assumes "keeps_routing f" "inv_draft v"
    and "\<And>s. s \<in> set (vw_signers v) \<Longrightarrow> sg_id s = sid \<Longrightarrow> sg_status s \<noteq> SIGNED \<Longrightarrow> sg_status (f s) = SIGNED \<Longrightarrow>
      (\<forall>e\<in>set (vw_envs v). s \<in> set (rows_of v (ec_tenant e) (ec_id e)) \<longrightarrow> ec_status e \<noteq> DRAFT)"
  shows "inv_draft (set_signer sid f v)"
  unfolding inv_draft_def set_signer_sel rows_set_signer [OF assms(1)]
proof (intro ballI impI)
  fix e x assume e: "e \<in> set (vw_envs v)" "ec_status e = DRAFT"
    and x: "x \<in> set (update_where (\<lambda>s. sg_id s = sid) f (rows_of v (ec_tenant e) (ec_id e)))"
  then obtain z where z: "z \<in> set (rows_of v (ec_tenant e) (ec_id e))" "x = (if sg_id z = sid then f z else z)" by auto
  then have "sg_status z \<noteq> SIGNED" using assms(2) e by (auto simp: inv_draft_def)
  with z e assms(3) [of z] show "sg_status x \<noteq> SIGNED" by (auto simp: mem_rows)
qed

lemma draft_step:
  assumes "vstep v w" "inv_ids v" "inv_draft v"
  shows "inv_draft w"
  using assms
proof (induction rule: vstep.induct)
  case (create eid v tenant mode)
  have "rows_of v tenant eid = []"
  proof -
    have "\<forall>s\<in>set (vw_signers v). sg_envelope_id s \<in> ec_id ` set (vw_envs v)"
      using create.prems(1) by (auto simp: inv_ids_def route_key_def env_key_def)
    with create.hyps show ?thesis by (auto simp: rows_of_def envelope_signers_def filter_empty_conv)
  qed
  with create.prems(2) show ?case by (auto simp: inv_draft_def)
next
  case (recruit e v s)
  then show ?case by (auto simp: inv_draft_def rows_recruit)
next
  case (move e v st)
  then have "st \<noteq> DRAFT" by (cases "ec_status e") auto
  with move.prems(2) show ?case by (auto simp: inv_draft_def split: if_splits)
next
  case (sign e v c)
  have "inv_draft (v\<lparr>vw_live := filter (\<lambda>x. cx_session_id x \<noteq> cx_session_id c) (vw_live v)\<rparr>)"
    using sign.prems(2) by (simp add: inv_draft_def)
  then show ?case
  proof (rule draft_set_signer [OF keeps_routing_updates(1)], simp, intro ballI impI)
    fix s e' assume s: "s \<in> set (vw_signers v)" "sg_id s = cx_signer_id c" and e': "e' \<in> set (vw_envs v)"
      "s \<in> set (rows_of v (ec_tenant e') (ec_id e'))"
    obtain r where r: "r \<in> set (rows_of v (ec_tenant e) (ec_id e))" "sg_id r = cx_signer_id c"
      using sign.hyps(5) mayActNow_absent by blast
    then have "r = s" using inv_ids_row [OF sign.prems(1) _ s(1)] s(2) by (simp add: mem_rows)
    then have "e' = e" using row_of_env [OF sign.prems(1) s(1) sign.hyps(1) e'(1)] r(1) e'(2) by simp
    with sign.hyps(2) show "ec_status e' \<noteq> DRAFT" by (auto simp: signable_def)
  qed
next
  case (code_wrong s v t)
  then show ?case by (intro draft_set_signer) (auto simp: count_failure_def Let_def)
next
  case (code_right s v)
  then show ?case by (intro draft_set_signer) auto
next
  case (refuse e v s)
  then show ?case by (intro draft_set_signer) auto
next
  case (seen s v)
  then show ?case by (intro draft_set_signer) auto
next
  case (delegate e v s)
  then show ?case by (intro draft_set_signer) auto
qed (auto simp: inv_draft_def)

lemma code_set_signer:
  assumes "inv_code v" "\<And>s. s \<in> set (vw_signers v) \<Longrightarrow> sg_id s = sid \<Longrightarrow>
    0 \<le> sg_access_code_failed_count (f s) \<and> sg_access_code_failed_count (f s) \<le> 5 \<and>
    (sg_access_code_locked_at (f s) \<noteq> None \<longleftrightarrow> sg_access_code_failed_count (f s) = 5)"
  shows "inv_code (set_signer sid f v)"
  unfolding inv_code_def set_signer_sel
proof
  fix x assume "x \<in> set (update_where (\<lambda>s. sg_id s = sid) f (vw_signers v))"
  then obtain z where z: "z \<in> set (vw_signers v)" "x = (if sg_id z = sid then f z else z)" by auto
  show "0 \<le> sg_access_code_failed_count x \<and> sg_access_code_failed_count x \<le> 5 \<and>
    (sg_access_code_locked_at x \<noteq> None \<longleftrightarrow> sg_access_code_failed_count x = 5)"
    using z assms(1) assms(2) [OF z(1)] by (cases "sg_id z = sid") (simp_all add: inv_code_def)
qed

lemma code_step:
  assumes "vstep v w" "inv_ids v" "inv_code v"
  shows "inv_code w"
  using assms
proof (induction rule: vstep.induct)
  case (code_wrong s v t)
  have ok: "0 \<le> sg_access_code_failed_count s \<and> sg_access_code_failed_count s \<le> 5 \<and>
    (sg_access_code_locked_at s \<noteq> None \<longleftrightarrow> sg_access_code_failed_count s = 5)"
    using code_wrong.hyps(1) code_wrong.prems(2) by (auto simp: inv_code_def)
  show ?case
  proof (rule code_set_signer [OF code_wrong.prems(2)])
    fix x assume "x \<in> set (vw_signers v)" "sg_id x = sg_id s"
    then have "x = s" using inv_ids_row [OF code_wrong.prems(1) _ code_wrong.hyps(1)] by simp
    with ok code_wrong.hyps(2) show "0 \<le> sg_access_code_failed_count (count_failure t x) \<and>
        sg_access_code_failed_count (count_failure t x) \<le> 5 \<and>
        (sg_access_code_locked_at (count_failure t x) \<noteq> None \<longleftrightarrow> sg_access_code_failed_count (count_failure t x) = 5)"
      by (auto simp: count_failure_def Let_def)
  qed
next
  case (code_right s v)
  show ?case
  proof (rule code_set_signer [OF code_right.prems(2)])
    fix x assume "x \<in> set (vw_signers v)" "sg_id x = sg_id s"
    then have "x = s" using inv_ids_row [OF code_right.prems(1) _ code_right.hyps(1)] by simp
    with code_right.hyps(2) show "0 \<le> sg_access_code_failed_count (x\<lparr>sg_access_code_failed_count := 0\<rparr>) \<and>
        sg_access_code_failed_count (x\<lparr>sg_access_code_failed_count := 0\<rparr>) \<le> 5 \<and>
        (sg_access_code_locked_at (x\<lparr>sg_access_code_failed_count := 0\<rparr>) \<noteq> None \<longleftrightarrow>
         sg_access_code_failed_count (x\<lparr>sg_access_code_failed_count := 0\<rparr>) = 5)"
      by simp
  qed
next
  case (refuse e v s)
  then show ?case by (intro code_set_signer) (auto simp: inv_code_def)
next
  case (seen s v)
  then show ?case by (intro code_set_signer) (auto simp: inv_code_def)
next
  case (sign e v c)
  then show ?case by (intro code_set_signer) (auto simp: inv_code_def)
next
  case (delegate e v s)
  then show ?case by (intro code_set_signer) (auto simp: inv_code_def)
qed (auto simp: inv_code_def)

lemma terminal_type_none: "to_status \<in> set (ENVELOPE_TRANSITIONS s) \<Longrightarrow> TERMINAL_OUTBOX_EVENT_TYPES s = None"
  by (cases s) auto

lemma outbox_step:
  assumes "vstep v w" "inv_ids v" "inv_outbox v"
  shows "inv_outbox w"
  using assms
proof (induction rule: vstep.induct)
  case (create eid v tenant mode)
  then have "filter (\<lambda>b. fst (snd b) = eid) (vw_outbox v) = []" by (auto simp: inv_outbox_def filter_empty_conv)
  with create show ?case by (auto simp: inv_outbox_def)
next
  case (move e v st)
  let ?new = "case TERMINAL_OUTBOX_EVENT_TYPES st of None \<Rightarrow> [] | Some ty \<Rightarrow> [(ec_tenant e, ec_id e, ty)]"
  have ob: "vw_outbox (set_status e st v) = vw_outbox v @ ?new" by (simp add: set_status_def)
  have "filter (\<lambda>b. fst (snd b) = ec_id x) (vw_outbox v @ ?new) =
      (case TERMINAL_OUTBOX_EVENT_TYPES (ec_status x) of None \<Rightarrow> [] | Some ty \<Rightarrow> [(ec_tenant x, ec_id x, ty)])"
    if x: "x \<in> set (vw_envs (set_status e st v))" for x
  proof -
    obtain y where y: "y \<in> set (vw_envs v)" "x = (if ec_id y = ec_id e then y\<lparr>ec_status := st\<rparr> else y)" using x by auto
    show ?thesis
    proof (cases "ec_id y = ec_id e")
      case True
      then have "y = e" using inv_ids_env [OF move.prems(1) y(1) move.hyps(1)] by simp
      moreover have "filter (\<lambda>b. fst (snd b) = ec_id e) (vw_outbox v) = []"
        using move.prems(2) move.hyps(1) terminal_type_none [OF move.hyps(2)] by (auto simp: inv_outbox_def)
      ultimately show ?thesis using y(2) by (auto split: option.splits)
    next
      case False
      then have "filter (\<lambda>b. fst (snd b) = ec_id y) ?new = []" by (auto split: option.splits)
      moreover have "x = y" using False y(2) by simp
      ultimately show ?thesis using y(1) move.prems(2) by (auto simp: inv_outbox_def simp del: fst_conv snd_conv)
    qed
  qed
  moreover have "fst (snd b) \<in> ec_id ` set (vw_envs (set_status e st v))" if "b \<in> set (vw_outbox v @ ?new)" for b
  proof -
    have "ec_id ` set (vw_envs (set_status e st v)) = ec_id ` set (vw_envs v)"
      using arg_cong [OF envs_set_status(1) [of e st v], of set] by simp
    with that move show ?thesis by (auto simp: inv_outbox_def split: option.splits)
  qed
  ultimately show ?case unfolding inv_outbox_def ob by blast
qed (auto simp: inv_outbox_def)

lemma order_holds_set_signer:
  assumes kr: "keeps_routing f" and ks: "keeps_signed v sid f" and oh: "order_holds v e s"
  shows "order_holds (set_signer sid f v) e (if sg_id s = sid then f s else s)"
proof -
  let ?g = "\<lambda>y. if sg_id y = sid then f y else y"
  have g: "isSigningRecipient (?g y) = isSigningRecipient y" "isWitness (?g y) = isWitness y" "sg_id (?g y) = sg_id y"
    "sg_signing_order (?g y) = sg_signing_order y" "sg_witness_for_signer_id (?g y) = sg_witness_for_signer_id y" for y
    using kind_kept [OF kr] kr by (simp_all add: keeps_routing_def)
  have signed: "sg_status (?g y) = SIGNED" if "y \<in> set (rows_of v (ec_tenant e) (ec_id e))" "sg_status y = SIGNED" for y
    using ks that by (auto simp: keeps_signed_def mem_rows)
  have mem: "x \<in> set (rows_of (set_signer sid f v) (ec_tenant e) (ec_id e)) \<longleftrightarrow>
      (\<exists>y\<in>set (rows_of v (ec_tenant e) (ec_id e)). x = ?g y)" for x
    by (simp add: rows_set_signer [OF kr])
  show ?thesis unfolding order_holds_def
  proof (intro conjI impI ballI)
    fix x assume "ec_mode e = SEQUENTIAL" "x \<in> set (rows_of (set_signer sid f v) (ec_tenant e) (ec_id e))"
      "isSigningRecipient x \<and> sg_signing_order x < sg_signing_order (?g s)"
    moreover from this obtain y where y: "y \<in> set (rows_of v (ec_tenant e) (ec_id e))" "x = ?g y" unfolding mem by blast
    ultimately have "sg_status y = SIGNED" using oh g by (simp add: order_holds_def)
    with signed y show "sg_status x = SIGNED" by simp
  next
    assume "isWitness (?g s)"
    then have "isWitness s" using g by simp
    then obtain p where p: "p \<in> set (rows_of v (ec_tenant e) (ec_id e))" "sg_witness_for_signer_id s = Some (sg_id p)" "sg_status p = SIGNED"
      using oh unfolding order_holds_def by blast
    have "?g p \<in> set (rows_of (set_signer sid f v) (ec_tenant e) (ec_id e))" unfolding mem using p(1) by blast
    moreover have "sg_witness_for_signer_id (?g s) = Some (sg_id (?g p))" unfolding g using p(2) .
    ultimately show "\<exists>p\<in>set (rows_of (set_signer sid f v) (ec_tenant e) (ec_id e)). sg_witness_for_signer_id (?g s) = Some (sg_id p) \<and> sg_status p = SIGNED"
      using signed [OF p(1,3)] by blast
  qed
qed

lemma order_set_signer:
  assumes kr: "keeps_routing f" and ks: "keeps_signed v sid f" and io: "inv_order v"
    and new: "\<And>s e. s \<in> set (vw_signers v) \<Longrightarrow> sg_id s = sid \<Longrightarrow> sg_status s \<noteq> SIGNED \<Longrightarrow> sg_status (f s) = SIGNED \<Longrightarrow>
      e \<in> set (vw_envs v) \<Longrightarrow> s \<in> set (rows_of v (ec_tenant e) (ec_id e)) \<Longrightarrow> order_holds v e s"
  shows "inv_order (set_signer sid f v)"
  unfolding inv_order_def set_signer_sel rows_set_signer [OF kr]
proof (intro ballI impI)
  fix e x assume e: "e \<in> set (vw_envs v)" and x: "x \<in> set (update_where (\<lambda>s. sg_id s = sid) f (rows_of v (ec_tenant e) (ec_id e)))"
    and st: "ec_status e \<noteq> DECLINED \<and> sg_status x = SIGNED"
  then obtain z where z: "z \<in> set (rows_of v (ec_tenant e) (ec_id e))" "x = (if sg_id z = sid then f z else z)" by auto
  have "order_holds v e z"
  proof (cases "sg_status z = SIGNED")
    case True
    with io e z(1) st show ?thesis by (simp add: inv_order_def)
  next
    case False
    with st z(2) have "sg_id z = sid" "sg_status (f z) = SIGNED" by (auto split: if_splits)
    with new False e z(1) show ?thesis by (simp add: mem_rows)
  qed
  from order_holds_set_signer [OF kr ks this] z(2) show "order_holds (set_signer sid f v) e x" by simp
qed

lemma order_holds_cong:
  "rows_of w (ec_tenant e) (ec_id e) = rows_of v (ec_tenant e) (ec_id e) \<Longrightarrow> order_holds w e s = order_holds v e s"
  by (simp add: order_holds_def)

lemma order_live [simp]: "inv_order (v\<lparr>vw_live := ls\<rparr>) = inv_order v"
  by (simp add: inv_order_def order_holds_def)

lemma order_step:
  assumes "vstep v w" "inv_ids v" "inv_order v" "inv_draft v"
  shows "inv_order w"
  using assms
proof (induction rule: vstep.induct)
  case (create eid v tenant mode)
  have "rows_of v tenant eid = []"
  proof -
    have "\<forall>s\<in>set (vw_signers v). sg_envelope_id s \<in> ec_id ` set (vw_envs v)"
      using create.prems(1) by (auto simp: inv_ids_def route_key_def env_key_def)
    with create.hyps show ?thesis by (auto simp: rows_of_def envelope_signers_def filter_empty_conv)
  qed
  with create.prems(2) show ?case by (auto simp: inv_order_def order_holds_def)
next
  case (recruit e v s)
  let ?w = "v\<lparr>vw_signers := vw_signers v @ [s]\<rparr>"
  have "order_holds ?w x r" if x: "x \<in> set (vw_envs v)" and r: "r \<in> set (rows_of ?w (ec_tenant x) (ec_id x))"
    and st: "ec_status x \<noteq> DECLINED" "sg_status r = SIGNED" for x r
  proof -
    have "r \<in> set (rows_of v (ec_tenant x) (ec_id x))" using r st(2) recruit.hyps(7) by (auto simp: rows_recruit split: if_splits)
    then have "ec_status x \<noteq> DRAFT" using recruit.prems(3) x st(2) by (auto simp: inv_draft_def)
    then have "x \<noteq> e" using recruit.hyps(2) by auto
    then have "rows_of ?w (ec_tenant x) (ec_id x) = rows_of v (ec_tenant x) (ec_id x)"
      using inv_ids_env [OF recruit.prems(1) x recruit.hyps(1)] recruit.hyps(4) by (auto simp: rows_recruit)
    with recruit.prems(2) x r st show ?thesis by (simp add: inv_order_def order_holds_def)
  qed
  then show ?case by (simp add: inv_order_def)
next
  case (move e v st)
  have "order_holds v x r" if x: "x \<in> set (vw_envs (set_status e st v))" and r: "r \<in> set (rows_of v (ec_tenant x) (ec_id x))"
    and s: "ec_status x \<noteq> DECLINED" "sg_status r = SIGNED" for x r
  proof -
    obtain y where y: "y \<in> set (vw_envs v)" "x = (if ec_id y = ec_id e then y\<lparr>ec_status := st\<rparr> else y)" using x by auto
    then have xy: "ec_tenant x = ec_tenant y" "ec_id x = ec_id y" "ec_mode x = ec_mode y" by auto
    have "ec_status y \<noteq> DECLINED"
    proof (cases "ec_id y = ec_id e")
      case True
      then have "y = e" using inv_ids_env [OF move.prems(1) y(1) move.hyps(1)] by simp
      with move.hyps(2) show ?thesis by auto
    qed (use y s in auto)
    then have "order_holds v y r" using move.prems(2) y(1) r s(2) xy by (simp add: inv_order_def)
    with xy show ?thesis by (simp add: order_holds_def)
  qed
  moreover have "order_holds (set_status e st v) x r = order_holds v x r" for x r by (rule order_holds_cong) simp
  ultimately show ?case by (simp add: inv_order_def)
next
  case (refuse e v s)
  let ?w = "set_signer (sg_id s) (\<lambda>x. x\<lparr>sg_status := SIGNER_DECLINED\<rparr>) v"
  have "rows_of ?w (ec_tenant x) (ec_id x) = rows_of v (ec_tenant x) (ec_id x)"
    if "x \<in> set (vw_envs v)" "ec_status x \<noteq> DECLINED" for x
    by (rule rows_untouched) (use refuse that inv_ids_env [OF refuse.prems(1) that(1) refuse.hyps(1)] in \<open>auto simp: mem_rows\<close>)
  then have "order_holds ?w x r" if "x \<in> set (vw_envs v)" "r \<in> set (rows_of ?w (ec_tenant x) (ec_id x))"
    "ec_status x \<noteq> DECLINED" "sg_status r = SIGNED" for x r
    using that refuse.prems(2) order_holds_cong [of ?w x v r] by (simp add: inv_order_def)
  then show ?case by (simp add: inv_order_def)
next
  case (seen s v)
  then show ?case by (intro order_set_signer keeps_signed_not_signed) (auto dest: not_signed_cases)
next
  case (delegate e v s)
  then show ?case by (intro order_set_signer keeps_signed_not_signed) (auto simp: mem_rows)
next
  case (sign e v c)
  let ?v = "v\<lparr>vw_live := filter (\<lambda>x. cx_session_id x \<noteq> cx_session_id c) (vw_live v)\<rparr>"
  have oc: "order_holds ?v e' s = order_holds v e' s" for e' s by (rule order_holds_cong) simp
  have "inv_order ?v" using sign.prems(2) by (simp add: inv_order_def oc)
  then show ?case
  proof (rule order_set_signer [rotated 2])
    fix s e' assume s: "s \<in> set (vw_signers ?v)" "sg_id s = cx_signer_id c"
      and e': "e' \<in> set (vw_envs ?v)" "s \<in> set (rows_of ?v (ec_tenant e') (ec_id e'))"
    obtain r where r: "r \<in> set (rows_of v (ec_tenant e) (ec_id e))" "sg_id r = cx_signer_id c"
      using sign.hyps(5) mayActNow_absent by blast
    have "r = s" using inv_ids_row [OF sign.prems(1), of r s] r s by (simp add: mem_rows)
    then have e: "e' = e" using row_of_env [OF sign.prems(1), of s e e'] r(1) e' s sign.hyps(1) by simp
    have "mayActNow (ec_mode e) (rows_of v (ec_tenant e) (ec_id e)) (sg_id s)" using sign.hyps(5) s(2) by simp
    then have "mayActNow (ec_mode e) (rows_of v (ec_tenant e) (ec_id e)) (sg_id r)" using \<open>r = s\<close> by simp
    then have "order_holds v e r" unfolding order_holds_def mayActNow_spec [OF wf_rows_of [OF sign.prems(1)] r(1)] by simp
    then show "order_holds ?v e' s" unfolding oc e using \<open>r = s\<close> by simp
  qed simp_all
next
  case (code_wrong s v t)
  then show ?case by (intro order_set_signer) (auto simp: count_failure_def Let_def)
next
  case (code_right s v)
  then show ?case by (intro order_set_signer) auto
qed simp_all

section \<open>Runs of the protocol\<close>

definition view_inv :: "sign_view \<Rightarrow> bool" where
  "view_inv v \<longleftrightarrow> inv_ids v \<and> inv_live v \<and> inv_done v \<and> inv_order v \<and> inv_draft v \<and> inv_code v \<and> inv_outbox v"

lemma view_inv_step: "vstep v w \<Longrightarrow> view_inv v \<Longrightarrow> view_inv w"
  unfolding view_inv_def using ids_step live_step done_step order_step draft_step code_step outbox_step by blast

lemma view_inv_run: "vstep\<^sup>*\<^sup>* v w \<Longrightarrow> view_inv v \<Longrightarrow> view_inv w"
  by (induction rule: rtranclp_induct) (auto intro: view_inv_step)

text \<open>An envelope keeps its identity and moves along the lifecycle table only.\<close>

lemma env_step:
  assumes "vstep v w" "inv_ids v" "e \<in> set (vw_envs v)"
  shows "\<exists>e'\<in>set (vw_envs w). ec_id e' = ec_id e \<and> ec_tenant e' = ec_tenant e \<and> ec_mode e' = ec_mode e \<and>
    envelope_table.reach (ec_status e) (ec_status e')"
  using assms
proof (induction rule: vstep.induct)
  case (move x v st)
  show ?case
  proof (cases "ec_id e = ec_id x")
    case True
    then have "e = x" using inv_ids_env [OF move.prems(1,2) move.hyps(1)] by simp
    then have "envelope_table.reach (ec_status e) st"
      using move.hyps(2) envelope_table.reach.refl envelope_table.reach.step by metis
    with True move.prems(2) show ?thesis by (intro bexI [of _ "e\<lparr>ec_status := st\<rparr>"]) auto
  next
    case False
    with move.prems(2) show ?thesis by (intro bexI [of _ e]) (auto intro: envelope_table.reach.refl)
  qed
qed (auto intro!: bexI [of _ e] envelope_table.reach.refl)

lemma reach_trans: "envelope_table.reach s t \<Longrightarrow> envelope_table.reach t u \<Longrightarrow> envelope_table.reach s u"
  by (rotate_tac, induction rule: envelope_table.reach.induct) (auto intro: envelope_table.reach.step)

lemma env_run:
  assumes "vstep\<^sup>*\<^sup>* v w" "view_inv v" "e \<in> set (vw_envs v)"
  shows "\<exists>e'\<in>set (vw_envs w). ec_id e' = ec_id e \<and> ec_tenant e' = ec_tenant e \<and> ec_mode e' = ec_mode e \<and>
    envelope_table.reach (ec_status e) (ec_status e')"
  using assms
proof (induction rule: rtranclp_induct)
  case base
  then show ?case by (auto intro: envelope_table.reach.refl)
next
  case (step x y)
  then obtain e1 where e1: "e1 \<in> set (vw_envs x)" "ec_id e1 = ec_id e" "ec_tenant e1 = ec_tenant e" "ec_mode e1 = ec_mode e"
    "envelope_table.reach (ec_status e) (ec_status e1)" by blast
  have "inv_ids x" using view_inv_run [OF step.hyps(1) step.prems(1)] by (simp add: view_inv_def)
  from env_step [OF step.hyps(2) this e1(1)] e1 show ?case by (metis reach_trans)
qed

lemma reach_moves: "envelope_table.reach s t \<Longrightarrow> s = t \<or> moves_left t < moves_left s"
  by (induction rule: envelope_table.reach.induct) (auto dest: transition_descends)

text \<open>A locked recipient stays locked.\<close>

lemma locked_step:
  assumes "vstep v w" "inv_ids v" "s \<in> set (vw_signers v)" "sg_access_code_locked_at s \<noteq> None"
  shows "\<exists>s'\<in>set (vw_signers w). sg_id s' = sg_id s \<and> sg_access_code_locked_at s' \<noteq> None"
  using assms
proof (induction rule: vstep.induct)
  case (code_wrong x v t)
  then have "sg_id x \<noteq> sg_id s" using inv_ids_row by metis
  with code_wrong show ?case by (auto intro!: bexI [of _ s])
next
  case (code_right x v)
  then have "sg_id x \<noteq> sg_id s" using inv_ids_row by metis
  with code_right show ?case by (auto intro!: bexI [of _ s])
next
  case (sign e v c)
  then show ?case by (intro bexI [of _ "if sg_id s = cx_signer_id c then s\<lparr>sg_status := SIGNED\<rparr> else s"]) auto
next
  case (refuse e v x)
  then show ?case by (intro bexI [of _ "if sg_id s = sg_id x then s\<lparr>sg_status := SIGNER_DECLINED\<rparr> else s"]) auto
next
  case (seen x v)
  then show ?case by (intro bexI [of _ "if sg_id s = sg_id x then s\<lparr>sg_status := VIEWED\<rparr> else s"]) auto
next
  case (delegate e v x)
  then show ?case by (intro bexI [of _ "if sg_id s = sg_id x then s\<lparr>sg_status := PENDING\<rparr> else s"]) auto
qed auto

end
