(* ===== verification/Sign_Refinement.thy ===== *)
theory Sign_Refinement
  imports Sign_Service Sign_Lifecycle
begin

text \<open>
  The service refines the signing protocol: every operation of \<open>Sign_Service\<close> is a
  sequence of protocol steps on what the protocol sees of the database (\<open>view\<close>). The
  proof goes through a composable simulation, one lemma per primitive update and one per
  operation.
\<close>

section \<open>What the protocol sees\<close>

definition core_env :: "sign_envelope \<Rightarrow> env_core" where
  "core_env e = \<lparr> ec_id = en_id e, ec_tenant = en_tenant_id e, ec_status = en_status e, ec_mode = en_routing_mode e \<rparr>"

definition core_signer :: "signer \<Rightarrow> signer" where
  "core_signer s = s\<lparr>sg_email := None, sg_name := [], sg_bound_user_id := None, sg_delegated_from_name := None,
     sg_delegated_from_email := None, sg_delegated_at := None, sg_viewed_at := None, sg_signed_at := None,
     sg_declined_at := None, sg_decline_reason := None, sg_copy_delivery := None, sg_access_code_hash := None,
     sg_identity_verification_method := None, sg_identity_verification_locked_at := None\<rparr>"

definition view :: "sign_db \<Rightarrow> sign_view" where
  "view db = \<lparr> vw_envs = map core_env (sd_envelopes db), vw_signers = map core_signer (sd_signers db),
     vw_live = map context_of (filter live_session (sd_sessions db)),
     vw_outbox = map (\<lambda>b. (so_tenant_id b, so_envelope_id b, so_event_type b)) (sd_outbox db) \<rparr>"

lemma core_env_sel [simp]:
  "ec_id (core_env e) = en_id e" "ec_tenant (core_env e) = en_tenant_id e" "ec_status (core_env e) = en_status e"
  "ec_mode (core_env e) = en_routing_mode e"
  by (simp_all add: core_env_def)

lemma core_signer_sel [simp]:
  "sg_id (core_signer s) = sg_id s" "sg_tenant_id (core_signer s) = sg_tenant_id s" "sg_envelope_id (core_signer s) = sg_envelope_id s"
  "sg_signing_order (core_signer s) = sg_signing_order s" "sg_status (core_signer s) = sg_status s"
  "sg_recipient_kind (core_signer s) = sg_recipient_kind s" "sg_witness_for_signer_id (core_signer s) = sg_witness_for_signer_id s"
  "sg_access_code_failed_count (core_signer s) = sg_access_code_failed_count s"
  "sg_access_code_locked_at (core_signer s) = sg_access_code_locked_at s"
  "isSigningRecipient (core_signer s) = isSigningRecipient s" "isWitness (core_signer s) = isWitness s"
  by (simp_all add: core_signer_def isSigningRecipient_def isWitness_def recipientKindOf_def)

lemma context_of_sel [simp]:
  "cx_session_id (context_of s) = ss_id s" "cx_tenant_id (context_of s) = ss_tenant_id s"
  "cx_envelope_id (context_of s) = ss_envelope_id s" "cx_signer_id (context_of s) = ss_signer_id s"
  by (simp_all add: context_of_def)

lemma view_sel [simp]:
  "vw_envs (view db) = map core_env (sd_envelopes db)" "vw_signers (view db) = map core_signer (sd_signers db)"
  "vw_live (view db) = map context_of (filter live_session (sd_sessions db))"
  "vw_outbox (view db) = map (\<lambda>b. (so_tenant_id b, so_envelope_id b, so_event_type b)) (sd_outbox db)"
  by (simp_all add: view_def)

lemma view_eqI:
  "vw_envs v = vw_envs w \<Longrightarrow> vw_signers v = vw_signers w \<Longrightarrow> vw_live v = vw_live w \<Longrightarrow> vw_outbox v = vw_outbox w \<Longrightarrow> v = (w :: sign_view)"
  by simp

definition used_ids :: "sign_db \<Rightarrow> string set" where
  "used_ids db = en_id ` set (sd_envelopes db) \<union> sg_id ` set (sd_signers db) \<union> ss_id ` set (sd_sessions db)"

text \<open>Ids come from the draws made so far, and session ids are unique.\<close>

definition ids_ok :: "sign_env \<Rightarrow> sign_db \<Rightarrow> bool" where
  "ids_ok env db \<longleftrightarrow> distinct (map ss_id (sd_sessions db)) \<and> used_ids db \<subseteq> sv_uuid env ` {..<sd_tick db}"

definition db_inv :: "sign_env \<Rightarrow> sign_db \<Rightarrow> bool" where
  "db_inv env db \<longleftrightarrow> view_inv (view db) \<and> ids_ok env db"

definition sim :: "sign_env \<Rightarrow> sign_db \<Rightarrow> sign_db \<Rightarrow> bool" where
  "sim env db db' \<longleftrightarrow> (db_inv env db \<longrightarrow> vstep\<^sup>*\<^sup>* (view db) (view db') \<and> ids_ok env db')"

lemma sim_inv: "sim env db db' \<Longrightarrow> db_inv env db \<Longrightarrow> db_inv env db'"
  unfolding sim_def db_inv_def using view_inv_run by blast

lemma sim_refl [simp]: "sim env db db"
  by (simp add: sim_def db_inv_def)

lemma sim_trans: "sim env db1 db2 \<Longrightarrow> sim env db2 db3 \<Longrightarrow> sim env db1 db3"
  using sim_inv [of env db1 db2] unfolding sim_def by (meson rtranclp_trans)

lemma sim_transI:
  "sim env db1 db2 \<Longrightarrow> (db_inv env db1 \<Longrightarrow> db_inv env db2 \<Longrightarrow> sim env db2 db3) \<Longrightarrow> sim env db1 db3"
  using sim_inv [of env db1 db2] unfolding sim_def by (meson rtranclp_trans)

text \<open>Changes the protocol does not see.\<close>

lemma sim_frame:
  assumes "view db' = view db" "map ss_id (sd_sessions db') = map ss_id (sd_sessions db)"
    "used_ids db' = used_ids db" "sd_tick db \<le> sd_tick db'"
  shows "sim env db db'"
proof -
  have "sv_uuid env ` {..<sd_tick db} \<subseteq> sv_uuid env ` {..<sd_tick db'}" using assms(4) by auto
  with assms show ?thesis unfolding sim_def ids_ok_def db_inv_def by auto
qed

text \<open>Changes the protocol sees as one or more steps, with no new row.\<close>

lemma sim_steps:
  assumes "db_inv env db \<Longrightarrow> vstep\<^sup>*\<^sup>* (view db) (view db')" "map ss_id (sd_sessions db') = map ss_id (sd_sessions db)"
    "used_ids db' = used_ids db" "sd_tick db \<le> sd_tick db'"
  shows "sim env db db'"
proof -
  have "sv_uuid env ` {..<sd_tick db} \<subseteq> sv_uuid env ` {..<sd_tick db'}" using assms(4) by auto
  with assms show ?thesis unfolding sim_def ids_ok_def db_inv_def by auto
qed

section \<open>Frame facts\<close>

lemma tick_sel [simp]:
  "sd_envelopes (tick db) = sd_envelopes db" "sd_documents (tick db) = sd_documents db" "sd_signers (tick db) = sd_signers db"
  "sd_fields (tick db) = sd_fields db" "sd_sessions (tick db) = sd_sessions db" "sd_acceptances (tick db) = sd_acceptances db"
  "sd_events (tick db) = sd_events db" "sd_deliveries (tick db) = sd_deliveries db" "sd_grants (tick db) = sd_grants db"
  "sd_facts (tick db) = sd_facts db" "sd_outbox (tick db) = sd_outbox db" "sd_tick (tick db) = Suc (sd_tick db)"
  "sd_qes (tick db) = sd_qes db" "sd_identity (tick db) = sd_identity db" "sd_bindings (tick db) = sd_bindings db"
  by (simp_all add: tick_def)

lemma view_tick [simp]: "view (tick db) = view db"
  by (simp add: view_def)

lemma used_ids_tick [simp]: "used_ids (tick db) = used_ids db"
  by (simp add: used_ids_def)

lemma sim_tick [simp]: "sim env db (tick db)"
  by (rule sim_frame) simp_all

lemma record_fact_sel [simp]:
  "sd_envelopes (recordNotificationFact env db i) = sd_envelopes db" "sd_signers (recordNotificationFact env db i) = sd_signers db"
  "sd_sessions (recordNotificationFact env db i) = sd_sessions db" "sd_fields (recordNotificationFact env db i) = sd_fields db"
  "sd_outbox (recordNotificationFact env db i) = sd_outbox db" "sd_events (recordNotificationFact env db i) = sd_events db"
  "sd_documents (recordNotificationFact env db i) = sd_documents db"
  "sd_tick db \<le> sd_tick (recordNotificationFact env db i)"
  by (simp_all add: recordNotificationFact_def Let_def split: option.splits)

lemma append_event_sel [simp]:
  "sd_envelopes (appendEvent env db i) = sd_envelopes db" "sd_signers (appendEvent env db i) = sd_signers db"
  "sd_sessions (appendEvent env db i) = sd_sessions db" "sd_fields (appendEvent env db i) = sd_fields db"
  "sd_outbox (appendEvent env db i) = sd_outbox db" "sd_documents (appendEvent env db i) = sd_documents db"
  by (simp_all add: appendEvent_def Let_def)

lemma append_event_tick: "sd_tick db < sd_tick (appendEvent env db i)"
  unfolding appendEvent_def Let_def
  by (rule less_le_trans [OF _ record_fact_sel(8)]) simp

lemma append_event_events:
  "sd_events (appendEvent env db i) =
     sd_events db @ [new_sign_event (sv_chain env) (sd_events db) i (uuid_of env (tick db)) (now_of env db)]"
  by (simp add: appendEvent_def Let_def)

lemma view_append [simp]: "view (appendEvent env db i) = view db"
  by (simp add: view_def)

lemma used_ids_append [simp]: "used_ids (appendEvent env db i) = used_ids db"
  by (simp add: used_ids_def)

lemma sim_append [simp]: "sim env db (appendEvent env db i)"
  by (rule sim_frame) (simp_all add: append_event_tick less_imp_le)

lemma find_envelope_frame [simp]:
  "find_envelope (tick db) = find_envelope db" "find_envelope (appendEvent env db i) = find_envelope db"
  by (simp_all add: find_envelope_def fun_eq_iff)

text \<open>Envelope updates that keep id, tenant, status and routing mode.\<close>

lemma core_update_where:
  "(\<And>e. core_env (f e) = core_env e) \<Longrightarrow> map core_env (update_where P f es) = map core_env es"
  by (rule map_update_where) simp

lemma view_touch [simp]: "view (touch eid db) = view db"
proof -
  have "map core_env (sd_envelopes (touch eid db)) = map core_env (sd_envelopes db)"
    unfolding touch_def by (simp add: core_update_where core_env_def)
  then show ?thesis by (intro view_eqI) (simp_all add: touch_def)
qed

lemma ids_update_where: "(\<And>e. en_id (f e) = en_id e) \<Longrightarrow> en_id ` set (update_where P f es) = en_id ` set es"
  by (metis image_set map_update_where)

lemma sim_touch [simp]: "sim env db (touch eid db)"
  by (rule sim_frame) (simp_all add: used_ids_def touch_def ids_update_where del: view_sel, simp add: touch_def [symmetric])

lemma sim_set_expires_at [simp]: "sim env db (set_expires_at eid t db)"
proof (rule sim_frame)
  have "map core_env (sd_envelopes (set_expires_at eid t db)) = map core_env (sd_envelopes db)"
    unfolding set_expires_at_def by (simp add: core_update_where core_env_def)
  then show "view (set_expires_at eid t db) = view db" by (intro view_eqI) (simp_all add: set_expires_at_def)
qed (simp_all add: set_expires_at_def used_ids_def ids_update_where)

lemma sim_commit:
  assumes "commit eid db r = (db', x)" "\<And>y db1. r = Inr (y, db1) \<Longrightarrow> sim env db db1"
  shows "sim env db db'"
  using assms by (auto simp: commit_def split: sum.splits prod.splits intro: sim_trans [OF _ sim_touch])

section \<open>Sessions\<close>

lemma view_sessions_eqI:
  "sd_envelopes db' = sd_envelopes db \<Longrightarrow> sd_signers db' = sd_signers db \<Longrightarrow> sd_outbox db' = sd_outbox db \<Longrightarrow>
     map context_of (filter live_session (sd_sessions db')) = ls \<Longrightarrow> view db' = (view db)\<lparr>vw_live := ls\<rparr>"
  by (intro view_eqI) simp_all

lemma filter_live_update:
  assumes "\<And>s. P s \<Longrightarrow> live_session s \<Longrightarrow> \<not> live_session (f s)" "\<And>s. P s \<Longrightarrow> \<not> live_session s \<Longrightarrow> \<not> live_session (f s)"
  shows "filter live_session (update_where P f xs) = filter (\<lambda>s. \<not> P s) (filter live_session xs)"
  using assms by (induction xs) (auto simp: update_where_def)

lemma not_live_simps [simp]:
  "\<not> live_session (s\<lparr>ss_status := REVOKED, ss_revoked_at := t\<rparr>)"
  "\<not> live_session (s\<lparr>ss_status := SESSION_COMPLETED, ss_completed_at := t\<rparr>)"
  "\<not> live_session (s\<lparr>ss_status := SESSION_EXPIRED\<rparr>)"
  by (simp_all add: live_session_def LIVE_SESSION_STATUSES_def)

lemma revoke_where_sel [simp]:
  "sd_envelopes (revoke_where P t db) = sd_envelopes db" "sd_signers (revoke_where P t db) = sd_signers db"
  "sd_outbox (revoke_where P t db) = sd_outbox db" "sd_tick (revoke_where P t db) = sd_tick db"
  "sd_fields (revoke_where P t db) = sd_fields db" "sd_events (revoke_where P t db) = sd_events db"
  "sd_documents (revoke_where P t db) = sd_documents db"
  "map ss_id (sd_sessions (revoke_where P t db)) = map ss_id (sd_sessions db)"
  by (simp_all add: revoke_where_def map_update_where)

lemma revoke_where_ids [simp]: "used_ids (revoke_where P t db) = used_ids db"
  unfolding used_ids_def by (metis image_set revoke_where_sel(1,2,8))

lemma filter_live_revoke:
  "(\<And>s. \<not> live_session (f s)) \<Longrightarrow>
     filter live_session (update_where (\<lambda>s. P s \<and> live_session s) f xs) = filter (\<lambda>s. \<not> P s) (filter live_session xs)"
  by (induction xs) (auto simp: update_where_def)

lemma revoke_where_live:
  "filter live_session (sd_sessions (revoke_where P t db)) = filter (\<lambda>s. \<not> P s) (filter live_session (sd_sessions db))"
  unfolding revoke_where_def by (simp add: filter_live_revoke del: filter_filter)

lemma view_revoke:
  assumes "\<And>s. P s = Q (context_of s)"
  shows "view (revoke_where P t db) = (view db)\<lparr>vw_live := filter (\<lambda>c. \<not> Q c) (vw_live (view db))\<rparr>"
  by (rule view_sessions_eqI) (simp_all add: revoke_where_live assms filter_map o_def)

lemma sim_revoke:
  assumes "\<And>s. P s = Q (context_of s)"
  shows "sim env db (revoke_where P t db)"
  by (rule sim_steps) (auto simp only: view_revoke [where P = P and Q = Q, OF assms] intro!: r_into_rtranclp vstep.kill, simp_all)

text \<open>Every revocation of the service selects by tenant, envelope and, mostly, signer.\<close>

lemma sim_revoke_signer [simp]:
  "sim env db (revoke_where (\<lambda>x. ss_tenant_id x = tenant \<and> ss_envelope_id x = eid \<and> ss_signer_id x = sid) t db)"
  by (rule sim_revoke [where Q = "\<lambda>c. cx_tenant_id c = tenant \<and> cx_envelope_id c = eid \<and> cx_signer_id c = sid"]) simp

lemma update_session_sel [simp]:
  "sd_envelopes (update_session sid f db) = sd_envelopes db" "sd_signers (update_session sid f db) = sd_signers db"
  "sd_outbox (update_session sid f db) = sd_outbox db" "sd_tick (update_session sid f db) = sd_tick db"
  "sd_fields (update_session sid f db) = sd_fields db" "sd_events (update_session sid f db) = sd_events db"
  "sd_documents (update_session sid f db) = sd_documents db"
  by (simp_all add: update_session_def)

lemma update_session_ids:
  assumes "\<And>s. ss_id (f s) = ss_id s"
  shows "map ss_id (sd_sessions (update_session sid f db)) = map ss_id (sd_sessions db)" "used_ids (update_session sid f db) = used_ids db"
proof -
  show m: "map ss_id (sd_sessions (update_session sid f db)) = map ss_id (sd_sessions db)"
    using assms by (simp add: update_session_def map_update_where)
  then show "used_ids (update_session sid f db) = used_ids db" unfolding used_ids_def by (metis image_set update_session_sel(1,2))
qed

text \<open>Updates of a session's columns that keep its authority.\<close>

lemma sim_session_frame:
  assumes "\<And>s. context_of (f s) = context_of s" "\<And>s. s \<in> set (sd_sessions db) \<Longrightarrow> ss_id s = sid \<Longrightarrow> live_session (f s) = live_session s"
  shows "sim env db (update_session sid f db)"
proof (rule sim_frame)
  have "map context_of (filter live_session (update_where (\<lambda>s. ss_id s = sid) f xs)) = map context_of (filter live_session xs)"
    if "set xs \<subseteq> set (sd_sessions db)" for xs
    using that assms by (induction xs) (auto simp: update_where_def)
  then show "view (update_session sid f db) = view db" by (intro view_eqI) (simp_all add: update_session_def)
  have "ss_id (f s) = ss_id s" for s using arg_cong [OF assms(1), of cx_session_id s] by simp
  from update_session_ids [of f, OF this]
  show "map ss_id (sd_sessions (update_session sid f db)) = map ss_id (sd_sessions db)" "used_ids (update_session sid f db) = used_ids db"
    by simp_all
qed simp

lemma view_session_end:
  assumes "\<And>s. \<not> live_session (f s)"
  shows "view (update_session sid f db) = (view db)\<lparr>vw_live := filter (\<lambda>c. cx_session_id c \<noteq> sid) (vw_live (view db))\<rparr>"
  by (rule view_sessions_eqI) (simp_all add: update_session_def filter_live_update assms filter_map o_def)

lemma sim_session_end:
  assumes "\<And>s. \<not> live_session (f s)" "\<And>s. ss_id (f s) = ss_id s"
  shows "sim env db (update_session sid f db)"
proof (rule sim_steps)
  show "vstep\<^sup>*\<^sup>* (view db) (view (update_session sid f db))"
    unfolding view_session_end [of f, OF assms(1)] by (rule r_into_rtranclp, rule vstep.kill)
qed (simp_all add: update_session_ids [of f, OF assms(2)])

section \<open>Looking rows up\<close>

lemma find_envelope_Some:
  assumes "find_envelope db tenant eid = Some e"
  shows "e \<in> set (sd_envelopes db)" "en_tenant_id e = tenant" "en_id e = eid"
  using assms unfolding find_envelope_def by (auto simp: find_Some_iff)

lemma db_inv_env_ids: "db_inv env db \<Longrightarrow> distinct (map en_id (sd_envelopes db))"
  by (simp add: db_inv_def view_inv_def inv_ids_def o_def)

lemma find_envelope_unique:
  assumes "distinct (map en_id (sd_envelopes db))" "e \<in> set (sd_envelopes db)"
  shows "find_envelope db (en_tenant_id e) (en_id e) = Some e"
proof -
  have "find (\<lambda>x. en_tenant_id x = en_tenant_id e \<and> en_id x = en_id e) xs = Some e"
    if "distinct (map en_id xs)" "e \<in> set xs" for xs
    using that by (induction xs) (auto simp: image_iff)
  with assms show ?thesis by (simp add: find_envelope_def)
qed

lemma find_recipient_Some:
  assumes "find_recipient db tenant eid sid = Some s"
  shows "s \<in> set (sd_signers db)" "sg_tenant_id s = tenant" "sg_envelope_id s = eid" "sg_id s = sid"
  using assms unfolding find_recipient_def by (auto simp: find_Some_iff)

lemma find_signer_Some:
  assumes "find_signer db tenant sid = Some s"
  shows "s \<in> set (sd_signers db)" "sg_tenant_id s = tenant" "sg_id s = sid"
  using assms unfolding find_signer_def by (auto simp: find_Some_iff)

lemma view_rows: "rows_of (view db) tenant eid = map core_signer (envelope_signers (sd_signers db) tenant eid)"
  by (simp add: rows_of_def envelope_signers_def filter_map o_def)

lemma mem_view_rows:
  "core_signer s \<in> set (rows_of (view db) tenant eid)" if "s \<in> set (sd_signers db)" "sg_tenant_id s = tenant" "sg_envelope_id s = eid"
  using that by (auto simp: view_rows envelope_signers_def)

lemma lockSignable_Inr:
  assumes "lockSignableEnvelope db tenant eid = Inr st"
  shows "\<exists>e. find_envelope db tenant eid = Some e \<and> en_status e = st \<and> (st = SENT \<or> st = IN_PROGRESS)"
  using assms by (auto simp: lockSignableEnvelope_def lockEnvelope_def rbind_def split: option.splits if_splits sum.splits)

lemma lockEnvelope_Inr: "lockEnvelope db tenant eid = Inr st \<Longrightarrow> \<exists>e. find_envelope db tenant eid = Some e \<and> en_status e = st"
  by (auto simp: lockEnvelope_def split: option.splits)

section \<open>Minting\<close>

lemma ids_ok_insert:
  assumes "ids_ok env db" "used_ids db' = insert (sv_uuid env k) (used_ids db)" "distinct (map ss_id (sd_sessions db'))"
    "k < sd_tick db'" "sd_tick db \<le> sd_tick db'"
  shows "ids_ok env db'"
proof -
  have "sv_uuid env ` {..<sd_tick db} \<subseteq> sv_uuid env ` {..<sd_tick db'}" using assms(5) by auto
  with assms show ?thesis unfolding ids_ok_def by auto
qed

lemma fresh_uuid:
  assumes "inj (sv_uuid env)" "db_inv env db" "sd_tick db \<le> k"
  shows "sv_uuid env k \<notin> used_ids db"
proof
  assume "sv_uuid env k \<in> used_ids db"
  then obtain j where "j < sd_tick db" "sv_uuid env k = sv_uuid env j" using assms(2) by (auto simp: db_inv_def ids_ok_def)
  with injD [OF assms(1)] assms(3) show False by fastforce
qed

lemma mint_session_sel:
  assumes "mint_session env db tenant eid sid t og h a = (m, db')"
  shows "sd_envelopes db' = sd_envelopes db" "sd_signers db' = sd_signers db" "sd_outbox db' = sd_outbox db"
    "sd_fields db' = sd_fields db" "sd_events db' = sd_events db" "sd_tick db' = Suc (Suc (Suc (sd_tick db)))"
    "find_envelope db' = find_envelope db" "is_session_id m = sv_uuid env (Suc (sd_tick db))"
    "\<exists>s. sd_sessions db' = sd_sessions db @ [s] \<and> live_session s \<and> ss_id s = sv_uuid env (Suc (sd_tick db)) \<and>
       ss_tenant_id s = tenant \<and> ss_envelope_id s = eid \<and> ss_signer_id s = sid \<and> ss_origin s = Some og"
  using assms
  by (auto simp: mint_session_def Let_def uuid_of_def find_envelope_def fun_eq_iff live_session_def LIVE_SESSION_STATUSES_def)

lemma sim_mint:
  assumes inj: "inj (sv_uuid env)" and m: "mint_session env db tenant eid sid t og h a = (m, db')"
    and e: "find_envelope db tenant eid = Some e" "en_status e = SENT \<or> en_status e = IN_PROGRESS"
    and s: "s \<in> set (sd_signers db)" "sg_id s = sid" "sg_tenant_id s = tenant" "sg_envelope_id s = eid" "isSigningRecipient s"
  shows "sim env db db'"
  unfolding sim_def
proof
  assume inv: "db_inv env db"
  obtain x where x: "sd_sessions db' = sd_sessions db @ [x]" "live_session x" "ss_id x = sv_uuid env (Suc (sd_tick db))"
    "ss_tenant_id x = tenant" "ss_envelope_id x = eid" "ss_signer_id x = sid"
    using mint_session_sel(9) [OF m] by blast
  have new: "ss_id x \<notin> used_ids db"
    unfolding x(3) by (rule fresh_uuid [OF inj inv]) simp
  have "view db' = (view db)\<lparr>vw_live := vw_live (view db) @ [context_of x]\<rparr>"
    by (rule view_sessions_eqI) (simp_all add: mint_session_sel [OF m] x)
  moreover have "vstep (view db) ((view db)\<lparr>vw_live := vw_live (view db) @ [context_of x]\<rparr>)"
  proof (rule vstep.mint [of "core_env e" _ _ "core_signer s"])
    show "core_env e \<in> set (vw_envs (view db))" using find_envelope_Some(1) [OF e(1)] by simp
    show "signable (core_env e)" using e(2) by (simp add: signable_def)
    show "of_envelope (core_env e) (context_of x)" using find_envelope_Some [OF e(1)] x by (simp add: of_envelope_def)
    show "core_signer s \<in> set (rows_of (view db) (ec_tenant (core_env e)) (ec_id (core_env e)))"
      using mem_view_rows [OF s(1,3,4)] find_envelope_Some [OF e(1)] by simp
    show "isSigningRecipient (core_signer s)" "sg_id (core_signer s) = cx_signer_id (context_of x)" using s x by simp_all
    show "cx_session_id (context_of x) \<notin> cx_session_id ` set (vw_live (view db))"
      using new by (auto simp: used_ids_def)
  qed
  ultimately have "vstep\<^sup>*\<^sup>* (view db) (view db')" by simp
  moreover have "ids_ok env db'"
  proof (rule ids_ok_insert [where k = "Suc (sd_tick db)" and db = db])
    show "used_ids db' = insert (sv_uuid env (Suc (sd_tick db))) (used_ids db)"
      using x(1,3) mint_session_sel(1,2) [OF m] by (auto simp: used_ids_def)
    show "distinct (map ss_id (sd_sessions db'))"
      using inv new x(1) by (auto simp: db_inv_def ids_ok_def used_ids_def)
  qed (use inv mint_session_sel(6) [OF m] in \<open>simp_all add: db_inv_def\<close>)
  ultimately show "vstep\<^sup>*\<^sup>* (view db) (view db') \<and> ids_ok env db'" by simp
qed

section \<open>Transitions\<close>

lemma set_timestamp_sel [simp]:
  "en_id (set_timestamp f t e) = en_id e" "en_tenant_id (set_timestamp f t e) = en_tenant_id e"
  "en_status (set_timestamp f t e) = en_status e" "en_routing_mode (set_timestamp f t e) = en_routing_mode e"
  "en_envelope_mode (set_timestamp f t e) = en_envelope_mode e"
  by (cases f; simp; rename_tac x; case_tac x; simp)+

lemma terminal_outbox_sel [simp]:
  "sd_envelopes (terminal_outbox env tn eid st db) = sd_envelopes db" "sd_signers (terminal_outbox env tn eid st db) = sd_signers db"
  "sd_sessions (terminal_outbox env tn eid st db) = sd_sessions db" "sd_fields (terminal_outbox env tn eid st db) = sd_fields db"
  "sd_events (terminal_outbox env tn eid st db) = sd_events db" "sd_tick db \<le> sd_tick (terminal_outbox env tn eid st db)"
  "sd_documents (terminal_outbox env tn eid st db) = sd_documents db"
  "map (\<lambda>b. (so_tenant_id b, so_envelope_id b, so_event_type b)) (sd_outbox (terminal_outbox env tn eid st db)) =
     map (\<lambda>b. (so_tenant_id b, so_envelope_id b, so_event_type b)) (sd_outbox db) @
     (case TERMINAL_OUTBOX_EVENT_TYPES st of None \<Rightarrow> [] | Some ty \<Rightarrow> [(tn, eid, ty)])"
  by (simp_all add: terminal_outbox_def split: option.splits)

text \<open>A transition that goes through: the row it hit, and what it leaves.\<close>

lemma transition_Inr:
  assumes t: "transitionEnvelopeIn env db i st ts = Inr db'" and d: "distinct (map en_id (sd_envelopes db))"
  obtains e where "find_envelope db (ae_tenant_id i) (ae_envelope_id i) = Some e" "st \<in> set (ENVELOPE_TRANSITIONS (en_status e))"
    "view db' = set_status (core_env e) st (view db)" "sd_signers db' = sd_signers db" "sd_fields db' = sd_fields db"
    "map ss_id (sd_sessions db') = map ss_id (sd_sessions db)" "used_ids db' = used_ids db" "sd_tick db < sd_tick db'"
    "\<exists>e'. find_envelope db' (ae_tenant_id i) (ae_envelope_id i) = Some e' \<and> en_status e' = st \<and> en_routing_mode e' = en_routing_mode e"
    "\<exists>u k. sd_events db' = sd_events db @ [new_sign_event (sv_chain env) (sd_events db) i (sv_uuid env (Suc k)) (sv_clock env k)] \<and> sd_tick db \<le> k \<and> Suc k < sd_tick db'"
proof -
  let ?tn = "ae_tenant_id i" and ?eid = "ae_envelope_id i"
  let ?hit = "\<lambda>e. en_id e = ?eid \<and> en_tenant_id e = ?tn \<and> en_status e \<in> set (predecessorsOf st)"
  let ?f = "\<lambda>e. set_timestamp ts (now_of env db) (e\<lparr>en_status := st\<rparr>)"
  let ?db2 = "(tick db)\<lparr>sd_envelopes := update_where ?hit ?f (sd_envelopes db)\<rparr>"
  let ?db3 = "if isTerminalEnvelopeStatus st then revoke_where (\<lambda>s. ss_tenant_id s = ?tn \<and> ss_envelope_id s = ?eid) (now_of env db) ?db2 else ?db2"
  have one: "length (filter ?hit (sd_envelopes db)) = 1"
    and db': "db' = terminal_outbox env ?tn ?eid st (appendEvent env ?db3 i)"
    using t by (auto simp: transitionEnvelopeIn_def Let_def split: if_splits option.splits)
  have "filter ?hit (sd_envelopes db) \<noteq> []" using one by (cases "filter ?hit (sd_envelopes db)") auto
  then obtain e where e: "e \<in> set (sd_envelopes db)" "?hit e" unfolding filter_empty_conv by blast
  have fe: "find_envelope db ?tn ?eid = Some e" using find_envelope_unique [OF d e(1)] e(2) by simp
  have uniq: "x = e" if "x \<in> set (sd_envelopes db)" "en_id x = en_id e" for x
    using d e(1) that by (auto simp: distinct_map inj_on_def)
  have envs: "map core_env (update_where ?hit ?f (sd_envelopes db)) =
      update_where (\<lambda>x. ec_id x = en_id e) (\<lambda>x. x\<lparr>ec_status := st\<rparr>) (map core_env (sd_envelopes db))"
    unfolding update_where_def map_map using uniq e(2) by (intro map_cong) (auto simp: core_env_def)
  have live: "map context_of (filter live_session (sd_sessions ?db3)) =
      vw_live (set_status (core_env e) st (view db))"
    using e(2) by (auto simp: set_status_def revoke_where_live of_envelope_def filter_map o_def intro!: arg_cong [of _ _ "map context_of"] filter_cong)
  have v: "view db' = set_status (core_env e) st (view db)"
    unfolding db' by (intro view_eqI) (use envs live e(2) in \<open>simp_all add: set_status_def cong: option.case_cong\<close>)
  have ss: "map ss_id (sd_sessions db') = map ss_id (sd_sessions db)" by (simp add: db')
  have u: "used_ids db' = used_ids db"
  proof -
    have "ss_id ` set (sd_sessions db') = ss_id ` set (sd_sessions db)" using ss by (metis image_set)
    moreover have "en_id ` set (sd_envelopes db') = en_id ` set (sd_envelopes db)" unfolding db' by (simp add: ids_update_where)
    moreover have "sd_signers db' = sd_signers db" by (simp add: db')
    ultimately show ?thesis by (simp add: used_ids_def)
  qed
  have ev: "sd_events db' = sd_events db @ [new_sign_event (sv_chain env) (sd_events db) i (sv_uuid env (Suc (Suc (sd_tick db)))) (sv_clock env (Suc (sd_tick db)))]"
    unfolding db' by (simp add: append_event_events uuid_of_def now_of_def)
  have tk: "Suc (Suc (sd_tick db)) < sd_tick db'"
  proof -
    have "Suc (sd_tick ?db3) < sd_tick (appendEvent env ?db3 i)"
      unfolding appendEvent_def Let_def by (rule less_le_trans [OF _ record_fact_sel(8)]) simp
    moreover have "sd_tick ?db3 = Suc (sd_tick db)" by simp
    ultimately have "Suc (Suc (sd_tick db)) < sd_tick (appendEvent env ?db3 i)" by linarith
    then show ?thesis unfolding db' by (rule less_le_trans) (rule terminal_outbox_sel(6))
  qed
  have d': "distinct (map en_id (sd_envelopes db'))" unfolding db' using d by (simp add: map_update_where)
  have "?f e \<in> set (sd_envelopes db')" unfolding db' using e by (auto intro!: bexI [of _ e])
  from find_envelope_unique [OF d' this] have "find_envelope db' ?tn ?eid = Some (?f e)" using e(2) by simp
  then show thesis
    by (intro that [of e]) (use fe e(2) v ss u ev tk in \<open>auto simp: db'\<close>)
qed

lemma sim_transition:
  assumes t: "transitionEnvelopeIn env db i st ts = Inr db'"
    and c: "st = COMPLETED \<Longrightarrow> allSigningRecipientsSigned (envelope_signers (sd_signers db) (ae_tenant_id i) (ae_envelope_id i))"
  shows "sim env db db'"
  unfolding sim_def
proof
  assume inv: "db_inv env db"
  obtain e where e: "find_envelope db (ae_tenant_id i) (ae_envelope_id i) = Some e" "st \<in> set (ENVELOPE_TRANSITIONS (en_status e))"
    "view db' = set_status (core_env e) st (view db)" "map ss_id (sd_sessions db') = map ss_id (sd_sessions db)"
    "used_ids db' = used_ids db" "sd_tick db < sd_tick db'"
    using transition_Inr [OF t db_inv_env_ids [OF inv]] by metis
  have fin: "allSigningRecipientsSigned (rows_of (view db) (ec_tenant (core_env e)) (ec_id (core_env e)))" if "st = COMPLETED"
    using c [OF that] find_envelope_Some [OF e(1)] by (auto simp: all_signed_iff view_rows)
  have "vstep (view db) (view db')" unfolding e(3)
    by (rule vstep.move) (use find_envelope_Some(1) [OF e(1)] e(2) fin in auto)
  moreover have "ids_ok env db'"
    using inv e(4-6) by (auto simp: db_inv_def ids_ok_def)
  ultimately show "vstep\<^sup>*\<^sup>* (view db) (view db') \<and> ids_ok env db'" by simp
qed

section \<open>Recipients\<close>

lemma update_signer_sel [simp]:
  "sd_envelopes (update_signer sid f db) = sd_envelopes db" "sd_sessions (update_signer sid f db) = sd_sessions db"
  "sd_outbox (update_signer sid f db) = sd_outbox db" "sd_tick (update_signer sid f db) = sd_tick db"
  "sd_fields (update_signer sid f db) = sd_fields db" "sd_events (update_signer sid f db) = sd_events db"
  "find_envelope (update_signer sid f db) = find_envelope db"
  by (simp_all add: update_signer_def find_envelope_def fun_eq_iff)

lemma view_update_signer:
  assumes "\<And>s. core_signer (f s) = g (core_signer s)"
  shows "view (update_signer sid f db) = set_signer sid g (view db)"
  by (intro view_eqI) (auto simp: update_signer_def update_where_def assms)

lemma ids_update_signer:
  assumes "\<And>s. sg_id (f s) = sg_id s"
  shows "used_ids (update_signer sid f db) = used_ids db"
proof -
  have "map sg_id (sd_signers (update_signer sid f db)) = map sg_id (sd_signers db)"
    using assms by (simp add: update_signer_def map_update_where)
  then show ?thesis unfolding used_ids_def by (metis image_set update_signer_sel(1,2))
qed

lemma sim_signer_step:
  assumes "\<And>s. core_signer (f s) = g (core_signer s)" "\<And>s. sg_id (f s) = sg_id s"
    and "db_inv env db \<Longrightarrow> vstep (view db) (set_signer sid g (view db))"
  shows "sim env db (update_signer sid f db)"
  by (rule sim_steps) (use assms in \<open>simp_all add: view_update_signer [where g = g] ids_update_signer r_into_rtranclp\<close>)

lemma find_recipient_unique:
  assumes "db_inv env db" "s \<in> set (sd_signers db)"
  shows "find_recipient db (sg_tenant_id s) (sg_envelope_id s) (sg_id s) = Some s"
proof -
  have d: "distinct (map sg_id (sd_signers db))" using assms(1) by (simp add: db_inv_def view_inv_def inv_ids_def o_def)
  have "find (\<lambda>x. sg_id x = sg_id s \<and> sg_tenant_id x = sg_tenant_id s \<and> sg_envelope_id x = sg_envelope_id s) xs = Some s"
    if "distinct (map sg_id xs)" "s \<in> set xs" for xs
    using that by (induction xs) (auto simp: image_iff)
  with d assms(2) show ?thesis by (simp add: find_recipient_def)
qed

lemma signer_unique:
  "db_inv env db \<Longrightarrow> s \<in> set (sd_signers db) \<Longrightarrow> x \<in> set (sd_signers db) \<Longrightarrow> sg_id x = sg_id s \<Longrightarrow> x = s"
  by (auto simp: db_inv_def view_inv_def inv_ids_def distinct_map inj_on_def)

lemma wf_envelope_signers:
  assumes "db_inv env db"
  shows "wf_rows (envelope_signers (sd_signers db) tenant eid)"
  using assms unfolding wf_rows_def envelope_signers_def
  by (auto simp: db_inv_def view_inv_def inv_ids_def distinct_map inj_on_def route_key_def)

section \<open>Eligibility\<close>

lemma currentTurn_view:
  "map_option sg_id (currentTurnOf (map core_signer rows)) = map_option sg_id (currentTurnOf rows)"
proof -
  have "sort_key sg_signing_order (map core_signer xs) = map core_signer (sort_key sg_signing_order xs)" for xs
    by (rule sort_key_map) simp
  then have "currentTurnOf (map core_signer rows) = map_option core_signer (currentTurnOf rows)"
    by (simp add: currentTurnOf_def signingRecipients_def filter_map o_def head_opt_def split: list.splits)
  then show ?thesis by (simp add: option.map_comp o_def)
qed

lemma find_map_core: "find P (map core_signer xs) = map_option core_signer (find (\<lambda>x. P (core_signer x)) xs)"
  by (induction xs) auto

lemma witnessReady_view: "witnessReady (map core_signer rows) (core_signer r) = witnessReady rows r"
  by (simp add: witnessReady_def find_map_core split: option.splits)

lemma mayActNow_view: "mayActNow mode (map core_signer rows) sid = mayActNow mode rows sid"
  by (simp add: mayActNow_def find_map_core currentTurn_view witnessReady_view split: option.splits)

lemma find_conj_filter: "find P (filter Q xs) = find (\<lambda>x. P x \<and> Q x) xs"
  by (induction xs) auto

lemma find_recipient_rows:
  "find (\<lambda>r. sg_id r = sid) (envelope_signers (sd_signers db) tenant eid) = find_recipient db tenant eid sid"
  by (simp add: envelope_signers_def find_recipient_def find_conj_filter)

lemma witnessed_rows:
  "isWitness r \<Longrightarrow> witnessReady (envelope_signers (sd_signers db) tenant eid) r = witnessed_signed db tenant eid r"
proof (cases "sg_witness_for_signer_id r")
  case None
  moreover have "find (\<lambda>x. False) (envelope_signers (sd_signers db) tenant eid) = None" by (simp add: find_None_iff)
  ultimately show "isWitness r \<Longrightarrow> ?thesis" by (simp add: witnessReady_def witnessed_signed_def)
next
  case (Some w)
  then show "isWitness r \<Longrightarrow> ?thesis"
    using find_recipient_rows [of w db tenant eid] by (simp add: witnessReady_def witnessed_signed_def)
qed

text \<open>The engine's check and the shared helper decide the same, for a recipient who signs.\<close>

lemma eligible_iff_mayAct:
  assumes "find_envelope db tenant eid = Some e" "find_recipient db tenant eid sid = Some r" "isSigningRecipient r"
  shows "assertEligible db tenant eid sid = Inr () \<longleftrightarrow>
    mayActNow (en_routing_mode e) (envelope_signers (sd_signers db) tenant eid) sid"
proof -
  have "(isWitness r \<and> \<not> witnessed_signed db tenant eid r) = (\<not> witnessReady (envelope_signers (sd_signers db) tenant eid) r)"
    using witnessed_rows [of r db tenant eid] by (cases "isWitness r") (auto simp: witnessReady_def)
  then show ?thesis
    using assms unfolding assertEligible_def mayActNow_def find_recipient_rows currentSequentialSigner_def currentTurnSignerId_rows
    by (cases "en_routing_mode e") auto
qed

lemma signer_guard_Inr:
  assumes "signer_guard env db ctx = Inr (st, live)"
  obtains e where "find_envelope db (cx_tenant_id ctx) (cx_envelope_id ctx) = Some e" "en_status e = st" "st = SENT \<or> st = IN_PROGRESS"
    "live \<in> set (sd_sessions db)" "live_session live" "context_of live = ctx" "\<not> ss_expires_at live < now_of env db"
    "assertEligible db (cx_tenant_id ctx) (cx_envelope_id ctx) (cx_signer_id ctx) = Inr ()" "assertAccessCodeCleared db ctx = Inr ()"
proof -
  have l: "lockSignableEnvelope db (cx_tenant_id ctx) (cx_envelope_id ctx) = Inr st" "assertLiveSession db ctx (now_of env db) = Inr live"
    "assertEligible db (cx_tenant_id ctx) (cx_envelope_id ctx) (cx_signer_id ctx) = Inr ()" "assertAccessCodeCleared db ctx = Inr ()"
    using assms by (auto simp: signer_guard_def rbind_def split: sum.splits)
  have live: "live \<in> set (sd_sessions db)" "live_session live" "context_of live = ctx" "\<not> ss_expires_at live < now_of env db"
    using l(2) by (auto simp: assertLiveSession_def find_Some_iff context_of_def live_session_def split: option.splits if_splits)
  obtain e where "find_envelope db (cx_tenant_id ctx) (cx_envelope_id ctx) = Some e" "en_status e = st" "st = SENT \<or> st = IN_PROGRESS"
    using lockSignable_Inr [OF l(1)] by blast
  then show thesis using live l(3,4) by (rule that)
qed

text \<open>The recipient behind a session that still carries authority.\<close>

lemma live_recipient:
  assumes inv: "db_inv env db" and s: "x \<in> set (sd_sessions db)" "live_session x"
  obtains r where "find_recipient db (ss_tenant_id x) (ss_envelope_id x) (ss_signer_id x) = Some r" "isSigningRecipient r"
    "r \<in> set (sd_signers db)" "sg_id r = ss_signer_id x" "sg_tenant_id r = ss_tenant_id x" "sg_envelope_id r = ss_envelope_id x"
proof -
  have c: "context_of x \<in> set (vw_live (view db))" using s by simp
  have "inv_live (view db)" using inv by (simp add: db_inv_def view_inv_def)
  then have "\<exists>s\<in>set (rows_of (view db) (cx_tenant_id (context_of x)) (cx_envelope_id (context_of x))). isSigningRecipient s \<and> sg_id s = cx_signer_id (context_of x)"
    using c unfolding inv_live_def by blast
  then obtain r where r: "r \<in> set (rows_of (view db) (ss_tenant_id x) (ss_envelope_id x))" "isSigningRecipient r" "sg_id r = ss_signer_id x"
    by auto
  then obtain y where y: "y \<in> set (sd_signers db)" "sg_tenant_id y = ss_tenant_id x" "sg_envelope_id y = ss_envelope_id x" "r = core_signer y"
    by (auto simp: view_rows envelope_signers_def)
  then have "sg_id y = ss_signer_id x" "isSigningRecipient y" using r by simp_all
  then show thesis using find_recipient_unique [OF inv y(1)] y by (intro that [of y]) simp_all
qed

section \<open>Sending\<close>

lemma find_update_where:
  "(\<And>x. Q (f x) = Q x) \<Longrightarrow> find Q (update_where P f xs) = map_option (\<lambda>x. if P x then f x else x) (find Q xs)"
  by (induction xs) (auto simp: update_where_def)

lemma find_envelope_expires:
  "find_envelope (set_expires_at eid t db) tenant i =
     map_option (\<lambda>e. if en_id e = eid then e\<lparr>en_expires_at := Some t\<rparr> else e) (find_envelope db tenant i)"
  unfolding find_envelope_def set_expires_at_def by (simp add: find_update_where)

lemma set_expires_at_sel [simp]:
  "sd_signers (set_expires_at eid t db) = sd_signers db" "sd_sessions (set_expires_at eid t db) = sd_sessions db"
  "sd_fields (set_expires_at eid t db) = sd_fields db" "sd_events (set_expires_at eid t db) = sd_events db"
  by (simp_all add: set_expires_at_def)

lemma signer_tenant:
  assumes "db_inv env db" "find_envelope db tenant eid = Some e" "s \<in> set (sd_signers db)" "sg_envelope_id s = eid"
  shows "sg_tenant_id s = tenant"
proof -
  have "fst (route_key (core_signer s)) \<in> set (map env_key (vw_envs (view db)))"
    using assms(1,3) by (auto simp: db_inv_def view_inv_def inv_ids_def)
  then obtain x where x: "x \<in> set (sd_envelopes db)" "en_tenant_id x = sg_tenant_id s" "en_id x = eid"
    using assms(4) by (auto simp: route_key_def env_key_def)
  have "x = e" using db_inv_env_ids [OF assms(1)] find_envelope_Some [OF assms(2)] x by (auto simp: distinct_map inj_on_def)
  with x find_envelope_Some [OF assms(2)] show ?thesis by simp
qed

lemma sim_mint_links:
  assumes "inj (sv_uuid env)" "mint_links env tenant eid now db ss = (ms, db')"
    "find_envelope db tenant eid = Some e" "en_status e = SENT \<or> en_status e = IN_PROGRESS"
    "\<forall>s\<in>set ss. s \<in> set (sd_signers db) \<and> sg_tenant_id s = tenant \<and> sg_envelope_id s = eid \<and> isSigningRecipient s"
  shows "sim env db db' \<and> sd_fields db' = sd_fields db \<and> sd_events db' = sd_events db \<and> sd_signers db' = sd_signers db"
  using assms(2-)
proof (induction ss arbitrary: db ms)
  case (Cons s ss)
  obtain m db1 where m: "mint_session env db tenant eid (sg_id s) (signingSessionExpiresAt now) LINK None None = (m, db1)"
    by (cases "mint_session env db tenant eid (sg_id s) (signingSessionExpiresAt now) LINK None None")
  obtain ms' db2 where l: "mint_links env tenant eid now db1 ss = (ms', db2)" by (cases "mint_links env tenant eid now db1 ss")
  have db': "db' = db2" using Cons.prems(1) m l by simp
  have "sim env db db1" by (rule sim_mint [OF assms(1) m Cons.prems(2,3)]) (use Cons.prems(4) in auto)
  moreover have "sim env db1 db2 \<and> sd_fields db2 = sd_fields db1 \<and> sd_events db2 = sd_events db1 \<and> sd_signers db2 = sd_signers db1"
    using Cons.IH [OF l [folded db']] Cons.prems(2-) mint_session_sel [OF m] db' by simp
  ultimately show ?case using db' mint_session_sel [OF m] by (auto intro: sim_trans)
qed simp

lemma sim_grants [simp]: "sim env db (db\<lparr>sd_grants := gs\<rparr>)"
  by (rule sim_frame) (simp_all add: view_def used_ids_def)

lemma sim_issue_copies: "issue_copies env tenant eid actor now db ccs = (cs, db') \<Longrightarrow> sim env db db'"
proof (induction ccs arbitrary: db cs)
  case (Cons cc ccs)
  obtain gs i cs' where "issue_copies env tenant eid actor now (appendEvent env ((tick (tick db))\<lparr>sd_grants := gs\<rparr>) i) ccs = (cs', db')"
    using Cons.prems by (simp add: Let_def split: prod.splits)
  from Cons.IH [OF this] show ?case
    by (rule sim_trans [OF sim_trans [OF sim_trans [OF sim_trans [OF sim_tick sim_tick] sim_grants] sim_append]])
qed simp

lemma currentTurnOf_in: "currentTurnOf rows = Some r \<Longrightarrow> r \<in> set rows \<and> isSigningRecipient r"
  unfolding currentTurnOf_def signingRecipients_def by (drule head_opt_in) auto

lemma invited_signing: "s \<in> set (invitedAtSend mode rows) \<Longrightarrow> s \<in> set rows \<and> isSigningRecipient s"
  by (auto simp: invitedAtSend_def signingRecipients_def dest: currentTurnOf_in [OF sym] split: if_splits option.splits)

lemma sim_send:
  assumes inj: "inj (sv_uuid env)" and s: "send env db tenant eid actor expected = (db', r)"
  shows "sim env db db'"
proof (cases "getEnvelopeFull db tenant eid")
  case (Inr x)
  obtain full documents signers where x: "x = (full, documents, signers)" by (cases x)
  have full: "signers = envelope_rows db eid" using Inr x by (auto simp: getEnvelopeFull_def split: option.splits)
  consider "db' = db" | "commit eid db (send_tx env (tick db) tenant eid actor expected (now_of env db) full signers) = (db', r)"
    using s Inr x by (auto simp: send_def split: if_splits)
  then show ?thesis
  proof cases
    case 2
    then show ?thesis
    proof (rule sim_commit)
      fix y db1 assume "send_tx env (tick db) tenant eid actor expected (now_of env db) full signers = Inr (y, db1)"
      then obtain i dbt where t: "transitionEnvelopeIn env (tick db) i SENT (Some Sent_at) = Inr dbt" "ae_tenant_id i = tenant" "ae_envelope_id i = eid"
        and rest: "(let db2 = set_expires_at eid (envelopeExpiresAt env (now_of env db)) dbt;
           invited = (if en_envelope_mode full = SELF_MODE then [] else invitedAtSend (en_routing_mode full) signers);
           (sessions, db3) = mint_links env tenant eid (now_of env db) db2 invited;
           (copies, db4) = issue_copies env tenant eid actor (now_of env db) db3 (copyRecipients signers At_Send)
           in Inr ((sessions, copies), db4)) = (Inr (y, db1) :: (sign_error, _) result)"
        unfolding send_tx_def rbind_Inr_iff by (auto simp: event_def simp del: split_paired_All Let_def)
      obtain ms db3 where m: "mint_links env tenant eid (now_of env db) (set_expires_at eid (envelopeExpiresAt env (now_of env db)) dbt)
          (if en_envelope_mode full = SELF_MODE then [] else invitedAtSend (en_routing_mode full) signers) = (ms, db3)"
        by (meson surj_pair)
      obtain cs where c: "issue_copies env tenant eid actor (now_of env db) db3 (copyRecipients signers At_Send) = (cs, db1)"
        using rest m by (auto simp: Let_def split: prod.splits)
      let ?dbe = "set_expires_at eid (envelopeExpiresAt env (now_of env db)) dbt"
      have st: "sim env (tick db) dbt" by (rule sim_transition [OF t(1)]) simp
      show "sim env db db1"
      proof (rule sim_transI [OF sim_tick], rule sim_transI [OF st])
        assume inv: "db_inv env (tick db)" and invt: "db_inv env dbt"
        obtain e' where e': "find_envelope dbt tenant eid = Some e'" "en_status e' = SENT" "sd_signers dbt = sd_signers db"
          using transition_Inr [OF t(1) db_inv_env_ids [OF inv]] t(2,3) by (metis tick_sel(3))
        have rows: "\<forall>s\<in>set (if en_envelope_mode full = SELF_MODE then [] else invitedAtSend (en_routing_mode full) signers).
            s \<in> set (sd_signers ?dbe) \<and> sg_tenant_id s = tenant \<and> sg_envelope_id s = eid \<and> isSigningRecipient s"
        proof
          fix s assume "s \<in> set (if en_envelope_mode full = SELF_MODE then [] else invitedAtSend (en_routing_mode full) signers)"
          then have "s \<in> set signers" "isSigningRecipient s" using invited_signing by (auto split: if_splits)
          then have "s \<in> set (sd_signers dbt)" "sg_envelope_id s = eid" using full e'(3) by (auto simp: envelope_rows_def)
          with signer_tenant [OF invt e'(1)] \<open>isSigningRecipient s\<close>
          show "s \<in> set (sd_signers ?dbe) \<and> sg_tenant_id s = tenant \<and> sg_envelope_id s = eid \<and> isSigningRecipient s" by simp
        qed
        have "find_envelope ?dbe tenant eid = Some (if en_id e' = eid then e'\<lparr>en_expires_at := Some (envelopeExpiresAt env (now_of env db))\<rparr> else e')"
          by (simp add: find_envelope_expires e'(1))
        then have "sim env ?dbe db3" using sim_mint_links [OF inj m _ _ rows] e'(2) by auto
        from sim_trans [OF sim_trans [OF sim_set_expires_at this] sim_issue_copies [OF c]] show "sim env dbt db1" .
      qed
    qed
  qed simp
qed (use s in \<open>simp add: send_def\<close>)

section \<open>Drafting\<close>

lemma sim_columns [simp]:
  "sim env db (db\<lparr>sd_documents := ds\<rparr>)" "sim env db (db\<lparr>sd_fields := fs\<rparr>)" "sim env db (db\<lparr>sd_acceptances := as\<rparr>)"
  "sim env db (db\<lparr>sd_deliveries := ns\<rparr>)" "sim env db (db\<lparr>sd_bindings := bs\<rparr>)" "sim env db (db\<lparr>sd_facts := ts\<rparr>)"
  by (rule sim_frame; simp add: view_def used_ids_def)+

lemma sim_create:
  assumes inj: "inj (sv_uuid env)" and c: "createEnvelope env db input = (db', eid)"
  shows "sim env db db'"
  unfolding sim_def
proof
  assume inv: "db_inv env db"
  have "\<exists>row i. db' = appendEvent env ((tick (tick db))\<lparr>sd_envelopes := sd_envelopes (tick (tick db)) @ [row]\<rparr>) i \<and>
      en_id row = uuid_of env db \<and> en_status row = DRAFT"
    using c unfolding createEnvelope_def Let_def prod.inject by (elim conjE) (intro exI conjI, erule sym, simp_all)
  then obtain row i where row: "en_id row = uuid_of env db" "en_status row = DRAFT"
    and db': "db' = appendEvent env ((tick (tick db))\<lparr>sd_envelopes := sd_envelopes db @ [row]\<rparr>) i" by auto
  let ?db = "(tick (tick db))\<lparr>sd_envelopes := sd_envelopes db @ [row]\<rparr>"
  have new: "en_id row \<notin> used_ids db" unfolding row(1) uuid_of_def by (rule fresh_uuid [OF inj inv]) simp
  have "view db' = (view db)\<lparr>vw_envs := vw_envs (view db) @ [\<lparr> ec_id = en_id row, ec_tenant = en_tenant_id row, ec_status = DRAFT, ec_mode = en_routing_mode row \<rparr>]\<rparr>"
    unfolding db' by (intro view_eqI) (simp_all add: row(2) core_env_def)
  moreover have "vstep (view db) ((view db)\<lparr>vw_envs := vw_envs (view db) @ [\<lparr> ec_id = en_id row, ec_tenant = en_tenant_id row, ec_status = DRAFT, ec_mode = en_routing_mode row \<rparr>]\<rparr>)"
    by (rule vstep.create) (use new in \<open>auto simp: used_ids_def\<close>)
  moreover have "ids_ok env db'"
  proof (rule ids_ok_insert [where k = "sd_tick db" and db = db])
    show "used_ids db' = insert (sv_uuid env (sd_tick db)) (used_ids db)"
      unfolding db' by (auto simp: used_ids_def row(1) uuid_of_def)
    have "Suc (Suc (sd_tick db)) < sd_tick db'" using append_event_tick [of ?db env i] db' by simp
    then show "sd_tick db < sd_tick db'" "sd_tick db \<le> sd_tick db'" by simp_all
  qed (use inv in \<open>simp_all add: db' db_inv_def ids_ok_def\<close>)
  ultimately show "vstep\<^sup>*\<^sup>* (view db) (view db') \<and> ids_ok env db'" by simp
qed

lemma sim_addDocument: "addDocument env db row = (db', r) \<Longrightarrow> sim env db db'"
  unfolding addDocument_def
  by (erule sim_commit) (auto simp: rbind_Inr_iff intro!: sim_trans [OF sim_tick sim_columns(1)])

lemma sim_addField: "sim env db (addField env db row)"
  unfolding addField_def Let_def
  by (rule sim_trans [OF sim_trans [OF sim_tick sim_columns(2)] sim_touch])

text \<open>
  A recipient written into a draft (\<^verbatim>\<open>addSigner\<close>, and the draft's recipient lists the portal
  keeps): a new PENDING row with no failed access codes and an unused routing order.
\<close>

definition recruit_row :: "sign_env \<Rightarrow> sign_db \<Rightarrow> signer \<Rightarrow> sign_db" where
  "recruit_row env db row = touch (sg_envelope_id row) ((tick db)\<lparr>sd_signers := sd_signers db @ [row\<lparr>sg_id := uuid_of env db\<rparr>]\<rparr>)"

definition recruitable :: "sign_db \<Rightarrow> signer \<Rightarrow> bool" where
  "recruitable db row \<longleftrightarrow> (case find_envelope db (sg_tenant_id row) (sg_envelope_id row) of
       None \<Rightarrow> False | Some e \<Rightarrow> en_status e = DRAFT) \<and>
     sg_signing_order row \<notin> set (map sg_signing_order (envelope_signers (sd_signers db) (sg_tenant_id row) (sg_envelope_id row))) \<and>
     sg_status row = PENDING \<and> sg_access_code_failed_count row = 0 \<and> sg_access_code_locked_at row = None"

lemma sim_recruit:
  assumes inj: "inj (sv_uuid env)" and ok: "recruitable db row"
  shows "sim env db (recruit_row env db row)"
  unfolding sim_def
proof
  assume inv: "db_inv env db"
  let ?row = "row\<lparr>sg_id := uuid_of env db\<rparr>"
  let ?db = "(tick db)\<lparr>sd_signers := sd_signers db @ [?row]\<rparr>"
  obtain e where e: "find_envelope db (sg_tenant_id row) (sg_envelope_id row) = Some e" "en_status e = DRAFT"
    using ok by (auto simp: recruitable_def split: option.splits)
  have new: "uuid_of env db \<notin> used_ids db" unfolding uuid_of_def by (rule fresh_uuid [OF inj inv]) simp
  have "vstep (view db) ((view db)\<lparr>vw_signers := vw_signers (view db) @ [core_signer ?row]\<rparr>)"
  proof (rule vstep.recruit [of "core_env e"])
    show "core_env e \<in> set (vw_envs (view db))" using find_envelope_Some(1) [OF e(1)] by simp
    show "sg_id (core_signer ?row) \<notin> sg_id ` set (vw_signers (view db))" using new by (auto simp: used_ids_def)
    show "sg_signing_order (core_signer ?row) \<notin> sg_signing_order ` set (rows_of (view db) (ec_tenant (core_env e)) (ec_id (core_env e)))"
      using ok find_envelope_Some [OF e(1)] by (auto simp: recruitable_def view_rows)
  qed (use e(2) find_envelope_Some [OF e(1)] ok in \<open>simp_all add: recruitable_def\<close>)
  then have "vstep (view db) (view (recruit_row env db row))"
    unfolding recruit_row_def view_touch by (rule back_subst [of "vstep (view db)"]) (intro view_eqI; simp)
  moreover have "ids_ok env (recruit_row env db row)"
  proof (rule ids_ok_insert [where k = "sd_tick db" and db = db])
    show "used_ids (recruit_row env db row) = insert (sv_uuid env (sd_tick db)) (used_ids db)"
      by (auto simp: used_ids_def recruit_row_def touch_def ids_update_where uuid_of_def)
  qed (use inv in \<open>simp_all add: recruit_row_def touch_def db_inv_def ids_ok_def\<close>)
  ultimately show "vstep\<^sup>*\<^sup>* (view db) (view (recruit_row env db row)) \<and> ids_ok env (recruit_row env db row)"
    by blast
qed

section \<open>Opening a link\<close>

lemma sim_seen:
  "sim env db (mark_viewed tenant sid now db)"
proof (cases "\<exists>s\<in>set (sd_signers db). sg_id s = sid \<and> sg_tenant_id s = tenant \<and> (sg_status s = PENDING \<or> sg_status s = VIEWED)")
  case False
  then have "mark_viewed tenant sid now db = db"
    unfolding mark_viewed_def update_where_def by (intro sign_db.equality) (auto intro!: map_idI)
  then show ?thesis by simp
next
  case True
  then obtain s where s: "s \<in> set (sd_signers db)" "sg_id s = sid" "sg_tenant_id s = tenant" "sg_status s = PENDING \<or> sg_status s = VIEWED"
    by blast
  show ?thesis
  proof (rule sim_steps)
    assume inv: "db_inv env db"
    have "view (mark_viewed tenant sid now db) = set_signer (sg_id (core_signer s)) (\<lambda>x. x\<lparr>sg_status := VIEWED\<rparr>) (view db)"
    proof (intro view_eqI)
      have "core_signer (if sg_id x = sid \<and> sg_tenant_id x = tenant \<and> (sg_status x = PENDING \<or> sg_status x = VIEWED)
            then x\<lparr>sg_status := VIEWED, sg_viewed_at := Some now\<rparr> else x) =
          (if sg_id (core_signer x) = sid then (core_signer x)\<lparr>sg_status := VIEWED\<rparr> else core_signer x)"
        if x: "x \<in> set (sd_signers db)" for x
      proof (cases "sg_id x = sid")
        case True
        then have "x = s" using signer_unique [OF inv s(1) x] s(2) by simp
        with s show ?thesis by (simp add: core_signer_def)
      qed simp
      then show "vw_signers (view (mark_viewed tenant sid now db)) = vw_signers (set_signer (sg_id (core_signer s)) (\<lambda>x. x\<lparr>sg_status := VIEWED\<rparr>) (view db))"
        using s(2) by (simp add: mark_viewed_def update_where_def)
    qed (simp_all add: mark_viewed_def)
    moreover have "vstep (view db) (set_signer (sg_id (core_signer s)) (\<lambda>x. x\<lparr>sg_status := VIEWED\<rparr>) (view db))"
      by (rule vstep.seen) (use s in simp_all)
    ultimately show "vstep\<^sup>*\<^sup>* (view db) (view (mark_viewed tenant sid now db))" by simp
  next
    have "map sg_id (sd_signers (mark_viewed tenant sid now db)) = map sg_id (sd_signers db)"
      by (simp add: mark_viewed_def map_update_where)
    then have "sg_id ` set (sd_signers (mark_viewed tenant sid now db)) = sg_id ` set (sd_signers db)" by (metis image_set)
    then show "used_ids (mark_viewed tenant sid now db) = used_ids db" by (simp add: used_ids_def mark_viewed_def)
  qed (simp_all add: mark_viewed_def)
qed

lemma find_session_Inr: "findSessionByToken env db raw = Inr x \<Longrightarrow> x \<in> set (sd_sessions db)"
  by (auto simp: findSessionByToken_def find_Some_iff split: option.splits)

lemma sim_session_unique:
  assumes "x \<in> set (sd_sessions db)" "\<And>s. context_of (f s) = context_of s" "live_session (f x) = live_session x"
    "sd_sessions db' = sd_sessions db" "db_inv env db'"
  shows "sim env db' (update_session (ss_id x) f db')"
proof (rule sim_session_frame [OF assms(2)])
  fix s assume s: "s \<in> set (sd_sessions db')" "ss_id s = ss_id x"
  have "distinct (map ss_id (sd_sessions db'))" using assms(5) by (simp add: db_inv_def ids_ok_def)
  then have "s = x" using s assms(1,4) by (auto simp: distinct_map inj_on_def)
  with assms(3) show "live_session (f s) = live_session s" by simp
qed

lemma sim_optional_transition:
  assumes "sim env db db1" "(if b then rbind (transitionEnvelopeIn env db1 i IN_PROGRESS None) (\<lambda>db2. Inr (u, db2)) else Inr (u, db1)) =
    (Inr (y, db') :: (sign_error, _) result)"
  shows "sim env db db'"
proof (cases b)
  case True
  then have "transitionEnvelopeIn env db1 i IN_PROGRESS None = Inr db'" using assms(2) by (auto simp: rbind_Inr_iff)
  from sim_transition [OF this] show ?thesis by (rule sim_trans [OF assms(1)]) simp
qed (use assms in simp)

lemma sim_exchange_live:
  assumes x: "x \<in> set (sd_sessions db)" "live_session x" and r: "exchange_live env db x st = Inr (y, db')"
  shows "sim env db db'"
proof -
  let ?f = "\<lambda>s. s\<lparr>ss_status := ACTIVE,
      ss_first_accessed_at := (case ss_first_accessed_at x of None \<Rightarrow> Some (now_of env db) | t \<Rightarrow> t),
      ss_last_accessed_at := Some (now_of env (tick db))\<rparr>"
  let ?db2 = "tick (update_session (ss_id x) ?f (tick db))"
  let ?db3 = "appendEvent env ?db2 (signer_event (context_of x) ''SESSION_EXCHANGED'')"
  let ?db4 = "mark_viewed (ss_tenant_id x) (ss_signer_id x) (now_of env ?db3) (tick ?db3)"
  have "sim env (tick db) (update_session (ss_id x) ?f (tick db))"
    unfolding sim_def
  proof
    assume inv: "db_inv env (tick db)"
    have "sim env (tick db) (update_session (ss_id x) ?f (tick db))"
      by (rule sim_session_unique [OF x(1)]) (use x(2) inv in \<open>simp_all add: context_of_def live_session_def LIVE_SESSION_STATUSES_def\<close>)
    with inv show "vstep\<^sup>*\<^sup>* (view (tick db)) (view (update_session (ss_id x) ?f (tick db))) \<and> ids_ok env (update_session (ss_id x) ?f (tick db))"
      unfolding sim_def by blast
  qed
  from sim_trans [OF sim_trans [OF sim_trans [OF sim_trans [OF sim_trans [OF sim_tick this] sim_tick] sim_append] sim_tick] sim_seen]
  have 4: "sim env db ?db4" .
  have "(if st = SENT then rbind (transitionEnvelopeIn env ?db4 ((event (ss_tenant_id x) (ss_envelope_id x) ''ENVELOPE_IN_PROGRESS'' ''SIGNER'')
      \<lparr>ae_actor_ref := Some (ss_signer_id x)\<rparr>) IN_PROGRESS None) (\<lambda>db5. Inr ((), db5)) else Inr ((), ?db4)) = Inr (y, db')"
    using r unfolding exchange_live_def Let_def rbind_Inr_iff by blast
  with 4 show ?thesis by (rule sim_optional_transition)
qed

lemma sim_exchangeToken:
  assumes "exchangeToken env db raw = (db', r)"
  shows "sim env db db'"
proof -
  consider "db' = db" | x :: signing_session where "db' = update_session (ss_id x) (\<lambda>s. s\<lparr>ss_status := SESSION_EXPIRED\<rparr>) (tick db)"
    | x st r' where "findSessionByToken env db raw = Inr x" "live_session x"
        "commit (ss_envelope_id x) db (exchange_live env (tick db) x st) = (db', r')"
  proof (cases "findSessionByToken env db raw")
    case (Inr x)
    show thesis
    proof (cases "lockSignableEnvelope db (ss_tenant_id x) (ss_envelope_id x)")
      case lk: (Inr st)
      show thesis using assms Inr lk that(1) that(2) [of x] that(3) [of x st]
        by (auto simp: exchangeToken_def live_session_def simp del: update_session_sel split: if_splits prod.splits sum.splits)
    qed (use assms Inr that in \<open>simp add: exchangeToken_def\<close>)
  qed (use assms that in \<open>simp add: exchangeToken_def\<close>)
  then show ?thesis
  proof cases
    case (2 x)
    have "sim env (tick db) (update_session (ss_id x) (\<lambda>s. s\<lparr>ss_status := SESSION_EXPIRED\<rparr>) (tick db))"
      by (rule sim_session_end) simp_all
    then show ?thesis unfolding 2 by (rule sim_trans [OF sim_tick])
  next
    case (3 x st r')
    from 3(3) show ?thesis
    proof (rule sim_commit)
      fix y db1 assume "exchange_live env (tick db) x st = Inr (y, db1)"
      then have "sim env (tick db) db1" by (rule sim_exchange_live [rotated 2]) (use 3 find_session_Inr [OF 3(1)] in simp_all)
      then show "sim env db db1" by (rule sim_trans [OF sim_tick])
    qed
  qed simp
qed

section \<open>Disclosure, access code, delegation, fields\<close>

lemma sim_acceptDisclosure:
  assumes "acceptDisclosure env db ctx input = (db', r)"
  shows "sim env db db'"
proof -
  consider "db' = db" | "commit (cx_envelope_id ctx) db (accept_tx env db ctx input) = (db', r)"
    using assms by (auto simp: acceptDisclosure_def split: option.splits if_splits)
  then show ?thesis
  proof cases
    case 2
    then show ?thesis
    proof (rule sim_commit)
      fix y db1 assume "accept_tx env db ctx input = Inr (y, db1)"
      then obtain as i where "db1 = appendEvent env ((tick (tick (tick db)))\<lparr>sd_acceptances := as\<rparr>) i"
        unfolding accept_tx_def Let_def rbind_Inr_iff by (auto split: if_splits)
      moreover from sim_trans [OF sim_trans [OF sim_trans [OF sim_trans [OF sim_tick sim_tick] sim_tick] sim_columns(3)] sim_append]
      have "sim env db (appendEvent env ((tick (tick (tick db)))\<lparr>sd_acceptances := as\<rparr>) i)" .
      ultimately show "sim env db db1" by simp
    qed
  qed simp
qed

lemma sim_fillField:
  assumes "fillField env db ctx fid val m = (db', r)"
  shows "sim env db db'"
  using assms unfolding fillField_def
proof (rule sim_commit)
  fix y db1 assume "fill_tx env db ctx fid val m = Inr (y, db1)"
  then obtain fs where "db1 = (tick (tick db))\<lparr>sd_fields := fs\<rparr>"
    unfolding fill_tx_def Let_def rbind_Inr_iff by (auto simp: rbind_Inr_iff split: if_splits option.splits)
  moreover from sim_trans [OF sim_trans [OF sim_tick sim_tick] sim_columns(2)]
  have "sim env db ((tick (tick db))\<lparr>sd_fields := fs\<rparr>)" .
  ultimately show "sim env db db1" by simp
qed

lemma sim_one_signer:
  assumes s: "s \<in> set (sd_signers db)" and f: "core_signer (f s) = g (core_signer s)" "\<And>x. sg_id (f x) = sg_id x"
    and st: "vstep (view db) (set_signer (sg_id s) g (view db))"
  shows "sim env db (update_signer (sg_id s) f db)"
proof (rule sim_steps)
  assume inv: "db_inv env db"
  have "view (update_signer (sg_id s) f db) = set_signer (sg_id s) g (view db)"
  proof (intro view_eqI)
    have "core_signer (if sg_id x = sg_id s then f x else x) = (if sg_id (core_signer x) = sg_id s then g (core_signer x) else core_signer x)"
      if x: "x \<in> set (sd_signers db)" for x
      using signer_unique [OF inv s x] f(1) by (cases "sg_id x = sg_id s") auto
    then show "vw_signers (view (update_signer (sg_id s) f db)) = vw_signers (set_signer (sg_id s) g (view db))"
      by (simp add: update_signer_def update_where_def)
  qed (simp_all add: update_signer_def)
  with st show "vstep\<^sup>*\<^sup>* (view db) (view (update_signer (sg_id s) f db))" by simp
qed (simp_all add: ids_update_signer [of f, OF f(2)])

lemma sim_code_right:
  assumes "s \<in> set (sd_signers db)" "sg_access_code_locked_at s = None"
  shows "sim env db (update_signer (sg_id s) (\<lambda>x. x\<lparr>sg_access_code_failed_count := 0\<rparr>) db)"
proof (rule sim_one_signer [where g = "\<lambda>x. x\<lparr>sg_access_code_failed_count := 0\<rparr>", OF assms(1)])
  show "vstep (view db) (set_signer (sg_id s) (\<lambda>x. x\<lparr>sg_access_code_failed_count := 0\<rparr>) (view db))"
    using vstep.code_right [of "core_signer s" "view db"] assms by simp
qed (simp_all add: core_signer_def)

lemma sim_code_wrong:
  assumes "s \<in> set (sd_signers db)" "sg_access_code_locked_at s = None"
  shows "sim env db (update_signer (sg_id s) (\<lambda>x. x\<lparr>sg_access_code_failed_count := sg_access_code_failed_count s + 1,
    sg_access_code_locked_at := (if sg_access_code_failed_count s + 1 \<ge> 5 then Some t else sg_access_code_locked_at x)\<rparr>) db)"
proof (rule sim_one_signer [where g = "count_failure t", OF assms(1)])
  show "vstep (view db) (set_signer (sg_id s) (count_failure t) (view db))"
    using vstep.code_wrong [of "core_signer s" "view db" t] assms by simp
qed (simp_all add: core_signer_def count_failure_def Let_def)

lemma sim_session_verified [simp]:
  "sim env db (update_session sid (\<lambda>x. x\<lparr>ss_access_code_verified_at := t\<rparr>) db)"
  by (rule sim_session_frame) (simp_all add: context_of_def live_session_def)

lemma sim_access_code_tx:
  assumes "access_code_tx env db ctx entered ip agent = Inr (out, db')"
  shows "sim env db db'"
proof -
  obtain s where s: "find_signer db (cx_tenant_id ctx) (cx_signer_id ctx) = Some s"
    using assms by (auto simp: access_code_tx_def rbind_Inr_iff split: option.splits)
  have sid: "cx_signer_id ctx = sg_id s" and mem: "s \<in> set (sd_signers db)" using find_signer_Some [OF s] by simp_all
  have t2: "sim env db (tick (tick db))" by (rule sim_trans [OF sim_tick sim_tick])
  let ?now = "now_of env (tick db)"
  let ?right = "update_signer (sg_id s) (\<lambda>s. s\<lparr>sg_access_code_failed_count := 0\<rparr>)
    (update_session (cx_session_id ctx) (\<lambda>x. x\<lparr>ss_access_code_verified_at := Some ?now\<rparr>) (tick (tick db)))"
  let ?wrong = "update_signer (sg_id s) (\<lambda>x. x\<lparr>sg_access_code_failed_count := sg_access_code_failed_count s + 1,
    sg_access_code_locked_at := (if sg_access_code_failed_count s + 1 \<ge> 5 then Some ?now else sg_access_code_locked_at x)\<rparr>) (tick (tick db))"
  consider "db' = db" | i where "sg_access_code_locked_at s = None" "db' = appendEvent env ?right i"
    | i where "sg_access_code_locked_at s = None" "db' = appendEvent env ?wrong i"
    | i where "sg_access_code_locked_at s = None"
        "db' = revoke_where (\<lambda>x. ss_tenant_id x = cx_tenant_id ctx \<and> ss_envelope_id x = cx_envelope_id ctx \<and> ss_signer_id x = cx_signer_id ctx) ?now (appendEvent env ?wrong i)"
    using assms s
    by (auto simp: access_code_tx_def rbind_Inr_iff Let_def sid MAX_ACCESS_CODE_ATTEMPTS_def split: option.splits if_splits)
  then show ?thesis
  proof cases
    case (2 i)
    have "sim env db ?right"
      by (rule sim_trans [OF sim_trans [OF t2 sim_session_verified] sim_code_right]) (use mem 2 in simp_all)
    then show ?thesis unfolding 2(2) by (rule sim_trans [OF _ sim_append])
  next
    case (3 i)
    have "sim env db ?wrong" by (rule sim_trans [OF t2 sim_code_wrong]) (use mem 3 in simp_all)
    then show ?thesis unfolding 3(2) by (rule sim_trans [OF _ sim_append])
  next
    case (4 i)
    have "sim env db ?wrong" by (rule sim_trans [OF t2 sim_code_wrong]) (use mem 4 in simp_all)
    then show ?thesis unfolding 4(2) by (rule sim_trans [OF sim_trans [OF _ sim_append] sim_revoke_signer])
  qed simp
qed

lemma sim_verifyAccessCode:
  assumes "verifyRecipientAccessCode env db raw entered ip agent = (db', r)"
  shows "sim env db db'"
proof -
  consider "db' = db" | ctx out db1 where "access_code_tx env db ctx entered ip agent = Inr (out, db1)" "db' = touch (cx_envelope_id ctx) db1"
    using assms by (auto simp: verifyRecipientAccessCode_def Let_def split: sum.splits prod.splits if_splits)
  then show ?thesis
  proof cases
    case 2
    from sim_trans [OF sim_access_code_tx [OF 2(1)] sim_touch] 2(2) show ?thesis by simp
  qed simp
qed

lemma record_invitation_sel [simp]:
  "sd_signers (record_invitation env tenant eid db sid) = sd_signers db"
  "sd_envelopes (record_invitation env tenant eid db sid) = sd_envelopes db"
  by (simp_all add: record_invitation_def)

lemma sim_record_invitation [simp]: "sim env db (record_invitation env tenant eid db sid)"
proof (cases "list_ex (open_intent tenant eid sid) (sd_deliveries db)")
  case False
  from sim_trans [OF sim_trans [OF sim_tick sim_tick] sim_columns(4)]
  show ?thesis unfolding record_invitation_def if_not_P [OF False] .
qed (simp add: record_invitation_def)

lemma sim_record_invitations: "sim env db (foldl (record_invitation env tenant eid) db sids)"
proof (induction sids arbitrary: db)
  case (Cons s ss)
  show ?case using sim_trans [OF sim_record_invitation Cons.IH] by simp
qed simp

lemma sim_clear_fields [simp]: "sim env db (clear_fields tenant sid db)"
  unfolding clear_fields_def by (rule sim_columns)

lemma sim_revoke_bindings [simp]: "sim env db (revoke_bindings eid sid now db)"
  unfolding revoke_bindings_def by (rule sim_columns)

lemma sim_delegate:
  assumes e: "find_envelope db tenant eid = Some e" "en_status e = SENT \<or> en_status e = IN_PROGRESS"
    and s: "s \<in> set (sd_signers db)" "sg_tenant_id s = tenant" "sg_envelope_id s = eid" "sg_status s = PENDING \<or> sg_status s = VIEWED"
  shows "sim env db (update_signer (sg_id s) (\<lambda>x. x\<lparr>sg_name := name, sg_email := em, sg_delegated_from_name := dn,
    sg_delegated_from_email := de, sg_delegated_at := t, sg_bound_user_id := None, sg_status := PENDING, sg_viewed_at := None\<rparr>) db)"
proof (rule sim_one_signer [where g = "\<lambda>x. x\<lparr>sg_status := PENDING\<rparr>", OF s(1)])
  show "vstep (view db) (set_signer (sg_id s) (\<lambda>x. x\<lparr>sg_status := PENDING\<rparr>) (view db))"
    using vstep.delegate [of "core_env e" "view db" "core_signer s"] e find_envelope_Some [OF e(1)] s mem_view_rows [OF s(1-3)]
    by (simp add: signable_def)
qed (simp_all add: core_signer_def)

lemma sim_delegateSigner:
  assumes "delegateSigner env db ctx name email reason = (db', r)"
  shows "sim env db db'"
proof -
  consider "db' = db" | n em re where "commit (cx_envelope_id ctx) db (delegate_tx env db ctx n em re) = (db', r)"
    using assms by (auto simp: delegateSigner_def Let_def split: if_splits)
  then show ?thesis
  proof cases
    case (2 n em re)
    then show ?thesis
    proof (rule sim_commit)
      fix y db1 assume d: "delegate_tx env db ctx n em re = Inr (y, db1)"
      then obtain st live where g: "signer_guard env db ctx = Inr (st, live)"
        by (auto simp: delegate_tx_def Let_def rbind_Inr_iff)
      obtain e where e: "find_envelope db (cx_tenant_id ctx) (cx_envelope_id ctx) = Some e" "en_status e = st" "st = SENT \<or> st = IN_PROGRESS"
        using g by (rule signer_guard_Inr)
      obtain s where s: "find_recipient db (cx_tenant_id ctx) (cx_envelope_id ctx) (cx_signer_id ctx) = Some s"
        using d e(1) g by (auto simp: delegate_tx_def Let_def rbind_Inr_iff split: if_splits option.splits)
      let ?now = "now_of env (tick db)" and ?sid = "cx_signer_id ctx"
      obtain em' dn de i where st: "sg_status s = PENDING \<or> sg_status s = VIEWED"
        and db1: "db1 = record_invitation env (cx_tenant_id ctx) (cx_envelope_id ctx) (appendEvent env
          (revoke_bindings (cx_envelope_id ctx) ?sid ?now
            (revoke_where (\<lambda>x. ss_tenant_id x = cx_tenant_id ctx \<and> ss_envelope_id x = cx_envelope_id ctx \<and> ss_signer_id x = ?sid) ?now
              (clear_fields (cx_tenant_id ctx) ?sid (update_signer ?sid (\<lambda>x. x\<lparr>sg_name := n, sg_email := em', sg_delegated_from_name := dn,
                sg_delegated_from_email := de, sg_delegated_at := Some ?now, sg_bound_user_id := None, sg_status := PENDING, sg_viewed_at := None\<rparr>)
                (tick (tick db)))))) i) ?sid"
        using d e(1) g s by (auto simp: delegate_tx_def Let_def rbind_Inr_iff split: if_splits option.splits recipient_kind.splits)
      note s' = find_recipient_Some [OF s]
      have "sim env (tick (tick db)) (update_signer (sg_id s) (\<lambda>x. x\<lparr>sg_name := n, sg_email := em', sg_delegated_from_name := dn,
                sg_delegated_from_email := de, sg_delegated_at := Some ?now, sg_bound_user_id := None, sg_status := PENDING, sg_viewed_at := None\<rparr>)
                (tick (tick db)))"
        by (rule sim_delegate [where e = e and tenant = "cx_tenant_id ctx" and eid = "cx_envelope_id ctx"]) (use e s' st in simp_all)
      from sim_trans [OF sim_trans [OF sim_trans [OF sim_trans [OF sim_trans [OF sim_trans [OF sim_trans [OF sim_tick sim_tick] this]
        sim_clear_fields] sim_revoke_signer] sim_revoke_bindings] sim_append] sim_record_invitation]
      show "sim env db db1" unfolding db1 s'(4) [symmetric] .
    qed
  qed simp
qed

section \<open>Ending an envelope\<close>

lemma set_signer_status_commute: "set_status e st (set_signer sid g v) = set_signer sid g (set_status e st v)"
  by (simp add: set_status_def set_signer_def)

lemma live_session_of_context:
  assumes "assertLiveSession db ctx now = Inr x"
  shows "x \<in> set (sd_sessions db)" "live_session x" "context_of x = ctx"
  using assms by (auto simp: assertLiveSession_def find_Some_iff context_of_def live_session_def split: option.splits if_splits)

lemma sim_decline:
  assumes "decline env db tenant eid sid reason (Some session_id) = (db', r)"
  shows "sim env db db'"
  using assms unfolding decline_def
proof (rule sim_commit)
  let ?ctx = "\<lparr> cx_session_id = session_id, cx_tenant_id = tenant, cx_envelope_id = eid, cx_signer_id = sid \<rparr>"
  let ?g = "\<lambda>s. s\<lparr>sg_status := SIGNER_DECLINED\<rparr>"
  fix y db1 assume d: "decline_tx env db tenant eid sid reason (Some session_id) = Inr (y, db1)"
  then obtain x f i where x: "assertLiveSession db ?ctx (now_of env db) = Inr x"
    and f: "\<And>s. core_signer (f s) = ?g (core_signer s)" "\<And>s. sg_id (f s) = sg_id s"
    and i: "ae_tenant_id i = tenant" "ae_envelope_id i = eid"
    and t: "transitionEnvelopeIn env (tick (update_signer sid f (tick db))) i DECLINED (Some Declined_at) = Inr db1"
  proof -
    let ?f = "\<lambda>s. s\<lparr>sg_status := SIGNER_DECLINED, sg_declined_at := Some (now_of env (tick db)), sg_decline_reason := Some reason\<rparr>"
    let ?i = "(event tenant eid ''ENVELOPE_DECLINED'' ''SIGNER'')\<lparr>ae_actor_ref := Some sid, ae_payload := Some (JObj [(''reason'', JStr reason)])\<rparr>"
    have "\<exists>x. assertLiveSession db ?ctx (now_of env db) = Inr x \<and>
        transitionEnvelopeIn env (tick (update_signer sid ?f (tick db))) ?i DECLINED (Some Declined_at) = Inr db1"
      using d by (auto simp: decline_tx_def Let_def rbind_Inr_iff split: if_splits)
    moreover have "ae_tenant_id ?i = tenant" "ae_envelope_id ?i = eid" by (simp_all add: event_def)
    moreover have "core_signer (?f s) = ?g (core_signer s)" "sg_id (?f s) = sg_id s" for s by (simp_all add: core_signer_def)
    ultimately show thesis using that [of _ ?f ?i] by blast
  qed
  let ?db = "tick (update_signer sid f (tick db))"
  show "sim env db db1"
    unfolding sim_def
  proof
    assume inv: "db_inv env db"
    obtain e where e: "find_envelope ?db tenant eid = Some e" "DECLINED \<in> set (ENVELOPE_TRANSITIONS (en_status e))"
      "view db1 = set_status (core_env e) DECLINED (view ?db)" "map ss_id (sd_sessions db1) = map ss_id (sd_sessions ?db)"
      "used_ids db1 = used_ids ?db" "sd_tick ?db < sd_tick db1"
      using transition_Inr [OF t] db_inv_env_ids [OF inv] i by (metis tick_sel(1) update_signer_sel(1))
    have e1: "e \<in> set (sd_envelopes db)" "en_tenant_id e = tenant" "en_id e = eid" using find_envelope_Some [OF e(1)] by simp_all
    obtain s where s: "s \<in> set (sd_signers db)" "sg_id s = sid" "sg_tenant_id s = tenant" "sg_envelope_id s = eid"
      using live_recipient [OF inv live_session_of_context(1,2) [OF x]] live_session_of_context(3) [OF x] by (auto simp: context_of_def)
    let ?v = "set_status (core_env e) DECLINED (view db)"
    have "vstep (view db) ?v" by (rule vstep.move) (use e1 e(2) in simp_all)
    moreover have "vstep ?v (set_signer (sg_id (core_signer s)) ?g ?v)"
    proof (rule vstep.refuse [of "(core_env e)\<lparr>ec_status := DECLINED\<rparr>"])
      show "(core_env e)\<lparr>ec_status := DECLINED\<rparr> \<in> set (vw_envs ?v)" using e1 by auto
    qed (use e1 mem_view_rows [OF s(1,3,4)] in simp_all)
    moreover have "view ?db = set_signer sid ?g (view db)"
      using view_update_signer [where f = f and g = ?g, OF f(1)] by simp
    ultimately have "vstep\<^sup>*\<^sup>* (view db) (view db1)"
      unfolding e(3) using s(2) by (simp add: set_signer_status_commute del: set_status_sel set_signer_sel)
    moreover have "ids_ok env db1"
    proof -
      have "sv_uuid env ` {..<sd_tick db} \<subseteq> sv_uuid env ` {..<sd_tick db1}" using e(6) by auto
      with inv e(4,5) ids_update_signer [of f, OF f(2)] show ?thesis by (auto simp: db_inv_def ids_ok_def)
    qed
    ultimately show "vstep\<^sup>*\<^sup>* (view db) (view db1) \<and> ids_ok env db1" by simp
  qed
qed

lemma sim_voidEnvelope: "voidEnvelope env db tenant eid actor reason expected = (db', r) \<Longrightarrow> sim env db db'"
  unfolding voidEnvelope_def
  by (erule sim_commit) (auto simp: rbind_Inr_iff intro: sim_transition)

lemma sim_expireEnvelope: "expireEnvelope env db tenant eid = (db', r) \<Longrightarrow> sim env db db'"
  unfolding expireEnvelope_def
  by (erule sim_commit) (auto simp: rbind_Inr_iff intro: sim_transition)

lemma sim_expire_loop: "expire_loop env db es = (db', r) \<Longrightarrow> sim env db db'"
proof (induction es arbitrary: db r)
  case (Cons x es)
  obtain tenant eid where x: "x = (tenant, eid)" by (cases x)
  obtain db1 r1 where e: "expireEnvelope env db tenant eid = (db1, r1)" by (cases "expireEnvelope env db tenant eid")
  note s = sim_expireEnvelope [OF e]
  consider "db' = db1" | r2 where "expire_loop env db1 es = (db', r2)"
    using Cons.prems x e by (auto split: sum.splits sign_error.splits prod.splits)
  then show ?case by cases (use s Cons.IH sim_trans [OF s] in blast)+
qed simp

lemma sim_expireDue: "expireDueEnvelopes env db now limit = (db', r) \<Longrightarrow> sim env db db'"
  unfolding expireDueEnvelopes_def Let_def by (rule sim_expire_loop)

lemma sim_resolve_grant:
  assumes "resolve_grant env db raw kind avail why = (db', r)"
  shows "sim env db db'"
proof -
  consider "db' = db" | gid where "db' = count_grant_use env gid (tick db)"
    using assms by (auto simp: resolve_grant_def split: option.splits if_splits sum.splits)
  then show ?thesis
  proof cases
    case (2 gid)
    from sim_trans [OF sim_trans [OF sim_tick sim_tick] sim_grants]
    show ?thesis unfolding 2 count_grant_use_def .
  qed simp
qed

section \<open>Issuing sessions\<close>

lemma find_envelope_revoke [simp]: "find_envelope (revoke_where P t db) = find_envelope db"
  by (simp add: find_envelope_def fun_eq_iff)

lemma lockForSession_Inr:
  assumes "lockForSessionIssue db tenant eid sid now ttl = Inr (s, t)"
  obtains e where "find_envelope db tenant eid = Some e" "en_status e = SENT \<or> en_status e = IN_PROGRESS"
    "s \<in> set (sd_signers db)" "sg_tenant_id s = tenant" "sg_envelope_id s = eid" "sg_id s = sid" "isSigningRecipient s"
proof -
  obtain e where e: "find_envelope db tenant eid = Some e" "en_status e = SENT \<or> en_status e = IN_PROGRESS"
    and s: "find_recipient db tenant eid sid = Some s" "recipientKindOf s \<noteq> RECEIVES_COPY"
    using assms by (auto simp: lockForSessionIssue_def lockEnvelope_def rbind_Inr_iff split: option.splits if_splits)
  have "isSigningRecipient s" using s(2) by (cases "sg_recipient_kind s") (simp_all add: isSigningRecipient_def recipientKindOf_def SIGNING_RECIPIENT_KINDS_def)
  then show thesis using find_recipient_Some [OF s(1)] e by (intro that [of e])
qed

lemma sim_issueHostedSession:
  assumes inj: "inj (sv_uuid env)" and h: "issueHostedSession env db tenant eid sid host = (db', r)"
  shows "sim env db db'"
  using h unfolding issueHostedSession_def
proof (rule sim_commit)
  fix y db1 assume "hosted_tx env (tick db) tenant eid sid host (now_of env db) = Inr (y, db1)"
  then obtain s t where s: "lockForSessionIssue (tick db) tenant eid sid (now_of env db) HOSTED_SESSION_TTL_MS = Inr (s, t)"
    and m: "(let (minted, db2) = mint_session env (revoke_where (\<lambda>x. ss_tenant_id x = tenant \<and> ss_envelope_id x = eid \<and> ss_signer_id x = sid)
        (now_of env db) (tick db)) tenant eid sid t HOSTED (Some host) None
      in (Inr (minted, appendEvent env db2 (session_event tenant eid sid ''HOSTED_SESSION_STARTED'' host (is_session_id minted) ''HOSTED'')) :: (sign_error, _) result)) = Inr (y, db1)"
    unfolding hosted_tx_def rbind_Inr_iff by (auto simp: Let_def split: if_splits)
  then obtain m db2 i where m: "mint_session env (revoke_where (\<lambda>x. ss_tenant_id x = tenant \<and> ss_envelope_id x = eid \<and> ss_signer_id x = sid)
        (now_of env db) (tick db)) tenant eid sid t HOSTED (Some host) None = (m, db2)" "db1 = appendEvent env db2 i"
    by (auto split: prod.splits)
  from s show "sim env db db1"
  proof (rule lockForSession_Inr)
    fix e assume e: "find_envelope (tick db) tenant eid = Some e" "en_status e = SENT \<or> en_status e = IN_PROGRESS"
      and s: "s \<in> set (sd_signers (tick db))" "sg_tenant_id s = tenant" "sg_envelope_id s = eid" "sg_id s = sid" "isSigningRecipient s"
    have "sim env (revoke_where (\<lambda>x. ss_tenant_id x = tenant \<and> ss_envelope_id x = eid \<and> ss_signer_id x = sid) (now_of env db) (tick db)) db2"
      by (rule sim_mint [OF inj m(1) _ e(2), of s]) (use e s in simp_all)
    from sim_trans [OF sim_trans [OF sim_trans [OF sim_tick sim_revoke_signer] this] sim_append] show ?thesis unfolding m(2) .
  qed
qed

lemma sim_issueSelfSignSession:
  assumes inj: "inj (sv_uuid env)" and h: "issueSelfSignSession env db tenant eid user verified signer_id = (db', r)"
  shows "sim env db db'"
  using h unfolding issueSelfSignSession_def
proof (rule sim_commit)
  fix y db1 assume "self_tx env (tick db) tenant eid user verified signer_id (now_of env db) = Inr (y, db1)"
  then obtain s t i m db2 where s: "lockForSessionIssue (tick db) tenant eid i (now_of env db) SELF_SIGN_SESSION_TTL_MS = Inr (s, t)"
    and m: "mint_session env (tick db) tenant eid (sg_id s) t SELF None (Some user) = (m, db2)"
    and db1: "db1 = appendEvent env db2 (session_event tenant eid (sg_id s) ''SELF_SIGN_SESSION_ISSUED'' user (is_session_id m) ''SELF'')"
    unfolding self_tx_def rbind_Inr_iff by (auto simp: Let_def rbind_Inr_iff split: if_splits option.splits prod.splits)
  from s show "sim env db db1"
  proof (rule lockForSession_Inr)
    fix e assume e: "find_envelope (tick db) tenant eid = Some e" "en_status e = SENT \<or> en_status e = IN_PROGRESS"
      and s: "s \<in> set (sd_signers (tick db))" "sg_tenant_id s = tenant" "sg_envelope_id s = eid" "sg_id s = i" "isSigningRecipient s"
    have "sim env (tick db) db2" by (rule sim_mint [OF inj m e, of s]) (use s in simp_all)
    from sim_trans [OF sim_trans [OF sim_tick this] sim_append] show ?thesis unfolding db1 .
  qed
qed

lemma sim_remind_loop:
  assumes "inj (sv_uuid env)" "remind_loop env tenant eid now db ss = (ms, db')"
    "find_envelope db tenant eid = Some e" "en_status e = SENT \<or> en_status e = IN_PROGRESS"
    "\<forall>s\<in>set ss. s \<in> set (sd_signers db) \<and> sg_tenant_id s = tenant \<and> sg_envelope_id s = eid \<and> isSigningRecipient s"
  shows "sim env db db'"
  using assms(2-)
proof (induction ss arbitrary: db ms)
  case (Cons s ss)
  let ?db1 = "revoke_where (\<lambda>x. ss_tenant_id x = tenant \<and> ss_envelope_id x = eid \<and> ss_signer_id x = sg_id s) now db"
  obtain m db2 where m: "mint_session env ?db1 tenant eid (sg_id s) (signingSessionExpiresAt now) LINK None None = (m, db2)"
    by (cases "mint_session env ?db1 tenant eid (sg_id s) (signingSessionExpiresAt now) LINK None None")
  obtain ms' db3 where l: "remind_loop env tenant eid now db2 ss = (ms', db3)" by (cases "remind_loop env tenant eid now db2 ss")
  have db': "db' = db3" using Cons.prems(1) m l by simp
  have "sim env ?db1 db2" by (rule sim_mint [OF assms(1) m, of e s]) (use Cons.prems(2-4) in auto)
  moreover have "sim env db2 db'"
    by (rule Cons.IH [OF l [folded db']]) (use Cons.prems(2-) mint_session_sel(2,7) [OF m] in simp_all)
  ultimately show ?case using sim_trans [OF sim_revoke_signer] sim_trans by blast
qed simp

lemma reminder_targets_Inr:
  assumes "reminder_targets db tenant eid who = Inr ss" "s \<in> set ss"
  shows "s \<in> set (sd_signers db) \<and> sg_tenant_id s = tenant \<and> sg_envelope_id s = eid \<and> isSigningRecipient s \<and>
    (sg_status s = PENDING \<or> sg_status s = VIEWED)"
proof -
  let ?inc = "sort_key sg_signing_order (filter (\<lambda>s. (sg_status s = PENDING \<or> sg_status s = VIEWED) \<and>
            sg_recipient_kind s \<in> set SIGNING_RECIPIENT_KINDS) (envelope_signers (sd_signers db) tenant eid))"
  have "s \<in> set ?inc"
    using assms in_set_takeD [of s 1 ?inc]
    by (auto simp: reminder_targets_def Let_def simp del: set_sort split: if_splits option.splits)
  then show ?thesis by (auto simp: envelope_signers_def isSigningRecipient_def recipientKindOf_def)
qed

lemma remind_tx_Inr:
  assumes "remind_tx env db tenant eid actor who limits now = Inr (y, db')"
  obtains ss0 ss db2 where "reminder_targets db tenant eid who = Inr ss0" "set ss \<subseteq> set ss0"
    "\<And>l. limits = Some l \<Longrightarrow> \<exists>allowed. applyReminderLimits (reminderHistory db tenant eid now l) (map sg_id ss0) now l = Inr allowed \<and>
       ss = filter (\<lambda>s. sg_id s \<in> set allowed) ss0"
    "remind_loop env tenant eid now db ss = (y, db2)"
    "db' = appendEvent env db2 ((event tenant eid ''SIGNATURE_REMINDER_SENT'' ''SERVICE'')
      \<lparr>ae_actor_ref := Some actor, ae_payload := Some (JObj [(''signer_ids'', JArr (map (\<lambda>s. JStr (sg_id s)) ss))])\<rparr>)"
proof -
  let ?sel = "\<lambda>ss0. case limits of None \<Rightarrow> Inr ss0 | Some l \<Rightarrow>
    (case applyReminderLimits (reminderHistory db tenant eid now l) (map sg_id ss0) now l of
       Inl refused \<Rightarrow> Inl (ReminderLimit refused) | Inr allowed \<Rightarrow> Inr (filter (\<lambda>s. sg_id s \<in> set allowed) ss0))"
  let ?i = "\<lambda>ss. (event tenant eid ''SIGNATURE_REMINDER_SENT'' ''SERVICE'')
      \<lparr>ae_actor_ref := Some actor, ae_payload := Some (JObj [(''signer_ids'', JArr (map (\<lambda>s. JStr (sg_id s)) ss))])\<rparr>"
  have "rbind (reminder_targets db tenant eid who) (\<lambda>ss0. rbind (?sel ss0) (\<lambda>ss.
      let (minted, db1) = remind_loop env tenant eid now db ss in Inr (minted, appendEvent env db1 (?i ss)))) = Inr (y, db')"
    using assms unfolding remind_tx_def by (cases "lockEnvelope db tenant eid") (auto split: if_splits simp del: Let_def split_paired_All)
  then obtain ss0 ss where t: "reminder_targets db tenant eid who = Inr ss0" "?sel ss0 = Inr ss"
    and l: "(let (minted, db1) = remind_loop env tenant eid now db ss in Inr (minted, appendEvent env db1 (?i ss))) = (Inr (y, db') :: (sign_error, _) result)"
    unfolding rbind_Inr_iff by blast
  have "set ss \<subseteq> set ss0" using t(2) by (auto split: option.splits sum.splits)
  moreover have "\<exists>allowed. applyReminderLimits (reminderHistory db tenant eid now l) (map sg_id ss0) now l = Inr allowed \<and>
       ss = filter (\<lambda>s. sg_id s \<in> set allowed) ss0" if "limits = Some l" for l
    using t(2) that by (auto split: sum.splits)
  ultimately show thesis using t(1) l
    by (cases "remind_loop env tenant eid now db ss") (auto intro: that)
qed

lemma sim_remindSigner:
  assumes inj: "inj (sv_uuid env)" and h: "remindSigner env db tenant eid actor who limits = (db', r)"
  shows "sim env db db'"
  using h unfolding remindSigner_def
proof (rule sim_commit)
  fix y db1 assume a: "remind_tx env (tick db) tenant eid actor who limits (now_of env db) = Inr (y, db1)"
  obtain e where e: "find_envelope (tick db) tenant eid = Some e" "en_status e = SENT \<or> en_status e = IN_PROGRESS"
    using a by (auto simp: remind_tx_def rbind_Inr_iff lockEnvelope_def split: option.splits if_splits)
  obtain ss0 ss db2 where t: "reminder_targets (tick db) tenant eid who = Inr ss0" "set ss \<subseteq> set ss0"
    and l: "remind_loop env tenant eid (now_of env db) (tick db) ss = (y, db2)"
    "db1 = appendEvent env db2 ((event tenant eid ''SIGNATURE_REMINDER_SENT'' ''SERVICE'')
      \<lparr>ae_actor_ref := Some actor, ae_payload := Some (JObj [(''signer_ids'', JArr (map (\<lambda>s. JStr (sg_id s)) ss))])\<rparr>)"
    using a by (rule remind_tx_Inr)
  have "sim env (tick db) db2"
    by (rule sim_remind_loop [OF inj l(1) e]) (use reminder_targets_Inr [OF t(1)] t(2) in blast)
  from sim_trans [OF sim_trans [OF sim_tick this] sim_append] show "sim env db db1" unfolding l(2) .
qed

section \<open>Delivering invitations\<close>

lemma sim_set_delivery [simp]: "sim env db (set_delivery nid f db)" "sim env db (fail_delivery nid err db)"
  unfolding fail_delivery_def set_delivery_def by (rule sim_columns)+

lemma sim_issue_link:
  assumes inj: "inj (sv_uuid env)" and l: "issue_link env db intent now = Inr (Inr (m, db'))"
  shows "sim env db db'"
proof -
  let ?tn = "nd_tenant_id intent" and ?eid = "nd_envelope_id intent"
  obtain e sid s where e: "find_envelope db ?tn ?eid = Some e" "en_status e = SENT \<or> en_status e = IN_PROGRESS"
    and s: "find_recipient db ?tn ?eid sid = Some s" "isLinkSigner s"
    and m: "mint_session env (revoke_where (\<lambda>x. ss_tenant_id x = ?tn \<and> ss_envelope_id x = ?eid \<and> ss_signer_id x = sid) now db)
      ?tn ?eid sid (signingSessionExpiresAt now) LINK None None = (m, db')"
    using l by (auto simp: issue_link_def Let_def rbind_Inr_iff lockEnvelope_def split: option.splits if_splits)
  have "isSigningRecipient s" using s(2) by (auto simp: isLinkSigner_def isSigningRecipient_def SIGNING_RECIPIENT_KINDS_def Let_def)
  then have "sim env (revoke_where (\<lambda>x. ss_tenant_id x = ?tn \<and> ss_envelope_id x = ?eid \<and> ss_signer_id x = sid) now db) db'"
    by (intro sim_mint [OF inj m _ e(2), of s]) (use e find_recipient_Some [OF s(1)] in simp_all)
  then show ?thesis by (rule sim_trans [OF sim_revoke_signer])
qed

lemma sim_deliver_after_commit: "deliver_after_commit env db nid = (db', ok) \<Longrightarrow> sim env db db'"
proof (cases "sv_base_url env")
  case (Some u)
  note t = sim_trans [OF sim_tick sim_set_delivery(1)] sim_trans [OF sim_tick sim_set_delivery(2)]
  assume "deliver_after_commit env db nid = (db', ok)"
  with Some show ?thesis
    by (cases "sv_notify env (sd_tick db)") (simp_all add: deliver_after_commit_def, (elim conjE, hypsubst, rule t)+)
qed (auto simp: deliver_after_commit_def)

lemma sim_deliverOne:
  assumes inj: "inj (sv_uuid env)" and d: "deliverOne env db intent now = (db', r)"
  shows "sim env db db'"
proof -
  let ?c = "\<lambda>n. nd_id n = nd_id intent \<and> nd_status n = nd_status intent \<and> nd_attempts n = nd_attempts intent"
  let ?db1 = "db\<lparr>sd_deliveries := update_where ?c
    (\<lambda>n. n\<lparr>nd_status := ND_DISPATCHING, nd_claimed_at := Some now, nd_attempts := nd_attempts n + 1\<rparr>) (sd_deliveries db)\<rparr>"
  show ?thesis
  proof (cases "list_ex ?c (sd_deliveries db)")
    case True
    then have d1: "(case issue_link env ?db1 intent now of
          Inl e \<Rightarrow> (?db1, Inl e)
        | Inr (Inl reason) \<Rightarrow>
            (set_delivery (nd_id intent) (\<lambda>n. n\<lparr>nd_status := ND_CANCELLED, nd_last_error := Some (take 500 reason)\<rparr>) ?db1, Inr False)
        | Inr (Inr (minted, db2)) \<Rightarrow> (case deliver_after_commit env db2 (nd_id intent) of (db3, ok) \<Rightarrow> (db3, Inr ok))) = (db', r)"
      using d unfolding deliverOne_def Let_def by (simp only: True not_True_eq_False if_False)
    have c: "sim env db ?db1" by (rule sim_columns)
    show ?thesis
    proof (cases "issue_link env ?db1 intent now")
      case (Inl e)
      with d1 c show ?thesis by auto
    next
      case (Inr x)
      show ?thesis
      proof (cases x)
        case (Inl reason)
        with d1 Inr \<open>issue_link env ?db1 intent now = Inr x\<close> sim_trans [OF c sim_set_delivery(1)] show ?thesis by auto
      next
        case (Inr y)
        obtain m db2 where y: "y = (m, db2)" by (cases y)
        obtain ok where "deliver_after_commit env db2 (nd_id intent) = (db', ok)"
          using d1 Inr \<open>issue_link env ?db1 intent now = Inr x\<close> y by (auto split: prod.splits)
        from sim_trans [OF sim_trans [OF c sim_issue_link [OF inj]] sim_deliver_after_commit [OF this]]
        show ?thesis using Inr \<open>issue_link env ?db1 intent now = Inr x\<close> y by simp
      qed
    qed
  qed (use d in \<open>simp add: deliverOne_def\<close>)
qed

lemma sim_dispatch_loop:
  assumes inj: "inj (sv_uuid env)"
  shows "dispatch_loop env now db ns = (db', k) \<Longrightarrow> sim env db db'"
proof (induction ns arbitrary: db k)
  case (Cons n ns)
  obtain db1 r where d: "deliverOne env db n now = (db1, r)" by (cases "deliverOne env db n now")
  obtain k' where "dispatch_loop env now db1 ns = (db', k')" using Cons.prems d by (auto split: prod.splits)
  from sim_trans [OF sim_deliverOne [OF inj d] Cons.IH [OF this]] show ?case .
qed simp

lemma sim_dispatch: "inj (sv_uuid env) \<Longrightarrow> dispatch env db tenant eid limit = (db', k) \<Longrightarrow> sim env db db'"
  unfolding dispatch_def Let_def by (rule sim_trans [OF sim_tick]) (rule sim_dispatch_loop)

section \<open>Completing\<close>

lemma sim_sign:
  assumes e: "find_envelope db (ss_tenant_id x) (ss_envelope_id x) = Some e" "en_status e = SENT \<or> en_status e = IN_PROGRESS"
    and x: "x \<in> set (sd_sessions db)" "live_session x"
    and ok: "assertEligible db (ss_tenant_id x) (ss_envelope_id x) (ss_signer_id x) = Inr ()"
    and f: "\<And>s. core_signer (f s) = (core_signer s)\<lparr>sg_status := SIGNED\<rparr>" "\<And>s. sg_id (f s) = sg_id s"
    and g: "\<And>s. \<not> live_session (g s)" "\<And>s. ss_id (g s) = ss_id s"
  shows "sim env db (tick (update_session (ss_id x) g (tick (update_signer (ss_signer_id x) f db))))"
proof (rule sim_steps)
  assume inv: "db_inv env db"
  let ?db' = "tick (update_session (ss_id x) g (tick (update_signer (ss_signer_id x) f db)))"
  obtain r where r: "find_recipient db (ss_tenant_id x) (ss_envelope_id x) (ss_signer_id x) = Some r" "isSigningRecipient r"
    using inv x by (rule live_recipient)
  have act: "mayActNow (en_routing_mode e) (envelope_signers (sd_signers db) (ss_tenant_id x) (ss_envelope_id x)) (ss_signer_id x)"
    using eligible_iff_mayAct [OF e(1) r] ok by simp
  let ?w = "set_signer (cx_signer_id (context_of x)) (\<lambda>s. s\<lparr>sg_status := SIGNED\<rparr>)
    ((view db)\<lparr>vw_live := filter (\<lambda>c. cx_session_id c \<noteq> cx_session_id (context_of x)) (vw_live (view db))\<rparr>)"
  have "vstep (view db) ?w"
  proof (rule vstep.sign [of "core_env e"])
    show "context_of x \<in> set (vw_live (view db))" using x by simp
    show "mayActNow (ec_mode (core_env e)) (rows_of (view db) (ec_tenant (core_env e)) (ec_id (core_env e))) (cx_signer_id (context_of x))"
      using act find_envelope_Some [OF e(1)] by (simp add: view_rows mayActNow_view)
  qed (use e find_envelope_Some [OF e(1)] in \<open>simp_all add: signable_def of_envelope_def\<close>)
  moreover have "view ?db' = ?w"
  proof -
    have "view ?db' = (view (update_signer (ss_signer_id x) f db))\<lparr>vw_live := filter (\<lambda>c. cx_session_id c \<noteq> ss_id x) (vw_live (view (update_signer (ss_signer_id x) f db)))\<rparr>"
      using view_session_end [of g "ss_id x" "tick (update_signer (ss_signer_id x) f db)", OF g(1)] by simp
    also have "\<dots> = ?w"
      unfolding view_update_signer [where f = f and g = "\<lambda>s. s\<lparr>sg_status := SIGNED\<rparr>", OF f(1)]
      by (intro view_eqI) simp_all
    finally show ?thesis .
  qed
  ultimately show "vstep\<^sup>*\<^sup>* (view db) (view ?db')" by simp
qed (simp_all add: update_session_ids [of g, OF g(2)] ids_update_signer [of f, OF f(2)])

lemma eligible_frame:
  assumes "sd_signers db' = sd_signers db" "sd_envelopes db' = sd_envelopes db"
  shows "assertEligible db' tenant eid sid = assertEligible db tenant eid sid" "find_envelope db' = find_envelope db"
proof -
  have f: "find_envelope db' = find_envelope db" "find_recipient db' = find_recipient db"
    "currentSequentialSigner db' = currentSequentialSigner db"
    using assms by (simp_all add: find_recipient_def find_envelope_def currentSequentialSigner_def fun_eq_iff)
  then have "witnessed_signed db' = witnessed_signed db" by (intro ext) (simp add: witnessed_signed_def cong: option.case_cong)
  with f show "assertEligible db' tenant eid sid = assertEligible db tenant eid sid" by (simp only: assertEligible_def)
  show "find_envelope db' = find_envelope db" by (fact f)
qed

lemma fill_names_Inr:
  assumes "fill_names env db ctx names = Inr db'"
  shows "sim env db db'" "sd_signers db' = sd_signers db" "sd_envelopes db' = sd_envelopes db" "sd_sessions db' = sd_sessions db"
    "sd_events db' = sd_events db"
proof -
  consider "db' = db" | fs where "db' = (tick db)\<lparr>sd_fields := fs\<rparr>"
    using assms by (auto simp: fill_names_def Let_def split: if_splits option.splits)
  moreover have "sim env db ((tick db)\<lparr>sd_fields := fs\<rparr>)" for fs by (rule sim_trans [OF sim_tick sim_columns(2)])
  ultimately show "sim env db db'" by cases simp_all
  show "sd_signers db' = sd_signers db" "sd_envelopes db' = sd_envelopes db" "sd_sessions db' = sd_sessions db" "sd_events db' = sd_events db"
    using assms by (auto simp: fill_names_def Let_def split: if_splits option.splits)
qed

lemma complete_writes_eq:
  "\<exists>f g. (\<forall>s. core_signer (f s) = (core_signer s)\<lparr>sg_status := SIGNED\<rparr> \<and> sg_id (f s) = sg_id s) \<and>
     (\<forall>s. \<not> live_session (g s) \<and> ss_id (g s) = ss_id s) \<and>
     (\<exists>i. complete_writes env db ctx live =
        (let db3 = appendEvent env (tick (update_session (cx_session_id ctx) g (tick (update_signer (cx_signer_id ctx) f db)))) i
         in db3) \<or> (\<exists>j. complete_writes env db ctx live =
        appendEvent env (appendEvent env (tick (update_session (cx_session_id ctx) g (tick (update_signer (cx_signer_id ctx) f db)))) i) j))"
proof -
  let ?f = "\<lambda>s. s\<lparr>sg_status := SIGNED, sg_signed_at := Some (now_of env db)\<rparr>"
  let ?db1 = "tick (update_signer (cx_signer_id ctx) ?f db)"
  let ?g = "\<lambda>s. s\<lparr>ss_status := SESSION_COMPLETED, ss_completed_at := Some (now_of env ?db1)\<rparr>"
  let ?db2 = "tick (update_session (cx_session_id ctx) ?g ?db1)"
  let ?db3 = "appendEvent env ?db2 ((signer_event ctx ''SIGNER_SIGNED'')\<lparr>ae_payload := signed_payload live\<rparr>)"
  have "complete_writes env db ctx live = ?db3 \<or> (\<exists>j. complete_writes env db ctx live = appendEvent env ?db3 j)"
    unfolding complete_writes_def Let_def by (auto simp del: append_event_sel split: option.splits bool.splits)
  then show ?thesis
    by (intro exI [of _ ?f] exI [of _ ?g] conjI allI exI [of _ "(signer_event ctx ''SIGNER_SIGNED'')\<lparr>ae_payload := signed_payload live\<rparr>"])
      (simp_all add: core_signer_def)
qed

lemma complete_writes_sim:
  assumes e: "find_envelope db (cx_tenant_id ctx) (cx_envelope_id ctx) = Some e" "en_status e = SENT \<or> en_status e = IN_PROGRESS"
    and x: "x \<in> set (sd_sessions db)" "live_session x" "context_of x = ctx"
    and ok: "assertEligible db (cx_tenant_id ctx) (cx_envelope_id ctx) (cx_signer_id ctx) = Inr ()"
  shows "sim env db (complete_writes env db ctx live)" "find_envelope (complete_writes env db ctx live) = find_envelope db"
proof -
  obtain f g i where f: "\<And>s. core_signer (f s) = (core_signer s)\<lparr>sg_status := SIGNED\<rparr>" "\<And>s. sg_id (f s) = sg_id s"
    and g: "\<And>s. \<not> live_session (g s)" "\<And>s. ss_id (g s) = ss_id s"
    and eq: "complete_writes env db ctx live = appendEvent env (tick (update_session (cx_session_id ctx) g (tick (update_signer (cx_signer_id ctx) f db)))) i \<or>
      (\<exists>j. complete_writes env db ctx live = appendEvent env (appendEvent env (tick (update_session (cx_session_id ctx) g (tick (update_signer (cx_signer_id ctx) f db)))) i) j)"
    using complete_writes_eq [of env db ctx live] unfolding Let_def by blast
  have c: "cx_tenant_id ctx = ss_tenant_id x" "cx_envelope_id ctx = ss_envelope_id x" "cx_signer_id ctx = ss_signer_id x" "cx_session_id ctx = ss_id x"
    using x(3) by auto
  have "sim env db (tick (update_session (cx_session_id ctx) g (tick (update_signer (cx_signer_id ctx) f db))))"
    unfolding c by (rule sim_sign [OF _ e(2) x(1,2) _ f g]) (use e(1) ok c in simp_all)
  from sim_trans [OF this sim_append] sim_trans [OF sim_trans [OF this sim_append] sim_append] eq
  show "sim env db (complete_writes env db ctx live)" by metis
  have "find_envelope (update_session i h d) = find_envelope d" for i h d by (simp add: find_envelope_def fun_eq_iff)
  with eq show "find_envelope (complete_writes env db ctx live) = find_envelope db" by auto
qed

lemma invite_next_Inr:
  assumes "invite_next env db ctx signers = Inr (nxt, db')"
  shows "sim env db db'"
proof -
  consider "db' = db" | i where "db' = record_invitation env (cx_tenant_id ctx) (cx_envelope_id ctx) db i"
    | sids where "db' = foldl (record_invitation env (cx_tenant_id ctx) (cx_envelope_id ctx)) db sids"
    using assms by (auto simp: invite_next_def Let_def split: option.splits if_splits)
  then show ?thesis by cases (simp_all add: sim_record_invitations)
qed

lemma complete_envelope_Inr:
  assumes c: "complete_envelope env db ctx st = Inr db'"
    and a: "allSigningRecipientsSigned (envelope_signers (sd_signers db) (cx_tenant_id ctx) (cx_envelope_id ctx))"
  shows "sim env db db'"
proof -
  obtain db1 where t: "transitionEnvelopeIn env db1 (event (cx_tenant_id ctx) (cx_envelope_id ctx) ''ENVELOPE_COMPLETED'' ''SERVICE'') COMPLETED (Some Completed_at) = Inr db'"
    and one: "db1 = db \<or> (\<exists>i. transitionEnvelopeIn env db i IN_PROGRESS None = Inr db1)"
    using c by (auto simp: complete_envelope_def Let_def rbind_Inr_iff split: if_splits)
  have "sim env db db1" using one by (auto intro: sim_transition)
  then show ?thesis
  proof (rule sim_transI)
    assume inv: "db_inv env db"
    have "sd_signers db1 = sd_signers db" using one transition_Inr [OF _ db_inv_env_ids [OF inv]] by metis
    with a show "sim env db1 db'" by (intro sim_transition [OF t]) (simp add: event_def)
  qed
qed

text \<open>A completion that goes through, taken apart.\<close>

lemma complete_tx_Inr:
  assumes "complete_tx env db ctx = Inr (out, db')"
  obtains st live db1 where "signer_guard env db ctx = Inr (st, live)" "hasAcceptedDisclosure db (cx_tenant_id ctx) (cx_signer_id ctx)"
    "assertIdentityVerificationCleared db (cx_tenant_id ctx) (cx_signer_id ctx) = Inr ()"
    "evaluateSignerFieldRules (my_fields db ctx) = None" "assertQesSatisfied db (cx_tenant_id ctx) (cx_signer_id ctx) = Inr ()"
    "fill_names env (tick db) ctx (filter isServerFilledName (my_fields db ctx)) = Inr db1"
    "let db2 = complete_writes env db1 ctx live; rows = envelope_signers (sd_signers db2) (cx_tenant_id ctx) (cx_envelope_id ctx)
     in if allSigningRecipientsSigned rows
        then complete_envelope env db2 ctx st = Inr db' \<and> out = \<lparr> cp_envelope_status = COMPLETED, cp_next_signer_id = None \<rparr>
        else (\<exists>nxt. invite_next env db2 ctx rows = Inr (nxt, db') \<and> out = \<lparr> cp_envelope_status = IN_PROGRESS, cp_next_signer_id = nxt \<rparr>)"
proof -
  obtain st live where g: "signer_guard env db ctx = Inr (st, live)" and h: "hasAcceptedDisclosure db (cx_tenant_id ctx) (cx_signer_id ctx)"
    and v: "assertIdentityVerificationCleared db (cx_tenant_id ctx) (cx_signer_id ctx) = Inr ()"
    using assms by (auto simp: complete_tx_def Let_def rbind_Inr_iff split: if_splits)
  then have r: "evaluateSignerFieldRules (my_fields db ctx) = None"
    using assms by (auto simp: complete_tx_def Let_def split: option.splits)
  obtain db1 where q: "assertQesSatisfied db (cx_tenant_id ctx) (cx_signer_id ctx) = Inr ()"
    and n: "fill_names env (tick db) ctx (filter isServerFilledName (my_fields db ctx)) = Inr db1"
    using assms g h v r by (auto simp: complete_tx_def Let_def rbind_Inr_iff)
  show thesis
    by (rule that [OF g h v r q n])
      (use assms g h v r q n in \<open>auto simp: complete_tx_def Let_def rbind_Inr_iff split: if_splits\<close>)
qed

lemma sim_completeSigner:
  assumes "completeSigner env db ctx = (db', r)"
  shows "sim env db db'"
  using assms unfolding completeSigner_def
proof (rule sim_commit)
  fix out db3 assume c: "complete_tx env db ctx = Inr (out, db3)"
  obtain st live db1 where g: "signer_guard env db ctx = Inr (st, live)"
    and n: "fill_names env (tick db) ctx (filter isServerFilledName (my_fields db ctx)) = Inr db1"
    and b: "let db2 = complete_writes env db1 ctx live; rows = envelope_signers (sd_signers db2) (cx_tenant_id ctx) (cx_envelope_id ctx)
     in if allSigningRecipientsSigned rows
        then complete_envelope env db2 ctx st = Inr db3 \<and> out = \<lparr> cp_envelope_status = COMPLETED, cp_next_signer_id = None \<rparr>
        else (\<exists>nxt. invite_next env db2 ctx rows = Inr (nxt, db3) \<and> out = \<lparr> cp_envelope_status = IN_PROGRESS, cp_next_signer_id = nxt \<rparr>)"
    using c by (rule complete_tx_Inr)
  obtain e where e: "find_envelope db (cx_tenant_id ctx) (cx_envelope_id ctx) = Some e" "en_status e = SENT \<or> en_status e = IN_PROGRESS"
    and x: "live \<in> set (sd_sessions db)" "live_session live" "context_of live = ctx"
    and ok: "assertEligible db (cx_tenant_id ctx) (cx_envelope_id ctx) (cx_signer_id ctx) = Inr ()"
    using g by (rule signer_guard_Inr) blast
  note fr = eligible_frame [of db1 db] fill_names_Inr(2-4) [OF n]
  let ?db2 = "complete_writes env db1 ctx live"
  have w: "sim env db1 ?db2"
    by (rule complete_writes_sim(1) [of db1 ctx e live]) (use fr e x ok in simp_all)
  have "sim env ?db2 db3"
  proof (cases "allSigningRecipientsSigned (envelope_signers (sd_signers ?db2) (cx_tenant_id ctx) (cx_envelope_id ctx))")
    case True
    with b have "complete_envelope env ?db2 ctx st = Inr db3" by (simp add: Let_def)
    from complete_envelope_Inr [OF this True] show ?thesis .
  next
    case False
    with b obtain nxt where "invite_next env ?db2 ctx (envelope_signers (sd_signers ?db2) (cx_tenant_id ctx) (cx_envelope_id ctx)) = Inr (nxt, db3)"
      by (auto simp: Let_def)
    from invite_next_Inr [OF this] show ?thesis .
  qed
  from sim_trans [OF sim_trans [OF sim_trans [OF sim_tick fill_names_Inr(1) [OF n]] w] this] show "sim env db db3" .
qed

end
