(* ===== verification/Sign_Demo.thy ===== *)
theory Sign_Demo
  imports Sign_Refinement
begin

text \<open>
  A concrete environment and envelope of the signing service, and the rules that evaluate
  its operations on them: the examples of the theories below use both.
\<close>

section \<open>Evaluation\<close>

text \<open>
  Continuations are evaluated only once their argument is known. The ledger's hashes stay
  symbolic.
\<close>

lemma rbind_weak_cong: "r = r' \<Longrightarrow> rbind r f = rbind r' f"
  by simp

lemmas sign_weak = rbind_weak_cong let_weak_cong option.case_cong_weak sum.case_cong_weak if_weak_cong

lemmas sign_reads =
  find_envelope_def getEnvelope_def getEnvelopeFull_def envelope_rows_def document_rows_def lockEnvelope_def lockEnvelopeRevision_def
  lockSignableEnvelope_def find_signer_def find_recipient_def findSessionByToken_def assertLiveSession_def currentSequentialSigner_def
  currentTurnSignerId_def currentTurnOf_def witnessed_signed_def assertEligible_def hasAcceptedDisclosure_def assertAccessCodeCleared_def
  assertIdentityVerificationCleared_def assertQesSatisfied_def signer_guard_def my_fields_def findDisclosure_def DISCLOSURES_def
  disclosure_of_def allSigningRecipientsSigned_def signingRecipients_def isSigningRecipient_def SIGNING_RECIPIENT_KINDS_def recipientKindOf_def
  envelope_signers_def isWitness_def isCopyRecipient_def isLinkSigner_def invitedAtSend_def copyRecipients_def pendingWitnessesOf_def witnessReady_def
  evaluateSignerFieldRules_def signed_payload_def sent_payload_def lockForSessionIssue_def

lemmas sign_writes =
  appendEvent_def recordNotificationFact_def notificationKindForLedgerEvent_def event_def signer_event_def session_event_def tick_def now_of_def uuid_of_def
  update_signer_def update_session_def update_where_def touch_def commit_def transitionEnvelopeIn_def terminal_outbox_def revoke_where_def
  live_session_def LIVE_SESSION_STATUSES_def predecessorsOf_def envelope_statuses_def isTerminalEnvelopeStatus_def TERMINAL_ENVELOPE_STATUSES_def
  mint_session_def hashSigningToken_def signingSessionExpiresAt_def SIGNING_SESSION_TTL_MS_def set_expires_at_def envelopeExpiresAt_def ttl_or_default_def
  fill_names_def complete_writes_def complete_envelope_def invite_next_def record_invitation_def mark_viewed_def context_of_def new_signer_def
  opt_default_def head_opt_def

lemmas sign_calls =
  createEnvelope_def addDocument_def addSigner_def recruit_row_def send_def send_tx_def exchangeToken_def exchange_live_def acceptDisclosure_def accept_tx_def
  fillField_def fill_tx_def completeSigner_def complete_tx_def decline_def decline_tx_def voidEnvelope_def expireEnvelope_def
  issueSelfSignSession_def self_tx_def

lemmas sign_eval = sign_reads sign_writes sign_calls Let_def

section \<open>An environment\<close>

definition demo_env :: sign_env where
  "demo_env = \<lparr> sv_chain = \<lparr> ce_sha = (\<lambda>_. ''h''), ce_iso = (\<lambda>_. ''t'') \<rparr>, sv_uuid = (\<lambda>n. CHR ''u'' # replicate n (CHR ''1'')),
     sv_clock = int, sv_token = (\<lambda>n. CHR ''t'' # replicate n (CHR ''1'')), sv_sha_token = (\<lambda>s. s), sv_sha_hex = (\<lambda>s. s),
     sv_scrypt = (\<lambda>parts s. s = ''right''), sv_attested_name = (\<lambda>_. None), sv_notify = (\<lambda>_. Delivered),
     sv_base_url = Some ''https://sign'', sv_ttl_days = JFin 30, sv_access_ttl_days = JFin 30 \<rparr>"

lemma demo_env_inj: "inj (sv_uuid demo_env)"
  by (auto simp: demo_env_def inj_on_def dest: arg_cong [of _ _ length])

definition empty_db :: sign_db where
  "empty_db = \<lparr> sd_envelopes = [], sd_documents = [], sd_signers = [], sd_fields = [], sd_sessions = [], sd_acceptances = [],
     sd_events = [], sd_deliveries = [], sd_grants = [], sd_facts = [], sd_outbox = [], sd_bindings = [], sd_qes = [], sd_identity = [], sd_tick = 0 \<rparr>"

text \<open>A sent envelope with one recipient who has opened the link and accepted the disclosure.\<close>

definition demo_signer :: signer where
  "demo_signer = (new_signer ''u1'' \<lparr> as_tenant_id = ''T'', as_envelope_id = ''u'', as_email = ''ann@x.io'', as_name = ''Ann Lee'', as_signing_order = 1 \<rparr>)
     \<lparr>sg_status := VIEWED\<rparr>"

definition demo_envelope :: "envelope_status \<Rightarrow> sign_envelope" where
  "demo_envelope st = \<lparr> en_id = ''u'', en_tenant_id = ''T'', en_subject = ''offer'', en_status = st, en_execution_mode = ''OWNED'',
     en_routing_mode = PARALLEL, en_created_by = ''sender'', en_created_at = 1, en_sent_at = Some 2, en_completed_at = None,
     en_declined_at = None, en_voided_at = None, en_expires_at = None, en_source_application = ''aramo-sign'', en_installation_id = None,
     en_origin_actor_kind = ''USER'', en_revision = 1, en_message = None, en_deleted_at = None, en_template_refs = None,
     en_allow_delegation = False, en_envelope_mode = STANDARD_MODE \<rparr>"

definition demo_session :: signing_session where
  "demo_session = \<lparr> ss_id = ''u11'', ss_tenant_id = ''T'', ss_envelope_id = ''u'', ss_signer_id = ''u1'', ss_token_hash = ''k'', ss_status = ACTIVE,
     ss_created_at = 3, ss_expires_at = 900000, ss_first_accessed_at = Some 4, ss_last_accessed_at = Some 4, ss_completed_at = None,
     ss_revoked_at = None, ss_origin = Some LINK, ss_host_user_id = None, ss_authenticated_user_id = None, ss_access_code_verified_at = None \<rparr>"

definition demo_acceptance :: disclosure_acceptance where
  "demo_acceptance = \<lparr> da_id = ''A'', da_tenant_id = ''T'', da_signer_id = ''u1'', da_disclosure_version = ''v1'', da_disclosure_text_hash = ''h'',
     da_accepted_at = 5, da_ip_address = None, da_user_agent = None, da_session_id = ''u11'', da_attested_name = None \<rparr>"

definition demo_db :: sign_db where
  "demo_db = empty_db\<lparr>sd_envelopes := [demo_envelope IN_PROGRESS], sd_signers := [demo_signer], sd_sessions := [demo_session],
     sd_acceptances := [demo_acceptance], sd_tick := 3\<rparr>"

lemma demo_db_inv: "db_inv demo_env demo_db"
proof -
  have v: "view demo_db = \<lparr> vw_envs = [\<lparr> ec_id = ''u'', ec_tenant = ''T'', ec_status = IN_PROGRESS, ec_mode = PARALLEL \<rparr>],
      vw_signers = [core_signer demo_signer], vw_live = [context_of demo_session], vw_outbox = [] \<rparr>"
    by (simp add: view_def demo_db_def empty_db_def demo_envelope_def core_env_def live_session_def LIVE_SESSION_STATUSES_def demo_session_def)
  have s: "sg_id demo_signer = ''u1''" "sg_tenant_id demo_signer = ''T''" "sg_envelope_id demo_signer = ''u''" "sg_status demo_signer = VIEWED"
    "isSigningRecipient demo_signer" "sg_access_code_failed_count demo_signer = 0" "sg_access_code_locked_at demo_signer = None"
    by (simp_all add: demo_signer_def new_signer_def isSigningRecipient_def SIGNING_RECIPIENT_KINDS_def recipientKindOf_def)
  have x: "ss_id demo_session = ''u11''" "ss_tenant_id demo_session = ''T''" "ss_envelope_id demo_session = ''u''" "ss_signer_id demo_session = ''u1''"
    by (simp_all add: demo_session_def)
  have "view_inv (view demo_db)"
    unfolding view_inv_def v inv_ids_def inv_live_def inv_done_def inv_order_def inv_draft_def inv_code_def inv_outbox_def
    by (simp add: s x rows_of_def envelope_signers_def route_key_def env_key_def signable_def of_envelope_def)
  moreover have "ids_ok demo_env demo_db"
    by (simp add: ids_ok_def used_ids_def demo_db_def empty_db_def s x demo_envelope_def demo_env_def lessThan_Suc numeral_3_eq_3)
  ultimately show ?thesis by (simp add: db_inv_def)
qed

definition demo_ctx :: session_context where
  "demo_ctx = context_of demo_session"

definition result_db :: "('e, 'a \<times> sign_db) result \<Rightarrow> sign_db" where
  "result_db r = (case r of Inr (_, db) \<Rightarrow> db | Inl _ \<Rightarrow> empty_db)"

definition succeeds :: "('e, 'a) result \<Rightarrow> bool" where
  "succeeds r \<longleftrightarrow> (case r of Inr _ \<Rightarrow> True | Inl _ \<Rightarrow> False)"

lemma result_dbE: "succeeds r \<Longrightarrow> (\<And>x. r = Inr (x, result_db r) \<Longrightarrow> P) \<Longrightarrow> P"
  by (cases r) (auto simp: succeeds_def result_db_def split: prod.splits)

end
