(* ===== verification/Sign_Run.thy ===== *)
theory Sign_Run
  imports Sign_Demo
begin

text \<open>
  A complete run of the signing service from an empty database, evaluated operation by
  operation: a sequential envelope is drafted for two recipients and sent, the first signs
  through their link, the second in person on a hosted session, and the envelope completes.
  The examples of \<open>Sign_Theorems\<close> are states of this run. A second run is of a
  parallel envelope whose first recipient holds two sessions.
\<close>

definition run_row :: "string \<Rightarrow> int \<Rightarrow> signer" where
  "run_row email order = new_signer [] \<lparr> as_tenant_id = ''T'', as_envelope_id = ''u'', as_email = email, as_name = ''Ann Lee'', as_signing_order = order \<rparr>"

definition run_created :: sign_db where
  "run_created = fst (createEnvelope demo_env empty_db \<lparr> ce_tenant_id = ''T'', ce_subject = ''offer'', ce_execution_mode = ''OWNED'',
     ce_created_by = ''sender'', ce_source_application = None, ce_installation_id = None, ce_origin_actor_kind = None,
     ce_routing_mode = Some SEQUENTIAL, ce_template_refs = (None, None), ce_envelope_mode = None \<rparr>)"

definition run_documented :: sign_db where
  "run_documented = fst (addDocument demo_env run_created \<lparr> ed_id = [], ed_tenant_id = ''T'', ed_envelope_id = ''u'', ed_source_mode = ''UPLOAD'',
     ed_document_ref = None, ed_document_revision_ref = None, ed_source_object_key = None, ed_content_type = None, ed_byte_size = None,
     ed_title = ''offer'', ed_source_sha256 = ''h'', ed_ordinal = 0 \<rparr>)"

definition run_first :: sign_db where
  "run_first = recruit_row demo_env run_documented (run_row ''ann@x.io'' 1)"

definition run_draft :: sign_db where
  "run_draft = recruit_row demo_env run_first ((run_row ''bob@x.io'' 2)\<lparr>sg_recipient_kind := IN_PERSON_SIGNER\<rparr>)"

definition run_sent :: sign_db where
  "run_sent = fst (send demo_env run_draft ''T'' ''u'' ''sender'' None)"

definition run_accept :: accept_input where
  "run_accept = \<lparr> ai_disclosure_version = ''v1'', ai_disclosure_text_hash = ''By continuing you consent to sign this document electronically.'',
     ai_ip_address = None, ai_user_agent = None, ai_attested_name = Some ''Ann Lee'' \<rparr>"

definition ann_ctx :: session_context where
  "ann_ctx = context_of (hd (sd_sessions run_sent))"

definition run_accepted :: sign_db where
  "run_accepted = fst (acceptDisclosure demo_env run_sent ann_ctx run_accept)"

definition run_ann_signed :: sign_db where
  "run_ann_signed = fst (completeSigner demo_env run_accepted ann_ctx)"

definition run_hosted :: sign_db where
  "run_hosted = fst (issueHostedSession demo_env run_ann_signed ''T'' ''u'' ''u111111'' ''host'')"

definition bob_ctx :: session_context where
  "bob_ctx = context_of (sd_sessions run_hosted ! 1)"

definition run_accepted2 :: sign_db where
  "run_accepted2 = fst (acceptDisclosure demo_env run_hosted bob_ctx run_accept)"

definition run_done :: sign_db where
  "run_done = fst (completeSigner demo_env run_accepted2 bob_ctx)"

text \<open>The rows of the run.\<close>

definition row_env :: "int \<Rightarrow> sign_envelope" where
  "row_env n = (demo_envelope SENT)\<lparr>en_routing_mode := SEQUENTIAL, en_sent_at := Some 8, en_expires_at := Some 2592000007, en_revision := n\<rparr>"

definition row_ann :: signer where
  "row_ann = (run_row ''ann@x.io'' 1)\<lparr>sg_id := ''u11111''\<rparr>"

definition row_bob :: signer where
  "row_bob = (run_row ''bob@x.io'' 2)\<lparr>sg_id := ''u111111'', sg_recipient_kind := IN_PERSON_SIGNER\<rparr>"

definition row_link :: signing_session where
  "row_link = demo_session\<lparr>ss_id := ''u1111111111111'', ss_signer_id := ''u11111'', ss_token_hash := ''t111111111111'', ss_status := ISSUED,
    ss_created_at := 14, ss_expires_at := 604800007, ss_first_accessed_at := None, ss_last_accessed_at := None\<rparr>"

definition row_host :: signing_session where
  "row_host = row_link\<lparr>ss_id := ''u1111111111111111111111111111'', ss_signer_id := ''u111111'', ss_token_hash := ''t111111111111111111111111111'',
     ss_created_at := 29, ss_expires_at := 1800026, ss_origin := Some HOSTED, ss_host_user_id := Some ''host''\<rparr>"

lemma ann_ctx_row: "ann_ctx = context_of row_link"
  by code_simp

lemma accepted_rows:
  "sd_envelopes run_accepted = [row_env 6]" "sd_signers run_accepted = [row_ann, row_bob]" "sd_sessions run_accepted = [row_link]"
  "hasAcceptedDisclosure run_accepted ''T'' ''u11111''" "sd_fields run_accepted = []" "sd_qes run_accepted = []"
  "sd_tick run_accepted = 20" "sd_identity run_accepted = []"
  by code_simp+

lemmas row_defs = row_env_def row_ann_def row_bob_def row_link_def row_host_def run_row_def demo_envelope_def demo_session_def new_signer_def demo_env_def

lemma signed_rows:
  "sd_envelopes run_ann_signed = [row_env 7]" "sd_signers run_ann_signed = [row_ann\<lparr>sg_status := SIGNED, sg_signed_at := Some 21\<rparr>, row_bob]"
  "sd_sessions run_ann_signed = [row_link\<lparr>ss_status := SESSION_COMPLETED, ss_completed_at := Some 22\<rparr>]"
  "sd_fields run_ann_signed = []" "sd_qes run_ann_signed = []"
  "sd_tick run_ann_signed = 26" "sd_acceptances run_ann_signed = sd_acceptances run_accepted" "sd_identity run_ann_signed = []"
  using accepted_rows by (simp_all add: run_ann_signed_def sign_eval row_defs ann_ctx_row cong: sign_weak)

lemma replicate_num [simp]: "replicate (numeral k) x = x # replicate (pred_numeral k) x"
  by (simp add: numeral_eq_Suc)

lemma hosted_rows:
  "sd_envelopes run_hosted = [row_env 8]" "sd_signers run_hosted = sd_signers run_ann_signed"
  "sd_sessions run_hosted = [row_link\<lparr>ss_status := SESSION_COMPLETED, ss_completed_at := Some 22\<rparr>, row_host]"
  "sd_fields run_hosted = []" "sd_qes run_hosted = []"
  "sd_tick run_hosted = 32" "sd_acceptances run_hosted = sd_acceptances run_ann_signed" "sd_identity run_hosted = []"
  using signed_rows by (simp_all add: run_hosted_def issueHostedSession_def hosted_tx_def HOSTED_SESSION_TTL_MS_def sign_eval row_defs cong: sign_weak)

lemma bob_ctx_row: "bob_ctx = context_of row_host"
  by (simp add: bob_ctx_def hosted_rows)

lemma ann_name: "normalizeAttestedName (Some ''Ann Lee'') = Some ''Ann Lee''"
  by code_simp

lemma accepted2_rows:
  "sd_envelopes run_accepted2 = [row_env 9]" "sd_signers run_accepted2 = sd_signers run_ann_signed" "sd_sessions run_accepted2 = sd_sessions run_hosted"
  "hasAcceptedDisclosure run_accepted2 ''T'' ''u111111''" "sd_fields run_accepted2 = []" "sd_qes run_accepted2 = []"
  "sd_tick run_accepted2 = 37" "sd_identity run_accepted2 = []"
  using signed_rows hosted_rows by (simp_all add: run_accepted2_def run_accept_def ann_name sign_eval row_defs bob_ctx_row cong: sign_weak)

lemma done_rows:
  "sd_envelopes run_done = [(row_env 10)\<lparr>en_status := COMPLETED, en_completed_at := Some 46\<rparr>]"
  "map sg_status (sd_signers run_done) = [SIGNED, SIGNED]"
  "map sg_signing_order (sd_signers run_done) = [1, 2]" "map isSigningRecipient (sd_signers run_done) = [True, True]"
  "envelope_signers (sd_signers run_done) ''T'' ''u'' = sd_signers run_done"
  using signed_rows hosted_rows accepted2_rows by (simp_all add: run_done_def sign_eval row_defs bob_ctx_row cong: sign_weak)

section \<open>A recipient with two sessions\<close>

text \<open>
  Ann is bound to a user: the link she was sent and the self-sign session she opens are both
  live. She accepts and signs through the second one.
\<close>

definition late_created :: sign_db where
  "late_created = fst (createEnvelope demo_env empty_db \<lparr> ce_tenant_id = ''T'', ce_subject = ''offer'', ce_execution_mode = ''OWNED'',
     ce_created_by = ''sender'', ce_source_application = None, ce_installation_id = None, ce_origin_actor_kind = None,
     ce_routing_mode = Some PARALLEL, ce_template_refs = (None, None), ce_envelope_mode = None \<rparr>)"

definition late_documented :: sign_db where
  "late_documented = fst (addDocument demo_env late_created \<lparr> ed_id = [], ed_tenant_id = ''T'', ed_envelope_id = ''u'', ed_source_mode = ''UPLOAD'',
     ed_document_ref = None, ed_document_revision_ref = None, ed_source_object_key = None, ed_content_type = None, ed_byte_size = None,
     ed_title = ''offer'', ed_source_sha256 = ''h'', ed_ordinal = 0 \<rparr>)"

definition late_ann :: signer where
  "late_ann = (run_row ''ann@x.io'' 1)\<lparr>sg_bound_user_id := Some ''ann''\<rparr>"

definition late_draft :: sign_db where
  "late_draft = recruit_row demo_env (recruit_row demo_env late_documented late_ann) (run_row ''bob@x.io'' 2)"

definition late_field :: sign_field where
  "late_field = \<lparr> sf_id = [], sf_tenant_id = ''T'', sf_envelope_document_id = ''u1111'', sf_signer_id = Some ''u11111'', sf_field_type = F_TEXT,
     sf_signature_method = None, sf_required = False, sf_value = None, sf_filled_at = None, sf_group_key = None, sf_group_rule = None,
     sf_min_selected = None, sf_name_mode = None, sf_payment_amount_minor = None, sf_payment_currency = None \<rparr>"

definition late_placed :: sign_db where
  "late_placed = addField demo_env late_draft late_field"

definition late_sent :: sign_db where
  "late_sent = fst (send demo_env late_placed ''T'' ''u'' ''sender'' None)"

definition late_self :: sign_db where
  "late_self = fst (issueSelfSignSession demo_env late_sent ''T'' ''u'' ''ann'' (Some ''ann@x.io'') None)"

definition late_ctx :: "string \<Rightarrow> session_context" where
  "late_ctx sid = \<lparr> cx_session_id = sid, cx_tenant_id = ''T'', cx_envelope_id = ''u'', cx_signer_id = ''u11111'' \<rparr>"

definition late_accepted :: sign_db where
  "late_accepted = fst (acceptDisclosure demo_env late_self (late_ctx ''u111111111111111111111'') run_accept)"

definition late_signed :: sign_db where
  "late_signed = fst (completeSigner demo_env late_accepted (late_ctx ''u111111111111111111111''))"

lemma late_accepted_rows:
  "sd_envelopes late_accepted = [(demo_envelope SENT)\<lparr>en_sent_at := Some 9, en_expires_at := Some 2592000008, en_revision := 8\<rparr>]"
  "sd_signers late_accepted = [late_ann\<lparr>sg_id := ''u11111''\<rparr>, (run_row ''bob@x.io'' 2)\<lparr>sg_id := ''u111111''\<rparr>]"
  "sd_sessions late_accepted = [
     row_link\<lparr>ss_id := ''u11111111111111'', ss_token_hash := ''t1111111111111'', ss_created_at := 15, ss_expires_at := 604800008\<rparr>,
     row_link\<lparr>ss_id := ''u11111111111111111'', ss_signer_id := ''u111111'', ss_token_hash := ''t1111111111111111'', ss_created_at := 18,
       ss_expires_at := 604800008\<rparr>,
     row_link\<lparr>ss_id := ''u111111111111111111111'', ss_token_hash := ''t11111111111111111111'', ss_created_at := 22, ss_expires_at := 1800019,
       ss_origin := Some SELF, ss_authenticated_user_id := Some ''ann''\<rparr>]"
  "sd_fields late_accepted = [late_field\<lparr>sf_id := ''u1111111''\<rparr>]" "hasAcceptedDisclosure late_accepted ''T'' ''u11111''"
  "sd_qes late_accepted = []" "sd_tick late_accepted = 30"
  by code_simp+

lemmas late_eval = late_ann_def late_field_def late_ctx_def row_defs

lemma late_signed_rows:
  "map sg_status (sd_signers late_signed) = [SIGNED, PENDING]" "map_option sg_status (find_signer late_signed ''T'' ''u11111'') = Some SIGNED"
  "snd (fillField demo_env late_signed (late_ctx ''u11111111111111'') ''u1111111'' ''changed'' None) = Inr ()"
  "map sf_value (sd_fields (fst (fillField demo_env late_signed (late_ctx ''u11111111111111'') ''u1111111'' ''changed'' None))) = [Some ''changed'']"
  "map sf_value (sd_fields late_signed) = [None]"
  "snd (decline demo_env late_signed ''T'' ''u'' ''u11111'' ''no'' (Some ''u11111111111111'')) = Inr ()"
  using late_accepted_rows
  by (simp_all add: late_signed_def late_eval field_value_refusal_def isServerFilledName_def isPaymentField_def profileTextValueRefusal_def CHECK_FIELD_TYPES_def PROFILE_TEXT_FIELD_TYPES_def sign_eval cong: sign_weak)

end
