(* ===== verification/Sign_Identity.thy ===== *)
theory Sign_Identity
  imports Sign_Demo
begin

text \<open>
  Recipient identity verification (\<^verbatim>\<open>libs/sign/src/lib/identity-verification/\<close>:
  \<^verbatim>\<open>identity-verification.service.ts\<close>, \<^verbatim>\<open>name-match.ts\<close>, \<^verbatim>\<open>identity-gate.ts\<close>). The
  vendor is called outside every transaction, so the operations are given as their
  transactions (\<open>start_create_tx\<close>, \<open>start_record_tx\<close>, \<open>settle_tx\<close>) and as
  the calls that compose them. The vendor port, the Unicode tables behind the name
  comparison and the settings are parameters.
\<close>

section \<open>Ports\<close>

record idv_result =
  ir_outcome :: attempt_status
  ir_verified_name :: "(string \<times> string) option"
  ir_document_country :: "string option"
  ir_failure_code :: "string option"

datatype start_answer = Started string string | Start_unavailable string bool | Start_error

datatype webhook_kind = RESULT_AVAILABLE | EVENT_IGNORED

text \<open>
  \<open>iw_fold\<close> is NFKD with the combining marks removed, \<open>iw_word\<close> the letters and
  numbers of the pattern; a vendor call that fails answers None.
\<close>

record idv_env =
  iw_provider :: string
  iw_configured :: bool
  iw_kba_configured :: bool
  iw_max_setting :: "js_number option"
  iw_fold :: "string \<Rightarrow> string"
  iw_word :: "char \<Rightarrow> bool"
  iw_start :: "nat \<Rightarrow> string \<Rightarrow> start_answer"
  iw_resume :: "nat \<Rightarrow> string \<Rightarrow> string option option"
  iw_retrieve :: "nat \<Rightarrow> string \<Rightarrow> idv_result option"
  iw_redact :: "nat \<Rightarrow> string \<Rightarrow> bool"
  iw_webhook :: "string \<Rightarrow> string option \<Rightarrow> int \<Rightarrow> (string, webhook_kind \<times> string option) result"

datatype idv_error =
    Idv_sign sign_error
  | Idv_unavailable string bool
  | Idv_locked string string
  | Idv_vendor_failed
  | Idv_webhook_rejected string

section \<open>Settings and the name comparison\<close>

definition ID_VERIFICATION_MAX_ATTEMPTS_DEFAULT :: nat where
  "ID_VERIFICATION_MAX_ATTEMPTS_DEFAULT = 3"

text \<open>None is an unset variable.\<close>

definition idVerificationMaxAttempts :: "idv_env \<Rightarrow> nat" where
  "idVerificationMaxAttempts w =
     (case iw_max_setting w of
        Some (JFin n) \<Rightarrow> if n = of_int \<lfloor>n\<rfloor> \<and> n \<ge> 1 \<and> n \<le> 10 then nat \<lfloor>n\<rfloor> else ID_VERIFICATION_MAX_ATTEMPTS_DEFAULT
      | _ \<Rightarrow> ID_VERIFICATION_MAX_ATTEMPTS_DEFAULT)"

definition sanitizeFailure :: "string option \<Rightarrow> string" where
  "sanitizeFailure code =
     (let c = take 64 (map (\<lambda>x. if (CHR ''a'' \<le> x \<and> x \<le> CHR ''z'') \<or> (CHR ''0'' \<le> x \<and> x \<le> CHR ''9'') \<or> x = CHR ''_'' then x else CHR ''_'')
            (js_lower (case code of None \<Rightarrow> ''unverified'' | Some c \<Rightarrow> c)))
      in if length c > 0 then c else ''unverified'')"

fun split_space :: "string \<Rightarrow> string \<Rightarrow> string list" where
  "split_space acc [] = [rev acc]"
| "split_space acc (c # cs) = (if js_space c then rev acc # split_space [] cs else split_space (c # acc) cs)"

definition nameTokens :: "idv_env \<Rightarrow> string \<Rightarrow> string list" where
  "nameTokens w v = filter (\<lambda>t. length t > 0) (split_space []
     (map (\<lambda>c. if c = CHR 0x27 \<or> c = CHR ''-'' then CHR '' '' else c)
       (map (\<lambda>c. if iw_word w c \<or> js_space c \<or> c = CHR 0x27 \<or> c = CHR ''-'' then c else CHR '' '') (js_lower (iw_fold w v)))))"

definition verifiedNameMatches :: "idv_env \<Rightarrow> (string \<times> string) option \<Rightarrow> string \<Rightarrow> bool" where
  "verifiedNameMatches w verified recipientName \<longleftrightarrow>
     (case verified of
        None \<Rightarrow> False
      | Some (first, last_name) \<Rightarrow>
          let recipient = nameTokens w recipientName; family = nameTokens w last_name
          in (case nameTokens w first of
                [] \<Rightarrow> False
              | given # _ \<Rightarrow> family \<noteq> [] \<and> recipient \<noteq> [] \<and> given \<in> set recipient \<and> list_all (\<lambda>t. t \<in> set recipient) family))"

section \<open>Where a recipient stands\<close>

datatype verification_state = NOT_REQUIRED | REQUIRED | VS_PENDING | VS_VERIFIED | VS_LOCKED

record status_view =
  sw_method :: "string option"
  sw_state :: verification_state
  sw_attempts_remaining :: "int option"
  sw_last_failure :: "string option"

definition requirement :: "sign_db \<Rightarrow> session_context \<Rightarrow> string option \<times> bool \<times> string" where
  "requirement db ctx =
     (case find_recipient db (cx_tenant_id ctx) (cx_envelope_id ctx) (cx_signer_id ctx) of
        None \<Rightarrow> (None, False, [])
      | Some s \<Rightarrow> (sg_identity_verification_method s, sg_identity_verification_locked_at s \<noteq> None, sg_name s))"

definition attempts_of :: "string \<Rightarrow> string \<Rightarrow> string \<Rightarrow> identity_verification list \<Rightarrow> identity_verification list" where
  "attempts_of tenant sid m ivs = filter (\<lambda>v. iv_tenant_id v = tenant \<and> iv_signer_id v = sid \<and> iv_method v = m) ivs"

definition attempts :: "sign_db \<Rightarrow> session_context \<Rightarrow> string \<Rightarrow> identity_verification list" where
  "attempts db ctx m = rev (sort_key (\<lambda>v. (iv_created_at v, iv_id v)) (attempts_of (cx_tenant_id ctx) (cx_signer_id ctx) m (sd_identity db)))"

definition started_count :: "identity_verification list \<Rightarrow> nat" where
  "started_count rows = length (filter (\<lambda>v. iv_vendor_reference v \<noteq> None) rows)"

definition open_attempt :: "identity_verification \<Rightarrow> bool" where
  "open_attempt v \<longleftrightarrow> iv_status v = AT_PENDING \<and> iv_vendor_reference v \<noteq> None"

definition idv_view :: "idv_env \<Rightarrow> string option \<Rightarrow> bool \<Rightarrow> identity_verification list \<Rightarrow> status_view" where
  "idv_view w m locked rows =
     (case m of
        None \<Rightarrow> \<lparr> sw_method = None, sw_state = NOT_REQUIRED, sw_attempts_remaining = None, sw_last_failure = None \<rparr>
      | Some _ \<Rightarrow>
          let remaining = max 0 (int (idVerificationMaxAttempts w) - int (started_count rows));
              lastFailure = (case find (\<lambda>r. iv_status r = AT_FAILED) rows of None \<Rightarrow> None | Some r \<Rightarrow> iv_failure_reason r)
          in if locked then \<lparr> sw_method = m, sw_state = VS_LOCKED, sw_attempts_remaining = Some 0, sw_last_failure = lastFailure \<rparr>
             else if list_ex (\<lambda>r. iv_status r = AT_VERIFIED) rows
             then \<lparr> sw_method = m, sw_state = VS_VERIFIED, sw_attempts_remaining = Some remaining, sw_last_failure = None \<rparr>
             else if list_ex open_attempt rows
             then \<lparr> sw_method = m, sw_state = VS_PENDING, sw_attempts_remaining = Some remaining, sw_last_failure = lastFailure \<rparr>
             else \<lparr> sw_method = m, sw_state = REQUIRED, sw_attempts_remaining = Some remaining, sw_last_failure = lastFailure \<rparr>)"

section \<open>Settling an attempt\<close>

definition update_attempt :: "string \<Rightarrow> (identity_verification \<Rightarrow> identity_verification) \<Rightarrow> sign_db \<Rightarrow> sign_db" where
  "update_attempt aid f db = db\<lparr>sd_identity := update_where (\<lambda>v. iv_id v = aid) f (sd_identity db)\<rparr>"

definition service_event :: "session_context \<Rightarrow> string \<Rightarrow> (string \<times> json) list \<Rightarrow> append_event_input" where
  "service_event ctx ty payload = (event (cx_tenant_id ctx) (cx_envelope_id ctx) ty ''SERVICE'')
     \<lparr>ae_signer_id := Some (cx_signer_id ctx), ae_payload := Some (JObj payload)\<rparr>"

definition lockIn :: "sign_env \<Rightarrow> sign_db \<Rightarrow> session_context \<Rightarrow> string \<Rightarrow> nat option \<Rightarrow> sign_db" where
  "lockIn env db ctx reason started =
     (let now = now_of env db;
          db1 = update_signer (cx_signer_id ctx) (\<lambda>s. s\<lparr>sg_identity_verification_locked_at := Some now\<rparr>) (tick db);
          db2 = revoke_where (\<lambda>x. ss_tenant_id x = cx_tenant_id ctx \<and> ss_envelope_id x = cx_envelope_id ctx \<and> ss_signer_id x = cx_signer_id ctx) now db1
      in appendEvent env db2 (service_event ctx ''IDENTITY_VERIFICATION_LOCKED''
           ((''reason'', JStr reason) # (case started of None \<Rightarrow> [] | Some n \<Rightarrow> [(''attempts'', JNum (JFin (of_nat n)))]))))"

definition attempt_context :: "identity_verification \<Rightarrow> session_context" where
  "attempt_context v = \<lparr> cx_session_id = iv_session_id v, cx_tenant_id = iv_tenant_id v, cx_envelope_id = iv_envelope_id v,
     cx_signer_id = iv_signer_id v \<rparr>"

definition attempt_base :: "identity_verification \<Rightarrow> (string \<times> json) list" where
  "attempt_base v =
     [(''attempt_id'', JStr (iv_id v)), (''verification_method'', JStr (iv_method v)), (''provider'', JStr (iv_provider v)),
      (''vendor_reference'', opt_str (iv_vendor_reference v))]"

text \<open>The three outcomes of the vendor: verified in the recipient's name, in another name, not verified.\<close>

definition settle_verified :: "sign_env \<Rightarrow> sign_db \<Rightarrow> identity_verification \<Rightarrow> idv_result \<Rightarrow> int \<Rightarrow> sign_db" where
  "settle_verified env db v res now =
     appendEvent env
       (update_attempt (iv_id v) (\<lambda>x. x\<lparr>iv_status := AT_VERIFIED, iv_name_match := Some True,
          iv_document_country := ir_document_country res, iv_completed_at := Some now\<rparr>) db)
       (service_event (attempt_context v) ''IDENTITY_VERIFIED''
          (attempt_base v @ [(''name_match'', JBool True), (''document_country'', opt_str (ir_document_country res))]))"

definition settle_mismatch :: "sign_env \<Rightarrow> sign_db \<Rightarrow> identity_verification \<Rightarrow> idv_result \<Rightarrow> int \<Rightarrow> sign_db" where
  "settle_mismatch env db v res now =
     appendEvent env
       (update_attempt (iv_id v) (\<lambda>x. x\<lparr>iv_status := AT_FAILED, iv_name_match := Some False,
          iv_document_country := ir_document_country res, iv_failure_reason := Some ''name_mismatch'', iv_completed_at := Some now\<rparr>) db)
       (service_event (attempt_context v) ''IDENTITY_VERIFICATION_FAILED''
          (attempt_base v @ [(''reason'', JStr ''name_mismatch''), (''name_match'', JBool False)]))"

definition settle_unverified :: "sign_env \<Rightarrow> sign_db \<Rightarrow> identity_verification \<Rightarrow> idv_result \<Rightarrow> int \<Rightarrow> sign_db" where
  "settle_unverified env db v res now =
     (let failed = (ir_outcome res = AT_FAILED);
          reason = (if failed then Some (sanitizeFailure (ir_failure_code res)) else None)
      in appendEvent env
           (update_attempt (iv_id v) (\<lambda>x. x\<lparr>iv_status := (if failed then AT_FAILED else AT_CANCELLED),
              iv_failure_reason := reason, iv_completed_at := Some now\<rparr>) db)
           (service_event (attempt_context v) (if failed then ''IDENTITY_VERIFICATION_FAILED'' else ''IDENTITY_VERIFICATION_CANCELLED'')
              (attempt_base v @ (case reason of None \<Rightarrow> [] | Some r \<Rightarrow> [(''reason'', JStr r)]))))"

text \<open>
  The settling transaction on an attempt read earlier and the vendor's answer: None when the
  attempt was settled meanwhile, else who to tell and whether to close the vendor session.
\<close>

definition settle_tx ::
  "sign_env \<Rightarrow> idv_env \<Rightarrow> sign_db \<Rightarrow> identity_verification \<Rightarrow> idv_result \<Rightarrow> int \<Rightarrow>
     (sign_error, (string option \<times> bool) option \<times> sign_db) result" where
  "settle_tx env w db v res now =
     (let ctx = attempt_context v in
      rbind (lockEnvelope db (cx_tenant_id ctx) (cx_envelope_id ctx)) (\<lambda>_.
        if \<not> list_ex (\<lambda>x. iv_id x = iv_id v \<and> iv_status x = AT_PENDING) (sd_identity db) then Inr (None, db)
        else (case find_signer db (cx_tenant_id ctx) (cx_signer_id ctx) of
          None \<Rightarrow> Inl RowMissing
        | Some s \<Rightarrow>
            if ir_outcome res = AT_VERIFIED
            then
              if verifiedNameMatches w (ir_verified_name res) (sg_name s)
              then Inr (Some (None, False), settle_verified env db v res now)
              else
                let db1 = settle_mismatch env db v res now
                in Inr (Some (Some ''name_mismatch'', False),
                        if sg_identity_verification_locked_at s = None then lockIn env db1 ctx ''name_mismatch'' None else db1)
            else
              let failed = (ir_outcome res = AT_FAILED);
                  db1 = settle_unverified env db v res now;
                  started = started_count (attempts_of (cx_tenant_id ctx) (cx_signer_id ctx) (iv_method v) (sd_identity db1))
              in if started \<ge> idVerificationMaxAttempts w \<and> sg_identity_verification_locked_at s = None
                 then Inr (Some (Some ''attempts_exhausted'', failed), lockIn env db1 ctx ''attempts_exhausted'' (Some started))
                 else Inr (Some (None, failed), db1))))"

datatype webhook_outcome = IGNORED | UNKNOWN_SESSION | WO_PENDING | ALREADY_SETTLED | SETTLED

definition settle :: "sign_env \<Rightarrow> idv_env \<Rightarrow> sign_db \<Rightarrow> string \<Rightarrow> sign_db \<times> (idv_error, webhook_outcome) result" where
  "settle env w db attempt_id =
     (case find (\<lambda>v. iv_id v = attempt_id) (sd_identity db) of
        None \<Rightarrow> (db, Inr UNKNOWN_SESSION)
      | Some attempt \<Rightarrow>
          (case iv_vendor_reference attempt of
             None \<Rightarrow> (db, Inr UNKNOWN_SESSION)
           | Some ref \<Rightarrow>
               if iv_status attempt \<noteq> AT_PENDING then (db, Inr ALREADY_SETTLED)
               else (case iw_retrieve w (sd_tick db) ref of
                 None \<Rightarrow> (tick db, Inl Idv_vendor_failed)
               | Some res \<Rightarrow>
                   if ir_outcome res = AT_PENDING then (tick db, Inr WO_PENDING)
                   else (case settle_tx env w (tick (tick db)) attempt res (now_of env (tick db)) of
                     Inl e \<Rightarrow> (tick (tick db), Inl (Idv_sign e))
                   | Inr (None, db') \<Rightarrow> (db', Inr ALREADY_SETTLED)
                   | Inr (Some _, db') \<Rightarrow> (touch (iv_envelope_id attempt) db', Inr SETTLED)))))"

definition handleWebhook ::
  "sign_env \<Rightarrow> idv_env \<Rightarrow> sign_db \<Rightarrow> string \<Rightarrow> string option \<Rightarrow> int \<Rightarrow> sign_db \<times> (idv_error, webhook_outcome) result" where
  "handleWebhook env w db rawBody signatureHeader nowSec =
     (case iw_webhook w rawBody signatureHeader nowSec of
        Inl why \<Rightarrow> (db, Inl (Idv_webhook_rejected why))
      | Inr (kind, reference) \<Rightarrow>
          (case (kind, reference) of
             (RESULT_AVAILABLE, Some ref) \<Rightarrow>
               (case find (\<lambda>v. iv_provider v = iw_provider w \<and> iv_vendor_reference v = Some ref) (sd_identity db) of
                  None \<Rightarrow> (db, Inr UNKNOWN_SESSION)
                | Some attempt \<Rightarrow> settle env w db (iv_id attempt))
           | _ \<Rightarrow> (db, Inr IGNORED)))"

section \<open>Status\<close>

definition idv_status :: "sign_env \<Rightarrow> idv_env \<Rightarrow> sign_db \<Rightarrow> string \<Rightarrow> sign_db \<times> (idv_error, status_view) result" where
  "idv_status env w db rawToken =
     (case resolveSession env db rawToken of
        Inl e \<Rightarrow> (db, Inl (Idv_sign e))
      | Inr ctx \<Rightarrow>
          (case requirement db ctx of
             (None, _, _) \<Rightarrow> (tick db, Inr (idv_view w None False []))
           | (Some m, locked, _) \<Rightarrow>
               let rows = attempts db ctx m
               in (case find open_attempt rows of
                     Some v \<Rightarrow>
                       if \<not> locked \<and> iw_configured w
                       then (case settle env w (tick db) (iv_id v) of
                               (db', _) \<Rightarrow> (db', Inr (idv_view w (Some m) (fst (snd (requirement db' ctx))) (attempts db' ctx m))))
                       else (tick db, Inr (idv_view w (Some m) locked rows))
                   | None \<Rightarrow> (tick db, Inr (idv_view w (Some m) locked rows)))))"

section \<open>Starting an attempt\<close>

datatype create_outcome = CR_locked | CR_busy | CR_exhausted | CR_created string nat

definition new_attempt :: "idv_env \<Rightarrow> session_context \<Rightarrow> string \<Rightarrow> string \<Rightarrow> int \<Rightarrow> identity_verification" where
  "new_attempt w ctx m aid created =
     \<lparr> iv_id = aid, iv_tenant_id = cx_tenant_id ctx, iv_envelope_id = cx_envelope_id ctx, iv_signer_id = cx_signer_id ctx,
       iv_session_id = cx_session_id ctx, iv_method = m, iv_provider = iw_provider w, iv_vendor_reference = None,
       iv_status = AT_PENDING, iv_failure_reason = None, iv_name_match = None, iv_document_country = None,
       iv_created_at = created, iv_completed_at = None, iv_redacted_at = None \<rparr>"

definition start_create_tx ::
  "sign_env \<Rightarrow> idv_env \<Rightarrow> sign_db \<Rightarrow> session_context \<Rightarrow> string \<Rightarrow> (sign_error, create_outcome \<times> sign_db) result" where
  "start_create_tx env w db ctx m =
     rbind (lockSignableEnvelope db (cx_tenant_id ctx) (cx_envelope_id ctx)) (\<lambda>_.
       case find_signer db (cx_tenant_id ctx) (cx_signer_id ctx) of
         None \<Rightarrow> Inl RowMissing
       | Some s \<Rightarrow>
           if sg_identity_verification_locked_at s \<noteq> None then Inr (CR_locked, db)
           else
             let existing = attempts_of (cx_tenant_id ctx) (cx_signer_id ctx) m (sd_identity db); started = started_count existing
             in if list_ex (\<lambda>r. iv_status r = AT_PENDING) existing then Inr (CR_busy, db)
                else if started \<ge> idVerificationMaxAttempts w
                then Inr (CR_exhausted, lockIn env db ctx ''attempts_exhausted'' (Some started))
                else
                  let aid = uuid_of env db; db1 = tick db; created = now_of env db1; db2 = tick db1
                  in Inr (CR_created aid (started + 1), db2\<lparr>sd_identity := sd_identity db @
                       [new_attempt w ctx m aid created]\<rparr>))"

definition start_record_tx ::
  "sign_env \<Rightarrow> idv_env \<Rightarrow> sign_db \<Rightarrow> session_context \<Rightarrow> string \<Rightarrow> string \<Rightarrow> string \<Rightarrow> nat \<Rightarrow> string option \<Rightarrow> string option \<Rightarrow>
     (sign_error, unit \<times> sign_db) result" where
  "start_record_tx env w db ctx m aid ref number ip agent =
     rbind (lockEnvelope db (cx_tenant_id ctx) (cx_envelope_id ctx)) (\<lambda>_.
       if \<not> list_ex (\<lambda>v. iv_id v = aid) (sd_identity db) then Inl RowMissing
       else Inr ((), appendEvent env (update_attempt aid (\<lambda>v. v\<lparr>iv_vendor_reference := Some ref\<rparr>) db)
         ((signer_event ctx ''IDENTITY_VERIFICATION_STARTED'')\<lparr>ae_payload := Some (JObj
            [(''attempt_id'', JStr aid), (''session_id'', JStr (cx_session_id ctx)), (''verification_method'', JStr m),
             (''provider'', JStr (iw_provider w)), (''vendor_reference'', JStr ref), (''attempt_number'', JNum (JFin (of_nat number)))]),
            ae_ip_address := ip, ae_user_agent := agent\<rparr>)))"

definition cancel_unstarted :: "string \<Rightarrow> int \<Rightarrow> sign_db \<Rightarrow> sign_db" where
  "cancel_unstarted aid now db = db\<lparr>sd_identity :=
     update_where (\<lambda>v. iv_id v = aid \<and> iv_status v = AT_PENDING \<and> iv_vendor_reference v = None)
       (\<lambda>v. v\<lparr>iv_status := AT_CANCELLED, iv_completed_at := Some now, iv_failure_reason := Some ''vendor_unavailable''\<rparr>) (sd_identity db)\<rparr>"

definition start_new ::
  "sign_env \<Rightarrow> idv_env \<Rightarrow> sign_db \<Rightarrow> session_context \<Rightarrow> string \<Rightarrow> string option \<Rightarrow> string option \<Rightarrow>
     sign_db \<times> (idv_error, status_view \<times> string option) result" where
  "start_new env w db ctx m ip agent =
     (case start_create_tx env w db ctx m of
        Inl e \<Rightarrow> (db, Inl (Idv_sign e))
      | Inr (CR_exhausted, db1) \<Rightarrow> (touch (cx_envelope_id ctx) db1, Inl (Idv_locked (cx_signer_id ctx) ''attempts_exhausted''))
      | Inr (CR_locked, db1) \<Rightarrow> (db1, Inl (Idv_locked (cx_signer_id ctx) ''locked''))
      | Inr (CR_busy, db1) \<Rightarrow> (db1, Inr (idv_view w (Some m) False (attempts db1 ctx m), None))
      | Inr (CR_created aid number, db1) \<Rightarrow>
          (case iw_start w (sd_tick db1) aid of
             Start_unavailable reason retryable \<Rightarrow> (cancel_unstarted aid (now_of env (tick db1)) (tick (tick db1)), Inl (Idv_unavailable reason retryable))
           | Start_error \<Rightarrow> (cancel_unstarted aid (now_of env (tick db1)) (tick (tick db1)), Inl (Idv_unavailable ''provider_unreachable'' True))
           | Started ref url \<Rightarrow>
               (case start_record_tx env w (tick (tick db1)) ctx m aid ref number ip agent of
                  Inl e \<Rightarrow> (tick (tick db1), Inl (Idv_sign e))
                | Inr (_, db2) \<Rightarrow> (touch (cx_envelope_id ctx) db2, Inr (idv_view w (Some m) False (attempts db2 ctx m), Some url)))))"

text \<open>Resuming an open vendor session: Some answer ends the call, None goes on to a new attempt.\<close>

definition start_resume ::
  "sign_env \<Rightarrow> idv_env \<Rightarrow> sign_db \<Rightarrow> session_context \<Rightarrow> string \<Rightarrow> identity_verification \<Rightarrow>
     sign_db \<times> (idv_error, (status_view \<times> string option) option) result" where
  "start_resume env w db ctx m v =
     (case settle env w db (iv_id v) of
        (db1, Inl e) \<Rightarrow> (db1, Inl e)
      | (db1, Inr _) \<Rightarrow>
          let rows = attempts db1 ctx m
          in if fst (snd (requirement db1 ctx)) then (db1, Inl (Idv_locked (cx_signer_id ctx) ''locked''))
             else (case find (\<lambda>r. iv_id r = iv_id v) rows of
               None \<Rightarrow> (db1, Inr None)
             | Some still \<Rightarrow>
                 if iv_status still = AT_PENDING
                 then (case iw_resume w (sd_tick db1) (opt_default [] (iv_vendor_reference v)) of
                         None \<Rightarrow> (tick db1, Inl Idv_vendor_failed)
                       | Some url \<Rightarrow> (tick db1, Inr (Some (idv_view w (Some m) False rows, url))))
                 else if iv_status still = AT_VERIFIED then (db1, Inr (Some (idv_view w (Some m) False rows, None)))
                 else (db1, Inr None)))"

text \<open>Past the checks: a verified recipient is done, an open session is resumed, else a new attempt.\<close>

definition start_body ::
  "sign_env \<Rightarrow> idv_env \<Rightarrow> sign_db \<Rightarrow> session_context \<Rightarrow> string \<Rightarrow> string option \<Rightarrow> string option \<Rightarrow>
     sign_db \<times> (idv_error, status_view \<times> string option) result" where
  "start_body env w db ctx m ip agent =
     (let rows = attempts db ctx m
      in if list_ex (\<lambda>r. iv_status r = AT_VERIFIED) rows then (tick db, Inr (idv_view w (Some m) False rows, None))
         else (case find open_attempt rows of
           None \<Rightarrow> start_new env w (tick db) ctx m ip agent
         | Some v \<Rightarrow>
             (case start_resume env w (tick db) ctx m v of
                (db1, Inl e) \<Rightarrow> (db1, Inl e)
              | (db1, Inr (Some answer)) \<Rightarrow> (db1, Inr answer)
              | (db1, Inr None) \<Rightarrow> start_new env w db1 ctx m ip agent)))"

definition start ::
  "sign_env \<Rightarrow> idv_env \<Rightarrow> sign_db \<Rightarrow> string \<Rightarrow> string option \<Rightarrow> string option \<Rightarrow>
     sign_db \<times> (idv_error, status_view \<times> string option) result" where
  "start env w db rawToken ip agent =
     (case resolveSession env db rawToken of
        Inl e \<Rightarrow> (db, Inl (Idv_sign e))
      | Inr ctx \<Rightarrow>
          (case requirement db ctx of
             (None, _, _) \<Rightarrow> (tick db, Inr (idv_view w None False [], None))
           | (Some m, locked, _) \<Rightarrow>
               if m = ''KBA'' \<and> \<not> iw_kba_configured w then (tick db, Inl (Idv_unavailable ''kba_vendor_not_selected'' False))
               else if \<not> iw_configured w then (tick db, Inl (Idv_unavailable ''provider_not_configured'' False))
               else if locked then (tick db, Inl (Idv_locked (cx_signer_id ctx) ''locked''))
               else start_body env w db ctx m ip agent))"

section \<open>Purge\<close>

definition redact_refused :: "idv_env \<Rightarrow> sign_db \<Rightarrow> identity_verification \<Rightarrow> bool" where
  "redact_refused w db r \<longleftrightarrow> iv_vendor_reference r \<noteq> None \<and>
     (iv_provider r \<noteq> iw_provider w \<or> \<not> iw_configured w \<or> \<not> iw_redact w (sd_tick db) (opt_default [] (iv_vendor_reference r)))"

definition redact_one :: "idv_env \<Rightarrow> int \<Rightarrow> sign_db \<Rightarrow> identity_verification \<Rightarrow> sign_db" where
  "redact_one w now db r =
     (if redact_refused w db r then tick db
      else update_attempt (iv_id r) (\<lambda>v. v\<lparr>iv_document_country := None, iv_failure_reason := None, iv_redacted_at := Some now\<rparr>) (tick db))"

fun redact_loop :: "idv_env \<Rightarrow> int \<Rightarrow> sign_db \<Rightarrow> identity_verification list \<Rightarrow> sign_db \<times> nat \<times> nat" where
  "redact_loop w now db [] = (db, 0, 0)"
| "redact_loop w now db (r # rs) =
     (case redact_loop w now (redact_one w now db r) rs of
        (db', redacted, failed) \<Rightarrow> if redact_refused w db r then (db', redacted, failed + 1) else (db', redacted + 1, failed))"

definition redactEnvelope :: "idv_env \<Rightarrow> sign_db \<Rightarrow> string \<Rightarrow> string \<Rightarrow> int \<Rightarrow> sign_db \<times> nat \<times> nat" where
  "redactEnvelope w db tenant eid now =
     redact_loop w now db (filter (\<lambda>v. iv_tenant_id v = tenant \<and> iv_envelope_id v = eid \<and> iv_redacted_at v = None) (sd_identity db))"

section \<open>The workflow refines the signing protocol\<close>

lemma sim_identity [simp]: "sim env db (db\<lparr>sd_identity := vs\<rparr>)"
  by (rule sim_frame) (simp_all add: view_def used_ids_def)

lemma sim_update_attempt [simp]: "sim env db (update_attempt aid f db)"
  unfolding update_attempt_def by (rule sim_identity)

lemma sim_signer_frame:
  assumes "\<And>s. core_signer (f s) = core_signer s" "\<And>s. sg_id (f s) = sg_id s"
  shows "sim env db (update_signer sid f db)"
proof (rule sim_frame)
  have "map core_signer (update_where (\<lambda>s. sg_id s = sid) f xs) = map core_signer xs" for xs
    using assms(1) by (intro map_update_where)
  then show "view (update_signer sid f db) = view db" by (intro view_eqI) (simp_all add: update_signer_def)
qed (simp_all add: ids_update_signer [of f, OF assms(2)])

lemma sim_lockIn [simp]: "sim env db (lockIn env db ctx reason started)"
proof -
  have "sim env (tick db) (update_signer (cx_signer_id ctx) (\<lambda>s. s\<lparr>sg_identity_verification_locked_at := Some (now_of env db)\<rparr>) (tick db))"
    by (rule sim_signer_frame) (simp_all add: core_signer_def)
  from sim_trans [OF sim_trans [OF sim_trans [OF sim_tick this] sim_revoke_signer] sim_append]
  show ?thesis unfolding lockIn_def Let_def .
qed

lemmas settle_writes = settle_verified_def settle_mismatch_def settle_unverified_def

lemma sim_settle_writes [simp]:
  "sim env db (settle_verified env db v res now)" "sim env db (settle_mismatch env db v res now)" "sim env db (settle_unverified env db v res now)"
  unfolding settle_writes Let_def by (rule sim_trans [OF sim_update_attempt sim_append])+

lemma settle_tx_Inr:
  assumes "settle_tx env w db v res now = Inr (out, db')"
  obtains "db' = db" "out = None"
  | s where "find_signer db (iv_tenant_id v) (iv_signer_id v) = Some s" "list_ex (\<lambda>x. iv_id x = iv_id v \<and> iv_status x = AT_PENDING) (sd_identity db)"
      "ir_outcome res = AT_VERIFIED" "verifiedNameMatches w (ir_verified_name res) (sg_name s)" "db' = settle_verified env db v res now"
  | s where "find_signer db (iv_tenant_id v) (iv_signer_id v) = Some s" "list_ex (\<lambda>x. iv_id x = iv_id v \<and> iv_status x = AT_PENDING) (sd_identity db)"
      "ir_outcome res = AT_VERIFIED" "\<not> verifiedNameMatches w (ir_verified_name res) (sg_name s)"
      "db' = (if sg_identity_verification_locked_at s = None
         then lockIn env (settle_mismatch env db v res now) (attempt_context v) ''name_mismatch'' None else settle_mismatch env db v res now)"
  | s started where "find_signer db (iv_tenant_id v) (iv_signer_id v) = Some s" "list_ex (\<lambda>x. iv_id x = iv_id v \<and> iv_status x = AT_PENDING) (sd_identity db)"
      "ir_outcome res \<noteq> AT_VERIFIED"
      "started = started_count (attempts_of (iv_tenant_id v) (iv_signer_id v) (iv_method v) (sd_identity (settle_unverified env db v res now)))"
      "db' = (if started \<ge> idVerificationMaxAttempts w \<and> sg_identity_verification_locked_at s = None
         then lockIn env (settle_unverified env db v res now) (attempt_context v) ''attempts_exhausted'' (Some started) else settle_unverified env db v res now)"
proof (cases "list_ex (\<lambda>x. iv_id x = iv_id v \<and> iv_status x = AT_PENDING) (sd_identity db)")
  case False
  then show thesis using assms that(1) by (auto simp: settle_tx_def Let_def rbind_Inr_iff)
next
  case True
  have c: "cx_tenant_id (attempt_context v) = iv_tenant_id v" "cx_signer_id (attempt_context v) = iv_signer_id v"
    by (simp_all add: attempt_context_def)
  obtain s where s: "find_signer db (iv_tenant_id v) (iv_signer_id v) = Some s"
    using assms True c by (auto simp: settle_tx_def Let_def rbind_Inr_iff split: option.splits)
  consider "ir_outcome res = AT_VERIFIED" "verifiedNameMatches w (ir_verified_name res) (sg_name s)"
    | "ir_outcome res = AT_VERIFIED" "\<not> verifiedNameMatches w (ir_verified_name res) (sg_name s)" | "ir_outcome res \<noteq> AT_VERIFIED" by blast
  then show thesis
  proof cases
    case 1
    then show thesis using assms True s c by (intro that(2) [of s]) (auto simp: settle_tx_def Let_def rbind_Inr_iff)
  next
    case 2
    then show thesis using assms True s c by (intro that(3) [of s]) (auto simp: settle_tx_def Let_def rbind_Inr_iff)
  next
    case 3
    then show thesis using assms True s c by (intro that(4) [of s]) (auto simp: settle_tx_def Let_def rbind_Inr_iff split: if_splits)
  qed
qed

lemma sim_settle_tx:
  assumes "settle_tx env w db v res now = Inr (out, db')"
  shows "sim env db db'"
  using assms
  by (rule settle_tx_Inr) (simp_all add: sim_trans [OF sim_settle_writes(2) sim_lockIn] sim_trans [OF sim_settle_writes(3) sim_lockIn])

lemma start_create_Inr:
  assumes "start_create_tx env w db ctx m = Inr (out, db')"
  obtains "db' = db"
  | started where "db' = lockIn env db ctx ''attempts_exhausted'' (Some started)"
  | "\<not> list_ex (\<lambda>r. iv_status r = AT_PENDING) (attempts_of (cx_tenant_id ctx) (cx_signer_id ctx) m (sd_identity db))"
      "started_count (attempts_of (cx_tenant_id ctx) (cx_signer_id ctx) m (sd_identity db)) < idVerificationMaxAttempts w"
      "db' = (tick (tick db))\<lparr>sd_identity := sd_identity db @ [new_attempt w ctx m (uuid_of env db) (now_of env (tick db))]\<rparr>"
proof -
  let ?rows = "attempts_of (cx_tenant_id ctx) (cx_signer_id ctx) m (sd_identity db)"
  obtain s where s: "find_signer db (cx_tenant_id ctx) (cx_signer_id ctx) = Some s"
    using assms by (auto simp: start_create_tx_def rbind_Inr_iff split: option.splits)
  have body: "(if sg_identity_verification_locked_at s \<noteq> None then Inr (CR_locked, db)
      else if list_ex (\<lambda>r. iv_status r = AT_PENDING) ?rows then Inr (CR_busy, db)
      else if started_count ?rows \<ge> idVerificationMaxAttempts w
      then Inr (CR_exhausted, lockIn env db ctx ''attempts_exhausted'' (Some (started_count ?rows)))
      else Inr (CR_created (uuid_of env db) (started_count ?rows + 1), (tick (tick db))\<lparr>sd_identity := sd_identity db @
        [new_attempt w ctx m (uuid_of env db) (now_of env (tick db))]\<rparr>)) = (Inr (out, db') :: (sign_error, _) result)"
    using assms s unfolding start_create_tx_def rbind_Inr_iff Let_def by auto
  show thesis
  proof (cases "sg_identity_verification_locked_at s = None")
    case True
    show thesis
    proof (cases "list_ex (\<lambda>r. iv_status r = AT_PENDING) ?rows")
      case p: False
      show thesis
      proof (cases "started_count ?rows \<ge> idVerificationMaxAttempts w")
        case n: True
        then have "db' = lockIn env db ctx ''attempts_exhausted'' (Some (started_count ?rows))" using body True p by simp
        then show thesis by (rule that(2))
      next
        case n: False
        show thesis by (rule that(3)) (use body True p n in simp_all)
      qed
    qed (use body True that(1) in simp)
  qed (use body that(1) in simp)
qed

lemma sim_start_create_tx:
  assumes "start_create_tx env w db ctx m = Inr (out, db')"
  shows "sim env db db'"
  using assms
proof (rule start_create_Inr)
  assume "db' = (tick (tick db))\<lparr>sd_identity := sd_identity db @ [new_attempt w ctx m (uuid_of env db) (now_of env (tick db))]\<rparr>"
  with sim_trans [OF sim_trans [OF sim_tick sim_tick] sim_identity] show ?thesis by simp
qed simp_all

lemma sim_start_record_tx:
  assumes "start_record_tx env w db ctx m aid ref number ip agent = Inr (out, db')"
  shows "sim env db db'"
proof -
  obtain i where "db' = appendEvent env (update_attempt aid (\<lambda>v. v\<lparr>iv_vendor_reference := Some ref\<rparr>) db) i"
    using assms unfolding start_record_tx_def rbind_Inr_iff by (auto split: if_splits)
  with sim_trans [OF sim_update_attempt sim_append] show ?thesis by simp
qed

lemma sim_cancel_unstarted [simp]: "sim env db (cancel_unstarted aid now db)"
  unfolding cancel_unstarted_def by (rule sim_identity)

lemma redact_loop_fold: "fst (redact_loop w now db rs) = foldl (redact_one w now) db rs"
proof (induction rs arbitrary: db)
  case (Cons r rs)
  show ?case using Cons.IH [of "redact_one w now db r"] by (cases "redact_loop w now (redact_one w now db r) rs") simp
qed simp

lemma sim_redact_one [simp]: "sim env db (redact_one w now db r)"
  unfolding redact_one_def using sim_trans [OF sim_tick sim_update_attempt] by simp

lemma sim_redact: "sim env db (foldl (redact_one w now) db rs)"
proof (induction rs arbitrary: db)
  case (Cons r rs)
  show ?case using sim_trans [OF sim_redact_one Cons.IH] by simp
qed simp

section \<open>Invariant\<close>

definition pending :: "identity_verification \<Rightarrow> bool" where
  "pending v \<longleftrightarrow> iv_status v = AT_PENDING"

text \<open>An attempt that counts: it has a vendor session, or it may still get one.\<close>

definition counts :: "identity_verification \<Rightarrow> bool" where
  "counts v \<longleftrightarrow> iv_vendor_reference v \<noteq> None \<or> pending v"

definition group_ok :: "nat \<Rightarrow> identity_verification list \<Rightarrow> bool" where
  "group_ok n rows \<longleftrightarrow> length (filter pending rows) \<le> 1 \<and> length (filter counts rows) \<le> n"

definition idv_inv :: "sign_env \<Rightarrow> nat \<Rightarrow> sign_db \<Rightarrow> bool" where
  "idv_inv env n db \<longleftrightarrow>
     (\<forall>v\<in>set (sd_identity db). iv_status v = AT_VERIFIED \<longrightarrow> iv_name_match v = Some True \<and> iv_vendor_reference v \<noteq> None) \<and>
     distinct (map iv_id (sd_identity db)) \<and> iv_id ` set (sd_identity db) \<subseteq> sv_uuid env ` {..<sd_tick db} \<and>
     (\<forall>tenant sid m. group_ok n (attempts_of tenant sid m (sd_identity db)))"

text \<open>
  The calls of the workflow as their transactions. A settling call works on an attempt it read
  before it asked the vendor; the columns it uses (recipient, method, vendor reference) are never
  changed once the reference is set. Only the call that created an attempt records its
  vendor session or cancels it.
\<close>

definition same_attempt :: "identity_verification \<Rightarrow> identity_verification \<Rightarrow> bool" where
  "same_attempt v u \<longleftrightarrow> iv_id u = iv_id v \<and> iv_tenant_id u = iv_tenant_id v \<and> iv_envelope_id u = iv_envelope_id v \<and>
     iv_signer_id u = iv_signer_id v \<and> iv_method u = iv_method v \<and> iv_vendor_reference u = iv_vendor_reference v"

inductive idv_call :: "sign_env \<Rightarrow> idv_env \<Rightarrow> sign_db \<Rightarrow> sign_db \<Rightarrow> bool" for env w where
  created: "start_create_tx env w db ctx m = Inr (out, db') \<Longrightarrow> idv_call env w db db'"
| recorded: "start_record_tx env w db ctx m aid ref number ip agent = Inr (u, db') \<Longrightarrow>
    v \<in> set (sd_identity db) \<Longrightarrow> iv_id v = aid \<Longrightarrow> pending v \<Longrightarrow> iv_vendor_reference v = None \<Longrightarrow> idv_call env w db db'"
| cancelled: "idv_call env w db (cancel_unstarted aid now db)"
| settled: "settle_tx env w db attempt res now = Inr (out, db') \<Longrightarrow> ir_outcome res \<noteq> AT_PENDING \<Longrightarrow>
    v \<in> set (sd_identity db) \<Longrightarrow> same_attempt v attempt \<Longrightarrow> iv_vendor_reference attempt \<noteq> None \<Longrightarrow> idv_call env w db db'"
| redacted: "idv_call env w db (fst (redactEnvelope w db tenant eid now))"

lemma sim_idv_call: "idv_call env w db db' \<Longrightarrow> sim env db db'"
  by (erule idv_call.cases)
    (auto intro: sim_start_create_tx sim_start_record_tx sim_settle_tx simp: redactEnvelope_def redact_loop_fold sim_redact)

lemma idv_frame [simp]:
  "sd_identity (recordNotificationFact env db i) = sd_identity db" "sd_identity (appendEvent env db i) = sd_identity db"
  "sd_identity (revoke_where P t db) = sd_identity db" "sd_identity (update_signer sid f db) = sd_identity db"
  "sd_identity (lockIn env db ctx reason started) = sd_identity db" "sd_identity (touch eid db) = sd_identity db"
  by (simp_all add: recordNotificationFact_def appendEvent_def revoke_where_def update_signer_def lockIn_def touch_def Let_def split: option.splits)

lemma lockIn_tick: "sd_tick db \<le> sd_tick (lockIn env db ctx reason started)"
  unfolding lockIn_def Let_def by (rule order_trans [OF _ less_imp_le [OF append_event_tick]]) simp

lemma count_update:
  "(\<And>x. x \<in> set xs \<Longrightarrow> A x \<Longrightarrow> P (f x) \<Longrightarrow> P x) \<Longrightarrow> length (filter P (update_where A f xs)) \<le> length (filter P xs)"
  by (induction xs) (auto simp: update_where_def le_SucI)

definition keeps_attempt :: "(identity_verification \<Rightarrow> identity_verification) \<Rightarrow> bool" where
  "keeps_attempt f \<longleftrightarrow> (\<forall>x. iv_id (f x) = iv_id x \<and> iv_tenant_id (f x) = iv_tenant_id x \<and> iv_envelope_id (f x) = iv_envelope_id x \<and>
     iv_signer_id (f x) = iv_signer_id x \<and> iv_method (f x) = iv_method x)"

lemma idv_inv_update:
  assumes inv: "idv_inv env n db" and db': "sd_identity db' = update_where A f (sd_identity db)" "sd_tick db \<le> sd_tick db'"
    and f: "keeps_attempt f"
    and v: "\<And>x. x \<in> set (sd_identity db) \<Longrightarrow> A x \<Longrightarrow> iv_status (f x) = AT_VERIFIED \<Longrightarrow> iv_name_match (f x) = Some True \<and> iv_vendor_reference (f x) \<noteq> None"
    and p: "\<And>x. x \<in> set (sd_identity db) \<Longrightarrow> A x \<Longrightarrow> pending (f x) \<Longrightarrow> pending x"
    and c: "\<And>x. x \<in> set (sd_identity db) \<Longrightarrow> A x \<Longrightarrow> counts (f x) \<Longrightarrow> counts x"
  shows "idv_inv env n db'"
proof -
  have ids: "map iv_id (update_where A f (sd_identity db)) = map iv_id (sd_identity db)"
    using f by (intro map_update_where) (simp add: keeps_attempt_def)
  then have "iv_id ` set (sd_identity db') = iv_id ` set (sd_identity db)" unfolding db' by (metis image_set)
  moreover have "sv_uuid env ` {..<sd_tick db} \<subseteq> sv_uuid env ` {..<sd_tick db'}" using db'(2) by auto
  ultimately have "iv_id ` set (sd_identity db') \<subseteq> sv_uuid env ` {..<sd_tick db'}" using inv unfolding idv_inv_def by (metis subset_trans)
  moreover have "distinct (map iv_id (sd_identity db'))" using inv ids by (simp add: db' idv_inv_def)
  moreover have "\<forall>x\<in>set (sd_identity db'). iv_status x = AT_VERIFIED \<longrightarrow> iv_name_match x = Some True \<and> iv_vendor_reference x \<noteq> None"
    unfolding db' using inv v by (auto simp: idv_inv_def)
  moreover have "group_ok n (attempts_of tenant sid m (sd_identity db'))" for tenant sid m
  proof -
    have eq: "attempts_of tenant sid m (sd_identity db') = update_where A f (attempts_of tenant sid m (sd_identity db))"
      unfolding attempts_of_def db' using f by (intro filter_update_where) (simp add: keeps_attempt_def)
    have sub: "x \<in> set (sd_identity db)" if "x \<in> set (attempts_of tenant sid m (sd_identity db))" for x
      using that by (auto simp: attempts_of_def)
    have "length (filter pending (update_where A f (attempts_of tenant sid m (sd_identity db)))) \<le> length (filter pending (attempts_of tenant sid m (sd_identity db)))"
      "length (filter counts (update_where A f (attempts_of tenant sid m (sd_identity db)))) \<le> length (filter counts (attempts_of tenant sid m (sd_identity db)))"
      by (rule count_update; use p c sub in blast)+
    moreover have "group_ok n (attempts_of tenant sid m (sd_identity db))" using inv by (simp add: idv_inv_def)
    ultimately show ?thesis unfolding eq group_ok_def by linarith
  qed
  ultimately show ?thesis unfolding idv_inv_def by blast
qed

lemma idv_inv_same: "idv_inv env n db \<Longrightarrow> sd_identity db' = sd_identity db \<Longrightarrow> sd_tick db \<le> sd_tick db' \<Longrightarrow> idv_inv env n db'"
  by (rule idv_inv_update [where A = "\<lambda>_. False" and f = "\<lambda>x. x"]) (simp_all add: update_where_def keeps_attempt_def)

lemma attempt_unique: "idv_inv env n db \<Longrightarrow> x \<in> set (sd_identity db) \<Longrightarrow> y \<in> set (sd_identity db) \<Longrightarrow> iv_id x = iv_id y \<Longrightarrow> x = y"
  by (auto simp: idv_inv_def distinct_map inj_on_def)

lemma update_attempt_sel [simp]:
  "sd_identity (update_attempt aid f db) = update_where (\<lambda>v. iv_id v = aid) f (sd_identity db)"
  "sd_tick (update_attempt aid f db) = sd_tick db"
  by (simp_all add: update_attempt_def)

lemma idv_inv_settle_writes:
  assumes inv: "idv_inv env n db" and v: "u \<in> set (sd_identity db)" "same_attempt u v" "iv_vendor_reference v \<noteq> None"
  shows "idv_inv env n (settle_verified env db v res now)" "idv_inv env n (settle_mismatch env db v res now)"
    "idv_inv env n (settle_unverified env db v res now)"
proof -
  have ref: "iv_vendor_reference x \<noteq> None" if "x \<in> set (sd_identity db)" "iv_id x = iv_id v" for x
    using attempt_unique [OF inv that(1) v(1)] v(2,3) that(2) by (simp add: same_attempt_def)
  have t: "sd_tick db \<le> sd_tick (appendEvent env (update_attempt aid f db) i)" for aid f i
    using append_event_tick [of "update_attempt aid f db" env i] by simp
  have u: "sd_identity (appendEvent env (update_attempt aid f db) i) = update_where (\<lambda>v. iv_id v = aid) f (sd_identity db)" for aid f i
    by simp
  show "idv_inv env n (settle_verified env db v res now)" unfolding settle_verified_def
    by (rule idv_inv_update [OF inv u t]) (auto simp: keeps_attempt_def pending_def counts_def dest: ref)
  show "idv_inv env n (settle_mismatch env db v res now)" unfolding settle_mismatch_def
    by (rule idv_inv_update [OF inv u t]) (auto simp: keeps_attempt_def pending_def counts_def dest: ref)
  show "idv_inv env n (settle_unverified env db v res now)" unfolding settle_unverified_def Let_def
    by (rule idv_inv_update [OF inv u t]) (auto simp: keeps_attempt_def pending_def counts_def dest: ref split: if_splits)
qed

lemma idv_inv_settle_tx:
  assumes inv: "idv_inv env n db" and s: "settle_tx env w db v res now = Inr (out, db')"
    and v: "u \<in> set (sd_identity db)" "same_attempt u v" "iv_vendor_reference v \<noteq> None"
  shows "idv_inv env n db'"
proof -
  note w = idv_inv_settle_writes [OF inv v]
  have l: "idv_inv env n (lockIn env db1 ctx reason started)" if "idv_inv env n db1" for db1 ctx reason started
    using that by (rule idv_inv_same) (simp_all add: lockIn_tick)
  from s show ?thesis by (rule settle_tx_Inr) (simp_all add: w l inv)
qed

lemma attempts_of_append:
  "attempts_of tenant sid m (vs @ [v]) = attempts_of tenant sid m vs @
     (if iv_tenant_id v = tenant \<and> iv_signer_id v = sid \<and> iv_method v = m then [v] else [])"
  by (simp add: attempts_of_def)

lemma idv_inv_create:
  assumes inj: "inj (sv_uuid env)" and inv: "idv_inv env (idVerificationMaxAttempts w) db"
    and free: "\<not> list_ex (\<lambda>r. iv_status r = AT_PENDING) (attempts_of (cx_tenant_id ctx) (cx_signer_id ctx) m (sd_identity db))"
      "started_count (attempts_of (cx_tenant_id ctx) (cx_signer_id ctx) m (sd_identity db)) < idVerificationMaxAttempts w"
  shows "idv_inv env (idVerificationMaxAttempts w)
    ((tick (tick db))\<lparr>sd_identity := sd_identity db @ [new_attempt w ctx m (uuid_of env db) t]\<rparr>)"
proof -
  let ?v = "new_attempt w ctx m (uuid_of env db) t"
  let ?db = "(tick (tick db))\<lparr>sd_identity := sd_identity db @ [?v]\<rparr>"
  have v: "iv_id ?v = sv_uuid env (sd_tick db)" "iv_status ?v = AT_PENDING" "pending ?v" "counts ?v"
    "iv_tenant_id ?v = cx_tenant_id ctx" "iv_signer_id ?v = cx_signer_id ctx" "iv_method ?v = m"
    by (simp_all add: new_attempt_def uuid_of_def pending_def counts_def)
  have "sv_uuid env (sd_tick db) \<notin> sv_uuid env ` {..<sd_tick db}" using inj by (auto dest: injD)
  then have new: "iv_id ?v \<notin> iv_id ` set (sd_identity db)" using inv v(1) by (auto simp: idv_inv_def)
  have "sv_uuid env ` {..<sd_tick db} \<subseteq> sv_uuid env ` {..<sd_tick ?db}" "sv_uuid env (sd_tick db) \<in> sv_uuid env ` {..<sd_tick ?db}" by auto
  then have ids: "iv_id ` set (sd_identity ?db) \<subseteq> sv_uuid env ` {..<sd_tick ?db}" using inv v(1) by (auto simp: idv_inv_def)
  have np: "filter pending (attempts_of (cx_tenant_id ctx) (cx_signer_id ctx) m (sd_identity db)) = []"
    using free(1) by (auto simp: list_ex_iff filter_empty_conv pending_def)
  then have "filter counts (attempts_of (cx_tenant_id ctx) (cx_signer_id ctx) m (sd_identity db)) =
      filter (\<lambda>v. iv_vendor_reference v \<noteq> None) (attempts_of (cx_tenant_id ctx) (cx_signer_id ctx) m (sd_identity db))"
    by (intro filter_cong) (auto simp: counts_def filter_empty_conv)
  then have "length (filter counts (attempts_of (cx_tenant_id ctx) (cx_signer_id ctx) m (sd_identity db))) < idVerificationMaxAttempts w"
    using free(2) by (simp add: started_count_def)
  with np have "group_ok (idVerificationMaxAttempts w) (attempts_of (cx_tenant_id ctx) (cx_signer_id ctx) m (sd_identity db) @ [?v])"
    using v by (simp add: group_ok_def)
  moreover have "group_ok (idVerificationMaxAttempts w) (attempts_of tenant sid m' (sd_identity db))" for tenant sid m'
    using inv by (simp add: idv_inv_def)
  ultimately have "group_ok (idVerificationMaxAttempts w) (attempts_of tenant sid m' (sd_identity ?db))" for tenant sid m'
    using v(5-7) by (auto simp: attempts_of_append)
  moreover have "\<forall>x\<in>set (sd_identity ?db). iv_status x = AT_VERIFIED \<longrightarrow> iv_name_match x = Some True \<and> iv_vendor_reference x \<noteq> None"
    using inv v(2) by (auto simp: idv_inv_def)
  moreover have "distinct (map iv_id (sd_identity ?db))" using inv new by (simp add: idv_inv_def)
  ultimately show ?thesis using ids unfolding idv_inv_def by blast
qed

lemma idv_inv_redact_one:
  assumes "idv_inv env n db"
  shows "idv_inv env n (redact_one w now db r)"
proof (cases "redact_refused w db r")
  case True
  with assms show ?thesis by (auto simp: redact_one_def intro: idv_inv_same)
next
  case False
  have "idv_inv env n (update_attempt (iv_id r) (\<lambda>v. v\<lparr>iv_document_country := None, iv_failure_reason := None, iv_redacted_at := Some now\<rparr>) (tick db))"
    by (rule idv_inv_update [OF assms, where A = "\<lambda>v. iv_id v = iv_id r" and
        f = "\<lambda>v. v\<lparr>iv_document_country := None, iv_failure_reason := None, iv_redacted_at := Some now\<rparr>"]) (use assms in \<open>auto simp: keeps_attempt_def pending_def counts_def idv_inv_def\<close>)
  with False show ?thesis by (simp add: redact_one_def)
qed

lemma idv_inv_call:
  assumes inj: "inj (sv_uuid env)" and inv: "idv_inv env (idVerificationMaxAttempts w) db" and c: "idv_call env w db db'"
  shows "idv_inv env (idVerificationMaxAttempts w) db'"
  using c
proof cases
  case (created ctx m out)
  from created show ?thesis
  proof (rule start_create_Inr)
    fix started assume "db' = lockIn env db ctx ''attempts_exhausted'' (Some started)"
    then show ?thesis using inv by (auto intro: idv_inv_same simp: lockIn_tick)
  qed (use inv idv_inv_create [OF inj inv] in simp_all)
next
  case (recorded ctx m aid ref number ip agent u v)
  obtain i where db': "db' = appendEvent env (update_attempt aid (\<lambda>v. v\<lparr>iv_vendor_reference := Some ref\<rparr>) db) i"
    using recorded(1) unfolding start_record_tx_def rbind_Inr_iff by (auto split: if_splits)
  have p: "pending x" if "x \<in> set (sd_identity db)" "iv_id x = aid" for x
    using attempt_unique [OF inv that(1) recorded(2)] recorded(3,4) that(2) by simp
  show ?thesis
    by (rule idv_inv_update [OF inv, where A = "\<lambda>v. iv_id v = aid" and f = "\<lambda>v. v\<lparr>iv_vendor_reference := Some ref\<rparr>"])
      (use db' append_event_tick [of "update_attempt aid (\<lambda>v. v\<lparr>iv_vendor_reference := Some ref\<rparr>) db" env i] p in
        \<open>auto simp: keeps_attempt_def pending_def counts_def\<close>)
next
  case (cancelled aid now)
  then show ?thesis
    by (intro idv_inv_update [OF inv, where A = "\<lambda>v. iv_id v = aid \<and> iv_status v = AT_PENDING \<and> iv_vendor_reference v = None" and
          f = "\<lambda>v. v\<lparr>iv_status := AT_CANCELLED, iv_completed_at := Some now, iv_failure_reason := Some ''vendor_unavailable''\<rparr>"])
      (auto simp: cancel_unstarted_def keeps_attempt_def pending_def counts_def)
next
  case (settled attempt res now out v)
  then show ?thesis using idv_inv_settle_tx [OF inv] by blast
next
  case (redacted tenant eid now)
  have "idv_inv env n (foldl (redact_one w now) d rs)" if "idv_inv env n d" for n d rs
    using that by (induction rs arbitrary: d) (auto intro: idv_inv_redact_one)
  with inv show ?thesis unfolding redacted by (simp add: redactEnvelope_def redact_loop_fold)
qed

section \<open>Outcomes are final\<close>

definition same_outcome :: "identity_verification \<Rightarrow> identity_verification \<Rightarrow> bool" where
  "same_outcome v v' \<longleftrightarrow> iv_id v' = iv_id v \<and> iv_status v' = iv_status v \<and> iv_name_match v' = iv_name_match v \<and>
     iv_signer_id v' = iv_signer_id v \<and> iv_method v' = iv_method v"

definition outcome_kept :: "identity_verification \<Rightarrow> sign_db \<Rightarrow> bool" where
  "outcome_kept v db \<longleftrightarrow> (\<exists>v'\<in>set (sd_identity db). same_outcome v v')"

lemma outcome_update:
  assumes "outcome_kept v db" "sd_identity db' = update_where A f (sd_identity db)"
    "\<And>x. x \<in> set (sd_identity db) \<Longrightarrow> A x \<Longrightarrow> same_outcome v x \<Longrightarrow> same_outcome v (f x)"
  shows "outcome_kept v db'"
proof -
  obtain x where x: "x \<in> set (sd_identity db)" "same_outcome v x" using assms(1) by (auto simp: outcome_kept_def)
  then have "(if A x then f x else x) \<in> set (sd_identity db')" "same_outcome v (if A x then f x else x)"
    using assms(2,3) by auto
  then show ?thesis unfolding outcome_kept_def by blast
qed

lemma outcome_same: "outcome_kept v db \<Longrightarrow> sd_identity db' = sd_identity db \<Longrightarrow> outcome_kept v db'"
  by (simp add: outcome_kept_def)

lemma outcome_settle_writes:
  assumes inv: "idv_inv env n db" and k: "outcome_kept v db" "\<not> pending v"
    and a: "list_ex (\<lambda>x. iv_id x = iv_id a \<and> iv_status x = AT_PENDING) (sd_identity db)"
  shows "outcome_kept v (settle_verified env db a res now)" "outcome_kept v (settle_mismatch env db a res now)"
    "outcome_kept v (settle_unverified env db a res now)"
proof -
  obtain y where y: "y \<in> set (sd_identity db)" "iv_id y = iv_id a" "iv_status y = AT_PENDING" using a by (auto simp: list_ex_iff)
  have other: False if "x \<in> set (sd_identity db)" "iv_id x = iv_id a" "same_outcome v x" for x
    using attempt_unique [OF inv that(1) y(1)] that y k(2) by (simp add: same_outcome_def pending_def)
  have u: "sd_identity (appendEvent env (update_attempt aid f db) i) = update_where (\<lambda>v. iv_id v = aid) f (sd_identity db)" for aid f i
    by simp
  show "outcome_kept v (settle_verified env db a res now)" "outcome_kept v (settle_mismatch env db a res now)"
    "outcome_kept v (settle_unverified env db a res now)"
    unfolding settle_writes Let_def by (rule outcome_update [OF k(1) u]; use other in blast)+
qed

lemma outcome_call:
  assumes inv: "idv_inv env n db" and k: "outcome_kept v db" "\<not> pending v" and c: "idv_call env w db db'"
  shows "outcome_kept v db'"
  using c
proof cases
  case (created ctx m out)
  from created show ?thesis by (rule start_create_Inr) (use k(1) in \<open>auto simp: outcome_kept_def\<close>)
next
  case (recorded ctx m aid ref number ip agent u x)
  obtain i where db': "db' = appendEvent env (update_attempt aid (\<lambda>v. v\<lparr>iv_vendor_reference := Some ref\<rparr>) db) i"
    using recorded(1) unfolding start_record_tx_def rbind_Inr_iff by (auto split: if_splits)
  show ?thesis
    by (rule outcome_update [OF k(1), where A = "\<lambda>v. iv_id v = aid" and f = "\<lambda>v. v\<lparr>iv_vendor_reference := Some ref\<rparr>"])
      (use db' in \<open>auto simp: same_outcome_def\<close>)
next
  case (cancelled aid now)
  show ?thesis
    by (rule outcome_update [OF k(1), where A = "\<lambda>v. iv_id v = aid \<and> iv_status v = AT_PENDING \<and> iv_vendor_reference v = None" and
          f = "\<lambda>v. v\<lparr>iv_status := AT_CANCELLED, iv_completed_at := Some now, iv_failure_reason := Some ''vendor_unavailable''\<rparr>"])
      (use cancelled k(2) in \<open>auto simp: cancel_unstarted_def same_outcome_def pending_def\<close>)
next
  case (settled attempt res now out u)
  note w = outcome_settle_writes [OF inv k, where a = attempt]
  have l: "outcome_kept v (lockIn env db1 ctx reason started)" if "outcome_kept v db1" for db1 ctx reason started
    using that by (rule outcome_same) simp
  from settled(1) show ?thesis by (rule settle_tx_Inr) (simp_all add: w l k)
next
  case (redacted tenant eid now)
  have one: "outcome_kept v (redact_one w now d r)" if "outcome_kept v d" for d r
  proof (cases "redact_refused w d r")
    case False
    have "outcome_kept v (update_attempt (iv_id r) (\<lambda>v. v\<lparr>iv_document_country := None, iv_failure_reason := None, iv_redacted_at := Some now\<rparr>) (tick d))"
      by (rule outcome_update [OF that, where A = "\<lambda>v. iv_id v = iv_id r" and
          f = "\<lambda>v. v\<lparr>iv_document_country := None, iv_failure_reason := None, iv_redacted_at := Some now\<rparr>"]) (auto simp: same_outcome_def)
    with False show ?thesis by (simp add: redact_one_def)
  qed (use that in \<open>simp add: redact_one_def outcome_kept_def\<close>)
  have "outcome_kept v (foldl (redact_one w now) d rs)" if "outcome_kept v d" for d rs
    using that by (induction rs arbitrary: d) (auto intro: one)
  with k(1) show ?thesis unfolding redacted by (simp add: redactEnvelope_def redact_loop_fold)
qed

section \<open>Runs\<close>

text \<open>A call of the workflow, or any step that leaves its table alone.\<close>

definition idv_step :: "sign_env \<Rightarrow> idv_env \<Rightarrow> sign_db \<Rightarrow> sign_db \<Rightarrow> bool" where
  "idv_step env w db db' \<longleftrightarrow> idv_call env w db db' \<or> sd_identity db' = sd_identity db \<and> sd_tick db \<le> sd_tick db'"

lemma idv_inv_run:
  assumes inj: "inj (sv_uuid env)" and r: "(idv_step env w)\<^sup>*\<^sup>* db db'" and inv: "idv_inv env (idVerificationMaxAttempts w) db"
  shows "idv_inv env (idVerificationMaxAttempts w) db'"
  using r inv
  by (induction rule: rtranclp_induct) (auto simp: idv_step_def intro: idv_inv_call [OF inj] idv_inv_same)

lemma idv_inv_empty: "sd_identity db = [] \<Longrightarrow> idv_inv env n db"
  by (simp add: idv_inv_def attempts_of_def group_ok_def)

lemma outcome_run:
  assumes inj: "inj (sv_uuid env)" and r: "(idv_step env w)\<^sup>*\<^sup>* db db'" and inv: "idv_inv env (idVerificationMaxAttempts w) db"
    and k: "outcome_kept v db" "\<not> pending v"
  shows "outcome_kept v db'"
  using r
proof (induction rule: rtranclp_induct)
  case (step y z)
  have "idv_inv env (idVerificationMaxAttempts w) y" by (rule idv_inv_run [OF inj step.hyps(1) inv])
  with step show ?case by (auto simp: idv_step_def intro: outcome_call [OF _ _ k(2)] outcome_same)
qed (use k in simp)


section \<open>The calls are runs of their transactions\<close>

lemma idv_same_step: "sd_identity db' = sd_identity db \<Longrightarrow> sd_tick db \<le> sd_tick db' \<Longrightarrow> (idv_step env w)\<^sup>*\<^sup>* db db'"
  by (simp add: idv_step_def r_into_rtranclp)

lemma idv_call_step: "idv_call env w db db' \<Longrightarrow> (idv_step env w)\<^sup>*\<^sup>* db db'"
  by (simp add: idv_step_def r_into_rtranclp)

lemma touch_tick [simp]: "sd_tick (touch eid db) = sd_tick db"
  by (simp add: touch_def)

lemma settle_run:
  assumes "settle env w db aid = (db', r)"
  shows "(idv_step env w)\<^sup>*\<^sup>* db db'"
proof -
  have t1: "(idv_step env w)\<^sup>*\<^sup>* db (tick db)" and t2: "(idv_step env w)\<^sup>*\<^sup>* db (tick (tick db))" by (simp_all add: idv_same_step)
  show ?thesis
  proof (cases "find (\<lambda>v. iv_id v = aid) (sd_identity db)")
    case (Some v)
    then have v: "v \<in> set (sd_identity db)" by (auto simp: find_Some_iff)
    show ?thesis
    proof (cases "iv_vendor_reference v")
      case ref: (Some ref)
      show ?thesis
      proof (cases "iv_status v = AT_PENDING")
        case pend: True
        show ?thesis
        proof (cases "iw_retrieve w (sd_tick db) ref")
          case None
          with assms Some ref pend t1 show ?thesis by (simp add: settle_def)
        next
          case res: (Some res)
          show ?thesis
          proof (cases "ir_outcome res = AT_PENDING")
            case True
            with assms Some ref pend res t1 show ?thesis by (simp add: settle_def)
          next
            case ans: False
            show ?thesis
            proof (cases "settle_tx env w (tick (tick db)) v res (now_of env (tick db))")
              case (Inl e)
              with assms Some ref pend res ans t2 show ?thesis by (simp add: settle_def)
            next
              case (Inr y)
              obtain out db1 where y: "y = (out, db1)" by (cases y)
              have "idv_call env w (tick (tick db)) db1"
                by (rule idv_call.settled [where attempt = v and v = v and res = res]) (use Inr y ans v ref in \<open>simp_all add: same_attempt_def\<close>)
              then have "(idv_step env w)\<^sup>*\<^sup>* db db1" using t2 idv_call_step rtranclp_trans by metis
              moreover have "(idv_step env w)\<^sup>*\<^sup>* db1 (touch (iv_envelope_id v) db1)" by (rule idv_same_step) simp_all
              moreover have "db' = db1 \<or> db' = touch (iv_envelope_id v) db1"
                using assms Some ref pend res ans Inr y by (cases out) (auto simp: settle_def)
              ultimately show ?thesis using rtranclp_trans by metis
            qed
          qed
        qed
      qed (use assms Some ref in \<open>simp add: settle_def\<close>)
    qed (use assms Some in \<open>simp add: settle_def\<close>)
  qed (use assms in \<open>simp add: settle_def\<close>)
qed

lemma start_new_run:
  assumes "start_new env w db ctx m ip agent = (db', r)"
  shows "(idv_step env w)\<^sup>*\<^sup>* db db'"
proof (cases "start_create_tx env w db ctx m")
  case (Inr x)
  obtain out db1 where x: "x = (out, db1)" by (cases x)
  have c: "(idv_step env w)\<^sup>*\<^sup>* db db1" using Inr x by (intro idv_call_step idv_call.created) simp
  have t: "(idv_step env w)\<^sup>*\<^sup>* d (touch i d)" for d i by (rule idv_same_step) simp_all
  show ?thesis
  proof (cases out)
    case (CR_created aid number)
    have tk: "(idv_step env w)\<^sup>*\<^sup>* db1 (tick (tick db1))" by (rule idv_same_step) simp_all
    have row: "\<exists>v\<in>set (sd_identity db1). iv_id v = aid \<and> pending v \<and> iv_vendor_reference v = None"
      using Inr x CR_created unfolding start_create_tx_def rbind_Inr_iff Let_def
      by (auto simp: new_attempt_def pending_def split: option.splits if_splits)
    consider t' where "db' = cancel_unstarted aid t' (tick (tick db1))" | "db' = tick (tick db1)"
      | ref u db2 where "start_record_tx env w (tick (tick db1)) ctx m aid ref number ip agent = Inr (u, db2)" "db' = touch (cx_envelope_id ctx) db2"
      using assms Inr x CR_created by (auto simp: start_new_def split: start_answer.splits sum.splits prod.splits)
    then have "(idv_step env w)\<^sup>*\<^sup>* (tick (tick db1)) db'"
    proof cases
      case (1 t')
      then show ?thesis by (simp add: idv_call_step idv_call.cancelled)
    next
      case (3 ref u db2)
      obtain v where "v \<in> set (sd_identity (tick (tick db1)))" "iv_id v = aid" "pending v" "iv_vendor_reference v = None" using row by auto
      from idv_call_step [OF idv_call.recorded [OF 3(1) this]] t 3(2) show ?thesis by (metis rtranclp_trans)
    qed simp
    with c tk show ?thesis by (metis rtranclp_trans)
  qed (use assms Inr x c t in \<open>auto simp: start_new_def intro: rtranclp_trans\<close>)
qed (use assms in \<open>simp add: start_new_def\<close>)

lemma start_run:
  assumes "start env w db raw ip agent = (db', r)"
  shows "(idv_step env w)\<^sup>*\<^sup>* db db'"
proof -
  have t: "(idv_step env w)\<^sup>*\<^sup>* d (tick d)" for d by (rule idv_same_step) simp_all
  have resume: "(idv_step env w)\<^sup>*\<^sup>* d d1" if "start_resume env w d ctx m v = (d1, q)" for d ctx m v d1 q
  proof -
    obtain d0 q0 where s: "settle env w d (iv_id v) = (d0, q0)" by (cases "settle env w d (iv_id v)")
    have "d1 = d0 \<or> d1 = tick d0"
      using that s by (auto simp: start_resume_def Let_def split: sum.splits option.splits if_splits)
    with settle_run [OF s] t show ?thesis by (metis rtranclp_trans)
  qed
  have goes: "(idv_step env w)\<^sup>*\<^sup>* db db'" if "start_body env w db ctx m ip agent = (db', r)" for ctx m
  proof (cases "list_ex (\<lambda>r. iv_status r = AT_VERIFIED) (attempts db ctx m)")
    case False
    show ?thesis
    proof (cases "find open_attempt (attempts db ctx m)")
      case None
      with that False have "start_new env w (tick db) ctx m ip agent = (db', r)" by (simp add: start_body_def Let_def)
      from start_new_run [OF this] t show ?thesis by (metis rtranclp_trans)
    next
      case (Some v)
      obtain d1 q where q: "start_resume env w (tick db) ctx m v = (d1, q)" by (cases "start_resume env w (tick db) ctx m v")
      then have d1: "(idv_step env w)\<^sup>*\<^sup>* db d1" using resume t by (metis rtranclp_trans)
      have "db' = d1 \<or> start_new env w d1 ctx m ip agent = (db', r)"
        using that False Some q by (auto simp: start_body_def Let_def split: sum.splits option.splits)
      with d1 start_new_run show ?thesis by (metis rtranclp_trans)
    qed
  qed (use that t in \<open>auto simp: start_body_def\<close>)
  consider "db' = db \<or> db' = tick db" | ctx m where "start_body env w db ctx m ip agent = (db', r)"
    using assms by (auto simp: start_def split: sum.splits option.splits prod.splits if_splits)
  then show ?thesis by cases (use t goes in auto)
qed

section \<open>One verification\<close>

definition demo_idv :: idv_env where
  "demo_idv = \<lparr> iw_provider = ''STRIPE_IDENTITY'', iw_configured = True, iw_kba_configured = False, iw_max_setting = Some (JFin 1),
     iw_fold = (\<lambda>s. s), iw_word = (\<lambda>c. CHR ''a'' \<le> c \<and> c \<le> CHR ''z''), iw_start = (\<lambda>_ aid. Started (CHR ''v'' # aid) ''url''),
     iw_resume = (\<lambda>_ _. Some None),
     iw_retrieve = (\<lambda>_ _. Some \<lparr> ir_outcome = AT_VERIFIED, ir_verified_name = Some (''Ann'', ''Lee''), ir_document_country = None, ir_failure_code = None \<rparr>),
     iw_redact = (\<lambda>_ _. True), iw_webhook = (\<lambda>_ _ _. Inl ''NO_SECRET'') \<rparr>"

definition demo_checked :: sign_db where
  "demo_checked = demo_db\<lparr>sd_signers := [demo_signer\<lparr>sg_identity_verification_method := Some ''ID_VERIFICATION''\<rparr>]\<rparr>"

text \<open>The three transactions of one verification: a new attempt, its vendor session, the vendor's answer.\<close>

definition demo_created :: sign_db where
  "demo_created = result_db (start_create_tx demo_env demo_idv demo_checked demo_ctx ''ID_VERIFICATION'')"

definition demo_started :: sign_db where
  "demo_started = result_db (start_record_tx demo_env demo_idv demo_created demo_ctx ''ID_VERIFICATION'' ''u111'' ''vu'' 1 None None)"

definition demo_answer :: "string \<Rightarrow> idv_result" where
  "demo_answer family = \<lparr> ir_outcome = AT_VERIFIED, ir_verified_name = Some (''ann'', family), ir_document_country = None, ir_failure_code = None \<rparr>"

definition demo_settle :: "string \<Rightarrow> (sign_error, (string option \<times> bool) option \<times> sign_db) result" where
  "demo_settle family = settle_tx demo_env demo_idv demo_started (last (sd_identity demo_started)) (demo_answer family) 100"

lemma demo_calls:
  "succeeds (start_create_tx demo_env demo_idv demo_checked demo_ctx ''ID_VERIFICATION'')"
  "succeeds (start_record_tx demo_env demo_idv demo_created demo_ctx ''ID_VERIFICATION'' ''u111'' ''vu'' 1 None None)"
  "succeeds (demo_settle ''lee'')" "succeeds (demo_settle ''kim'')"
  "list_ex (\<lambda>v. iv_id v = ''u111'' \<and> iv_status v = AT_PENDING \<and> iv_vendor_reference v = None) (sd_identity demo_created)"
  "iv_vendor_reference (last (sd_identity demo_started)) = Some ''vu''" "sd_identity demo_started \<noteq> []"
  "map iv_status (sd_identity (result_db (demo_settle ''lee''))) = [AT_VERIFIED]" "sd_identity demo_checked = []"
  by code_simp+

lemma demo_run: "(idv_step demo_env demo_idv)\<^sup>*\<^sup>* demo_checked demo_started"
  "idv_step demo_env demo_idv demo_started (result_db (demo_settle family))" if "succeeds (demo_settle family)" for family
proof -
  have "idv_call demo_env demo_idv demo_checked demo_created"
    unfolding demo_created_def by (rule result_dbE [OF demo_calls(1)], erule idv_call.created)
  moreover have "idv_call demo_env demo_idv demo_created demo_started"
  proof -
    obtain v where v: "v \<in> set (sd_identity demo_created)" "iv_id v = ''u111''" "pending v" "iv_vendor_reference v = None"
      using demo_calls(5) by (auto simp: list_ex_iff pending_def)
    show ?thesis unfolding demo_started_def
      by (rule result_dbE [OF demo_calls(2)], erule idv_call.recorded [OF _ v])
  qed
  ultimately have "idv_step demo_env demo_idv demo_checked demo_created" "idv_step demo_env demo_idv demo_created demo_started"
    by (simp_all add: idv_step_def)
  then show "(idv_step demo_env demo_idv)\<^sup>*\<^sup>* demo_checked demo_started" by (rule converse_rtranclp_into_rtranclp [OF _ r_into_rtranclp])
  let ?v = "last (sd_identity demo_started)"
  have "ir_outcome (demo_answer family) \<noteq> AT_PENDING" by (simp add: demo_answer_def)
  moreover have "?v \<in> set (sd_identity demo_started)" using demo_calls(7) by simp
  moreover have "same_attempt ?v ?v" "iv_vendor_reference ?v \<noteq> None" using demo_calls(6) by (simp_all add: same_attempt_def)
  ultimately have "idv_call demo_env demo_idv demo_started (result_db (demo_settle family))"
    using that by (elim result_dbE) (auto simp: demo_settle_def intro: idv_call.settled)
  then show "idv_step demo_env demo_idv demo_started (result_db (demo_settle family))" by (simp add: idv_step_def)
qed

section \<open>Properties\<close>



text \<open>
  Outcomes are written once: an attempt that is verified, failed or cancelled keeps that
  status, its name match and its recipient in every later state.
\<close>

theorem identity_outcome_final:
  assumes "inj (sv_uuid env)" and "sd_identity db0 = []" and "(idv_step env w)\<^sup>*\<^sup>* db0 db" and "(idv_step env w)\<^sup>*\<^sup>* db db'"
    and "v \<in> set (sd_identity db)" and "iv_status v \<noteq> AT_PENDING"
  shows "\<exists>v'\<in>set (sd_identity db'). iv_id v' = iv_id v \<and> iv_status v' = iv_status v \<and> iv_name_match v' = iv_name_match v \<and>
    iv_signer_id v' = iv_signer_id v \<and> iv_method v' = iv_method v"
proof -
  have "idv_inv env (idVerificationMaxAttempts w) db" using idv_inv_run [OF assms(1,3) idv_inv_empty [OF assms(2)]] .
  moreover have "outcome_kept v db" using assms(5) by (auto simp: outcome_kept_def same_outcome_def)
  ultimately have "outcome_kept v db'" using outcome_run [OF assms(1,4)] assms(6) by (simp add: pending_def)
  then show ?thesis by (simp add: outcome_kept_def same_outcome_def)
qed

lemma identity_outcome_final_witness:
  "\<exists>v'\<in>set (sd_identity (cancel_unstarted ''u111'' 7 (result_db (demo_settle ''lee'')))). iv_status v' = AT_VERIFIED"
proof -
  let ?db = "result_db (demo_settle ''lee'')"
  have r: "(idv_step demo_env demo_idv)\<^sup>*\<^sup>* demo_checked ?db"
    using demo_run [OF demo_calls(3)] by (rule rtranclp.rtrancl_into_rtrancl)
  have c: "(idv_step demo_env demo_idv)\<^sup>*\<^sup>* ?db (cancel_unstarted ''u111'' 7 ?db)"
    by (rule r_into_rtranclp) (simp add: idv_step_def idv_call.cancelled)
  obtain v where v: "sd_identity ?db = [v]" "iv_status v = AT_VERIFIED" using demo_calls(8) by auto
  have "v \<in> set (sd_identity ?db)" "iv_status v \<noteq> AT_PENDING" using v by simp_all
  from identity_outcome_final [OF demo_env_inj demo_calls(9) r c this] v(2) show ?thesis by metis
qed





text \<open>
  C29. A document in another name locks the recipient out: once the vendor's answer is settled
  the signing gate refuses the recipient, and when this answer is what locked them, none of
  their sessions on the envelope carries authority any more.
\<close>

theorem mismatch_locks_out:
  assumes "settle_tx env w db v res now = Inr (Some out, db')" and "ir_outcome res = AT_VERIFIED"
    and "find_signer db (iv_tenant_id v) (iv_signer_id v) = Some s" and "\<not> verifiedNameMatches w (ir_verified_name res) (sg_name s)"
    and "sg_identity_verification_method s = Some m"
  shows "assertIdentityVerificationCleared db' (iv_tenant_id v) (iv_signer_id v) = Inl (IdentityVerificationLocked (iv_signer_id v)) \<and>
    (sg_identity_verification_locked_at s = None \<longrightarrow>
      \<not> list_ex (\<lambda>x. ss_tenant_id x = iv_tenant_id v \<and> ss_envelope_id x = iv_envelope_id v \<and> ss_signer_id x = iv_signer_id v \<and> live_session x)
        (sd_sessions db'))"
proof -
  let ?m = "settle_mismatch env db v res now"
  have db': "db' = (if sg_identity_verification_locked_at s = None then lockIn env ?m (attempt_context v) ''name_mismatch'' None else ?m)"
    using assms(1) by (rule settle_tx_Inr) (use assms(2-4) in \<open>auto simp: settle_tx_def\<close>)
  have m: "sd_signers ?m = sd_signers db" by (simp add: settle_mismatch_def update_attempt_def)
  show ?thesis
  proof (cases "sg_identity_verification_locked_at s = None")
    case False
    then have "sd_signers db' = sd_signers db" using db' m by auto
    then have "find_signer db' (iv_tenant_id v) (iv_signer_id v) = Some s" using assms(3) by (simp add: find_signer_def)
    with False assms(5) show ?thesis by (auto simp: assertIdentityVerificationCleared_def)
  next
    case True
    have c: "cx_tenant_id (attempt_context v) = iv_tenant_id v" "cx_signer_id (attempt_context v) = iv_signer_id v"
      "cx_envelope_id (attempt_context v) = iv_envelope_id v" by (simp_all add: attempt_context_def)
    have db': "db' = lockIn env ?m (attempt_context v) ''name_mismatch'' None" using True db' by simp
    have "sd_signers db' = update_where (\<lambda>s. sg_id s = iv_signer_id v) (\<lambda>s. s\<lparr>sg_identity_verification_locked_at := Some (now_of env ?m)\<rparr>) (sd_signers db)"
      using m c by (simp add: db' lockIn_def Let_def update_signer_def)
    then have "find_signer db' (iv_tenant_id v) (iv_signer_id v) = Some (s\<lparr>sg_identity_verification_locked_at := Some (now_of env ?m)\<rparr>)"
      using assms(3) find_signer_Some(3) [OF assms(3)] by (simp add: find_signer_def find_update_where)
    then have "assertIdentityVerificationCleared db' (iv_tenant_id v) (iv_signer_id v) = Inl (IdentityVerificationLocked (iv_signer_id v))"
      using assms(5) by (simp add: assertIdentityVerificationCleared_def)
    moreover have "\<not> list_ex (\<lambda>x. ss_tenant_id x = iv_tenant_id v \<and> ss_envelope_id x = iv_envelope_id v \<and> ss_signer_id x = iv_signer_id v \<and> live_session x)
        (sd_sessions db')"
    proof -
      have "set (filter live_session (sd_sessions db')) \<subseteq> {x. \<not> (ss_tenant_id x = iv_tenant_id v \<and> ss_envelope_id x = iv_envelope_id v \<and> ss_signer_id x = iv_signer_id v)}"
        using c by (auto simp: db' lockIn_def Let_def revoke_where_live simp del: filter_filter)
      then show ?thesis by (auto simp: list_ex_iff)
    qed
    ultimately show ?thesis by simp
  qed
qed

lemma mismatch_locks_out_witness:
  "assertIdentityVerificationCleared (result_db (demo_settle ''kim'')) ''T'' ''u1'' = Inl (IdentityVerificationLocked ''u1'')"
proof -
  let ?v = "last (sd_identity demo_started)"
  have v: "iv_tenant_id ?v = ''T''" "iv_signer_id ?v = ''u1''" by code_simp+
  obtain out where "demo_settle ''kim'' = Inr (Some out, result_db (demo_settle ''kim''))"
  proof -
    have "(case demo_settle ''kim'' of Inr (Some _, _) \<Rightarrow> True | _ \<Rightarrow> False)" by code_simp
    then show thesis using that by (auto simp: result_db_def split: sum.splits option.splits prod.splits)
  qed
  then have s: "settle_tx demo_env demo_idv demo_started ?v (demo_answer ''kim'') 100 = Inr (Some out, result_db (demo_settle ''kim''))"
    by (simp add: demo_settle_def)
  have f: "find_signer demo_started ''T'' ''u1'' = Some (demo_signer\<lparr>sg_identity_verification_method := Some ''ID_VERIFICATION''\<rparr>)" by code_simp
  have n: "\<not> verifiedNameMatches demo_idv (Some (''ann'', ''kim'')) ''Ann Lee''" by code_simp
  from mismatch_locks_out [OF s, of "demo_signer\<lparr>sg_identity_verification_method := Some ''ID_VERIFICATION''\<rparr>" "''ID_VERIFICATION''"] f n v
  show ?thesis by (simp add: demo_answer_def demo_signer_def new_signer_def)
qed

end
