(* ===== verification/Sign_Inbox.thy ===== *)
theory Sign_Inbox
  imports Sign_Demo
begin

text \<open>
  The recipient inbox (\<^verbatim>\<open>libs/sign/src/lib/recipient-inbox.repository.ts\<close>): bindings between
  a signed-in user and a recipient, the discovery of envelopes by a proven email, the two
  lists with their turn and link columns, and the signing sessions issued from the inbox.
  The rows of the identity schema the proof reads are arguments.
\<close>

section \<open>Proof of control of an email\<close>

definition RECIPIENT_SESSION_TTL_MS :: int where
  "RECIPIENT_SESSION_TTL_MS = 30 * 60 * 1000"

definition RECIPIENT_COPY_TTL_MS :: int where
  "RECIPIENT_COPY_TTL_MS = 10 * 60 * 1000"

definition DISCOVERY_LIMIT :: nat where
  "DISCOVERY_LIMIT = 200"

record account_user =
  au_id :: string
  au_email :: string
  au_is_active :: bool
  au_deactivated_at :: "int option"

record external_link =
  el_user_id :: string
  el_created_at :: int
  el_email_snapshot :: "string option"
  el_idp :: "string option"

record email_proof =
  ep_email :: string
  ep_proven_at :: int

text \<open>\<open>btrim\<close> removes spaces only.\<close>

definition btrim :: "string \<Rightarrow> string" where
  "btrim s = rev (dropWhile (\<lambda>c. c = CHR '' '') (rev (dropWhile (\<lambda>c. c = CHR '' '') s)))"

definition sql_email :: "string \<Rightarrow> string" where
  "sql_email s = js_lower (btrim s)"

definition readVerifiedEmailProof :: "account_user list \<Rightarrow> external_link list \<Rightarrow> string \<Rightarrow> email_proof option" where
  "readVerifiedEmailProof users links user_id =
     (case find (\<lambda>u. au_id u = user_id \<and> au_is_active u \<and> au_deactivated_at u = None) users of
        None \<Rightarrow> None
      | Some u \<Rightarrow>
          let email = sql_email (au_email u);
              times = map el_created_at (filter (\<lambda>l. el_user_id l = user_id \<and> el_idp l \<in> {Some ''google'', Some ''microsoft''} \<and>
                map_option sql_email (el_email_snapshot l) = Some email) links)
          in if times = [] \<or> length email = 0 then None
             else Some \<lparr> ep_email = email, ep_proven_at = Min (set times) \<rparr>)"

section \<open>Bindings\<close>

record bind_input =
  bi_envelope_tenant_id :: string
  bi_envelope_id :: string
  bi_signer_id :: string
  bi_user_id :: string
  bi_user_tenant_id :: string
  bi_email :: string
  bi_claim_session_id :: "string option"

text \<open>An upsert on the pair of recipient and user.\<close>

definition bind :: "sign_env \<Rightarrow> sign_db \<Rightarrow> bind_input \<Rightarrow> sign_db \<times> string" where
  "bind env db i =
     (case find (\<lambda>b. rb_signer_id b = bi_signer_id i \<and> rb_user_id b = bi_user_id i) (sd_bindings db) of
        Some b \<Rightarrow>
          (db\<lparr>sd_bindings := update_where (\<lambda>x. rb_signer_id x = bi_signer_id i \<and> rb_user_id x = bi_user_id i)
             (\<lambda>x. x\<lparr>rb_revoked_at := None, rb_email := bi_email i,
                rb_claim_session_id := (case bi_claim_session_id i of None \<Rightarrow> rb_claim_session_id x | s \<Rightarrow> s)\<rparr>) (sd_bindings db)\<rparr>, rb_id b)
      | None \<Rightarrow>
          ((tick (tick db))\<lparr>sd_bindings := sd_bindings db @
             [\<lparr> rb_id = uuid_of env db, rb_envelope_tenant_id = bi_envelope_tenant_id i, rb_envelope_id = bi_envelope_id i,
                rb_signer_id = bi_signer_id i, rb_user_id = bi_user_id i, rb_user_tenant_id = bi_user_tenant_id i, rb_email = bi_email i,
                rb_created_at = now_of env (tick db), rb_revoked_at = None, rb_claim_session_id = bi_claim_session_id i \<rparr>]\<rparr>, uuid_of env db))"

definition liveBindingIds :: "sign_db \<Rightarrow> string \<Rightarrow> string list \<Rightarrow> (string \<times> string) list" where
  "liveBindingIds db user signer_ids =
     map (\<lambda>b. (rb_signer_id b, rb_id b)) (filter (\<lambda>b. rb_user_id b = user \<and> rb_revoked_at b = None \<and> rb_signer_id b \<in> set signer_ids) (sd_bindings db))"

definition anyBindingSignerIds :: "sign_db \<Rightarrow> string \<Rightarrow> string list \<Rightarrow> string set" where
  "anyBindingSignerIds db user signer_ids =
     set (map rb_signer_id (filter (\<lambda>b. rb_user_id b = user \<and> rb_signer_id b \<in> set signer_ids) (sd_bindings db)))"

definition revoke_binding :: "sign_env \<Rightarrow> sign_db \<Rightarrow> string \<Rightarrow> string \<Rightarrow> sign_db \<times> bool" where
  "revoke_binding env db user bid =
     (let hit = (\<lambda>b. rb_id b = bid \<and> rb_user_id b = user \<and> rb_revoked_at b = None)
      in ((tick db)\<lparr>sd_bindings := update_where hit (\<lambda>b. b\<lparr>rb_revoked_at := Some (now_of env db)\<rparr>) (sd_bindings db)\<rparr>,
          list_ex hit (sd_bindings db)))"

section \<open>Lists\<close>

datatype inbox_source = Bound | Discovered

datatype inbox_turn = Turn_now | Turn_later

record inbox_entry =
  ie_id :: string
  ie_envelope_tenant_id :: string
  ie_envelope_id :: string
  ie_signer_id :: string
  ie_created_at :: int
  ie_envelope :: sign_envelope
  ie_signer :: signer
  ie_source :: inbox_source
  ie_turn :: inbox_turn
  ie_link_live :: bool

text \<open>The emailed sessions that still back inbox signing.\<close>

definition emailed_live :: "int \<Rightarrow> string \<Rightarrow> signing_session \<Rightarrow> bool" where
  "emailed_live now sid s \<longleftrightarrow> ss_signer_id s = sid \<and> live_session s \<and> ss_expires_at s > now \<and> (ss_origin s = None \<or> ss_origin s = Some LINK) \<and>
     ss_expires_at s - ss_created_at s > RECIPIENT_SESSION_TTL_MS"

definition link_live :: "sign_db \<Rightarrow> int \<Rightarrow> string \<Rightarrow> string option \<Rightarrow> bool" where
  "link_live db now sid claim =
     (case claim of
        Some c \<Rightarrow> list_ex (\<lambda>s. ss_id s = c \<and> ss_signer_id s = sid \<and> live_session s \<and> ss_expires_at s > now) (sd_sessions db)
      | None \<Rightarrow> list_ex (emailed_live now sid) (sd_sessions db))"

definition inbox_turn_of :: "sign_db \<Rightarrow> sign_envelope \<Rightarrow> string \<Rightarrow> inbox_turn" where
  "inbox_turn_of db e sid =
     (if mayActNow (en_routing_mode e) (filter (\<lambda>s. sg_envelope_id s = en_id e) (sd_signers db)) sid then Turn_now else Turn_later)"

definition inbox_item ::
  "sign_db \<Rightarrow> int \<Rightarrow> inbox_source \<Rightarrow> string \<Rightarrow> int \<Rightarrow> string option \<Rightarrow> sign_envelope \<Rightarrow> signer \<Rightarrow> inbox_entry" where
  "inbox_item db now source i created claim e s =
     \<lparr> ie_id = i, ie_envelope_tenant_id = en_tenant_id e, ie_envelope_id = en_id e, ie_signer_id = sg_id s, ie_created_at = created,
       ie_envelope = e, ie_signer = s, ie_source = source, ie_turn = inbox_turn_of db e (sg_id s), ie_link_live = link_live db now (sg_id s) claim \<rparr>"

definition bound_entry :: "sign_db \<Rightarrow> int \<Rightarrow> recipient_binding \<Rightarrow> inbox_entry option" where
  "bound_entry db now b =
     (case (find (\<lambda>e. en_id e = rb_envelope_id b) (sd_envelopes db), find (\<lambda>s. sg_id s = rb_signer_id b) (sd_signers db)) of
        (Some e, Some s) \<Rightarrow> Some ((inbox_item db now Bound (rb_id b) (rb_created_at b) (rb_claim_session_id b) e s)
           \<lparr>ie_envelope_tenant_id := rb_envelope_tenant_id b\<rparr>)
      | _ \<Rightarrow> None)"

definition listForUser :: "sign_db \<Rightarrow> int \<Rightarrow> string \<Rightarrow> inbox_entry list" where
  "listForUser db now user = List.map_filter (bound_entry db now)
     (sort_key (\<lambda>b. - rb_created_at b) (filter (\<lambda>b. rb_user_id b = user \<and> rb_revoked_at b = None) (sd_bindings db)))"

definition getForUser :: "sign_db \<Rightarrow> string \<Rightarrow> string \<Rightarrow> recipient_binding option" where
  "getForUser db user bid = find (\<lambda>b. rb_id b = bid \<and> rb_user_id b = user \<and> rb_revoked_at b = None) (sd_bindings db)"

definition discoverable :: "sign_db \<Rightarrow> string \<Rightarrow> email_proof \<Rightarrow> sign_envelope \<Rightarrow> signer \<Rightarrow> bool" where
  "discoverable db user proof e s \<longleftrightarrow>
     en_id e = sg_envelope_id s \<and> en_tenant_id e = sg_tenant_id s \<and> map_option sql_email (sg_email s) = Some (ep_email proof) \<and>
     (sg_recipient_kind s = SIGNER \<or> sg_recipient_kind s = WITNESS) \<and> en_deleted_at e = None \<and>
     (case en_sent_at e of None \<Rightarrow> False | Some t \<Rightarrow> t \<ge> ep_proven_at proof) \<and>
     (en_status e = SENT \<or> en_status e = IN_PROGRESS \<or> (en_status e \<noteq> DRAFT \<and> sg_status s = SIGNED)) \<and>
     \<not> list_ex (\<lambda>b. rb_signer_id b = sg_id s \<and> rb_user_id b = user) (sd_bindings db)"

definition discovered_pairs :: "sign_db \<Rightarrow> string \<Rightarrow> email_proof \<Rightarrow> (sign_envelope \<times> signer) list" where
  "discovered_pairs db user proof = take DISCOVERY_LIMIT (sort_key (\<lambda>(e, s). (- opt_default 0 (en_sent_at e), sg_id s))
     (filter (\<lambda>(e, s). discoverable db user proof e s) (List.product (sd_envelopes db) (sd_signers db))))"

definition listDiscoveredForUser :: "sign_db \<Rightarrow> int \<Rightarrow> string \<Rightarrow> email_proof \<Rightarrow> inbox_entry list" where
  "listDiscoveredForUser db now user proof =
     map (\<lambda>(e, s). inbox_item db now Discovered (sg_id s) (opt_default now (en_sent_at e)) None e s) (discovered_pairs db user proof)"

definition selfSignedEnvelopeIds :: "sign_db \<Rightarrow> string \<Rightarrow> string \<Rightarrow> string list" where
  "selfSignedEnvelopeIds db tenant user = remdups (map sg_envelope_id (filter (\<lambda>s. sg_tenant_id s = tenant \<and> sg_bound_user_id s = Some user \<and>
     sg_status s = SIGNED \<and> list_ex (\<lambda>e. en_id e = sg_envelope_id s \<and> en_deleted_at e = None) (sd_envelopes db)) (sd_signers db)))"

section \<open>Issuing a session from the inbox\<close>

datatype inbox_refusal = Association_inactive | Envelope_not_signable | Signer_ineligible | Not_your_turn | Session_revoked | Link_expired
  | Inbox_sign sign_error

definition inbox_lock :: "sign_db \<Rightarrow> string \<Rightarrow> string \<Rightarrow> int \<Rightarrow> (inbox_refusal, sign_envelope) result" where
  "inbox_lock db tenant eid now =
     (case lockEnvelope db tenant eid of
        Inl err \<Rightarrow> Inl (Inbox_sign err)
      | Inr status \<Rightarrow>
          (case find_envelope db tenant eid of
             None \<Rightarrow> Inl Envelope_not_signable
           | Some e \<Rightarrow>
               if (status \<noteq> SENT \<and> status \<noteq> IN_PROGRESS) \<or> en_deleted_at e \<noteq> None \<or> (case en_expires_at e of None \<Rightarrow> False | Some t \<Rightarrow> t \<le> now)
               then Inl Envelope_not_signable else Inr e))"

definition assertTurn :: "sign_db \<Rightarrow> string \<Rightarrow> string \<Rightarrow> routing_mode \<Rightarrow> signer \<Rightarrow> (inbox_refusal, unit) result" where
  "assertTurn db tenant eid mode s =
     (if mode = SEQUENTIAL \<and> currentTurnSignerId (sd_signers db) tenant eid \<noteq> Some (sg_id s) then Inl Not_your_turn
      else if isWitness s \<and> \<not> witnessed_signed db tenant eid s then Inl Not_your_turn
      else Inr ())"

definition claimedLinkExpiry :: "sign_db \<Rightarrow> string \<Rightarrow> string option \<Rightarrow> int \<Rightarrow> (inbox_refusal, int) result" where
  "claimedLinkExpiry db sid claim now =
     (case claim of
        Some c \<Rightarrow>
          (case find (\<lambda>s. ss_id s = c \<and> ss_signer_id s = sid) (sd_sessions db) of
             None \<Rightarrow> Inl Session_revoked
           | Some s \<Rightarrow>
               if ss_status s = REVOKED then Inl Session_revoked
               else if ss_status s = SESSION_EXPIRED \<or> ss_expires_at s \<le> now then Inl Link_expired
               else if \<not> live_session s then Inl Session_revoked
               else Inr (ss_expires_at s))
      | None \<Rightarrow>
          let emailed = filter (emailed_live now sid) (sd_sessions db)
          in if emailed = [] then Inl Session_revoked else Inr (Max (set (map ss_expires_at emailed))))"

definition inbox_mint ::
  "sign_env \<Rightarrow> sign_db \<Rightarrow> string \<Rightarrow> string \<Rightarrow> string \<Rightarrow> int \<Rightarrow> int option \<Rightarrow> int \<Rightarrow> (string \<times> json) list \<Rightarrow> (issued_session \<times> int) \<times> sign_db" where
  "inbox_mint env db tenant eid sid linkExpiry envelopeExpiry now payload =
     (let bound = (case envelopeExpiry of None \<Rightarrow> min (now + RECIPIENT_SESSION_TTL_MS) linkExpiry
                   | Some t \<Rightarrow> min (min (now + RECIPIENT_SESSION_TTL_MS) linkExpiry) t);
          (minted, db1) = mint_session env db tenant eid sid bound INBOX None None
      in ((minted, bound), appendEvent env db1 ((event tenant eid ''RECIPIENT_INBOX_SESSION_ISSUED'' ''SIGNER'')
           \<lparr>ae_signer_id := Some sid, ae_actor_ref := Some sid,
            ae_payload := Some (JObj ((''origin'', JStr ''inbox'') # (''session_id'', JStr (is_session_id minted)) # payload))\<rparr>)))"

definition inbox_signer_ok :: "(string \<Rightarrow> bool) \<Rightarrow> signer \<Rightarrow> bool" where
  "inbox_signer_ok same_email s \<longleftrightarrow> isLinkSigner s \<and> (case sg_email s of None \<Rightarrow> False | Some e \<Rightarrow> same_email e) \<and>
     (sg_status s = PENDING \<or> sg_status s = VIEWED)"

text \<open>The revalidation both issuing calls share, from the recipient row on.\<close>

definition inbox_issue ::
  "sign_env \<Rightarrow> sign_db \<Rightarrow> sign_envelope \<Rightarrow> string \<Rightarrow> string \<Rightarrow> string \<Rightarrow> (string \<Rightarrow> bool) \<Rightarrow> string option \<Rightarrow> int \<Rightarrow> (string \<times> json) list \<Rightarrow>
     (inbox_refusal, (issued_session \<times> int) \<times> sign_db) result" where
  "inbox_issue env db e tenant eid sid same_email claim now payload =
     (case find_recipient db tenant eid sid of
        None \<Rightarrow> Inl Signer_ineligible
      | Some s \<Rightarrow>
          if \<not> inbox_signer_ok same_email s then Inl Signer_ineligible
          else rbind (assertTurn db tenant eid (en_routing_mode e) s) (\<lambda>_.
               rbind (claimedLinkExpiry db sid claim now) (\<lambda>linkExpiry.
                 Inr (inbox_mint env db tenant eid sid linkExpiry (en_expires_at e) now payload))))"

definition issueRevalidatedRecipientSession ::
  "sign_env \<Rightarrow> sign_db \<Rightarrow> string \<Rightarrow> string \<Rightarrow> int \<Rightarrow> sign_db \<times> (inbox_refusal, (issued_session \<times> int) option) result" where
  "issueRevalidatedRecipientSession env db user bid now =
     (case find (\<lambda>b. rb_id b = bid \<and> rb_user_id b = user) (sd_bindings db) of
        None \<Rightarrow> (db, Inr None)
      | Some b \<Rightarrow>
          (case (if rb_revoked_at b \<noteq> None then Inl Association_inactive
                 else rbind (inbox_lock db (rb_envelope_tenant_id b) (rb_envelope_id b) now) (\<lambda>e.
                   inbox_issue env db e (rb_envelope_tenant_id b) (rb_envelope_id b) (rb_signer_id b)
                     (\<lambda>x. js_lower (js_trim x) = js_lower (js_trim (rb_email b))) (rb_claim_session_id b) now [(''binding_id'', JStr (rb_id b))])) of
             Inl why \<Rightarrow> (db, Inl why)
           | Inr (issued, db') \<Rightarrow> (touch (rb_envelope_id b) db', Inr (Some issued))))"

definition issueDiscoveredRecipientSession ::
  "sign_env \<Rightarrow> sign_db \<Rightarrow> account_user list \<Rightarrow> external_link list \<Rightarrow> string \<Rightarrow> string \<Rightarrow> int \<Rightarrow> sign_db \<times> (inbox_refusal, issued_session \<times> int) result" where
  "issueDiscoveredRecipientSession env db users links user sid now =
     (case find (\<lambda>s. sg_id s = sid) (sd_signers db) of
        None \<Rightarrow> (db, Inl Signer_ineligible)
      | Some located \<Rightarrow>
          let tenant = sg_tenant_id located; eid = sg_envelope_id located
          in (case rbind (inbox_lock db tenant eid now) (\<lambda>e.
                (case readVerifiedEmailProof users links user of
                   None \<Rightarrow> Inl Association_inactive
                 | Some proof \<Rightarrow>
                     if (case en_sent_at e of None \<Rightarrow> True | Some t \<Rightarrow> t < ep_proven_at proof) then Inl Association_inactive
                     else if list_ex (\<lambda>b. rb_signer_id b = sid \<and> rb_user_id b = user) (sd_bindings db) then Inl Association_inactive
                     else inbox_issue env db e tenant eid sid (\<lambda>x. js_lower (js_trim x) = ep_email proof) None now
                       [(''discovery'', JStr ''verified_account_email'')])) of
                Inl why \<Rightarrow> (db, Inl why)
              | Inr (issued, db') \<Rightarrow> (touch eid db', Inr issued)))"

definition issueRecipientCopyAccess :: "sign_env \<Rightarrow> sign_db \<Rightarrow> string \<Rightarrow> string \<Rightarrow> string \<Rightarrow> sign_db \<times> string" where
  "issueRecipientCopyAccess env db tenant eid sid =
     (let raw = sv_token env (sd_tick db); db1 = tick db; gid = uuid_of env db1; db2 = tick db1
      in ((tick db2)\<lparr>sd_grants := sd_grants db2 @
            [\<lparr> ag_id = gid, ag_tenant_id = tenant, ag_envelope_id = eid, ag_signer_id = sid, ag_token_hash = hashSigningToken env raw,
               ag_expires_at = now_of env db2 + RECIPIENT_COPY_TTL_MS, ag_last_accessed_at = None, ag_access_count = 0,
               ag_access_kind = EXECUTED_ACCESS \<rparr>]\<rparr>, raw))"

section \<open>The inbox refines the signing protocol\<close>

lemma sim_bind: "sim env db (fst (bind env db i))"
  unfolding bind_def
  using sim_columns(5) sim_trans [OF sim_trans [OF sim_tick sim_tick] sim_columns(5)] by (auto split: option.splits)

lemma sim_revoke_binding: "sim env db (fst (revoke_binding env db user bid))"
  unfolding revoke_binding_def Let_def using sim_trans [OF sim_tick sim_columns(5)] by simp

lemma sim_issueCopy: "sim env db (fst (issueRecipientCopyAccess env db tenant eid sid))"
  unfolding issueRecipientCopyAccess_def Let_def
  using sim_trans [OF sim_trans [OF sim_trans [OF sim_tick sim_tick] sim_tick] sim_grants] by simp

lemma inbox_lock_Inr:
  assumes "inbox_lock db tenant eid now = Inr e"
  shows "find_envelope db tenant eid = Some e" "en_status e = SENT \<or> en_status e = IN_PROGRESS" "en_deleted_at e = None"
    "case en_expires_at e of None \<Rightarrow> True | Some t \<Rightarrow> now < t"
  using assms by (auto simp: inbox_lock_def lockEnvelope_def split: sum.splits option.splits if_splits)

lemma link_signs: "isLinkSigner s \<Longrightarrow> isSigningRecipient s"
  by (auto simp: isLinkSigner_def isSigningRecipient_def SIGNING_RECIPIENT_KINDS_def Let_def)

lemma inbox_issue_Inr:
  assumes "inbox_issue env db e tenant eid sid same claim now payload = Inr (x, db')"
  obtains s linkExpiry where "find_recipient db tenant eid sid = Some s" "inbox_signer_ok same s"
    "assertTurn db tenant eid (en_routing_mode e) s = Inr ()" "claimedLinkExpiry db sid claim now = Inr linkExpiry"
    "inbox_mint env db tenant eid sid linkExpiry (en_expires_at e) now payload = (x, db')"
  using assms by (auto simp: inbox_issue_def rbind_Inr_iff split: option.splits if_splits)

lemma sim_inbox_issue:
  assumes inj: "inj (sv_uuid env)" and l: "inbox_lock db tenant eid now = Inr e"
    and i: "inbox_issue env db e tenant eid sid same claim now payload = Inr (x, db')"
  shows "sim env db db'"
  using i
proof (rule inbox_issue_Inr)
  fix s le assume s: "find_recipient db tenant eid sid = Some s" "inbox_signer_ok same s"
    and m: "inbox_mint env db tenant eid sid le (en_expires_at e) now payload = (x, db')"
  obtain t m' db1 j where m': "mint_session env db tenant eid sid t INBOX None None = (m', db1)" "db' = appendEvent env db1 j"
    using m by (auto simp: inbox_mint_def Let_def split: prod.splits)
  have "sim env db db1"
    by (rule sim_mint [OF inj m'(1) inbox_lock_Inr(1,2) [OF l], of s])
      (use find_recipient_Some [OF s(1)] s(2) in \<open>simp_all add: inbox_signer_ok_def link_signs\<close>)
  then show ?thesis unfolding m'(2) by (rule sim_trans [OF _ sim_append])
qed

lemma sim_issueRevalidated:
  assumes inj: "inj (sv_uuid env)" and i: "issueRevalidatedRecipientSession env db user bid now = (db', r)"
  shows "sim env db db'"
proof (cases "find (\<lambda>b. rb_id b = bid \<and> rb_user_id b = user) (sd_bindings db)")
  case (Some b)
  let ?r = "if rb_revoked_at b \<noteq> None then Inl Association_inactive
                 else rbind (inbox_lock db (rb_envelope_tenant_id b) (rb_envelope_id b) now) (\<lambda>e.
                   inbox_issue env db e (rb_envelope_tenant_id b) (rb_envelope_id b) (rb_signer_id b)
                     (\<lambda>x. js_lower (js_trim x) = js_lower (js_trim (rb_email b))) (rb_claim_session_id b) now [(''binding_id'', JStr (rb_id b))])"
  show ?thesis
  proof (cases ?r)
    case (Inr y)
    obtain x db1 where y: "y = (x, db1)" by (cases y)
    have "sim env db db1" using Inr y by (auto simp: rbind_Inr_iff intro: sim_inbox_issue [OF inj] split: if_splits)
    moreover have "db' = touch (rb_envelope_id b) db1" using i Some Inr y by (simp add: issueRevalidatedRecipientSession_def)
    ultimately show ?thesis using sim_trans [OF _ sim_touch] by simp
  qed (use i Some in \<open>simp add: issueRevalidatedRecipientSession_def\<close>)
qed (use i in \<open>simp add: issueRevalidatedRecipientSession_def\<close>)

lemma sim_issueDiscovered:
  assumes inj: "inj (sv_uuid env)" and i: "issueDiscoveredRecipientSession env db users links user sid now = (db', r)"
  shows "sim env db db'"
proof -
  consider "db' = db" | e tenant eid same payload x db1 where "inbox_lock db tenant eid now = Inr e"
      "inbox_issue env db e tenant eid sid same None now payload = Inr (x, db1)" "db' = touch eid db1"
    using i by (auto simp: issueDiscoveredRecipientSession_def Let_def rbind_def split: option.splits sum.splits if_splits prod.splits)
  then show ?thesis
  proof cases
    case (2 e tenant eid same payload x db1)
    from sim_trans [OF sim_inbox_issue [OF inj 2(1,2)] sim_touch] 2(3) show ?thesis by simp
  qed simp
qed

section \<open>Turns and links\<close>

lemma turn_iff_mayAct:
  assumes s: "find_recipient db tenant eid sid = Some s" "isSigningRecipient s"
  shows "assertTurn db tenant eid mode s = Inr () \<longleftrightarrow> mayActNow mode (envelope_signers (sd_signers db) tenant eid) sid"
proof -
  have "sg_id s = sid" using find_recipient_Some [OF s(1)] by simp
  moreover have "(isWitness s \<and> \<not> witnessed_signed db tenant eid s) = (\<not> witnessReady (envelope_signers (sd_signers db) tenant eid) s)"
    using witnessed_rows [of s db tenant eid] by (cases "isWitness s") (auto simp: witnessReady_def)
  ultimately show ?thesis
    using s unfolding assertTurn_def mayActNow_def find_recipient_rows currentTurnSignerId_rows
    by (cases mode) auto
qed

lemma link_live_iff:
  assumes "distinct (map ss_id (sd_sessions db))"
  shows "link_live db now sid claim \<longleftrightarrow> (\<exists>t. claimedLinkExpiry db sid claim now = Inr t)"
proof (cases claim)
  case None
  then show ?thesis by (auto simp: link_live_def claimedLinkExpiry_def Let_def list_ex_iff filter_empty_conv)
next
  case (Some c)
  show ?thesis
  proof (cases "find (\<lambda>s. ss_id s = c \<and> ss_signer_id s = sid) (sd_sessions db)")
    case None
    then have "\<not> (\<exists>s\<in>set (sd_sessions db). ss_id s = c \<and> ss_signer_id s = sid)" by (auto simp: find_None_iff)
    with Some None show ?thesis by (auto simp: link_live_def claimedLinkExpiry_def list_ex_iff)
  next
    case s: (Some s)
    then have "s \<in> set (sd_sessions db)" "ss_id s = c" "ss_signer_id s = sid" by (auto simp: find_Some_iff)
    moreover from this have u: "x = s" if "x \<in> set (sd_sessions db)" "ss_id x = c" for x
      using assms that by (auto simp: distinct_map inj_on_def)
    ultimately have "link_live db now sid claim \<longleftrightarrow> live_session s \<and> ss_expires_at s > now"
      unfolding link_live_def Some option.case list_ex_iff by (blast dest: u)
    moreover have "(\<exists>t. claimedLinkExpiry db sid claim now = Inr t) \<longleftrightarrow> live_session s \<and> ss_expires_at s > now"
      using Some s by (cases "ss_status s") (auto simp: claimedLinkExpiry_def live_session_def LIVE_SESSION_STATUSES_def)
    ultimately show ?thesis by simp
  qed
qed

lemma claimed_bound:
  assumes "claimedLinkExpiry db sid claim now = Inr t"
  shows "\<exists>x\<in>set (sd_sessions db). ss_signer_id x = sid \<and> live_session x \<and> now < ss_expires_at x \<and> t = ss_expires_at x \<and>
    (case claim of Some c \<Rightarrow> ss_id x = c | None \<Rightarrow> ss_origin x = None \<or> ss_origin x = Some LINK)"
proof (cases claim)
  case None
  let ?E = "filter (emailed_live now sid) (sd_sessions db)"
  have "?E \<noteq> []" "t = Max (set (map ss_expires_at ?E))" using assms None by (auto simp: claimedLinkExpiry_def Let_def split: if_splits)
  moreover from this(1) have "set (map ss_expires_at ?E) \<noteq> {}" by (simp del: set_filter)
  ultimately have "t \<in> set (map ss_expires_at ?E)" using Max_in [OF List.finite_set] by metis
  with None show ?thesis by (auto simp: emailed_live_def)
next
  case (Some c)
  with assms show ?thesis by (auto simp: claimedLinkExpiry_def find_Some_iff split: option.splits if_splits)
qed

lemma rows_by_envelope:
  assumes "db_inv env db" "find_envelope db tenant eid = Some e"
  shows "filter (\<lambda>s. sg_envelope_id s = eid) (sd_signers db) = envelope_signers (sd_signers db) tenant eid"
  unfolding envelope_signers_def using signer_tenant [OF assms] by (intro filter_cong) auto

lemma inbox_mint_bound:
  "inbox_mint env db tenant eid sid le ee now payload = ((m, t), db') \<Longrightarrow>
     t = (case ee of None \<Rightarrow> min (now + RECIPIENT_SESSION_TTL_MS) le | Some x \<Rightarrow> min (min (now + RECIPIENT_SESSION_TTL_MS) le) x)"
  by (auto simp: inbox_mint_def Let_def split: prod.splits)

lemma issueRevalidated_eq:
  assumes "find (\<lambda>b. rb_id b = bid \<and> rb_user_id b = user) (sd_bindings db) = Some b"
  shows "(\<exists>db' x. issueRevalidatedRecipientSession env db user bid now = (db', Inr (Some x))) \<longleftrightarrow> rb_revoked_at b = None \<and>
    (\<exists>e y. inbox_lock db (rb_envelope_tenant_id b) (rb_envelope_id b) now = Inr e \<and>
       inbox_issue env db e (rb_envelope_tenant_id b) (rb_envelope_id b) (rb_signer_id b)
         (\<lambda>x. js_lower (js_trim x) = js_lower (js_trim (rb_email b))) (rb_claim_session_id b) now [(''binding_id'', JStr (rb_id b))] = Inr y)"
  using assms by (auto simp: issueRevalidatedRecipientSession_def rbind_def split: sum.splits)

section \<open>Properties\<close>

text \<open>
  C22. The inbox list tells the truth about signing. For a bound item whose binding is live, the
  call that opens a signing session succeeds exactly when the list shows the turn as now and
  the link as live, the recipient is still the invited one (an emailed recipient who has not
  finished, with the email matched at the claim), and the envelope is signable: sent or in
  progress, not deleted and not expired.
\<close>

theorem inbox_list_agrees:
  assumes "db_inv env db" and "find (\<lambda>b. rb_id b = bid \<and> rb_user_id b = user) (sd_bindings db) = Some b" and "rb_revoked_at b = None"
    and "bound_entry db now b = Some it" and "sg_envelope_id (ie_signer it) = rb_envelope_id b" and "en_tenant_id (ie_envelope it) = rb_envelope_tenant_id b"
  shows "(\<exists>db' issued. issueRevalidatedRecipientSession env db user bid now = (db', Inr (Some issued))) \<longleftrightarrow>
    ie_turn it = Turn_now \<and> ie_link_live it \<and>
    inbox_signer_ok (\<lambda>x. js_lower (js_trim x) = js_lower (js_trim (rb_email b))) (ie_signer it) \<and>
    (en_status (ie_envelope it) = SENT \<or> en_status (ie_envelope it) = IN_PROGRESS) \<and> en_deleted_at (ie_envelope it) = None \<and>
    (case en_expires_at (ie_envelope it) of None \<Rightarrow> True | Some t \<Rightarrow> now < t)"
proof -
  let ?tn = "rb_envelope_tenant_id b" and ?eid = "rb_envelope_id b" and ?sid = "rb_signer_id b"
  let ?same = "\<lambda>x. js_lower (js_trim x) = js_lower (js_trim (rb_email b))"
  obtain e s where e0: "find (\<lambda>e. en_id e = ?eid) (sd_envelopes db) = Some e" and s0: "find (\<lambda>s. sg_id s = ?sid) (sd_signers db) = Some s"
    and it: "ie_envelope it = e" "ie_signer it = s" "ie_turn it = inbox_turn_of db e ?sid" "ie_link_live it = link_live db now ?sid (rb_claim_session_id b)"
  proof -
    obtain e s where f: "find (\<lambda>e. en_id e = ?eid) (sd_envelopes db) = Some e" "find (\<lambda>s. sg_id s = ?sid) (sd_signers db) = Some s"
      using assms(4) by (auto simp: bound_entry_def split: option.splits)
    moreover have "sg_id s = ?sid" using f(2) by (auto simp: find_Some_iff)
    ultimately show thesis using assms(4) by (intro that [of e s]) (auto simp: bound_entry_def inbox_item_def)
  qed
  have e: "e \<in> set (sd_envelopes db)" "en_id e = ?eid" using e0 by (auto simp: find_Some_iff)
  then have fe: "find_envelope db ?tn ?eid = Some e"
    using find_envelope_unique [OF db_inv_env_ids [OF assms(1)] e(1)] assms(6) it(1) by simp
  have s: "s \<in> set (sd_signers db)" "sg_id s = ?sid" "sg_envelope_id s = ?eid" using s0 assms(5) it(2) by (auto simp: find_Some_iff)
  then have "sg_tenant_id s = ?tn" using signer_tenant [OF assms(1) fe] by simp
  then have fs: "find_recipient db ?tn ?eid ?sid = Some s" using find_recipient_unique [OF assms(1) s(1)] s by simp
  have turn: "ie_turn it = Turn_now \<longleftrightarrow> assertTurn db ?tn ?eid (en_routing_mode e) s = Inr ()" if "isLinkSigner s"
    using turn_iff_mayAct [OF fs link_signs [OF that]] rows_by_envelope [OF assms(1) fe] e(2) by (simp add: it(3) inbox_turn_of_def)
  have link: "ie_link_live it \<longleftrightarrow> (\<exists>t. claimedLinkExpiry db ?sid (rb_claim_session_id b) now = Inr t)"
    unfolding it(4) by (rule link_live_iff) (use assms(1) in \<open>simp add: db_inv_def ids_ok_def\<close>)
  have lock: "inbox_lock db ?tn ?eid now = Inr x \<longleftrightarrow> x = e \<and> (en_status e = SENT \<or> en_status e = IN_PROGRESS) \<and> en_deleted_at e = None \<and>
      (case en_expires_at e of None \<Rightarrow> True | Some t \<Rightarrow> now < t)" for x
    using fe by (auto simp: inbox_lock_def lockEnvelope_def split: option.splits if_splits)
  have issue: "(\<exists>y. inbox_issue env db e ?tn ?eid ?sid ?same (rb_claim_session_id b) now payload = Inr y) \<longleftrightarrow>
      inbox_signer_ok ?same s \<and> ie_turn it = Turn_now \<and> ie_link_live it" for payload
    using fs turn link by (auto simp: inbox_issue_def rbind_Inr_iff inbox_signer_ok_def simp del: split_paired_Ex)
  show ?thesis
    unfolding issueRevalidated_eq [OF assms(2)] lock it(1,2) using assms(3) issue [of "[(''binding_id'', JStr (rb_id b))]"] by auto
qed

text \<open>
  An inbox session never outlives what it stands on. When the call issues a session, that
  session ends within 30 minutes, no later than the envelope, and no later than a live,
  unexpired session of the same recipient: the claimed one when the binding names it, an
  emailed one otherwise.
\<close>

theorem inbox_session_bounded:
  assumes "issueRevalidatedRecipientSession env db user bid now = (db', Inr (Some (issued, t)))"
    and "find (\<lambda>b. rb_id b = bid \<and> rb_user_id b = user) (sd_bindings db) = Some b"
  shows "t \<le> now + 30 * 60 * 1000 \<and>
    (\<exists>e. find_envelope db (rb_envelope_tenant_id b) (rb_envelope_id b) = Some e \<and> (case en_expires_at e of None \<Rightarrow> True | Some x \<Rightarrow> t \<le> x)) \<and>
    (\<exists>x\<in>set (sd_sessions db). ss_signer_id x = rb_signer_id b \<and> live_session x \<and> now < ss_expires_at x \<and> t \<le> ss_expires_at x \<and>
       (case rb_claim_session_id b of Some c \<Rightarrow> ss_id x = c | None \<Rightarrow> ss_origin x = None \<or> ss_origin x = Some LINK))"
proof -
  obtain e db1 where l: "inbox_lock db (rb_envelope_tenant_id b) (rb_envelope_id b) now = Inr e"
    and i: "inbox_issue env db e (rb_envelope_tenant_id b) (rb_envelope_id b) (rb_signer_id b)
         (\<lambda>x. js_lower (js_trim x) = js_lower (js_trim (rb_email b))) (rb_claim_session_id b) now [(''binding_id'', JStr (rb_id b))] = Inr ((issued, t), db1)"
    using assms by (auto simp: issueRevalidatedRecipientSession_def rbind_def split: sum.splits if_splits)
  obtain s le where c: "claimedLinkExpiry db (rb_signer_id b) (rb_claim_session_id b) now = Inr le"
    and m: "inbox_mint env db (rb_envelope_tenant_id b) (rb_envelope_id b) (rb_signer_id b) le (en_expires_at e) now [(''binding_id'', JStr (rb_id b))] = ((issued, t), db1)"
    using i by (rule inbox_issue_Inr)
  have t: "t = (case en_expires_at e of None \<Rightarrow> min (now + RECIPIENT_SESSION_TTL_MS) le
     | Some x \<Rightarrow> min (min (now + RECIPIENT_SESSION_TTL_MS) le) x)"
    using inbox_mint_bound [OF m] .
  then have "t \<le> now + 30 * 60 * 1000" "t \<le> le" "case en_expires_at e of None \<Rightarrow> True | Some x \<Rightarrow> t \<le> x"
    by (auto simp: RECIPIENT_SESSION_TTL_MS_def split: option.splits)
  with claimed_bound [OF c] inbox_lock_Inr(1) [OF l] show ?thesis by auto
qed

definition demo_binding :: recipient_binding where
  "demo_binding = \<lparr> rb_id = ''B'', rb_envelope_tenant_id = ''T'', rb_envelope_id = ''u'', rb_signer_id = ''u1'', rb_user_id = ''U'',
     rb_user_tenant_id = ''T2'', rb_email = '' ANN@x.io'', rb_created_at = 6, rb_revoked_at = None, rb_claim_session_id = Some ''u11'' \<rparr>"

definition demo_bound :: sign_db where
  "demo_bound = demo_db\<lparr>sd_bindings := [demo_binding]\<rparr>"

lemma demo_bound_inv: "db_inv demo_env demo_bound"
  using sim_inv [OF sim_columns(5) demo_db_inv] unfolding demo_bound_def .

lemma demo_bound_entry:
  "find (\<lambda>b. rb_id b = ''B'' \<and> rb_user_id b = ''U'') (sd_bindings demo_bound) = Some demo_binding"
  "bound_entry demo_bound 10 demo_binding = Some ((inbox_item demo_bound 10 Bound ''B'' 6 (Some ''u11'') (demo_envelope IN_PROGRESS) demo_signer))"
  "mayActNow PARALLEL [demo_signer] ''u1''" "link_live demo_bound 10 ''u1'' (Some ''u11'')"
  "inbox_signer_ok (\<lambda>x. js_lower (js_trim x) = js_lower (js_trim '' ANN@x.io'')) demo_signer"
  "filter (\<lambda>s. sg_envelope_id s = ''u'') (sd_signers demo_bound) = [demo_signer]"
  by code_simp+

lemma inbox_list_agrees_witness:
  "\<exists>db' issued. issueRevalidatedRecipientSession demo_env demo_bound ''U'' ''B'' 10 = (db', Inr (Some issued))"
proof -
  let ?it = "inbox_item demo_bound 10 Bound ''B'' 6 (Some ''u11'') (demo_envelope IN_PROGRESS) demo_signer"
  have b: "rb_revoked_at demo_binding = None" "rb_email demo_binding = '' ANN@x.io''" by (simp_all add: demo_binding_def)
  have e: "en_id (demo_envelope IN_PROGRESS) = ''u''" "en_routing_mode (demo_envelope IN_PROGRESS) = PARALLEL" "sg_id demo_signer = ''u1''" by code_simp+
  have k: "sg_envelope_id (ie_signer ?it) = rb_envelope_id demo_binding" "en_tenant_id (ie_envelope ?it) = rb_envelope_tenant_id demo_binding"
    by (simp_all add: inbox_item_def demo_binding_def demo_envelope_def demo_signer_def new_signer_def)
  have "ie_turn ?it = Turn_now" "ie_link_live ?it"
    using demo_bound_entry(3,4,6) e by (simp_all add: inbox_item_def inbox_turn_of_def)
  moreover have "inbox_signer_ok (\<lambda>x. js_lower (js_trim x) = js_lower (js_trim (rb_email demo_binding))) (ie_signer ?it)"
    using demo_bound_entry(5) b by (simp add: inbox_item_def)
  moreover have "en_status (ie_envelope ?it) = IN_PROGRESS" "en_deleted_at (ie_envelope ?it) = None" "en_expires_at (ie_envelope ?it) = None"
    by (simp_all add: inbox_item_def demo_envelope_def)
  ultimately show ?thesis
    using inbox_list_agrees [OF demo_bound_inv demo_bound_entry(1) b(1) demo_bound_entry(2) k] by simp
qed

lemma inbox_session_bounded_witness:
  "case issueRevalidatedRecipientSession demo_env demo_bound ''U'' ''B'' 10 of (db', Inr (Some (issued, t))) \<Rightarrow> t \<le> 10 + 30 * 60 * 1000 | _ \<Rightarrow> False"
proof -
  have "(case issueRevalidatedRecipientSession demo_env demo_bound ''U'' ''B'' 10 of (_, Inr (Some _)) \<Rightarrow> True | _ \<Rightarrow> False)" by code_simp
  then obtain db' issued t where i: "issueRevalidatedRecipientSession demo_env demo_bound ''U'' ''B'' 10 = (db', Inr (Some (issued, t)))"
    by (cases "issueRevalidatedRecipientSession demo_env demo_bound ''U'' ''B'' 10") (auto split: sum.splits option.splits)
  with inbox_session_bounded [OF i demo_bound_entry(1)] show ?thesis by simp
qed

end
