(* ===== verification/Sign_Theorems.thy ===== *)
theory Sign_Theorems
  imports Sign_Run Sign_Identity Sign_Inbox
begin

text \<open>
  Runs of the signing service: any interleaving of the operations of the envelope service,
  the invitation worker, the identity checks and the recipient inbox. Every run is a run of
  the protocol of \<open>Sign_Lifecycle\<close>, and the guarantees of the protocol are restated on the
  tables.
\<close>

section \<open>The service as a step relation\<close>

text \<open>
  One call of an operation. Recipients enter a draft through \<open>recruit_row\<close>; the signer
  surface is the only caller of \<open>decline\<close> and gives its session. The rows other
  services keep beside the envelope (documents, fields, message, qualified signatures,
  access-code hashes) may change between calls; \<open>aside\<close> allows every such change.
\<close>

definition aside :: "sign_db \<Rightarrow> sign_db \<Rightarrow> bool" where
  "aside db db' \<longleftrightarrow> map core_env (sd_envelopes db') = map core_env (sd_envelopes db) \<and>
     map core_signer (sd_signers db') = map core_signer (sd_signers db) \<and>
     sd_sessions db' = sd_sessions db \<and> sd_outbox db' = sd_outbox db \<and> sd_events db' = sd_events db \<and> sd_tick db \<le> sd_tick db'"

inductive sign_step :: "sign_env \<Rightarrow> sign_db \<Rightarrow> sign_db \<Rightarrow> bool" for env where
  created: "sign_step env db (fst (createEnvelope env db input))"
| documented: "sign_step env db (fst (addDocument env db doc))"
| placed: "sign_step env db (addField env db field)"
| recruited: "recruitable db row \<Longrightarrow> sign_step env db (recruit_row env db row)"
| sent: "sign_step env db (fst (send env db tenant eid actor expected))"
| exchanged: "sign_step env db (fst (exchangeToken env db raw))"
| disclosed: "sign_step env db (fst (acceptDisclosure env db ctx accept))"
| coded: "sign_step env db (fst (verifyRecipientAccessCode env db raw entered ip agent))"
| delegated: "sign_step env db (fst (delegateSigner env db ctx name email reason_opt))"
| filled: "sign_step env db (fst (fillField env db ctx fid val method))"
| signed: "sign_step env db (fst (completeSigner env db ctx))"
| declined: "sign_step env db (fst (decline env db tenant eid sid reason (Some session_id)))"
| voided: "sign_step env db (fst (voidEnvelope env db tenant eid actor reason expected))"
| expired: "sign_step env db (fst (expireEnvelope env db tenant eid))"
| swept: "sign_step env db (fst (expireDueEnvelopes env db now limit))"
| executed_read: "sign_step env db (fst (resolveExecutedAccess env db raw))"
| copy_read: "sign_step env db (fst (resolveCopyAccess env db raw))"
| hosted: "sign_step env db (fst (issueHostedSession env db tenant eid sid host))"
| self_signed: "sign_step env db (fst (issueSelfSignSession env db tenant eid user verified who))"
| reminded: "sign_step env db (fst (remindSigner env db tenant eid actor who limits))"
| dispatched: "sign_step env db (fst (dispatch env db tenant_opt eid_opt limit))"
| identity_call: "idv_call env w db db' \<Longrightarrow> sign_step env db db'"
| bound: "sign_step env db (fst (bind env db i))"
| unbound: "sign_step env db (fst (revoke_binding env db user bid))"
| copy_issued: "sign_step env db (fst (issueRecipientCopyAccess env db tenant eid sid))"
| revalidated: "sign_step env db (fst (issueRevalidatedRecipientSession env db user bid now))"
| discovered: "sign_step env db (fst (issueDiscoveredRecipientSession env db users links user sid now))"
| beside: "aside db db' \<Longrightarrow> sign_step env db db'"

lemma sim_aside:
  assumes "aside db db'"
  shows "sim env db db'"
proof (rule sim_frame)
  show "view db' = view db" using assms by (intro view_eqI) (simp_all add: aside_def)
  have ids: "map en_id es = map ec_id (map core_env es)" "map sg_id ss = map sg_id (map core_signer ss)" for es ss
    by (simp_all add: o_def)
  have "map en_id (sd_envelopes db') = map en_id (sd_envelopes db)" "map sg_id (sd_signers db') = map sg_id (sd_signers db)"
    using assms ids unfolding aside_def by metis+
  then have "en_id ` set (sd_envelopes db') = en_id ` set (sd_envelopes db)" "sg_id ` set (sd_signers db') = sg_id ` set (sd_signers db)"
    by (metis image_set)+
  with assms show "used_ids db' = used_ids db" by (simp add: used_ids_def aside_def)
qed (use assms in \<open>simp_all add: aside_def\<close>)

lemma sim_resolveExecuted: "resolveExecutedAccess env db raw = (db', r) \<Longrightarrow> sim env db db'"
  unfolding resolveExecutedAccess_def by (rule sim_resolve_grant)

lemma sim_resolveCopy: "resolveCopyAccess env db raw = (db', r) \<Longrightarrow> sim env db db'"
  unfolding resolveCopyAccess_def by (rule sim_resolve_grant)

lemmas sim_operations =
  sim_addDocument sim_exchangeToken sim_acceptDisclosure sim_verifyAccessCode sim_delegateSigner sim_fillField
  sim_completeSigner sim_decline sim_voidEnvelope sim_expireEnvelope sim_expireDue sim_resolveExecuted sim_resolveCopy

lemmas sim_minting_operations =
  sim_create sim_send sim_issueHostedSession sim_issueSelfSignSession sim_remindSigner sim_dispatch
  sim_issueRevalidated sim_issueDiscovered

lemma sim_step:
  assumes inj: "inj (sv_uuid env)" and s: "sign_step env db db'"
  shows "sim env db db'"
  using s
  by (cases rule: sign_step.cases)
    (simp_all only: sim_recruit [OF inj] sim_addField sim_aside sim_idv_call sim_bind sim_revoke_binding sim_issueCopy,
     auto intro: sim_operations sim_minting_operations [OF inj] prod.collapse [symmetric])

section \<open>Reachable states\<close>

lemma empty_db_inv: "db_inv env empty_db"
  by (simp add: db_inv_def view_inv_def ids_ok_def used_ids_def view_def empty_db_def inv_ids_def inv_live_def inv_done_def
      inv_order_def inv_draft_def inv_code_def inv_outbox_def)

lemma sim_run:
  assumes inj: "inj (sv_uuid env)" and "(sign_step env)\<^sup>*\<^sup>* db db'"
  shows "sim env db db'"
  using assms(2) by (induction rule: rtranclp_induct) (auto intro: sim_trans sim_step [OF inj])

lemma run_inv: "inj (sv_uuid env) \<Longrightarrow> (sign_step env)\<^sup>*\<^sup>* empty_db db \<Longrightarrow> db_inv env db"
  using sim_run sim_inv empty_db_inv by blast

lemma run_refines: "inj (sv_uuid env) \<Longrightarrow> db_inv env db \<Longrightarrow> (sign_step env)\<^sup>*\<^sup>* db db' \<Longrightarrow> vstep\<^sup>*\<^sup>* (view db) (view db')"
  using sim_run unfolding sim_def by blast

section \<open>Guarantees on the tables\<close>

lemma mem_view_envs: "e \<in> set (sd_envelopes db) \<Longrightarrow> core_env e \<in> set (vw_envs (view db))"
  by (simp add: view_def)

lemma mem_view_signers: "s \<in> set (sd_signers db) \<Longrightarrow> core_signer s \<in> set (vw_signers (view db))"
  by (simp add: view_def)

lemma inv_live_session:
  assumes "db_inv env db" and "s \<in> set (sd_sessions db)" and "live_session s"
  shows "(\<exists>e\<in>set (sd_envelopes db). en_id e = ss_envelope_id s \<and> en_tenant_id e = ss_tenant_id s \<and> en_status e \<in> {SENT, IN_PROGRESS}) \<and>
    (\<exists>r\<in>set (envelope_signers (sd_signers db) (ss_tenant_id s) (ss_envelope_id s)). sg_id r = ss_signer_id s \<and> isSigningRecipient r)"
proof -
  have "context_of s \<in> set (vw_live (view db))" using assms(2,3) by (simp add: view_def)
  moreover have "inv_live (view db)" using assms(1) by (simp add: db_inv_def view_inv_def)
  ultimately have "(\<exists>e\<in>set (vw_envs (view db)). signable e \<and> of_envelope e (context_of s)) \<and>
      (\<exists>r\<in>set (rows_of (view db) (ss_tenant_id s) (ss_envelope_id s)). isSigningRecipient r \<and> sg_id r = ss_signer_id s)"
    unfolding inv_live_def by (metis context_of_sel(2-4))
  then show ?thesis by (auto simp: view_rows signable_def of_envelope_def)
qed

lemma inv_env_unique:
  assumes "db_inv env db" "e \<in> set (sd_envelopes db)" "e' \<in> set (sd_envelopes db)" "en_id e = en_id e'"
  shows "e = e'"
  using assms db_inv_env_ids by (auto simp: inj_on_def distinct_map)

lemma inv_signer_unique:
  assumes "db_inv env db" "s \<in> set (sd_signers db)" "s' \<in> set (sd_signers db)" "sg_id s = sg_id s'"
  shows "s = s'"
proof -
  have "distinct (map sg_id (sd_signers db))" using assms(1) by (simp add: db_inv_def view_inv_def inv_ids_def o_def view_def)
  then show ?thesis using assms by (auto simp: inj_on_def distinct_map)
qed

lemma inv_completed:
  assumes "db_inv env db" and "e \<in> set (sd_envelopes db)" and "en_status e = COMPLETED"
  shows "allSigningRecipientsSigned (envelope_signers (sd_signers db) (en_tenant_id e) (en_id e))"
proof -
  have "allSigningRecipientsSigned (rows_of (view db) (en_tenant_id e) (en_id e))"
    using assms mem_view_envs [OF assms(2)] by (force simp: db_inv_def view_inv_def inv_done_def)
  then show ?thesis by (simp add: all_signed_iff view_rows)
qed

lemma inv_order_holds:
  assumes "db_inv env db" and "e \<in> set (sd_envelopes db)" and "en_status e \<noteq> DECLINED"
    and "r \<in> set (envelope_signers (sd_signers db) (en_tenant_id e) (en_id e))" and "sg_status r = SIGNED"
  shows "order_holds (view db) (core_env e) (core_signer r)"
proof -
  have "core_signer r \<in> set (rows_of (view db) (en_tenant_id e) (en_id e))" using assms(4) by (simp add: view_rows)
  then show ?thesis
    using assms mem_view_envs [OF assms(2)] unfolding db_inv_def view_inv_def inv_order_def by (metis core_env_sel core_signer_sel(5))
qed

lemma locked_run:
  assumes "vstep\<^sup>*\<^sup>* v w" "view_inv v" "s \<in> set (vw_signers v)" "sg_access_code_locked_at s \<noteq> None"
  shows "\<exists>s'\<in>set (vw_signers w). sg_id s' = sg_id s \<and> sg_access_code_locked_at s' \<noteq> None"
  using assms
proof (induction rule: rtranclp_induct)
  case (step x y)
  then obtain s1 where s1: "s1 \<in> set (vw_signers x)" "sg_id s1 = sg_id s" "sg_access_code_locked_at s1 \<noteq> None" by blast
  have "inv_ids x" using view_inv_run [OF step.hyps(1) step.prems(1)] by (simp add: view_inv_def)
  from locked_step [OF step.hyps(2) this s1(1,3)] s1(2) show ?case by simp
qed blast

lemma locked_refuses:
  assumes "db_inv env db" "s \<in> set (sd_signers db)" "sg_access_code_locked_at s \<noteq> None" "sg_access_code_hash s \<noteq> None"
    and "findSessionByToken env db raw = Inr x" "ss_signer_id x = sg_id s"
  shows "\<exists>err. verifyRecipientAccessCode env db raw entered ip agent = (db, Inl err)"
proof (cases "find_signer db (ss_tenant_id x) (sg_id s)")
  case (Some s')
  then have "s' = s" using inv_signer_unique [OF assms(1) _ assms(2)] find_signer_Some by metis
  with Some assms(3-6) show ?thesis
    by (auto simp: verifyRecipientAccessCode_def access_code_tx_def rbind_def Let_def split: sum.splits)
next
  case None
  with assms(5,6) show ?thesis
    by (auto simp: verifyRecipientAccessCode_def access_code_tx_def rbind_def Let_def split: sum.splits)
qed

lemma env_along_run:
  assumes "inj (sv_uuid env)" "db_inv env db" "(sign_step env)\<^sup>*\<^sup>* db db'" "e \<in> set (sd_envelopes db)"
  shows "\<exists>e'\<in>set (sd_envelopes db'). en_id e' = en_id e \<and> en_tenant_id e' = en_tenant_id e \<and> en_routing_mode e' = en_routing_mode e \<and>
    envelope_table.reach (en_status e) (en_status e')"
  using env_run [OF run_refines [OF assms(1-3)], of "core_env e"] mem_view_envs [OF assms(4)] assms(2)
  by (auto simp: db_inv_def view_def)

definition status_at :: "string \<Rightarrow> sign_db \<Rightarrow> envelope_status option" where
  "status_at eid db = map_option en_status (find (\<lambda>e. en_id e = eid) (sd_envelopes db))"

lemma status_at_iff:
  assumes "db_inv env db"
  shows "status_at eid db = Some st \<longleftrightarrow> (\<exists>e\<in>set (sd_envelopes db). en_id e = eid \<and> en_status e = st)"
proof
  assume "status_at eid db = Some st"
  then show "\<exists>e\<in>set (sd_envelopes db). en_id e = eid \<and> en_status e = st" by (auto simp: status_at_def find_Some_iff)
next
  assume "\<exists>e\<in>set (sd_envelopes db). en_id e = eid \<and> en_status e = st"
  then obtain e where e: "e \<in> set (sd_envelopes db)" "en_id e = eid" "en_status e = st" by blast
  then obtain e1 where f: "find (\<lambda>e. en_id e = eid) (sd_envelopes db) = Some e1"
    by (metis (mono_tags, lifting) find_None_iff not_Some_eq)
  then have "e1 \<in> set (sd_envelopes db)" "en_id e1 = eid" by (auto simp: find_Some_iff)
  then have "e1 = e" using inv_env_unique [OF assms] e by metis
  with f e show "status_at eid db = Some st" by (simp add: status_at_def)
qed

lemma status_step:
  assumes "inj (sv_uuid env)" "db_inv env db" "sign_step env db db'" "status_at eid db = Some st"
  obtains st' where "status_at eid db' = Some st'" "st' = st \<or> moves_left st' < moves_left st"
proof -
  from assms(4) status_at_iff [OF assms(2)] obtain e where e: "e \<in> set (sd_envelopes db)" "en_id e = eid" "en_status e = st" by blast
  from env_along_run [OF assms(1,2) r_into_rtranclp [of "sign_step env", OF assms(3)] e(1)] obtain e' where
    e': "e' \<in> set (sd_envelopes db')" "en_id e' = eid" "envelope_table.reach st (en_status e')" using e by auto
  have "status_at eid db' = Some (en_status e')"
    using status_at_iff [OF sim_inv [OF sim_step [OF assms(1,3)] assms(2)]] e' by blast
  with reach_moves [OF e'(3)] that show thesis by blast
qed

lemma statuses_bounded:
  assumes "inj (sv_uuid env)"
  shows "db_inv env (hd dbs) \<Longrightarrow> successively (sign_step env) dbs \<Longrightarrow> dbs \<noteq> [] \<Longrightarrow> status_at eid (hd dbs) = Some st \<Longrightarrow>
    length (remdups_adj (map (status_at eid) dbs)) \<le> Suc (moves_left st)"
proof (induction dbs arbitrary: st rule: induct_list012)
  case (3 x y zs)
  have xy: "sign_step env x y" and zs: "successively (sign_step env) (y # zs)" using 3(4) by auto
  have inv: "db_inv env x" and "status_at eid x = Some st" using 3(3,6) by simp_all
  from status_step [OF assms inv xy this(2)] obtain st' where st': "status_at eid y = Some st'" "st' = st \<or> moves_left st' < moves_left st" .
  have "length (remdups_adj (map (status_at eid) (y # zs))) \<le> Suc (moves_left st')"
    by (rule 3(2)) (use sim_inv [OF sim_step [OF assms xy] inv] zs st' in auto)
  with st' 3(6) show ?case by auto
qed auto



section \<open>Properties\<close>

text \<open>
  C1. Every run of the signing service, from an empty database, with its operations in any
  order and any interleaving of recipients, sender, workers and vendor, is a run of the abstract
  signing protocol.
\<close>

theorem sign_service_refines_protocol:
  assumes "inj (sv_uuid env)" and "(sign_step env)\<^sup>*\<^sup>* empty_db db"
  shows "vstep\<^sup>*\<^sup>* (view empty_db) (view db)"
  using run_refines [OF assms(1) empty_db_inv assms(2)] .

text \<open>
  C4. A session that still carries signing authority belongs to an envelope that is out for
  signature and to one of its signing recipients; so once an envelope is completed, declined,
  voided or expired no link, hosted, self-sign or inbox session of it is live.
\<close>

theorem live_sessions_only_while_signable:
  assumes "inj (sv_uuid env)" and "(sign_step env)\<^sup>*\<^sup>* empty_db db"
    and "s \<in> set (sd_sessions db)" and "e \<in> set (sd_envelopes db)" and "ss_envelope_id s = en_id e"
    and "ss_status s \<in> set LIVE_SESSION_STATUSES"
  shows "(en_status e = SENT \<or> en_status e = IN_PROGRESS) \<and> en_tenant_id e = ss_tenant_id s \<and>
    (\<exists>r\<in>set (envelope_signers (sd_signers db) (en_tenant_id e) (en_id e)). sg_id r = ss_signer_id s \<and> isSigningRecipient r)"
proof -
  note inv = run_inv [OF assms(1,2)]
  have "live_session s" using assms(6) by (simp add: live_session_def)
  from inv_live_session [OF inv assms(3) this] obtain e1 where e1: "e1 \<in> set (sd_envelopes db)" "en_id e1 = ss_envelope_id s"
      "en_tenant_id e1 = ss_tenant_id s" "en_status e1 \<in> {SENT, IN_PROGRESS}"
    and r: "\<exists>r\<in>set (envelope_signers (sd_signers db) (ss_tenant_id s) (ss_envelope_id s)). sg_id r = ss_signer_id s \<and> isSigningRecipient r"
    by blast
  have "e1 = e" using inv_env_unique [OF inv e1(1) assms(4)] e1(2) assms(5) by simp
  with e1 r assms(5) show ?thesis by auto
qed

text \<open>
  C8. A completed envelope has at least one signing recipient and every signing recipient of it
  has signed.
\<close>

theorem completed_means_all_signed:
  assumes "inj (sv_uuid env)" and "(sign_step env)\<^sup>*\<^sup>* empty_db db"
    and "e \<in> set (sd_envelopes db)" and "en_status e = COMPLETED"
  shows "(\<exists>r\<in>set (envelope_signers (sd_signers db) (en_tenant_id e) (en_id e)). isSigningRecipient r) \<and>
    (\<forall>r\<in>set (envelope_signers (sd_signers db) (en_tenant_id e) (en_id e)). isSigningRecipient r \<longrightarrow> sg_status r = SIGNED)"
  using inv_completed [OF run_inv [OF assms(1,2)] assms(3,4)] by (simp add: all_signed_iff)

text \<open>
  C7. The signing order holds: when a recipient of a sequential envelope has signed, every
  signing recipient before them in the order has signed, and a witness has signed only after
  the recipient they attest; only the record of a refused envelope may differ, where the
  refusing recipient loses the signed mark.
\<close>

theorem signing_order_respected:
  assumes "inj (sv_uuid env)" and "(sign_step env)\<^sup>*\<^sup>* empty_db db"
    and "e \<in> set (sd_envelopes db)" and "en_status e \<noteq> DECLINED"
    and "r \<in> set (envelope_signers (sd_signers db) (en_tenant_id e) (en_id e))" and "sg_status r = SIGNED"
  shows "(en_routing_mode e = SEQUENTIAL \<longrightarrow>
      (\<forall>x\<in>set (envelope_signers (sd_signers db) (en_tenant_id e) (en_id e)).
         isSigningRecipient x \<and> sg_signing_order x < sg_signing_order r \<longrightarrow> sg_status x = SIGNED)) \<and>
    (isWitness r \<longrightarrow>
      (\<exists>p\<in>set (envelope_signers (sd_signers db) (en_tenant_id e) (en_id e)). sg_witness_for_signer_id r = Some (sg_id p) \<and> sg_status p = SIGNED))"
  using inv_order_holds [OF run_inv [OF assms(1,2)] assms(3-6)] by (simp add: order_holds_def view_rows)

text \<open>
  C17. Access codes: at most five wrong codes are counted, the recipient is locked exactly at the
  fifth, and the lock is permanent: in every later state the recipient is still locked, and as
  long as a code is required of them every further code, right or wrong, is refused and
  changes nothing.
\<close>

theorem access_code_lockout:
  assumes "inj (sv_uuid env)" and "(sign_step env)\<^sup>*\<^sup>* empty_db db" and "s \<in> set (sd_signers db)"
  shows "0 \<le> sg_access_code_failed_count s \<and> sg_access_code_failed_count s \<le> 5 \<and>
    (sg_access_code_locked_at s \<noteq> None \<longleftrightarrow> sg_access_code_failed_count s = 5) \<and>
    (sg_access_code_failed_count s = 5 \<and> (sign_step env)\<^sup>*\<^sup>* db db' \<longrightarrow>
      (\<exists>s'\<in>set (sd_signers db'). sg_id s' = sg_id s \<and> sg_access_code_locked_at s' \<noteq> None \<and>
        (\<forall>raw x. sg_access_code_hash s' \<noteq> None \<and> findSessionByToken env db' raw = Inr x \<and> ss_signer_id x = sg_id s \<longrightarrow>
          (\<exists>err. verifyRecipientAccessCode env db' raw entered ip agent = (db', Inl err)))))"
proof -
  note inv = run_inv [OF assms(1,2)]
  have code: "0 \<le> sg_access_code_failed_count s \<and> sg_access_code_failed_count s \<le> 5 \<and>
      (sg_access_code_locked_at s \<noteq> None \<longleftrightarrow> sg_access_code_failed_count s = 5)"
    using inv mem_view_signers [OF assms(3)] unfolding db_inv_def view_inv_def inv_code_def by (metis core_signer_sel(8,9))
  moreover have "\<exists>s'\<in>set (sd_signers db'). sg_id s' = sg_id s \<and> sg_access_code_locked_at s' \<noteq> None \<and>
        (\<forall>raw x. sg_access_code_hash s' \<noteq> None \<and> findSessionByToken env db' raw = Inr x \<and> ss_signer_id x = sg_id s \<longrightarrow>
          (\<exists>err. verifyRecipientAccessCode env db' raw entered ip agent = (db', Inl err)))"
    if "sg_access_code_failed_count s = 5" and run: "(sign_step env)\<^sup>*\<^sup>* db db'"
  proof -
    have "sg_access_code_locked_at (core_signer s) \<noteq> None" using code that(1) by simp
    from locked_run [OF run_refines [OF assms(1) inv run] _ mem_view_signers [OF assms(3)] this] inv
    obtain s' where s': "s' \<in> set (sd_signers db')" "sg_id s' = sg_id s" "sg_access_code_locked_at s' \<noteq> None"
      by (auto simp: db_inv_def view_def)
    have "db_inv env db'" using run_inv [OF assms(1)] assms(2) run by (meson rtranclp_trans)
    with s' show ?thesis using locked_refuses by metis
  qed
  ultimately show ?thesis by blast
qed


text \<open>
  C19. The life of an envelope ends: along any run an envelope changes its status at most three
  times, never more often than the moves its status leaves, so that a completed, declined, voided
  or expired envelope never changes again.
\<close>

theorem lifecycle_terminates:
  assumes "inj (sv_uuid env)" and "(sign_step env)\<^sup>*\<^sup>* empty_db db" and "successively (sign_step env) (db # dbs)"
    and "status_at eid db = Some st"
  shows "length (remdups_adj (map (status_at eid) (db # dbs))) \<le> Suc (moves_left st) \<and> moves_left st \<le> 3 \<and>
    (isTerminalEnvelopeStatus st \<longleftrightarrow> moves_left st = 0)"
proof -
  have "length (remdups_adj (map (status_at eid) (db # dbs))) \<le> Suc (moves_left st)"
    by (rule statuses_bounded [OF assms(1)]) (use assms run_inv [OF assms(1,2)] in auto)
  moreover have "moves_left st \<le> 3 \<and> (isTerminalEnvelopeStatus st \<longleftrightarrow> moves_left st = 0)" by (cases st) simp_all
  ultimately show ?thesis by blast
qed


section \<open>The run\<close>

lemma run_recruits:
  "recruitable run_documented (run_row ''ann@x.io'' 1)"
  "recruitable run_first ((run_row ''bob@x.io'' 2)\<lparr>sg_recipient_kind := IN_PERSON_SIGNER\<rparr>)"
  by code_simp+

lemma reach_sent: "(sign_step demo_env)\<^sup>*\<^sup>* empty_db run_sent"
proof -
  have "(sign_step demo_env)\<^sup>*\<^sup>* empty_db run_created" unfolding run_created_def by (rule r_into_rtranclp, rule sign_step.created)
  also have "(sign_step demo_env)\<^sup>*\<^sup>* run_created run_documented" unfolding run_documented_def by (rule r_into_rtranclp, rule sign_step.documented)
  also have "(sign_step demo_env)\<^sup>*\<^sup>* run_documented run_first"
    unfolding run_first_def by (rule r_into_rtranclp, rule sign_step.recruited, rule run_recruits)
  also have "(sign_step demo_env)\<^sup>*\<^sup>* run_first run_draft"
    unfolding run_draft_def by (rule r_into_rtranclp, rule sign_step.recruited, rule run_recruits)
  also have "(sign_step demo_env)\<^sup>*\<^sup>* run_draft run_sent" unfolding run_sent_def by (rule r_into_rtranclp, rule sign_step.sent)
  finally show ?thesis .
qed

lemma reach_done: "(sign_step demo_env)\<^sup>*\<^sup>* empty_db run_done"
proof -
  note reach_sent
  also have "(sign_step demo_env)\<^sup>*\<^sup>* run_sent run_accepted" unfolding run_accepted_def by (rule r_into_rtranclp, rule sign_step.disclosed)
  also have "(sign_step demo_env)\<^sup>*\<^sup>* run_accepted run_ann_signed" unfolding run_ann_signed_def by (rule r_into_rtranclp, rule sign_step.signed)
  also have "(sign_step demo_env)\<^sup>*\<^sup>* run_ann_signed run_hosted" unfolding run_hosted_def by (rule r_into_rtranclp, rule sign_step.hosted)
  also have "(sign_step demo_env)\<^sup>*\<^sup>* run_hosted run_accepted2" unfolding run_accepted2_def by (rule r_into_rtranclp, rule sign_step.disclosed)
  also have "(sign_step demo_env)\<^sup>*\<^sup>* run_accepted2 run_done" unfolding run_done_def by (rule r_into_rtranclp, rule sign_step.signed)
  finally show ?thesis .
qed

text \<open>The same envelope voided, and the same recipient locked out of it.\<close>

definition run_voided :: sign_db where
  "run_voided = fst (voidEnvelope demo_env run_sent ''T'' ''u'' ''sender'' ''changed'' None)"

lemma run_void_step: "sign_step demo_env run_sent run_voided"
  unfolding run_voided_def by (rule sign_step.voided)

definition run_coded :: sign_db where
  "run_coded = run_sent\<lparr>sd_signers := map (\<lambda>s. s\<lparr>sg_access_code_hash := Some ''x''\<rparr>) (sd_signers run_sent)\<rparr>"

definition run_guess :: "sign_db \<Rightarrow> sign_db" where
  "run_guess db = fst (verifyRecipientAccessCode demo_env db ''t111111111111'' (Some ''wrong'') None None)"

definition run_locked :: sign_db where
  "run_locked = (run_guess ^^ 5) run_coded"

definition coded_rows :: "nat \<Rightarrow> sign_db \<Rightarrow> bool" where
  "coded_rows n db \<longleftrightarrow> sd_envelopes db = [row_env (5 + int n)] \<and> sd_sessions db = [row_link] \<and> sd_tick db = 15 + 4 * n \<and>
     sd_signers db = [row_ann\<lparr>sg_access_code_hash := Some ''x'', sg_access_code_failed_count := int n\<rparr>, row_bob\<lparr>sg_access_code_hash := Some ''x''\<rparr>]"

lemma coded_start: "coded_rows 0 run_coded"
  unfolding coded_rows_def by code_simp

lemma guess_counts:
  assumes "coded_rows n db" "n < 4"
  shows "coded_rows (Suc n) (run_guess db)"
  using assms
  by (simp add: coded_rows_def run_guess_def verifyRecipientAccessCode_def access_code_tx_def verifyAccessCode_def code_event_def MAX_ACCESS_CODE_ATTEMPTS_def sign_eval row_defs cong: sign_weak)

lemma guess_locks:
  assumes "coded_rows 4 db"
  shows "\<exists>t. sd_signers (run_guess db) = [row_ann\<lparr>sg_access_code_hash := Some ''x'', sg_access_code_failed_count := 5, sg_access_code_locked_at := Some t\<rparr>,
      row_bob\<lparr>sg_access_code_hash := Some ''x''\<rparr>]"
    and "\<exists>x. findSessionByToken demo_env (run_guess db) ''t111111111111'' = Inr x \<and> ss_signer_id x = ''u11111'' \<and> ss_status x = REVOKED"
  using assms
  by (simp_all add: coded_rows_def run_guess_def verifyRecipientAccessCode_def access_code_tx_def verifyAccessCode_def code_event_def
      MAX_ACCESS_CODE_ATTEMPTS_def sign_eval row_defs cong: sign_weak)

lemma run_coded4: "coded_rows 4 ((run_guess ^^ 4) run_coded)"
proof -
  have "n \<le> 4 \<Longrightarrow> coded_rows n ((run_guess ^^ n) run_coded)" for n
    by (induction n) (auto simp: coded_start intro: guess_counts)
  then show ?thesis by blast
qed

lemma reach_locked: "(sign_step demo_env)\<^sup>*\<^sup>* empty_db run_locked"
proof -
  have "(sign_step demo_env)\<^sup>*\<^sup>* empty_db ((run_guess ^^ n) run_coded)" for n
  proof (induction n)
    case 0
    have "aside run_sent run_coded" by (simp add: aside_def run_coded_def core_signer_def o_def)
    with reach_sent show ?case by (auto intro: rtranclp.rtrancl_into_rtrancl sign_step.beside)
  next
    case (Suc n)
    then show ?case by (auto intro: rtranclp.rtrancl_into_rtrancl sign_step.coded simp: run_guess_def)
  qed
  then show ?thesis by (simp add: run_locked_def)
qed

lemma run_locked_rows:
  "\<exists>t. sd_signers run_locked = [row_ann\<lparr>sg_access_code_hash := Some ''x'', sg_access_code_failed_count := 5, sg_access_code_locked_at := Some t\<rparr>,
      row_bob\<lparr>sg_access_code_hash := Some ''x''\<rparr>]"
  "\<exists>x. findSessionByToken demo_env run_locked ''t111111111111'' = Inr x \<and> ss_signer_id x = ''u11111'' \<and> ss_status x = REVOKED"
proof -
  have "run_locked = run_guess ((run_guess ^^ 4) run_coded)" by (simp add: run_locked_def numeral_eq_Suc)
  then show "\<exists>t. sd_signers run_locked = [row_ann\<lparr>sg_access_code_hash := Some ''x'', sg_access_code_failed_count := 5, sg_access_code_locked_at := Some t\<rparr>,
      row_bob\<lparr>sg_access_code_hash := Some ''x''\<rparr>]"
    "\<exists>x. findSessionByToken demo_env run_locked ''t111111111111'' = Inr x \<and> ss_signer_id x = ''u11111'' \<and> ss_status x = REVOKED"
    using guess_locks [OF run_coded4] by simp_all
qed

lemma run_voided_rows:
  "status_at ''u'' run_created = Some DRAFT" "row_env 5 \<in> set (sd_envelopes run_sent)" "row_link \<in> set (sd_sessions run_sent)"
  "map (\<lambda>e. (en_tenant_id e, en_id e, en_status e)) (sd_envelopes run_voided) = [(''T'', ''u'', VOIDED)]"
  by code_simp+


lemma reach_created: "(sign_step demo_env)\<^sup>*\<^sup>* empty_db run_created"
  unfolding run_created_def by (rule r_into_rtranclp, rule sign_step.created)


lemma run_steps: "successively (sign_step demo_env) [run_created, run_documented, run_first, run_draft, run_sent, run_voided]"
proof -
  have "sign_step demo_env run_created run_documented" unfolding run_documented_def by (rule sign_step.documented)
  moreover have "sign_step demo_env run_documented run_first" unfolding run_first_def by (rule sign_step.recruited, rule run_recruits)
  moreover have "sign_step demo_env run_first run_draft" unfolding run_draft_def by (rule sign_step.recruited, rule run_recruits)
  moreover have "sign_step demo_env run_draft run_sent" unfolding run_sent_def by (rule sign_step.sent)
  ultimately show ?thesis using run_void_step by simp
qed

section \<open>The properties on the run\<close>

theorem sign_service_refines_protocol_witness: "vstep\<^sup>*\<^sup>* (view empty_db) (view run_done)"
  by (rule sign_service_refines_protocol [OF demo_env_inj reach_done])

theorem live_sessions_only_while_signable_witness:
  "\<exists>r\<in>set (envelope_signers (sd_signers run_sent) ''T'' ''u''). sg_id r = ''u11111'' \<and> isSigningRecipient r"
  using live_sessions_only_while_signable [OF demo_env_inj reach_sent run_voided_rows(3,2)]
  by (simp add: row_env_def row_link_def demo_envelope_def demo_session_def LIVE_SESSION_STATUSES_def)

lemma run_done_row: "(row_env 10)\<lparr>en_status := COMPLETED, en_completed_at := Some 46\<rparr> \<in> set (sd_envelopes run_done)"
  by (simp add: done_rows)

theorem completed_means_all_signed_witness:
  "\<exists>r\<in>set (envelope_signers (sd_signers run_done) ''T'' ''u''). isSigningRecipient r \<and> sg_status r = SIGNED"
  using completed_means_all_signed [OF demo_env_inj reach_done run_done_row]
  by (auto simp: row_env_def demo_envelope_def)

theorem signing_order_respected_witness:
  "\<exists>x\<in>set (envelope_signers (sd_signers run_done) ''T'' ''u''). sg_signing_order x = 1 \<and> sg_status x = SIGNED"
proof -
  have rows: "envelope_signers (sd_signers run_done) ''T'' ''u'' = sd_signers run_done" "map sg_signing_order (sd_signers run_done) = [1, 2]"
     "map isSigningRecipient (sd_signers run_done) = [True, True]"
    using done_rows by simp_all
  then obtain a b where ab: "sd_signers run_done = [a, b]" by (auto simp: map_eq_Cons_conv)
  have "b \<in> set (envelope_signers (sd_signers run_done) ''T'' ''u'')" "sg_status b = SIGNED"
    using rows ab done_rows(2) by auto
  then show ?thesis
    using signing_order_respected [OF demo_env_inj reach_done run_done_row, of b] rows ab
    by (simp add: row_env_def demo_envelope_def)
qed

theorem access_code_lockout_witness:
  "\<exists>err. verifyRecipientAccessCode demo_env run_locked ''t111111111111'' (Some ''right'') None None = (run_locked, Inl err)"
proof -
  have "sg_id (row_ann\<lparr>sg_access_code_hash := h, sg_access_code_failed_count := 5, sg_access_code_locked_at := l\<rparr>) = ''u11111''" for h l
    by (simp add: row_ann_def)
  then obtain s where s: "s \<in> set (sd_signers run_locked)" "sg_id s = ''u11111''" "sg_access_code_failed_count s = 5"
    using run_locked_rows(1) by fastforce
  have hash: "sg_access_code_hash x = Some ''x''" if "x \<in> set (sd_signers run_locked)" for x
    using run_locked_rows(1) that by auto
  from access_code_lockout [OF demo_env_inj reach_locked s(1), of run_locked "Some ''right''" None None, unfolded s(2,3)] obtain s' where "s' \<in> set (sd_signers run_locked)"
    and "\<forall>raw x. sg_access_code_hash s' \<noteq> None \<and> findSessionByToken demo_env run_locked raw = Inr x \<and> ss_signer_id x = ''u11111'' \<longrightarrow>
      (\<exists>err. verifyRecipientAccessCode demo_env run_locked raw (Some ''right'') None None = (run_locked, Inl err))"
    by auto
  with hash run_locked_rows(2) show ?thesis by (metis option.distinct(1))
qed


theorem lifecycle_terminates_witness:
  "length (remdups_adj (map (status_at ''u'') [run_created, run_documented, run_first, run_draft, run_sent, run_voided])) \<le> 4"
  using lifecycle_terminates [OF demo_env_inj reach_created run_steps run_voided_rows(1)] by simp


section \<open>Writing after signing\<close>




end
