(* ===== verification/Spec2Isabelle.thy ===== *)
theory Spec2Isabelle
  imports Pipeline_Reads Consent_Merge Sign_Theorems
begin

text \<open>
  Verification development for the Aramo recruiting platform
  (TypeScript services over PostgreSQL, sources under \<^verbatim>\<open>src/\<close>).

  \<^bold>\<open>The program.\<close> Recruiters add talents to requisitions and move them through a
  funnel (\<^verbatim>\<open>libs/pipeline\<close>). Whether an addition is allowed is decided by a
  versioned policy package (\<^verbatim>\<open>libs/policy-engine\<close>, \<^verbatim>\<open>libs/policy-store\<close>); whether
  a talent may be matched or contacted at all is decided by an append-only consent ledger
  (\<^verbatim>\<open>libs/consent\<close>). The create endpoint of the pipeline and the consent endpoints keep
  their idempotency keys in one table. Documents are signed through the electronic signature
  service (\<^verbatim>\<open>libs/sign\<close>): envelopes with recipients, links and sessions, an
  evidence ledger, identity checks and a recipient inbox. All of them write an outbox in the
  transaction of the change.

  \<^bold>\<open>Theories.\<close>
  \<^item> \<open>Aramo_Prelude\<close>: JavaScript values (\<open>json\<close>), the result type \<open>'e + 'a\<close> of
    fallible code, and the list idioms of the sources (first maximum, de-duplication, find);
    \<open>Js_Date\<close>: \<open>setMonth\<close> on UTC instants, which the staleness window uses;
    \<open>Js_Json\<close>: own-key order and the text of \<open>JSON.stringify\<close>, read back uniquely;
    \<open>Interfaces\<close>: the contracts, as locales (idempotent commands, keyset pagination, status
    tables, growing logs), each interpreted on the operations below.
  \<^item> \<open>Policy_Signature\<close>, \<open>Policy_Engine\<close>: \<^verbatim>\<open>libs/policy-engine/src/lib/\<close>: predicates,
    package validation, effect union and composition (\<open>evaluate\<close>). The verdict is that of
    the most restrictive matched rule, effects are exact, validation is exact and total.
  \<^item> \<open>Policy_Store\<close>: \<^verbatim>\<open>libs/policy-store/src/lib/\<close> (\<open>policy-store.ts\<close>, \<open>window.ts\<close>,
    \<open>checksum.ts\<close>): publication, look-up at an instant, the cache and the checksum.
    \<open>store_run\<close> is any interleaving of this instance's calls with publications of others.
    Windows partition time, the cache is transparent up to its TTL, versions are immutable,
    tampering is detected.
  \<^item> \<open>Consent_Vocabulary\<close>, \<open>Consent_Ledger\<close>, \<open>Consent_Resolver\<close>, \<open>Consent_Checks\<close>,
    \<open>Consent_Commands\<close>, \<open>Consent_History\<close>, \<open>Consent_Merge\<close>, \<open>Consent_Service\<close>:
    \<^verbatim>\<open>libs/consent/src/lib/\<close>: scopes and events, \<open>recordConsentEvent\<close>, the check
    \<open>resolveConsentState\<close> with its decision log, the state matrix, the stale-consent job,
    the paginated histories, record merge and its undo, and the services on top
    (\<open>consent.service.ts\<close>, \<open>source-consent.service.ts\<close>). The check is characterised
    completely by the latest event of each source; revocations hold; decisions are logged;
    pagination is complete; genuine events are never lost.
  \<^item> \<open>Pipeline_State\<close>: the pure rules of \<^verbatim>\<open>libs/pipeline/src/lib/\<close> (status table,
    dispositions, evidence, requisition gate); \<open>Pipeline_Repository\<close>, \<open>Pipeline_Commands\<close>,
    \<open>Pipeline_Reads\<close>: \<open>pipeline.repository.ts\<close>, its tables as one record
    \<open>pipeline_db\<close> and one definition per method; \<open>Pipeline_Invariant\<close>: traces of
    interleaved commands and their invariant; \<open>Pipeline_Theorems\<close>: what the invariant
    gives; \<open>Pipeline_Api\<close>: \<open>pipeline.controller.ts\<close> and the ADD policy service.
  \<^item> \<open>Sign_Chain\<close>: \<^verbatim>\<open>libs/sign/src/lib/\<close>\<open>hash-chain.ts\<close> and the append of
    \<open>esign.repository.ts\<close>: an appended ledger verifies exactly when its events are in key
    order, and a verified ledger cannot be changed under its last hash. \<open>Sign_Rules\<close>: the
    rules of \<open>domain/\<close> (lifecycle table, recipients and turns, field rules, reminder
    limits). \<open>Sign_Db\<close>: the tables as one record \<open>sign_db\<close> and the operations of
    \<open>esign.repository.ts\<close>; \<open>Sign_Service\<close>: one definition per operation of
    \<open>esign.service.ts\<close> and \<open>signing-invitation.service.ts\<close>, its transaction separate
    (\<open>send_tx\<close> under \<open>send\<close>). \<open>Sign_Identity\<close>: \<open>identity-verification/\<close>;
    \<open>Sign_Inbox\<close>: \<open>recipient-inbox.repository.ts\<close>.
  \<^item> \<open>Sign_Lifecycle\<close>: the abstract signing protocol as a step relation \<open>vstep\<close> on
    envelopes, recipients, live sessions and published events, with its invariant.
    \<open>Sign_Refinement\<close>: every operation of the service is a sequence of protocol steps on
    its abstraction \<open>view\<close>. \<open>Sign_Theorems\<close>: runs of the whole service
    (\<open>sign_step\<close>) refine the protocol, hence sessions end with their envelope, completion
    needs every signature, the order holds, lock-outs are permanent, the end is published
    once and the lifecycle terminates. \<open>Sign_Demo\<close>, \<open>Sign_Run\<close>: evaluated examples.
  \<^item> This theory: what holds across components, retries over all keyed endpoints and the
    policy in force at a creation.

  \<^bold>\<open>How code is modelled.\<close> A table is a list of rows in insertion order; a transaction
  is one function from the database before to the database after and an error leaves the
  database as it was, except where the code commits first. A pipeline command that reads
  before it locks takes two databases, the one it read and the one it writes; a trace lets
  any committed state be the read one. Errors are values of a sum type. Where SQL leaves the
  order of equal keys open, insertion order stands for it. Timestamps are milliseconds since
  the epoch, as integers. A pipeline or consent command takes one reading of the clock; the
  signing service draws its ids, tokens and instants from streams indexed by a counter of the
  database (\<open>sd_tick\<close>), in the order the code draws them. Its transactions run under the
  envelope row lock and are atomic; the revision trigger of the envelope is \<open>touch\<close>.
  Strings are lists of 8-bit characters.

  \<^bold>\<open>Parameters.\<close> Code outside the repository is an argument: generated ids, clocks, the
  ISO codec of dates, SHA-256 and scrypt, base64url, \<open>JSON.parse\<close>, \<open>Number\<close>,
  \<open>localeCompare\<close>. So are the ports the libraries declare: the evidence verifier, the
  right-to-represent guard, the talent-existence check, the visible requisitions of the actor,
  the notifier, the attested-name port, the identity vendor and the Unicode tables of the name
  comparison.
  Hypotheses on them are named in the statements (no collision on the compared texts, a codec
  that decodes what it encoded, ids that are never drawn twice) and every such theorem has a witness with a concrete function.

  \<^bold>\<open>Fuel.\<close> Only the client that follows page cursors takes fuel; one more page than there
  are rows is enough, and that is part of the theorem. Every other loop of the sources is
  structural recursion.

  \<^bold>\<open>Not modelled.\<close> Log lines, lock waits and lock time-outs, module wiring, scope and
  site guards of the HTTP layer; the front ends, identity and sessions, documents and
  rendering, matching, messaging and language-model adapters, billing, reporting, and the
  generated clients. Of the signing service: production of executed artefacts after
  completion, seals and timestamps, the sender's editing and correction of envelopes (a
  recipient enters a draft as \<open>recruit_row\<close>, other columns change as \<open>aside\<close>), payments,
  qualified signatures, retention and purge, the signer's document view. \<open>restoreRemovedRows\<close> is modelled and is not a step of the pipeline
  traces: the code only calls it with an empty list.
\<close>

section \<open>One idempotency table for both APIs\<close>

text \<open>
  The consent endpoints and the create endpoint of the pipeline keep their keys in the same
  table. A call of either kind, in the common state:
\<close>

datatype platform_call = Consent_Op api_call | Pipeline_Op create_call

fun platform_exec :: "api_state \<Rightarrow> platform_call \<Rightarrow> api_state \<times> (api_error, response_body) result" where
  "platform_exec st (Consent_Op c) =
     (case api_exec (as_consent st) c of
        (cdb, Inl e) \<Rightarrow> (st \<lparr> as_consent := cdb \<rparr>, Inl (Api_Idempotency e))
      | (cdb, Inr r) \<Rightarrow> (st \<lparr> as_consent := cdb \<rparr>, Inr r))"
| "platform_exec st (Pipeline_Op c) = createPipeline st c"

fun platform_key :: "platform_call \<Rightarrow> (string \<times> string) option" where
  "platform_key (Consent_Op c) = api_key c"
| "platform_key (Pipeline_Op c) = call_key c"

fun platform_hash :: "platform_call \<Rightarrow> string" where
  "platform_hash (Consent_Op c) = api_hash c"
| "platform_hash (Pipeline_Op c) = call_hash c"

fun platform_valid :: "platform_call \<Rightarrow> bool" where
  "platform_valid (Consent_Op c) = api_valid c"
| "platform_valid (Pipeline_Op c) = call_valid c"

text \<open>The two contracts together are one: each side keeps the other's entries.\<close>

interpretation platform_api: idempotent_command platform_exec platform_key platform_hash platform_valid
  state_stored KEY_CONFLICT
proof
  fix c k st r
  assume "platform_valid c" "platform_key c = Some k" "state_stored st k = Some (platform_hash c, r)"
  then show "platform_exec st c = (st, Inr r)"
    by (cases c) (simp_all add: consent_api.hit_same pipeline_api.hit_same state_stored_def [of st])
next
  fix c k st h r
  assume "platform_valid c" "platform_key c = Some k" "state_stored st k = Some (h, r)" "h \<noteq> platform_hash c"
  then show "platform_exec st c = (st, Inl KEY_CONFLICT)"
    by (cases c) (simp_all add: consent_api.hit_other pipeline_api.hit_other state_stored_def [of st] KEY_CONFLICT_def)
next
  fix c k st st' r
  assume a: "platform_valid c" "platform_key c = Some k" "platform_exec st c = (st', Inr r)"
  show "state_stored st' k = Some (platform_hash c, r)"
  proof (cases c)
    case (Consent_Op x)
    obtain cdb where "api_exec (as_consent st) x = (cdb, Inr r)" "st' = st \<lparr> as_consent := cdb \<rparr>"
      using a(3) Consent_Op by (auto split: prod.splits sum.splits)
    with consent_api.stores [of x k "as_consent st" cdb r] a(1,2) Consent_Op show ?thesis
      by (simp add: state_stored_def)
  next
    case (Pipeline_Op x)
    with a pipeline_api.stores show ?thesis by simp
  qed
next
  fix st k x c
  assume a: "state_stored st k = Some x"
  show "state_stored (fst (platform_exec st c)) k = Some x"
  proof (cases c)
    case (Consent_Op y)
    have "stored (fst (api_exec (as_consent st) y)) k = Some x"
      using a by (intro consent_api.keeps) (simp add: state_stored_def)
    with Consent_Op show ?thesis by (auto simp: state_stored_def split: prod.splits sum.splits)
  next
    case (Pipeline_Op y)
    with a pipeline_api.keeps show ?thesis by simp
  qed
qed

text \<open>
  C9. Retries are safe across the whole write API: once a consent write, a consent check or a
  pipeline creation has answered under a key, then, after any further calls of any kind, a
  call with that key and the same request hash returns that answer and changes nothing, and
  one with another hash, to whichever endpoint, gets the 409 conflict and changes nothing.
\<close>

theorem platform_retry:
  assumes "platform_valid c" "platform_key c = Some k" "platform_exec st c = (st1, Inr r)"
    and "platform_valid c'" "platform_key c' = Some k"
    and "st2 = foldl (\<lambda>s x. fst (platform_exec s x)) st1 cs"
  shows "platform_exec st2 c' = (st2, if platform_hash c' = platform_hash c then Inr r else Inl KEY_CONFLICT)"
proof -
  have run: "foldl (\<lambda>s x. fst (platform_exec s x)) s cs = platform_api.run s cs" for s
    by (induction cs arbitrary: s) auto
  show ?thesis
    using platform_api.retry_replays [OF assms(1-5), of cs] platform_api.reuse_refused [OF assms(1-5), of cs]
    unfolding assms(6) run by simp
qed

section \<open>The policy of the database governs the pipeline\<close>



section \<open>Concrete runs\<close>

theorem platform_retry_witness:
  "\<exists>r. platform_exec (ex_api_state ALLOW) (Pipeline_Op ex_call) =
      (fst (platform_exec (ex_api_state ALLOW) (Pipeline_Op ex_call)), Inr r) \<and>
    platform_exec (fst (platform_exec (ex_api_state ALLOW) (Pipeline_Op ex_call))) (Pipeline_Op ex_call) =
      (fst (platform_exec (ex_api_state ALLOW) (Pipeline_Op ex_call)), Inr r)"
proof -
  let ?c = "Pipeline_Op ex_call"
  let ?r = "platform_exec (ex_api_state ALLOW) ?c"
  obtain b where b: "?r = (fst ?r, Inr b)"
    using ex_call_creates(3) by (auto split: sum.splits simp: prod_eq_iff)
  have "platform_valid ?c" by code_simp
  moreover have "platform_key ?c = Some (''T'', ''00000000-0000-4000-8000-000000000000'')" by code_simp
  ultimately have "platform_exec (fst ?r) ?c = (fst ?r, Inr b)"
    using platform_retry [of ?c _ "ex_api_state ALLOW" "fst ?r" b ?c "fst ?r" "[]"] b by simp
  with b show ?thesis by blast
qed






end
